(* ===== verification/Pipeline_Prelude.thy ===== *)
theory Pipeline_Prelude
  imports Main "HOL-Library.List_Lexorder" "HOL-Library.Product_Lexorder" "HOL-Library.Char_ord"
begin

text \<open>
  Shared vocabulary of the data-pipeline development: identifiers, timestamps, the JSON
  values of event payloads, the exceptions the Python code raises, the result type, the
  query helpers of SQLAlchemy the code uses (\<open>scalar_one_or_none\<close>, \<open>scalar_one\<close>,
  row updates), the string operations of Python it uses, and the generic lemmas about them.

  Conventions. A \<open>uuid.UUID\<close> is a natural number (only equality and the total order of
  UUIDs are used; \<open>str\<close> of a UUID is the constructor \<open>UuidTxt\<close>, since it is
  injective). A \<open>datetime\<close> is an \<open>int\<close>, microseconds since the epoch. A Python string
  is a list of code points below 256. A table is the list of its rows.
\<close>

section \<open>Identifiers, timestamps, texts and JSON\<close>

type_synonym uuid = nat
type_synonym time = int

text \<open>A finite \<open>float\<close>, counted in units of the least positive double: every finite double is an integer
  multiple of it, and the order of the numbers is the order of the integers.\<close>

type_synonym py_float = int

text \<open>\<open>timedelta(seconds=n)\<close>.\<close>

definition seconds :: "int \<Rightarrow> time" where
  "seconds n = n * 1000000"

text \<open>Python strings that the code builds from UUIDs are kept symbolic: \<open>UuidTxt u\<close> is
  \<open>str(u)\<close> and \<open>TaskTxt u t\<close> is \<open>f"{u}:{t}"\<close>.\<close>

datatype py_text = Txt string | UuidTxt uuid | TaskTxt uuid string | KeyTxt string string uuid int

text \<open>JSON values. A \<open>float\<close> is its \<open>repr\<close>; the code only looks at its type and its truth value.\<close>

datatype json = JNull | JBool bool | JInt int | JFloat string | JStr py_text | JTime time
  | JList "json list" | JObj "(string \<times> json) list"

text \<open>\<open>d.get(key)\<close> on a JSON value: \<open>None\<close> (JSON null) when the key is absent.\<close>

fun jget :: "json \<Rightarrow> string \<Rightarrow> json" where
  "jget (JObj kvs) k = (case map_of kvs k of None \<Rightarrow> JNull | Some v \<Rightarrow> v)"
| "jget _ _ = JNull"

definition jopt :: "('a \<Rightarrow> json) \<Rightarrow> 'a option \<Rightarrow> json" where
  "jopt f v = (case v of None \<Rightarrow> JNull | Some x \<Rightarrow> f x)"

section \<open>Exceptions and results\<close>

datatype py_error =
    ValueError string
  | RuntimeError string
  | TypeError
  | KeyError
  | NoResultFound
  | MultipleResultsFound
  | IntegrityError
  | GraphMutationValidationError string
  | GraphIntegrityError string
  | MergeNotReversibleError string
  | EvidenceValidationError string
  | CurrentRevisionEmbeddingError string
  | GraphSnapshotTooLargeError string
  | CommandPayloadConflictError
  | RecordingPayloadConflictError
  | AnalysisCommandValidationError string
  | NodeStateError string
  | DependentAnalysisBlockedError
  | ApplyError string
  | TransportError string
  | OverflowError string
  | JSONDecodeError
  | OpenViduEventValidationError string
  | NodeVersionConflict uuid int int
  | NodeHasChildrenError string
  | GenerationRunStateError string
  | AssertionError
  | StopIteration

type_synonym 'a result = "py_error + 'a"

text \<open>Sequencing: an exception skips the rest of the block.\<close>

fun rbind :: "'a result \<Rightarrow> ('a \<Rightarrow> 'b result) \<Rightarrow> 'b result" where
  "rbind (Inl e) f = Inl e"
| "rbind (Inr x) f = f x"

definition rguard :: "bool \<Rightarrow> py_error \<Rightarrow> 'a result \<Rightarrow> 'a result" where
  "rguard bad e k = (if bad then Inl e else k)"

section \<open>Queries and row updates\<close>

text \<open>\<open>session.execute(...).scalar_one_or_none()\<close> and \<open>scalar_one()\<close> of SQLAlchemy on the
  list of the selected rows.\<close>

fun one_or_none :: "'a list \<Rightarrow> 'a option result" where
  "one_or_none [] = Inr None"
| "one_or_none [x] = Inr (Some x)"
| "one_or_none (x # y # zs) = Inl MultipleResultsFound"

fun exactly_one :: "'a list \<Rightarrow> 'a result" where
  "exactly_one [] = Inl NoResultFound"
| "exactly_one [x] = Inr x"
| "exactly_one (x # y # zs) = Inl MultipleResultsFound"

text \<open>Attribute assignments on the rows that satisfy a condition.\<close>

definition update_where :: "('r \<Rightarrow> bool) \<Rightarrow> ('r \<Rightarrow> 'r) \<Rightarrow> 'r list \<Rightarrow> 'r list" where
  "update_where p f rows = map (\<lambda>r. if p r then f r else r) rows"

text \<open>Python truthiness of an optional string.\<close>

definition truthy :: "string option \<Rightarrow> bool" where
  "truthy v = (case v of None \<Rightarrow> False | Some s \<Rightarrow> s \<noteq> [])"

section \<open>Strings\<close>

definition is_space :: "char \<Rightarrow> bool" where
  "is_space c \<longleftrightarrow> (of_char c :: nat) \<in> {9, 10, 11, 12, 13, 28, 29, 30, 31, 32, 133, 160}"

text \<open>\<open>str.strip()\<close>.\<close>

definition strip :: "string \<Rightarrow> string" where
  "strip s = rev (dropWhile is_space (rev (dropWhile is_space s)))"

definition is_digit :: "char \<Rightarrow> bool" where
  "is_digit c \<longleftrightarrow> 48 \<le> (of_char c :: nat) \<and> (of_char c :: nat) \<le> 57"

definition digit_val :: "char \<Rightarrow> int" where
  "digit_val c = int (of_char c) - 48"

text \<open>\<open>int(s)\<close> on a string of ASCII decimal digits.\<close>

definition parse_digits :: "string \<Rightarrow> int" where
  "parse_digits s = foldl (\<lambda>acc c. acc * 10 + digit_val c) 0 s"

section \<open>Shared lemmas\<close>

named_theorems table_simps
named_theorems result_simps

lemma rbind_Inr_iff [result_simps]: "rbind m f = Inr y \<longleftrightarrow> (\<exists>x. m = Inr x \<and> f x = Inr y)"
  by (cases m) auto

lemma rbind_Inl_iff [result_simps]: "rbind m f = Inl e \<longleftrightarrow> m = Inl e \<or> (\<exists>x. m = Inr x \<and> f x = Inl e)"
  by (cases m) auto

lemma rguard_Inr_iff [result_simps]: "rguard b e k = Inr y \<longleftrightarrow> \<not> b \<and> k = Inr y"
  by (simp add: rguard_def)

lemma rguard_False [simp]: "rguard False e k = k"
  by (simp add: rguard_def)

lemma rguard_True [simp]: "rguard True e k = Inl e"
  by (simp add: rguard_def)

lemma one_or_none_None_iff [result_simps]: "one_or_none xs = Inr None \<longleftrightarrow> xs = []"
  by (cases xs rule: one_or_none.cases) auto

lemma one_or_none_Some_iff [result_simps]: "one_or_none xs = Inr (Some x) \<longleftrightarrow> xs = [x]"
  by (cases xs rule: one_or_none.cases) auto

lemma exactly_one_iff [result_simps]: "exactly_one xs = Inr x \<longleftrightarrow> xs = [x]"
  by (cases xs rule: exactly_one.cases) auto

text \<open>A key selects at most one row of a table whose keys are distinct.\<close>

lemma filter_key_distinct:
  "distinct (map k rows) \<Longrightarrow> r \<in> set rows \<Longrightarrow> filter (\<lambda>x. k x = k r) rows = [r]"
  by (induction rows) (auto simp: filter_empty_conv image_iff)

lemma filter_key_singleton:
  "distinct (map k rows) \<Longrightarrow>
   filter (\<lambda>x. k x = v \<and> P x) rows = (case find (\<lambda>x. k x = v) rows of
      None \<Rightarrow> [] | Some r \<Rightarrow> if P r then [r] else [])"
proof (induction rows)
  case Nil
  then show ?case by simp
next
  case (Cons a rows)
  show ?case
  proof (cases "k a = v")
    case True
    with Cons.prems have "filter (\<lambda>x. k x = v \<and> P x) rows = []"
      by (auto simp: filter_empty_conv) (metis imageI)
    with True show ?thesis by simp
  next
    case False
    with Cons show ?thesis by simp
  qed
qed

lemma length_update_where [simp]: "length (update_where p f rows) = length rows"
  by (simp add: update_where_def)

lemma update_where_Nil [simp]: "update_where p f [] = []"
  by (simp add: update_where_def)

lemma update_where_Cons [simp]:
  "update_where p f (r # rows) = (if p r then f r else r) # update_where p f rows"
  by (simp add: update_where_def)

lemma update_where_id: "(\<And>r. r \<in> set rows \<Longrightarrow> \<not> p r) \<Longrightarrow> update_where p f rows = rows"
  by (induction rows) auto

lemma map_key_update_where [table_simps]:
  "(\<And>r. k (f r) = k r) \<Longrightarrow> map k (update_where p f rows) = map k rows"
  by (induction rows) auto

lemma set_update_where:
  "set (update_where p f rows) = f ` {r \<in> set rows. p r} \<union> {r \<in> set rows. \<not> p r}"
  by (induction rows) auto

lemma in_update_whereE:
  assumes "r \<in> set (update_where p f rows)"
  obtains q where "q \<in> set rows" "p q" "r = f q" | "r \<in> set rows" "\<not> p r"
  using assms by (auto simp: set_update_where)

lemma find_update_where_key:
  "(\<And>r. k (f r) = k r) \<Longrightarrow>
   find (\<lambda>r. k r = v) (update_where p f rows) =
     map_option (\<lambda>r. if p r then f r else r) (find (\<lambda>r. k r = v) rows)"
  by (induction rows) auto

lemma find_key_Some_iff:
  "distinct (map k rows) \<Longrightarrow> find (\<lambda>r. k r = v) rows = Some r \<longleftrightarrow> r \<in> set rows \<and> k r = v"
  by (induction rows) (auto simp: image_iff)

lemma find_key_None_iff: "find (\<lambda>r. k r = v) rows = None \<longleftrightarrow> v \<notin> k ` set rows"
  by (auto simp: find_None_iff)

lemma find_SomeD: "find P xs = Some x \<Longrightarrow> x \<in> set xs \<and> P x"
  by (auto simp: find_Some_iff)

lemma distinct_key_inj: "distinct (map k rows) \<Longrightarrow> r \<in> set rows \<Longrightarrow> s \<in> set rows \<Longrightarrow> k r = k s \<Longrightarrow> r = s"
  by (metis find_key_Some_iff option.inject)

lemma one_or_none_filter_key [table_simps]:
  "distinct (map k rows) \<Longrightarrow>
   one_or_none (filter (\<lambda>r. k r = v) rows) = Inr (find (\<lambda>r. k r = v) rows)"
  using filter_key_singleton [of k rows v "\<lambda>_. True"]
  by (simp split: option.splits)

lemma find_append: "find P (xs @ ys) = (case find P xs of None \<Rightarrow> find P ys | Some x \<Rightarrow> Some x)"
  by (induction xs) auto

lemma find_filter_neq:
  "find (\<lambda>r. k r = v) (filter (\<lambda>r. k r \<noteq> w) rows) =
     (if v = w then None else find (\<lambda>r. k r = v) rows)"
  by (induction rows) (auto simp: find_None_iff)

text \<open>Storing a row under its own key.\<close>

lemma find_put_key:
  "find (\<lambda>r. k r = v) (update_where (\<lambda>r. k r = k s) (\<lambda>_. s) rows) =
     (if v = k s then map_option (\<lambda>_. s) (find (\<lambda>r. k r = v) rows) else find (\<lambda>r. k r = v) rows)"
  by (induction rows) auto

lemma map_key_put_key: "map k (update_where (\<lambda>r. k r = k s) (\<lambda>_. s) rows) = map k rows"
  by (induction rows) auto

lemma in_put_key: "r \<in> set (update_where p (\<lambda>_. s) rows) \<Longrightarrow> r = s \<or> r \<in> set rows"
  by (auto simp: set_update_where)

lemma find_key_append:
  "k s \<notin> k ` set rows \<Longrightarrow>
   find (\<lambda>r. k r = v) (rows @ [s]) = (if v = k s then Some s else find (\<lambda>r. k r = v) rows)"
  by (induction rows) auto

end
