(* ===== verification/Contract_Enums.thy ===== *)
theory Contract_Enums
  imports Pipeline_Prelude
begin

text \<open>
  \<open>contracts/enums.py\<close>: the enumerations of the v2.2 contract, the transition tables of
  the analysis status and of the analysis run status, the judgments allowed per node type
  and the parent rule. The Python enumerations are \<open>str\<close> enumerations, and the
  functions of the module take arbitrary strings; they are modelled on strings, and the
  columns of the tables that a CHECK constraint restricts to the enumeration use the
  datatypes.
\<close>

section \<open>Definitions\<close>

datatype node_type = DECISION | ACTION | ISSUE

text \<open>\<open>GraphState\<close>, with the state DELETED that the table \<open>node\<close> admits as well.\<close>

datatype graph_state = ACTIVE | UNATTACHED | EXCLUDED | MERGED | ARCHIVED | DELETED

datatype analysis_status = AS_PENDING | AS_ANALYZING | AS_ANALYZED | AS_STALE | AS_FAILED

datatype analysis_run_status = RUN_PENDING | RUN_RUNNING | RUN_COMPLETED | RUN_FAILED | RUN_SUPERSEDED

datatype recommendation_type = CREATE_NEW | LINK | MERGE

fun recommendation_value :: "recommendation_type \<Rightarrow> string" where
  "recommendation_value CREATE_NEW = ''CREATE_NEW''"
| "recommendation_value LINK = ''LINK''"
| "recommendation_value MERGE = ''MERGE''"

fun node_type_value :: "node_type \<Rightarrow> string" where
  "node_type_value DECISION = ''DECISION''"
| "node_type_value ACTION = ''ACTION''"
| "node_type_value ISSUE = ''ISSUE''"

fun graph_state_value :: "graph_state \<Rightarrow> string" where
  "graph_state_value ACTIVE = ''ACTIVE''"
| "graph_state_value UNATTACHED = ''UNATTACHED''"
| "graph_state_value EXCLUDED = ''EXCLUDED''"
| "graph_state_value MERGED = ''MERGED''"
| "graph_state_value ARCHIVED = ''ARCHIVED''"
| "graph_state_value DELETED = ''DELETED''"

fun analysis_status_value :: "analysis_status \<Rightarrow> string" where
  "analysis_status_value AS_PENDING = ''PENDING''"
| "analysis_status_value AS_ANALYZING = ''ANALYZING''"
| "analysis_status_value AS_ANALYZED = ''ANALYZED''"
| "analysis_status_value AS_STALE = ''STALE''"
| "analysis_status_value AS_FAILED = ''FAILED''"

fun run_status_value :: "analysis_run_status \<Rightarrow> string" where
  "run_status_value RUN_PENDING = ''PENDING''"
| "run_status_value RUN_RUNNING = ''RUNNING''"
| "run_status_value RUN_COMPLETED = ''COMPLETED''"
| "run_status_value RUN_FAILED = ''FAILED''"
| "run_status_value RUN_SUPERSEDED = ''SUPERSEDED''"

definition ANALYSIS_STATUS_TRANSITIONS :: "(string \<times> string list) list" where
  "ANALYSIS_STATUS_TRANSITIONS =
     [(''PENDING'', [''ANALYZING'', ''FAILED'', ''STALE'']),
      (''ANALYZING'', [''ANALYZED'', ''FAILED'', ''STALE'']),
      (''ANALYZED'', [''STALE'']),
      (''STALE'', [''PENDING'']),
      (''FAILED'', [''PENDING'', ''STALE''])]"

definition ANALYSIS_RUN_STATUS_TRANSITIONS :: "(string \<times> string list) list" where
  "ANALYSIS_RUN_STATUS_TRANSITIONS =
     [(''PENDING'', [''RUNNING'', ''FAILED'', ''SUPERSEDED'']),
      (''RUNNING'', [''COMPLETED'', ''FAILED'', ''SUPERSEDED'']),
      (''COMPLETED'', [''SUPERSEDED'']),
      (''FAILED'', []),
      (''SUPERSEDED'', [])]"

text \<open>\<open>table.get(key, frozenset())\<close>.\<close>

definition table_get :: "(string \<times> string list) list \<Rightarrow> string \<Rightarrow> string list" where
  "table_get t k = (case map_of t k of None \<Rightarrow> [] | Some vs \<Rightarrow> vs)"

definition analysis_status_transition_allowed :: "string \<Rightarrow> string \<Rightarrow> bool" where
  "analysis_status_transition_allowed from_status to_status =
     (if from_status = to_status
      then from_status \<in> set (map analysis_status_value
             [AS_PENDING, AS_ANALYZING, AS_ANALYZED, AS_STALE, AS_FAILED])
      else to_status \<in> set (table_get ANALYSIS_STATUS_TRANSITIONS from_status))"

definition analysis_run_status_transition_allowed :: "string \<Rightarrow> string \<Rightarrow> bool" where
  "analysis_run_status_transition_allowed from_status to_status =
     (if from_status = to_status
      then from_status \<in> set (map run_status_value
             [RUN_PENDING, RUN_RUNNING, RUN_COMPLETED, RUN_FAILED, RUN_SUPERSEDED])
      else to_status \<in> set (table_get ANALYSIS_RUN_STATUS_TRANSITIONS from_status))"

definition ALLOWED_RESULTS_BY_TYPE :: "(string \<times> string list) list" where
  "ALLOWED_RESULTS_BY_TYPE =
     [(''DECISION'', [''NEW_DECISION'', ''UNATTACHED'', ''MINUTES_ONLY'']),
      (''ACTION'', [''ATTACH'', ''UPDATE_ACTION'', ''UNATTACHED'', ''MINUTES_ONLY'']),
      (''ISSUE'', [''ATTACH'', ''UNATTACHED'', ''MINUTES_ONLY''])]"

definition result_allowed_for_type :: "string \<Rightarrow> string \<Rightarrow> bool" where
  "result_allowed_for_type result node_type =
     (result \<in> set (table_get ALLOWED_RESULTS_BY_TYPE node_type))"

text \<open>The parent types an ACTIVE node admits; \<open>Some None\<close> is the entry \<open>None\<close> (a root),
  \<open>None\<close> an absent key.\<close>

definition ACTIVE_PARENT_RULES :: "string \<Rightarrow> string list option option" where
  "ACTIVE_PARENT_RULES t =
     (if t = ''DECISION'' then Some None
      else if t = ''ACTION'' then Some (Some [''DECISION''])
      else if t = ''ISSUE'' then Some (Some [''DECISION'', ''ACTION''])
      else None)"

definition is_allowed_parent_type :: "string \<Rightarrow> string option \<Rightarrow> bool" where
  "is_allowed_parent_type child_type parent_type =
     (let allowed = (case ACTIVE_PARENT_RULES child_type of None \<Rightarrow> Some [] | Some a \<Rightarrow> a) in
      case allowed of
        None \<Rightarrow> parent_type = None
      | Some ts \<Rightarrow> (case parent_type of None \<Rightarrow> False | Some p \<Rightarrow> p \<in> set ts))"

definition allowed_parent_types :: "string \<Rightarrow> string list" where
  "allowed_parent_types child_type =
     (case ACTIVE_PARENT_RULES child_type of Some (Some ts) \<Rightarrow> ts | _ \<Rightarrow> [])"

datatype parent_violation =
    UnattachedHasParent
  | MustBeRoot string
  | RequiresParent string
  | ParentMustBeOneOf string "string list" string

text \<open>\<open>parent_rule_violation\<close>: the reason, or \<open>None\<close>; the messages are the constructors
  of \<open>parent_violation\<close>.\<close>

definition parent_rule_violation :: "string \<Rightarrow> string option \<Rightarrow> string \<Rightarrow> parent_violation option" where
  "parent_rule_violation node_type parent_type graph_state =
     (if graph_state = ''UNATTACHED''
      then (if parent_type = None then None else Some UnattachedHasParent)
      else if graph_state = ''ACTIVE''
      then (let allowed = (case ACTIVE_PARENT_RULES node_type of None \<Rightarrow> Some [] | Some a \<Rightarrow> a) in
            case allowed of
              None \<Rightarrow> (if parent_type = None then None else Some (MustBeRoot node_type))
            | Some ts \<Rightarrow>
                (case parent_type of
                   None \<Rightarrow> Some (RequiresParent node_type)
                 | Some p \<Rightarrow>
                     if p \<notin> set ts then Some (ParentMustBeOneOf node_type (sort ts) p) else None))
      else None)"

section \<open>Properties\<close>

lemma table_get_Nil [simp]: "table_get [] k = []"
  by (simp add: table_get_def)

lemma table_get_Cons [simp]: "table_get ((k', vs) # t) k = (if k = k' then vs else table_get t k)"
  by (auto simp: table_get_def)

lemma node_type_value_inj [simp]: "node_type_value a = node_type_value b \<longleftrightarrow> a = b"
  by (cases a; cases b) auto

lemma graph_state_value_inj [simp]: "graph_state_value a = graph_state_value b \<longleftrightarrow> a = b"
  by (cases a; cases b) auto

text \<open>The graph of the run statuses: each table step leads to a status of strictly higher
  rank, so a run that changes its status never comes back.\<close>

fun run_rank :: "string \<Rightarrow> nat" where
  "run_rank s = (if s = ''PENDING'' then 0 else if s = ''RUNNING'' then 1
     else if s = ''COMPLETED'' then 2 else if s = ''FAILED'' then 2 else 3)"

declare run_rank.simps [simp del]

lemma run_transition_rank:
  "analysis_run_status_transition_allowed a b \<Longrightarrow> a \<noteq> b \<Longrightarrow> run_rank a < run_rank b"
  by (auto simp: analysis_run_status_transition_allowed_def ANALYSIS_RUN_STATUS_TRANSITIONS_def
      run_rank.simps split: if_splits)

lemma parent_rule_active_iff:
  "parent_rule_violation c p ''ACTIVE'' = None \<longleftrightarrow> is_allowed_parent_type c p"
  by (auto simp: parent_rule_violation_def is_allowed_parent_type_def split: option.splits)

end
