(* ===== verification/Storage_Models.thy ===== *)
theory Storage_Models
  imports Contract_Enums
begin

text \<open>
  \<open>storage/models.py\<close>: the tables the modelled components read and write, one record per
  mapped class with the columns of the class, the CHECK constraints of the tables as
  bool-valued predicates on rows, and the database as the record of its tables. A
  transaction is a function from a database to a result: \<open>Inr (x, d)\<close> is a commit that
  leaves \<open>d\<close>, \<open>Inl e\<close> a rollback that leaves the database as it was. New primary keys
  (\<open>uuid.uuid4\<close>) are drawn from the supply \<open>db_next_uuid\<close>, so a new key differs from
  every key drawn before.
\<close>

section \<open>Rows\<close>

record node =
  nd_id :: uuid
  nd_source_candidate_id :: "uuid option"
  nd_project_id :: string
  nd_source_meeting_id :: string
  nd_source_item_id :: string
  nd_node_type :: node_type
  nd_category :: string
  nd_title :: string
  nd_content :: string
  nd_parent_id :: "uuid option"
  nd_graph_state :: graph_state
  nd_merged_into_node_id :: "uuid option"
  nd_analysis_status :: analysis_status
  nd_analysis_input_hash :: "string option"
  nd_current_analysis_run_id :: "uuid option"
  nd_current_revision_id :: "uuid option"
  nd_origin_type :: string
  nd_last_actor_type :: string
  nd_consistency_status :: string
  nd_deleted_at :: "time option"
  nd_deleted_by :: "string option"
  nd_due_date :: "string option"
  nd_version :: int
  nd_initial_reviewed_by :: "string option"
  nd_initial_reviewed_at :: "time option"
  nd_confirmed_by :: "string option"
  nd_confirmed_at :: "time option"
  nd_created_at :: time
  nd_updated_at :: time

record node_revision =
  rv_id :: uuid
  rv_project_id :: string
  rv_node_id :: uuid
  rv_version :: int
  rv_title :: string
  rv_content :: string
  rv_node_type :: node_type
  rv_category :: string
  rv_due_date :: "string option"
  rv_created_by_type :: string
  rv_created_by_id :: "string option"
  rv_generation_run_id :: "uuid option"
  rv_requires_evidence :: bool
  rv_legacy_imported :: bool
  rv_created_at :: time

datatype embedding_status = EMB_PENDING | EMB_READY | EMB_STALE | EMB_FAILED

record node_embedding =
  em_node_id :: uuid
  em_embedding_version :: string
  em_embedding_model :: string
  em_dimension :: int
  em_embedded_text_hash :: "string option"
  em_embedding :: "py_float list option"
  em_status :: embedding_status
  em_embedded_at :: "time option"

record transcript_segment =
  ts_id :: uuid
  ts_project_id :: string
  ts_external_meeting_id :: string
  ts_segment_id :: string
  ts_sequence_no :: int
  ts_start_ms :: "int option"
  ts_end_ms :: "int option"
  ts_speaker_label :: "string option"
  ts_text :: string
  ts_normalized_text :: "string option"
  ts_normalization_metadata :: "json option"

record evidence =
  ev_id :: uuid
  ev_project_id :: string
  ev_external_meeting_id :: "string option"
  ev_transcript_segment_id :: "uuid option"
  ev_source_segment_id :: "string option"
  ev_speaker_label :: "string option"
  ev_start_ms :: "int option"
  ev_end_ms :: "int option"
  ev_quote_start :: "int option"
  ev_quote_end :: "int option"
  ev_quoted_text :: string
  ev_source_type :: string
  ev_immutable_hash :: string
  ev_normalization_version :: "string option"
  ev_legacy_imported :: bool
  ev_created_at :: time

record node_revision_evidence =
  re_project_id :: string
  re_node_revision_id :: uuid
  re_evidence_id :: uuid
  re_support_type :: string
  re_created_at :: time

record node_evidence =
  ne_id :: uuid
  ne_node_id :: uuid
  ne_evidence_key :: string
  ne_segment_id :: string
  ne_quote :: string
  ne_quote_start :: "int option"
  ne_quote_end :: "int option"
  ne_evidence_type :: "string option"
  ne_source_meeting_id :: "string option"

record node_analysis_run =
  ar_id :: uuid
  ar_source_node_id :: uuid
  ar_source_node_version :: int
  ar_analysis_input_hash :: string
  ar_analysis_input_hash_version :: string
  ar_retrieval_config_version :: string
  ar_embedding_model :: "string option"
  ar_embedding_version :: "string option"
  ar_retrieval_status :: string
  ar_retrieval_result_count :: "int option"
  ar_retrieval_completed_at :: "time option"
  ar_b_model_status :: string
  ar_b_model_skip_reason :: "string option"
  ar_b_model_failure_code :: "string option"
  ar_b_model_failure_message :: "string option"
  ar_b_model_completed_at :: "time option"
  ar_attempt :: int
  ar_status :: analysis_run_status
  ar_requested_by :: string
  ar_failure_code :: "string option"
  ar_failure_message :: "string option"
  ar_started_at :: "time option"
  ar_completed_at :: "time option"
  ar_updated_at :: time

datatype relation_status = REL_PROPOSED | REL_CONFIRMED | REL_REJECTED

datatype relation_type = ATTACHED_TO | RELATED_TO | SAME | REVERSES | FOLLOWS | RESOLVED_BY

record relation =
  rl_id :: uuid
  rl_project_id :: string
  rl_from_node_id :: uuid
  rl_to_node_id :: uuid
  rl_relation_type :: relation_type
  rl_status :: relation_status
  rl_actor_type :: string
  rl_generation_run_id :: "uuid option"
  rl_valid_from :: time
  rl_valid_to :: "time option"

record node_merge_history =
  mh_id :: uuid
  mh_project_id :: string
  mh_source_node_id :: uuid
  mh_target_node_id :: uuid
  mh_analysis_run_id :: "uuid option"
  mh_candidate_id :: "uuid option"
  mh_approved_by :: string
  mh_approved_at :: time
  mh_source_version :: int
  mh_target_version :: int
  mh_merged_title :: string
  mh_merged_content :: string

datatype merge_status = APPLIED | REVERTED

text \<open>\<open>MergeOperation\<close>; the model scores and the retrieval ranks of the merge are the
  opaque JSON value \<open>mo_evaluation\<close>, which is only stored.\<close>

record merge_operation =
  mo_id :: uuid
  mo_project_id :: string
  mo_source_node_id :: uuid
  mo_source_version :: int
  mo_target_node_id :: uuid
  mo_target_version :: int
  mo_resolved_target_node_id :: uuid
  mo_source_original_graph_state :: graph_state
  mo_actor_type :: string
  mo_actor_id :: "string option"
  mo_generation_run_id :: "uuid option"
  mo_reason_code :: string
  mo_reason_text :: "string option"
  mo_evaluation :: json
  mo_status :: merge_status
  mo_applied_at :: time
  mo_reverted_at :: "time option"
  mo_reverted_by :: "string option"

record merge_operation_dependency =
  md_project_id :: string
  md_operation_id :: uuid
  md_depends_on_operation_id :: uuid

record graph_change_event =
  gc_project_id :: string
  gc_request_id :: "py_text option"
  gc_node_id :: "uuid option"
  gc_item_id :: "string option"
  gc_change_type :: string
  gc_actor_type :: string
  gc_before :: json
  gc_after :: json
  gc_detail :: json

datatype outbox_status = OB_PENDING | OB_PUBLISHING | OB_PUBLISHED | OB_DEAD

record outbox_event =
  ob_id :: uuid
  ob_event_type :: string
  ob_aggregate_type :: string
  ob_aggregate_id :: py_text
  ob_project_id :: string
  ob_schema_version :: string
  ob_payload :: json
  ob_status :: outbox_status
  ob_created_at :: time
  ob_attempt_count :: nat
  ob_max_attempts :: nat
  ob_available_at :: time
  ob_claim_token :: "uuid option"
  ob_claimed_at :: "time option"
  ob_published_at :: "time option"
  ob_last_error :: "string option"

datatype job_status = JOB_PENDING | JOB_RUNNING | JOB_SUCCEEDED | JOB_FAILED

record analysis_job =
  jb_id :: uuid
  jb_project_id :: string
  jb_external_meeting_id :: string
  jb_node_id :: uuid
  jb_node_version :: int
  jb_status :: job_status
  jb_attempt_count :: nat
  jb_max_attempts :: nat
  jb_claim_token :: "uuid option"
  jb_claimed_at :: "time option"
  jb_available_at :: time
  jb_analysis_run_id :: "uuid option"
  jb_failure_code :: "string option"
  jb_last_error :: "string option"
  jb_created_at :: time
  jb_updated_at :: time

record project_graph_state =
  gs_project_id :: string
  gs_graph_version :: nat
  gs_updated_at :: time

datatype delivery_status = DL_PROCESSING | DL_SUCCEEDED | DL_FAILED

record analysis_delivery_state =
  dl_project_id :: string
  dl_external_meeting_id :: string
  dl_status :: delivery_status
  dl_required_graph_version :: "nat option"
  dl_required_summary_version :: "int option"
  dl_failure_code :: "string option"
  dl_failure_message :: "string option"
  dl_updated_at :: time

record meeting_summary =
  ms_id :: uuid
  ms_project_id :: string
  ms_external_meeting_id :: string
  ms_summary_version :: int
  ms_source_hash :: string
  ms_title :: string
  ms_body :: string
  ms_structured_summary :: json
  ms_status :: string
  ms_generator_name :: string
  ms_generator_version :: string
  ms_created_at :: time

datatype recording_status = REC_WAITING_FOR_COMMAND | REC_READY | REC_CLAIMED | REC_PROCESSING
  | REC_COMPLETED | REC_FAILED

record recording_ready_event =
  rc_id :: uuid
  rc_project_id :: string
  rc_room_name :: string
  rc_egress_id :: string
  rc_kind :: string
  rc_member_id :: "string option"
  rc_recording_bucket :: string
  rc_object_key :: string
  rc_ended_at_raw :: "string option"
  rc_status :: recording_status

datatype command_type = MEETING_ANALYSIS_REQUESTED | NODE_CONTENT_UPDATE_REQUESTED | NODE_DELETE_REQUESTED

datatype command_status = CMD_WAITING_FOR_RECORDING | CMD_READY | CMD_CLAIMED | CMD_PROCESSING
  | CMD_COMPLETED | CMD_FAILED

record meeting_analysis_command =
  mc_id :: uuid
  mc_command_id :: uuid
  mc_command_type :: command_type
  mc_project_id :: string
  mc_meeting_id :: "string option"
  mc_room_name :: "string option"
  mc_generate_summary :: "bool option"
  mc_generate_nodes :: "bool option"
  mc_target_node_id :: "uuid option"
  mc_expected_node_version :: "int option"
  mc_expected_graph_version :: "int option"
  mc_requested_by_member_id :: "string option"
  mc_requested_at :: time
  mc_status :: command_status
  mc_payload_hash :: string
  mc_failure_code :: "string option"
  mc_failure_message :: "string option"

datatype task_type = SUMMARY | NODES

datatype task_status = TASK_WAITING_INPUT | TASK_READY | TASK_PROCESSING | TASK_SUCCEEDED
  | TASK_FAILED | TASK_SKIPPED

record meeting_analysis_task =
  tk_id :: uuid
  tk_command_id :: uuid
  tk_task_type :: task_type
  tk_status :: task_status
  tk_attempt_count :: nat
  tk_max_attempts :: nat
  tk_claim_token :: "uuid option"
  tk_claimed_at :: "time option"
  tk_available_at :: time
  tk_failure_code :: "string option"
  tk_last_error :: "string option"
  tk_updated_at :: time

datatype artifact_status = ART_PENDING | ART_UPLOADED | ART_FAILED

record graph_snapshot_artifact =
  sa_id :: uuid
  sa_project_id :: string
  sa_meeting_id :: "string option"
  sa_command_id :: uuid
  sa_graph_version :: nat
  sa_snapshot_schema_version :: nat
  sa_payload_json :: json
  sa_size_bytes :: nat
  sa_sha256 :: string
  sa_content_type :: string
  sa_object_key :: py_text
  sa_status :: artifact_status
  sa_uploaded_at :: "time option"

section \<open>The database\<close>

datatype generation_status = GEN_RECEIVED | GEN_EXTRACTING | GEN_DECISION_ANALYZING | GEN_DEPENDENT_ANALYZING
  | GEN_VALIDATING | GEN_APPLYING | GEN_COMPLETED | GEN_COMPLETED_WITH_WARNINGS | GEN_FAILED

record generation_run =
  gr_id :: uuid
  gr_project_id :: string
  gr_external_meeting_id :: string
  gr_recording_hash :: string
  gr_pipeline_version :: string
  gr_external_request_id :: "string option"
  gr_source_request_id :: "uuid option"
  gr_status :: generation_status
  gr_warnings :: "json list option"
  gr_result_summary :: "json option"
  gr_failure_code :: "string option"
  gr_failure_message :: "string option"
  gr_started_at :: "time option"
  gr_completed_at :: "time option"
  gr_created_at :: time
  gr_updated_at :: time

record retrieval_result =
  rr_id :: uuid
  rr_analysis_run_id :: uuid
  rr_target_node_id :: uuid
  rr_target_node_version :: int
  rr_rank :: int
  rr_similarity :: py_float
  rr_created_at :: time

record b_model_result =
  bm_id :: uuid
  bm_project_id :: string
  bm_analysis_run_id :: uuid
  bm_source_node_id :: uuid
  bm_source_node_version :: int
  bm_recommendation :: recommendation_type
  bm_target_node_id :: "uuid option"
  bm_target_node_version :: "int option"
  bm_relation_type :: "relation_type option"
  bm_suggested_title :: string
  bm_suggested_content :: string
  bm_reason :: string
  bm_model :: string
  bm_model_version :: string
  bm_metadata_json :: json
  bm_validation_status :: string
  bm_created_at :: time

record candidate_evidence =
  ce_segment_id :: string
  ce_quote :: string
  ce_quote_start :: "int option"
  ce_quote_end :: "int option"
  ce_source_meeting_id :: "string option"

text \<open>\<open>NodeCandidate\<close> with its evidence rows; the columns of the manual review are left out.\<close>

record candidate =
  cd_id :: uuid
  cd_request_id :: uuid
  cd_project_id :: string
  cd_external_meeting_id :: string
  cd_source_item_id :: string
  cd_raw_item :: json
  cd_suggested_node_type :: string
  cd_suggested_category :: "string option"
  cd_suggested_title :: string
  cd_suggested_content :: string
  cd_suggested_parent_candidate_id :: "uuid option"
  cd_review_status :: string
  cd_confirmed_node_id :: "uuid option"
  cd_initial_review_node_id :: "uuid option"
  cd_version :: int
  cd_created_at :: time
  cd_reviewed_at :: "time option"
  cd_reviewed_by :: "string option"
  cd_evidence :: "candidate_evidence list"

text \<open>The columns of \<open>Request\<close> that the graph generation reads or writes.\<close>

record pipeline_request =
  rq_id :: uuid
  rq_project_id :: string
  rq_external_meeting_id :: string
  rq_status :: string
  rq_warnings :: "json list option"
  rq_completed_at :: "time option"
  rq_created_at :: time

record meeting =
  mt_id :: uuid
  mt_project_id :: string
  mt_external_meeting_id :: string
  mt_status :: string
  mt_created_at :: time
  mt_updated_at :: time

record db =
  db_nodes :: "node list"
  db_revisions :: "node_revision list"
  db_embeddings :: "node_embedding list"
  db_segments :: "transcript_segment list"
  db_evidence :: "evidence list"
  db_revision_evidence :: "node_revision_evidence list"
  db_node_evidence :: "node_evidence list"
  db_analysis_runs :: "node_analysis_run list"
  db_relations :: "relation list"
  db_merge_history :: "node_merge_history list"
  db_merge_operations :: "merge_operation list"
  db_merge_dependencies :: "merge_operation_dependency list"
  db_change_events :: "graph_change_event list"
  db_outbox :: "outbox_event list"
  db_jobs :: "analysis_job list"
  db_graph_states :: "project_graph_state list"
  db_deliveries :: "analysis_delivery_state list"
  db_recordings :: "recording_ready_event list"
  db_commands :: "meeting_analysis_command list"
  db_tasks :: "meeting_analysis_task list"
  db_artifacts :: "graph_snapshot_artifact list"
  db_generation_runs :: "generation_run list"
  db_retrieval_results :: "retrieval_result list"
  db_b_model_results :: "b_model_result list"
  db_candidates :: "candidate list"
  db_requests :: "pipeline_request list"
  db_meetings :: "meeting list"
  db_categories :: "string list"
  db_next_uuid :: uuid

definition empty_db :: db where
  "empty_db = \<lparr>db_nodes = [], db_revisions = [], db_embeddings = [], db_segments = [], db_evidence = [],
     db_revision_evidence = [], db_node_evidence = [], db_analysis_runs = [], db_relations = [],
     db_merge_history = [], db_merge_operations = [], db_merge_dependencies = [],
     db_change_events = [], db_outbox = [], db_jobs = [], db_graph_states = [], db_deliveries = [],
     db_recordings = [], db_commands = [], db_tasks = [], db_artifacts = [],
     db_generation_runs = [], db_retrieval_results = [], db_b_model_results = [], db_candidates = [], db_requests = [],
     db_meetings = [], db_categories = [], db_next_uuid = 1\<rparr>"

text \<open>\<open>uuid.uuid4()\<close>: the key and the database whose supply has moved on.\<close>

definition uuid4 :: "db \<Rightarrow> uuid \<times> db" where
  "uuid4 d = (db_next_uuid d, d\<lparr>db_next_uuid := Suc (db_next_uuid d)\<rparr>)"

text \<open>The functions of the Python standard library whose result is only stored or compared:
  \<open>json.dumps(value, sort_keys=True, separators=(",", ":"), ensure_ascii=False)\<close> encoded as
  UTF-8, the SHA-256 hex digest of a byte string, \<open>str(value)\<close> of a JSON value and of a UUID,
  and the environment variables (\<open>os.getenv\<close>).\<close>

record stdlib =
  py_str :: "json \<Rightarrow> string"
  uuid_str :: "uuid \<Rightarrow> string"
  getenv :: "string \<Rightarrow> string option"
  json_dumps :: "json \<Rightarrow> string"
  sha256_hexdigest :: "string \<Rightarrow> string"

section \<open>Sample rows\<close>

text \<open>Small concrete values at which the properties are instantiated.\<close>

definition sample_stdlib :: stdlib where
  "sample_stdlib = \<lparr>py_str = (\<lambda>_. ''1''), uuid_str = (\<lambda>_. ''u''), getenv = (\<lambda>_. None), json_dumps = (\<lambda>_. ''{}''), sha256_hexdigest = (\<lambda>s. s)\<rparr>"

definition sample_node :: "uuid \<Rightarrow> string \<Rightarrow> node" where
  "sample_node i pid = \<lparr>nd_id = i, nd_source_candidate_id = None, nd_project_id = pid,
     nd_source_meeting_id = ''m'', nd_source_item_id = ''i'', nd_node_type = DECISION,
     nd_category = ''PLAN'', nd_title = ''t'', nd_content = ''c'', nd_parent_id = None,
     nd_graph_state = ACTIVE, nd_merged_into_node_id = None, nd_analysis_status = AS_PENDING,
     nd_analysis_input_hash = None, nd_current_analysis_run_id = None,
     nd_current_revision_id = Some (i + 100), nd_origin_type = ''LLM_GENERATED'',
     nd_last_actor_type = ''SYSTEM'', nd_consistency_status = ''NORMAL'', nd_deleted_at = None,
     nd_deleted_by = None, nd_due_date = None, nd_version = 1, nd_initial_reviewed_by = None,
     nd_initial_reviewed_at = None, nd_confirmed_by = None, nd_confirmed_at = None,
     nd_created_at = 0, nd_updated_at = 0\<rparr>"

definition sample_db :: "node list \<Rightarrow> db" where
  "sample_db ns = empty_db\<lparr>db_nodes := ns, db_next_uuid := 1000\<rparr>"

section \<open>CHECK constraints\<close>

definition ck_node :: "node \<Rightarrow> bool" where
  "ck_node n \<longleftrightarrow>
     1 \<le> nd_version n
   \<and> (nd_graph_state n = MERGED \<longleftrightarrow> nd_merged_into_node_id n \<noteq> None)
   \<and> nd_parent_id n \<noteq> Some (nd_id n)
   \<and> nd_merged_into_node_id n \<noteq> Some (nd_id n)
   \<and> nd_origin_type n \<in> {''LLM_GENERATED'', ''USER_CREATED'', ''LEGACY''}
   \<and> nd_last_actor_type n \<in> {''SYSTEM'', ''USER'', ''LEGACY''}
   \<and> nd_consistency_status n \<in> {''NORMAL'', ''NEEDS_ATTENTION''}
   \<and> (nd_graph_state n = DELETED \<longleftrightarrow> nd_deleted_at n \<noteq> None)"

definition ck_outbox_event :: "outbox_event \<Rightarrow> bool" where
  "ck_outbox_event e \<longleftrightarrow>
     1 \<le> ob_max_attempts e \<and> (ob_status e = OB_PUBLISHING \<longleftrightarrow> ob_claim_token e \<noteq> None)"

definition ck_meeting_analysis_task :: "meeting_analysis_task \<Rightarrow> bool" where
  "ck_meeting_analysis_task t \<longleftrightarrow>
     tk_max_attempts t = 3 \<and> (tk_status t = TASK_PROCESSING \<longleftrightarrow> tk_claim_token t \<noteq> None)"

definition ck_merge_operation :: "merge_operation \<Rightarrow> bool" where
  "ck_merge_operation m \<longleftrightarrow>
     mo_actor_type m \<in> {''SYSTEM'', ''USER'', ''LEGACY''}
   \<and> mo_source_node_id m \<noteq> mo_target_node_id m
   \<and> 1 \<le> mo_source_version m \<and> 1 \<le> mo_target_version m"

section \<open>Lookups by primary key\<close>

definition node_by_id :: "db \<Rightarrow> uuid \<Rightarrow> node option" where
  "node_by_id d i = find (\<lambda>n. nd_id n = i) (db_nodes d)"

definition revision_by_id :: "db \<Rightarrow> uuid \<Rightarrow> node_revision option" where
  "revision_by_id d i = find (\<lambda>r. rv_id r = i) (db_revisions d)"

definition evidence_by_id :: "db \<Rightarrow> uuid \<Rightarrow> evidence option" where
  "evidence_by_id d i = find (\<lambda>e. ev_id e = i) (db_evidence d)"

text \<open>Attribute assignments on the node with a primary key.\<close>

definition set_node :: "uuid \<Rightarrow> (node \<Rightarrow> node) \<Rightarrow> db \<Rightarrow> db" where
  "set_node i f d = d\<lparr>db_nodes := update_where (\<lambda>n. nd_id n = i) f (db_nodes d)\<rparr>"

abbreviation nodes_unique :: "db \<Rightarrow> bool" where
  "nodes_unique d \<equiv> distinct (map nd_id (db_nodes d))"

lemma node_by_id_Some:
  "nodes_unique d \<Longrightarrow> node_by_id d i = Some n \<longleftrightarrow> n \<in> set (db_nodes d) \<and> nd_id n = i"
  unfolding node_by_id_def by (rule find_key_Some_iff)

lemma node_by_idD: "node_by_id d i = Some n \<Longrightarrow> n \<in> set (db_nodes d) \<and> nd_id n = i"
  by (auto simp: node_by_id_def dest: find_SomeD)

lemma node_by_id_None: "node_by_id d i = None \<longleftrightarrow> i \<notin> nd_id ` set (db_nodes d)"
  unfolding node_by_id_def by (rule find_key_None_iff)

lemma node_by_id_set_node:
  "(\<And>n. nd_id (f n) = nd_id n) \<Longrightarrow>
   node_by_id (set_node i f d) j = (if i = j then map_option f (node_by_id d j) else node_by_id d j)"
proof -
  assume "\<And>n. nd_id (f n) = nd_id n"
  then have "node_by_id (set_node i f d) j = map_option (\<lambda>n. if nd_id n = i then f n else n) (node_by_id d j)"
    unfolding node_by_id_def set_node_def by (simp add: find_update_where_key)
  then show ?thesis by (cases "node_by_id d j") (auto dest: node_by_idD)
qed

lemma nodes_unique_set_node [simp]:
  "(\<And>n. nd_id (f n) = nd_id n) \<Longrightarrow> nodes_unique (set_node i f d) = nodes_unique d"
  by (simp add: set_node_def map_key_update_where)

lemma set_node_simps [simp]:
  "db_next_uuid (set_node i f d) = db_next_uuid d"
  "db_revisions (set_node i f d) = db_revisions d"
  "db_evidence (set_node i f d) = db_evidence d"
  "db_revision_evidence (set_node i f d) = db_revision_evidence d"
  "db_merge_operations (set_node i f d) = db_merge_operations d"
  "db_merge_dependencies (set_node i f d) = db_merge_dependencies d"
  "db_change_events (set_node i f d) = db_change_events d"
  "db_outbox (set_node i f d) = db_outbox d"
  "db_commands (set_node i f d) = db_commands d"
  "db_graph_states (set_node i f d) = db_graph_states d"
  "db_artifacts (set_node i f d) = db_artifacts d"
  "db_relations (set_node i f d) = db_relations d"
  "db_generation_runs (set_node i f d) = db_generation_runs d"
  by (simp_all add: set_node_def)

end
