(* ===== verification/Event_Contract.thy ===== *)
theory Event_Contract
  imports Storage_Models
begin

text \<open>
  \<open>pipeline/event_contract.py\<close>: the public form of identifiers, the project graph version
  (lock, release, bump), the node snapshots of Event v1, the staging of Event v1 rows, and
  the delivery state of one meeting analysis (PROCESSING, SUCCEEDED, FAILED). All functions
  work inside the caller's transaction, so they take and return the database; \<open>now\<close> is the
  clock, read once per transaction.
\<close>

section \<open>Identifiers\<close>

definition digit_char :: "nat \<Rightarrow> char" where
  "digit_char n = char_of (48 + n)"

fun nat_str :: "nat \<Rightarrow> string" where
  "nat_str n = (if n < 10 then [digit_char n] else nat_str (n div 10) @ [digit_char (n mod 10)])"

declare nat_str.simps [simp del]

text \<open>\<open>str(i)\<close> of a Python integer.\<close>

definition int_str :: "int \<Rightarrow> string" where
  "int_str i = (if i < 0 then CHR ''-'' # nat_str (nat (- i)) else nat_str (nat i))"

text \<open>The argument types of \<open>public_identifier\<close>: \<open>str | int\<close>, where a Python \<open>bool\<close> is an
  \<open>int\<close>.\<close>

datatype ident_value = IdBool bool | IdInt int | IdStr string

definition SIGNED_INT64_MIN :: int where "SIGNED_INT64_MIN = - (2 ^ 63)"

definition SIGNED_INT64_MAX :: int where "SIGNED_INT64_MAX = 2 ^ 63 - 1"

text \<open>\<open>_CANONICAL_INTEGER.fullmatch\<close>: the regular expression \<open>0|-?[1-9][0-9]*\<close>.\<close>

fun positive_decimal :: "string \<Rightarrow> bool" where
  "positive_decimal [] = False"
| "positive_decimal (c # cs) = (is_digit c \<and> c \<noteq> CHR ''0'' \<and> (\<forall>x \<in> set cs. is_digit x))"

definition canonical_integer :: "string \<Rightarrow> bool" where
  "canonical_integer s = (s = ''0'' \<or>
     (case s of [] \<Rightarrow> False
      | c # cs \<Rightarrow> if c = CHR ''-'' then positive_decimal cs else positive_decimal s))"

text \<open>\<open>int(text)\<close> on a text the regular expression accepts.\<close>

definition parse_int :: "string \<Rightarrow> int" where
  "parse_int s = (case s of [] \<Rightarrow> 0
     | c # cs \<Rightarrow> if c = CHR ''-'' then - parse_digits cs else parse_digits s)"

definition in_int64 :: "int \<Rightarrow> bool" where
  "in_int64 i = (SIGNED_INT64_MIN \<le> i \<and> i \<le> SIGNED_INT64_MAX)"

fun public_identifier :: "ident_value \<Rightarrow> json" where
  "public_identifier (IdBool b) = JStr (Txt (if b then ''true'' else ''false''))"
| "public_identifier (IdInt i) = (if in_int64 i then JInt i else JStr (Txt (int_str i)))"
| "public_identifier (IdStr text) =
     (if canonical_integer text \<and> in_int64 (parse_int text) then JInt (parse_int text)
      else JStr (Txt text))"

text \<open>\<open>str.isdigit\<close> on code points below 256: the ASCII digits and three superscripts.\<close>

definition py_isdigit :: "char \<Rightarrow> bool" where
  "py_isdigit c \<longleftrightarrow> is_digit c \<or> (of_char c :: nat) \<in> {178, 179, 185}"

fun canonical_storage_identifier :: "ident_value \<Rightarrow> string result" where
  "canonical_storage_identifier (IdBool b) = Inl (ValueError ''must not be boolean'')"
| "canonical_storage_identifier (IdInt i) =
     (if \<not> in_int64 i then Inl (ValueError ''outside signed 64-bit range'') else Inr (int_str i))"
| "canonical_storage_identifier (IdStr text) =
     (if text = [] \<or> text \<noteq> strip text
      then Inl (ValueError ''must be non-blank without surrounding whitespace'')
      else if canonical_integer text
      then (if \<not> in_int64 (parse_int text) then Inl (ValueError ''outside signed 64-bit range'')
            else Inr (int_str (parse_int text)))
      else if (\<exists>c \<in> set text. py_isdigit c)
              \<and> (\<forall>c \<in> set text. py_isdigit c \<or> c \<in> set ''+-.eE'')
      then Inl (ValueError ''must be a canonical decimal integer'')
      else Inr text)"

section \<open>Snapshots of Event v1\<close>

definition evidence_snapshot_row :: "evidence \<Rightarrow> json" where
  "evidence_snapshot_row e = JObj
     [(''evidenceId'', JStr (UuidTxt (ev_id e))),
      (''sourceType'', JStr (Txt (ev_source_type e))),
      (''meetingId'', jopt (\<lambda>m. public_identifier (IdStr m)) (ev_external_meeting_id e)),
      (''segmentId'', jopt (\<lambda>s. JStr (Txt s)) (ev_source_segment_id e)),
      (''speakerLabel'', jopt (\<lambda>s. JStr (Txt s)) (ev_speaker_label e)),
      (''endMs'', jopt JInt (ev_end_ms e)),
      (''quoteStart'', jopt JInt (ev_quote_start e)),
      (''quoteEnd'', jopt JInt (ev_quote_end e)),
      (''quotedText'', JStr (Txt (ev_quoted_text e)))]"

text \<open>The evidence rows linked to a revision of a project, in the order
  \<open>created_at, id\<close>.\<close>

definition revision_evidence_rows :: "db \<Rightarrow> string \<Rightarrow> uuid \<Rightarrow> evidence list" where
  "revision_evidence_rows d pid rid =
     sort_key (\<lambda>e. (ev_created_at e, ev_id e))
       [e. l \<leftarrow> db_revision_evidence d, re_project_id l = pid \<and> re_node_revision_id l = rid,
           e \<leftarrow> db_evidence d, ev_id e = re_evidence_id l \<and> ev_project_id e = pid]"

definition evidence_snapshots :: "db \<Rightarrow> node \<Rightarrow> json list" where
  "evidence_snapshots d n =
     (case nd_current_revision_id n of None \<Rightarrow> []
      | Some r \<Rightarrow> map evidence_snapshot_row (revision_evidence_rows d (nd_project_id n) r))"

definition node_snapshot :: "db \<Rightarrow> node \<Rightarrow> json" where
  "node_snapshot d n = JObj
     [(''nodeId'', JStr (UuidTxt (nd_id n))),
      (''nodeVersion'', JInt (nd_version n)),
      (''nodeType'', JStr (Txt (node_type_value (nd_node_type n)))),
      (''category'', JStr (Txt (nd_category n))),
      (''title'', JStr (Txt (nd_title n))),
      (''content'', JStr (Txt (nd_content n))),
      (''dueDate'', jopt (\<lambda>s. JStr (Txt s)) (nd_due_date n)),
      (''graphState'', JStr (Txt (graph_state_value (nd_graph_state n)))),
      (''consistencyStatus'', JStr (Txt (nd_consistency_status n))),
      (''parentNodeId'', jopt (\<lambda>i. JStr (UuidTxt i)) (nd_parent_id n)),
      (''mergedIntoNodeId'', jopt (\<lambda>i. JStr (UuidTxt i)) (nd_merged_into_node_id n)),
      (''originType'', JStr (Txt (nd_origin_type n))),
      (''createdAt'', JTime (nd_created_at n)),
      (''updatedAt'', JTime (nd_updated_at n)),
      (''evidence'', JList (evidence_snapshots d n))]"

definition deleted_node_snapshot :: "node \<Rightarrow> json result" where
  "deleted_node_snapshot n =
     (case nd_deleted_at n of
        None \<Rightarrow> Inl (ValueError ''deleted Node snapshot requires deleted_at'')
      | Some t \<Rightarrow> Inr (JObj
          [(''nodeId'', JStr (UuidTxt (nd_id n))),
           (''nodeVersion'', JInt (nd_version n)),
           (''deletedAt'', JTime t)]))"

section \<open>Staging outbox rows\<close>

text \<open>An \<open>OutboxEvent\<close> with the column defaults of the table.\<close>

definition stage_outbox ::
  "string \<Rightarrow> string \<Rightarrow> py_text \<Rightarrow> string \<Rightarrow> string \<Rightarrow> json \<Rightarrow> time \<Rightarrow> db \<Rightarrow> outbox_event \<times> db" where
  "stage_outbox event_type aggregate_type aggregate_id project_id schema_version payload now d =
     (let (i, d1) = uuid4 d;
          e = \<lparr>ob_id = i, ob_event_type = event_type, ob_aggregate_type = aggregate_type,
               ob_aggregate_id = aggregate_id, ob_project_id = project_id,
               ob_schema_version = schema_version, ob_payload = payload,
               ob_status = OB_PENDING, ob_created_at = now, ob_attempt_count = 0,
               ob_max_attempts = 8, ob_available_at = now, ob_claim_token = None,
               ob_claimed_at = None, ob_published_at = None, ob_last_error = None\<rparr>
      in (e, d1\<lparr>db_outbox := db_outbox d1 @ [e]\<rparr>))"

definition stage_v1 ::
  "string \<Rightarrow> string \<Rightarrow> py_text \<Rightarrow> string \<Rightarrow> json \<Rightarrow> time \<Rightarrow> db \<Rightarrow> outbox_event \<times> db" where
  "stage_v1 event_type aggregate_type aggregate_id project_id payload now d =
     stage_outbox event_type aggregate_type aggregate_id project_id ''1'' payload now d"

section \<open>The project graph version\<close>

definition locked_graph_state :: "db \<Rightarrow> string \<Rightarrow> project_graph_state option result" where
  "locked_graph_state d pid =
     one_or_none (filter (\<lambda>g. gs_project_id g = pid) (db_graph_states d))"

text \<open>\<open>lock_project_graph_state\<close>: the version and whether the row was created here.\<close>

definition lock_project_graph_state :: "string \<Rightarrow> time \<Rightarrow> db \<Rightarrow> ((nat \<times> bool) \<times> db) result" where
  "lock_project_graph_state pid now d =
     rbind (locked_graph_state d pid) (\<lambda>st.
       case st of
         Some g \<Rightarrow> Inr ((gs_graph_version g, False), d)
       | None \<Rightarrow>
           (let g = \<lparr>gs_project_id = pid, gs_graph_version = 0, gs_updated_at = now\<rparr> in
            Inr ((0, True), d\<lparr>db_graph_states := db_graph_states d @ [g]\<rparr>)))"

definition release_unmutated_graph_state :: "string \<Rightarrow> db \<Rightarrow> db result" where
  "release_unmutated_graph_state pid d =
     rbind (locked_graph_state d pid) (\<lambda>st.
       case st of
         Some g \<Rightarrow>
           if gs_graph_version g = 0
           then Inr (d\<lparr>db_graph_states := filter (\<lambda>g. gs_project_id g \<noteq> pid) (db_graph_states d)\<rparr>)
           else Inr d
       | None \<Rightarrow> Inr d)"

text \<open>\<open>bump_graph_version\<close>: INSERT with version 1, or on conflict increment.\<close>

definition bump_graph_version :: "string \<Rightarrow> time \<Rightarrow> db \<Rightarrow> nat \<times> db" where
  "bump_graph_version pid now d =
     (case find (\<lambda>g. gs_project_id g = pid) (db_graph_states d) of
        None \<Rightarrow>
          (1, d\<lparr>db_graph_states := db_graph_states d @
                 [\<lparr>gs_project_id = pid, gs_graph_version = 1, gs_updated_at = now\<rparr>]\<rparr>)
      | Some g \<Rightarrow>
          (gs_graph_version g + 1,
           d\<lparr>db_graph_states := update_where (\<lambda>g. gs_project_id g = pid)
                (\<lambda>g. g\<lparr>gs_graph_version := gs_graph_version g + 1, gs_updated_at := now\<rparr>)
                (db_graph_states d)\<rparr>))"

fun collect_results :: "'a result list \<Rightarrow> 'a list result" where
  "collect_results [] = Inr []"
| "collect_results (r # rs) = rbind r (\<lambda>x. rbind (collect_results rs) (\<lambda>xs. Inr (x # xs)))"

text \<open>\<open>stage_project_graph_changed\<close>: one bump, one event. The nodes carry their id, by which
  the snapshots are sorted (\<open>nodeId\<close> is its text).\<close>

definition stage_project_graph_changed ::
  "string \<Rightarrow> node list \<Rightarrow> node list \<Rightarrow> time \<Rightarrow> db \<Rightarrow> ((outbox_event \<times> nat) \<times> db) result" where
  "stage_project_graph_changed pid upserted deleted now d =
     (let (v, d1) = bump_graph_version pid now d;
          upserts = map (node_snapshot d1) (sort_key nd_id upserted)
      in rbind (collect_results (map deleted_node_snapshot (sort_key nd_id deleted))) (\<lambda>deletes.
           let payload = JObj
                 [(''projectId'', public_identifier (IdStr pid)),
                  (''graphVersion'', JInt (int v)),
                  (''upsertedNodes'', JList upserts),
                  (''deletedNodes'', JList deletes)];
               (e, d2) = stage_v1 ''PROJECT_GRAPH_CHANGED'' ''project_graph'' (Txt pid) pid payload now d1
           in Inr ((e, v), d2)))"

section \<open>The delivery state of a meeting analysis\<close>

fun delivery_status_value :: "delivery_status \<Rightarrow> string" where
  "delivery_status_value DL_PROCESSING = ''PROCESSING''"
| "delivery_status_value DL_SUCCEEDED = ''SUCCEEDED''"
| "delivery_status_value DL_FAILED = ''FAILED''"

definition is_delivery :: "string \<Rightarrow> string \<Rightarrow> analysis_delivery_state \<Rightarrow> bool" where
  "is_delivery pid mid s \<longleftrightarrow> dl_project_id s = pid \<and> dl_external_meeting_id s = mid"

definition delivery_state :: "db \<Rightarrow> string \<Rightarrow> string \<Rightarrow> analysis_delivery_state option result" where
  "delivery_state d pid mid = one_or_none (filter (is_delivery pid mid) (db_deliveries d))"

text \<open>Attribute assignments on the delivery state.\<close>

definition put_delivery :: "analysis_delivery_state \<Rightarrow> db \<Rightarrow> db" where
  "put_delivery s d = d\<lparr>db_deliveries :=
     update_where (is_delivery (dl_project_id s) (dl_external_meeting_id s)) (\<lambda>_. s) (db_deliveries d)\<rparr>"

definition delivery_payload :: "analysis_delivery_state \<Rightarrow> json" where
  "delivery_payload s = JObj
     ([(''projectId'', public_identifier (IdStr (dl_project_id s))),
       (''externalMeetingId'', public_identifier (IdStr (dl_external_meeting_id s))),
       (''status'', JStr (Txt (delivery_status_value (dl_status s))))]
      @ (case dl_status s of
           DL_SUCCEEDED \<Rightarrow>
             [(''requiredGraphVersion'', jopt (\<lambda>v. JInt (int v)) (dl_required_graph_version s)),
              (''requiredSummaryVersion'', jopt JInt (dl_required_summary_version s))]
         | DL_FAILED \<Rightarrow>
             (''failureCode'', jopt (\<lambda>c. JStr (Txt c)) (dl_failure_code s))
             # (if truthy (dl_failure_message s)
                then [(''failureMessage'', jopt (\<lambda>c. JStr (Txt c)) (dl_failure_message s))] else [])
         | DL_PROCESSING \<Rightarrow> []))"

text \<open>The aggregate id \<open>f"{project_id}:{meeting_id}"\<close>.\<close>

definition stage_analysis_event :: "analysis_delivery_state \<Rightarrow> time \<Rightarrow> db \<Rightarrow> outbox_event \<times> db" where
  "stage_analysis_event s now d =
     stage_v1 ''ANALYSIS_STATUS_CHANGED'' ''meeting_analysis''
       (Txt (dl_project_id s @ '':'' @ dl_external_meeting_id s)) (dl_project_id s)
       (delivery_payload s) now d"

definition stage_analysis_processing ::
  "string \<Rightarrow> string \<Rightarrow> time \<Rightarrow> db \<Rightarrow> (analysis_delivery_state \<times> db) result" where
  "stage_analysis_processing pid mid now d =
     rbind (delivery_state d pid mid) (\<lambda>st.
       case st of
         None \<Rightarrow>
           (let s = \<lparr>dl_project_id = pid, dl_external_meeting_id = mid, dl_status = DL_PROCESSING,
                     dl_required_graph_version = None, dl_required_summary_version = None,
                     dl_failure_code = None, dl_failure_message = None, dl_updated_at = now\<rparr>
            in Inr (s, snd (stage_analysis_event s now (d\<lparr>db_deliveries := db_deliveries d @ [s]\<rparr>))))
       | Some s0 \<Rightarrow>
           if dl_status s0 \<noteq> DL_PROCESSING
           then (let s = s0\<lparr>dl_status := DL_PROCESSING, dl_required_graph_version := None,
                            dl_required_summary_version := None, dl_failure_code := None,
                            dl_failure_message := None, dl_updated_at := now\<rparr>
                 in Inr (s, snd (stage_analysis_event s now (put_delivery s d))))
           else Inr (s0, d))"

definition stage_analysis_failed ::
  "string \<Rightarrow> string \<Rightarrow> string \<Rightarrow> string option \<Rightarrow> time \<Rightarrow> db \<Rightarrow> (analysis_delivery_state \<times> db) result" where
  "stage_analysis_failed pid mid code msg now d =
     rbind (delivery_state d pid mid) (\<lambda>st.
       let fail = (\<lambda>s0. s0\<lparr>dl_status := DL_FAILED, dl_failure_code := Some (take 128 code),
              dl_failure_message := (if truthy msg then map_option (take 500) msg else None),
              dl_updated_at := now\<rparr>)
       in case st of
         None \<Rightarrow>
           (let s = fail \<lparr>dl_project_id = pid, dl_external_meeting_id = mid, dl_status = DL_FAILED,
                     dl_required_graph_version = None, dl_required_summary_version = None,
                     dl_failure_code = None, dl_failure_message = None, dl_updated_at = now\<rparr>
            in Inr (s, snd (stage_analysis_event s now (d\<lparr>db_deliveries := db_deliveries d @ [s]\<rparr>))))
       | Some s0 \<Rightarrow>
           if dl_status s0 = DL_SUCCEEDED then Inr (s0, d)
           else Inr (fail s0, snd (stage_analysis_event (fail s0) now (put_delivery (fail s0) d))))"

definition try_complete_analysis ::
  "string \<Rightarrow> string \<Rightarrow> time \<Rightarrow> db \<Rightarrow> (analysis_delivery_state option \<times> db) result" where
  "try_complete_analysis pid mid now d =
     rbind (delivery_state d pid mid) (\<lambda>st.
       case st of
         None \<Rightarrow> Inr (None, d)
       | Some s0 \<Rightarrow>
           if dl_status s0 = DL_FAILED then Inr (Some s0, d)
           else if dl_required_graph_version s0 = None \<or> dl_required_summary_version s0 = None
           then Inr (Some s0, d)
           else if dl_status s0 \<noteq> DL_SUCCEEDED
           then (let s = s0\<lparr>dl_status := DL_SUCCEEDED, dl_updated_at := now\<rparr>
                 in Inr (Some s, snd (stage_analysis_event s now (put_delivery s d))))
           else Inr (Some s0, d))"

text \<open>\<open>_delivery_state(...) or stage_analysis_processing(...)\<close>.\<close>

definition delivery_or_start ::
  "string \<Rightarrow> string \<Rightarrow> time \<Rightarrow> db \<Rightarrow> (analysis_delivery_state \<times> db) result" where
  "delivery_or_start pid mid now d =
     rbind (delivery_state d pid mid) (\<lambda>st.
       case st of Some s \<Rightarrow> Inr (s, d) | None \<Rightarrow> stage_analysis_processing pid mid now d)"

definition mark_graph_ready :: "string \<Rightarrow> string \<Rightarrow> nat \<Rightarrow> time \<Rightarrow> db \<Rightarrow> db result" where
  "mark_graph_ready pid mid v now d =
     rbind (delivery_or_start pid mid now d) (\<lambda>(s, d1).
       rbind (try_complete_analysis pid mid now
         (put_delivery (s\<lparr>dl_required_graph_version := Some v, dl_updated_at := now\<rparr>) d1)) (\<lambda>(_, d2).
       Inr d2))"

definition mark_summary_ready :: "meeting_summary \<Rightarrow> time \<Rightarrow> db \<Rightarrow> db result" where
  "mark_summary_ready summary now d =
     (let pid = ms_project_id summary; mid = ms_external_meeting_id summary in
      rbind (delivery_or_start pid mid now d) (\<lambda>(s, d1).
       rbind (try_complete_analysis pid mid now
         (put_delivery (s\<lparr>dl_required_summary_version := Some (ms_summary_version summary),
                          dl_updated_at := now\<rparr>) d1)) (\<lambda>(_, d2).
       Inr d2)))"

definition stage_meeting_summary_ready ::
  "meeting_summary \<Rightarrow> string \<Rightarrow> time \<Rightarrow> db \<Rightarrow> (outbox_event \<times> db) result" where
  "stage_meeting_summary_ready summary api_path now d =
     (let payload = JObj
            [(''meetingSummaryId'', JStr (UuidTxt (ms_id summary))),
             (''projectId'', public_identifier (IdStr (ms_project_id summary))),
             (''externalMeetingId'', public_identifier (IdStr (ms_external_meeting_id summary))),
             (''summaryVersion'', JInt (ms_summary_version summary)),
             (''status'', JStr (Txt (ms_status summary))),
             (''apiPath'', JStr (Txt api_path))];
          (e, d1) = stage_v1 ''MEETING_SUMMARY_READY'' ''meeting_summary'' (UuidTxt (ms_id summary))
             (ms_project_id summary) payload now d
      in rbind (mark_summary_ready summary now d1) (\<lambda>d2. Inr (e, d2)))"

section \<open>Identifiers: the public form is faithful\<close>

lemma is_digit_digit_char: "n < 10 \<Longrightarrow> is_digit (digit_char n)"
  by (simp add: is_digit_def digit_char_def)

lemma digit_val_digit_char: "n < 10 \<Longrightarrow> digit_val (digit_char n) = int n"
  by (simp add: digit_val_def digit_char_def)

lemma digit_char_of_digit: "is_digit c \<Longrightarrow> digit_char (nat (digit_val c)) = c"
proof -
  assume "is_digit c"
  then have "48 + nat (int (of_char c) - 48) = (of_char c :: nat)"
    by (auto simp: is_digit_def)
  then show ?thesis by (simp add: digit_val_def digit_char_def)
qed

lemma digit_char_0: "digit_char 0 = CHR ''0''"
  by code_simp

lemma digit_val_bounds: "is_digit c \<Longrightarrow> 0 \<le> digit_val c \<and> digit_val c < 10"
  by (auto simp: is_digit_def digit_val_def)

lemma digit_val_zero_iff: "is_digit c \<Longrightarrow> digit_val c = 0 \<longleftrightarrow> c = CHR ''0''"
  using digit_char_of_digit [of c] digit_char_0 by (auto simp: digit_val_def)

lemma parse_digits_snoc: "parse_digits (s @ [c]) = parse_digits s * 10 + digit_val c"
  by (simp add: parse_digits_def)

lemma parse_digits_nat_str: "parse_digits (nat_str n) = int n"
proof (induction n rule: nat_str.induct)
  case (1 n)
  show ?case
  proof (cases "n < 10")
    case True
    then show ?thesis by (simp add: nat_str.simps [of n] parse_digits_def digit_val_digit_char)
  next
    case False
    then have "parse_digits (nat_str n) = int (n div 10) * 10 + int (n mod 10)"
      using "1" by (simp add: nat_str.simps [of n] parse_digits_snoc digit_val_digit_char)
    then show ?thesis by presburger
  qed
qed

lemma positive_decimal_snoc:
  "xs \<noteq> [] \<Longrightarrow> positive_decimal (xs @ [c]) \<longleftrightarrow> positive_decimal xs \<and> is_digit c"
  by (cases xs) auto

lemma nat_str_parse_digits:
  "positive_decimal s \<Longrightarrow> 1 \<le> parse_digits s \<and> nat_str (nat (parse_digits s)) = s"
proof (induction s rule: rev_induct)
  case Nil
  then show ?case by simp
next
  case (snoc c xs)
  show ?case
  proof (cases "xs = []")
    case True
    with snoc.prems have "is_digit c" "c \<noteq> CHR ''0''" by auto
    moreover from this have "digit_val c \<noteq> 0" by (simp add: digit_val_zero_iff)
    ultimately have "0 < digit_val c" "nat (digit_val c) < 10" "digit_char (nat (digit_val c)) = c"
      using digit_val_bounds [of c] digit_char_of_digit [of c] by auto
    with True show ?thesis
      by (simp add: parse_digits_def nat_str.simps [of "nat (digit_val c)"])
  next
    case False
    with snoc have IH: "1 \<le> parse_digits xs" "nat_str (nat (parse_digits xs)) = xs" and d: "is_digit c"
      by (auto simp: positive_decimal_snoc)
    define n where "n = nat (parse_digits xs * 10 + digit_val c)"
    have n: "n = nat (parse_digits xs) * 10 + nat (digit_val c)" "nat (digit_val c) < 10"
      using IH(1) digit_val_bounds [OF d] by (auto simp: n_def nat_add_distrib nat_mult_distrib)
    with IH(1) have "\<not> n < 10" "n div 10 = nat (parse_digits xs)" "n mod 10 = nat (digit_val c)"
      by auto
    then have "nat_str n = xs @ [c]"
      by (simp add: nat_str.simps [of n] IH(2) digit_char_of_digit [OF d])
    with IH(1) digit_val_bounds [OF d] show ?thesis by (simp add: parse_digits_snoc n_def)
  qed
qed

lemma canonical_integer_int_str: "canonical_integer s \<Longrightarrow> int_str (parse_int s) = s"
proof (cases "s = ''0''")
  case True
  then show ?thesis
    by (simp add: parse_int_def parse_digits_def digit_val_def int_str_def nat_str.simps digit_char_0)
next
  case False
  assume "canonical_integer s"
  with False obtain c cs where s: "s = c # cs"
    and pos: "if c = CHR ''-'' then positive_decimal cs else positive_decimal s"
    by (auto simp: canonical_integer_def split: list.splits)
  show ?thesis
  proof (cases "c = CHR ''-''")
    case True
    with pos have "positive_decimal cs" by simp
    from nat_str_parse_digits [OF this] s True show ?thesis
      by (simp add: parse_int_def int_str_def)
  next
    case False
    with pos have "positive_decimal s" by simp
    from nat_str_parse_digits [OF this] s False show ?thesis
      by (simp add: parse_int_def int_str_def)
  qed
qed

section \<open>The graph version register\<close>

definition graph_version_of :: "db \<Rightarrow> string \<Rightarrow> nat" where
  "graph_version_of d pid =
     (case find (\<lambda>g. gs_project_id g = pid) (db_graph_states d) of
        None \<Rightarrow> 0 | Some g \<Rightarrow> gs_graph_version g)"

abbreviation graph_states_unique :: "db \<Rightarrow> bool" where
  "graph_states_unique d \<equiv> distinct (map gs_project_id (db_graph_states d))"

text \<open>What a command may rely on: the lock reports the version and changes no version, the
  release of the lock changes no version, and a bump raises the version of its project by
  one and leaves the others.\<close>

locale version_register =
  fixes version :: "'d \<Rightarrow> 'p \<Rightarrow> nat"
    and wf :: "'d \<Rightarrow> bool"
    and lock :: "'p \<Rightarrow> 'd \<Rightarrow> ((nat \<times> bool) \<times> 'd) result"
    and release :: "'p \<Rightarrow> 'd \<Rightarrow> 'd result"
    and bump :: "'p \<Rightarrow> 'd \<Rightarrow> nat \<times> 'd"
  assumes lock_ok: "wf d \<Longrightarrow> \<exists>m d'. lock p d = Inr ((version d p, m), d') \<and> wf d' \<and> version d' = version d"
    and release_ok: "wf d \<Longrightarrow> \<exists>d'. release p d = Inr d' \<and> wf d' \<and> version d' = version d"
    and bump_ok: "wf d \<Longrightarrow> bump p d = (v, d') \<Longrightarrow>
      wf d' \<and> v = version d p + 1 \<and> version d' = (version d)(p := v)"
begin

lemma lock_result:
  "wf d \<Longrightarrow> lock p d = Inr ((v, m), d') \<Longrightarrow> v = version d p \<and> wf d' \<and> version d' = version d"
  using lock_ok [of d p] by auto

lemma accepted_command:
  assumes "wf d" "lock p d = Inr ((v, m), d1)" "bump p d1 = (w, d2)"
  shows "w = v + 1 \<and> version d2 p = v + 1 \<and> (\<forall>q. q \<noteq> p \<longrightarrow> version d2 q = version d q)"
  using lock_result [OF assms(1,2)] bump_ok [OF _ assms(3)] by auto

lemma rejected_command:
  assumes "wf d" "lock p d = Inr ((v, m), d1)" "release p d1 = Inr d2"
  shows "version d2 = version d"
  using lock_result [OF assms(1,2)] release_ok [of d1 p] assms(3) by auto

end

lemma graph_version_of_append:
  "gs_project_id g \<notin> gs_project_id ` set (db_graph_states d) \<Longrightarrow>
   graph_version_of (d\<lparr>db_graph_states := db_graph_states d @ [g]\<rparr>) =
     (graph_version_of d)(gs_project_id g := gs_graph_version g)"
  by (rule ext) (simp add: graph_version_of_def find_key_append)

lemma graph_version_of_absent:
  "p \<notin> gs_project_id ` set (db_graph_states d) \<Longrightarrow> graph_version_of d p = 0"
  by (simp add: graph_version_of_def flip: find_key_None_iff)

lemma locked_graph_state_find:
  "graph_states_unique d \<Longrightarrow>
   locked_graph_state d p = Inr (find (\<lambda>g. gs_project_id g = p) (db_graph_states d))"
  by (simp add: locked_graph_state_def one_or_none_filter_key)

lemma lock_project_graph_state_ok:
  assumes "graph_states_unique d"
  shows "\<exists>m d'. lock_project_graph_state p now d = Inr ((graph_version_of d p, m), d')
    \<and> graph_states_unique d' \<and> graph_version_of d' = graph_version_of d"
proof (cases "find (\<lambda>g. gs_project_id g = p) (db_graph_states d)")
  case None
  then have "p \<notin> gs_project_id ` set (db_graph_states d)" by (simp add: find_key_None_iff)
  with None assms show ?thesis
    by (intro exI [of _ True]) (simp add: lock_project_graph_state_def locked_graph_state_find
        graph_version_of_append graph_version_of_absent Let_def fun_upd_idem)
next
  case (Some g)
  with assms show ?thesis
    by (intro exI [of _ False])
      (simp add: lock_project_graph_state_def locked_graph_state_find graph_version_of_def)
qed

lemma release_unmutated_graph_state_ok:
  assumes "graph_states_unique d"
  shows "\<exists>d'. release_unmutated_graph_state p d = Inr d' \<and> graph_states_unique d'
    \<and> graph_version_of d' = graph_version_of d"
proof (cases "find (\<lambda>g. gs_project_id g = p) (db_graph_states d)")
  case None
  with assms show ?thesis
    by (simp add: release_unmutated_graph_state_def locked_graph_state_find)
next
  case (Some g)
  with assms show ?thesis
    by (auto simp: release_unmutated_graph_state_def locked_graph_state_find
        graph_version_of_def fun_eq_iff distinct_map_filter find_filter_neq)
qed

lemma bump_graph_version_ok:
  assumes "graph_states_unique d" and bump: "bump_graph_version p now d = (v, d')"
  shows "graph_states_unique d' \<and> v = graph_version_of d p + 1
    \<and> graph_version_of d' = (graph_version_of d)(p := v)"
proof (cases "find (\<lambda>g. gs_project_id g = p) (db_graph_states d)")
  case None
  then have "p \<notin> gs_project_id ` set (db_graph_states d)" by (simp add: find_key_None_iff)
  with None assms show ?thesis
    by (auto simp: bump_graph_version_def graph_version_of_append graph_version_of_absent)
next
  case (Some g)
  then have g: "gs_project_id g = p" by (auto dest: find_SomeD)
  from Some bump have d': "d' = d\<lparr>db_graph_states := update_where (\<lambda>g. gs_project_id g = p)
        (\<lambda>g. g\<lparr>gs_graph_version := gs_graph_version g + 1, gs_updated_at := now\<rparr>) (db_graph_states d)\<rparr>"
    and v: "v = gs_graph_version g + 1"
    by (simp_all add: bump_graph_version_def)
  have "graph_version_of d' q = ((graph_version_of d)(p := v)) q" for q
  proof (cases "find (\<lambda>h. gs_project_id h = q) (db_graph_states d)")
    case None
    with Some show ?thesis
      by (auto simp: d' graph_version_of_def find_update_where_key)
  next
    case (Some h)
    then have "gs_project_id h = q" by (auto dest: find_SomeD)
    with Some \<open>find _ _ = Some g\<close> show ?thesis
      by (auto simp: d' v graph_version_of_def find_update_where_key)
  qed
  with Some v assms(1) show ?thesis
    by (simp add: d' map_key_update_where fun_eq_iff) (simp add: graph_version_of_def)
qed

interpretation graph_register: version_register graph_version_of graph_states_unique
  "\<lambda>p. lock_project_graph_state p now" release_unmutated_graph_state "\<lambda>p. bump_graph_version p now"
  by unfold_locales
    (rule lock_project_graph_state_ok release_unmutated_graph_state_ok bump_graph_version_ok, assumption+)+

section \<open>Properties of the identifiers\<close>

lemma public_identifier_inj: "inj (\<lambda>s. public_identifier (IdStr s))"
proof (rule injI)
  fix s t
  assume eq: "public_identifier (IdStr s) = public_identifier (IdStr t)"
  show "s = t"
  proof (cases "canonical_integer s \<and> in_int64 (parse_int s)")
    case True
    with eq have "canonical_integer t" "parse_int s = parse_int t" by (auto split: if_splits)
    with True show ?thesis by (metis canonical_integer_int_str)
  next
    case False
    with eq show ?thesis by (auto split: if_splits)
  qed
qed

section \<open>Properties of the delivery state\<close>

text \<open>The invariant of the table: one row per meeting, and a SUCCEEDED row carries the graph
  version and the summary version Java needs.\<close>

definition delivery_key :: "analysis_delivery_state \<Rightarrow> string \<times> string" where
  "delivery_key s = (dl_project_id s, dl_external_meeting_id s)"

definition deliveries_ok :: "db \<Rightarrow> bool" where
  "deliveries_ok d \<longleftrightarrow> distinct (map delivery_key (db_deliveries d))
     \<and> (\<forall>s \<in> set (db_deliveries d). dl_status s = DL_SUCCEEDED \<longrightarrow>
          dl_required_graph_version s \<noteq> None \<and> dl_required_summary_version s \<noteq> None)"

text \<open>The state of one meeting, and the statuses announced for it so far.\<close>

definition delivery_of :: "db \<Rightarrow> string \<Rightarrow> string \<Rightarrow> analysis_delivery_state option" where
  "delivery_of d pid mid = find (\<lambda>s. delivery_key s = (pid, mid)) (db_deliveries d)"

definition announced :: "db \<Rightarrow> string \<Rightarrow> string \<Rightarrow> json list" where
  "announced d pid mid = map (\<lambda>e. jget (ob_payload e) ''status'')
     (filter (\<lambda>e. ob_event_type e = ''ANALYSIS_STATUS_CHANGED''
        \<and> ob_aggregate_id e = Txt (pid @ '':'' @ mid)) (db_outbox d))"

abbreviation status_json :: "delivery_status \<Rightarrow> json" where
  "status_json st \<equiv> JStr (Txt (delivery_status_value st))"

abbreviation fresh_delivery :: "string \<Rightarrow> string \<Rightarrow> time \<Rightarrow> analysis_delivery_state" where
  "fresh_delivery pid mid now \<equiv>
     \<lparr>dl_project_id = pid, dl_external_meeting_id = mid, dl_status = DL_PROCESSING,
      dl_required_graph_version = None, dl_required_summary_version = None,
      dl_failure_code = None, dl_failure_message = None, dl_updated_at = now\<rparr>"

lemma is_delivery_key: "is_delivery pid mid = (\<lambda>s. delivery_key s = (pid, mid))"
  by (auto simp: is_delivery_def delivery_key_def)

lemma deliveries_ok_distinct: "deliveries_ok d \<Longrightarrow> distinct (map delivery_key (db_deliveries d))"
  by (simp add: deliveries_ok_def)

lemma delivery_state_of:
  "deliveries_ok d \<Longrightarrow> delivery_state d pid mid = Inr (delivery_of d pid mid)"
  by (simp add: delivery_state_def delivery_of_def is_delivery_key one_or_none_filter_key
      deliveries_ok_distinct)

lemma delivery_ofD: "delivery_of d pid mid = Some s \<Longrightarrow>
   s \<in> set (db_deliveries d) \<and> dl_project_id s = pid \<and> dl_external_meeting_id s = mid"
  by (auto simp: delivery_of_def delivery_key_def dest: find_SomeD)

lemma stage_outbox_db [simp]:
  "db_deliveries (snd (stage_outbox a b c p v j now d)) = db_deliveries d"
  "db_nodes (snd (stage_outbox a b c p v j now d)) = db_nodes d"
  "db_graph_states (snd (stage_outbox a b c p v j now d)) = db_graph_states d"
  "db_outbox (snd (stage_outbox a b c p v j now d)) = db_outbox d @ [fst (stage_outbox a b c p v j now d)]"
  by (simp_all add: stage_outbox_def uuid4_def Let_def)

lemma stage_outbox_fields [simp]:
  "ob_payload (fst (stage_outbox a b c p v j now d)) = j"
  "ob_event_type (fst (stage_outbox a b c p v j now d)) = a"
  "ob_aggregate_id (fst (stage_outbox a b c p v j now d)) = c"
  "ob_status (fst (stage_outbox a b c p v j now d)) = OB_PENDING"
  by (simp_all add: stage_outbox_def uuid4_def Let_def)

lemma delivery_of_cong: "db_deliveries d = db_deliveries d' \<Longrightarrow> delivery_of d = delivery_of d'"
  by (intro ext) (simp add: delivery_of_def)

lemma deliveries_ok_cong: "db_deliveries d = db_deliveries d' \<Longrightarrow> deliveries_ok d = deliveries_ok d'"
  by (simp add: deliveries_ok_def)

lemma stage_analysis_event_db:
  "db_deliveries (snd (stage_analysis_event s now d)) = db_deliveries d"
  "announced (snd (stage_analysis_event s now d)) (dl_project_id s) (dl_external_meeting_id s) =
     announced d (dl_project_id s) (dl_external_meeting_id s) @ [status_json (dl_status s)]"
  by (simp_all add: stage_analysis_event_def stage_v1_def announced_def delivery_payload_def)

lemma delivery_of_stage [simp]: "delivery_of (snd (stage_analysis_event s now d)) = delivery_of d"
  by (rule delivery_of_cong) (rule stage_analysis_event_db)

lemma deliveries_ok_stage [simp]: "deliveries_ok (snd (stage_analysis_event s now d)) = deliveries_ok d"
  by (rule deliveries_ok_cong) (rule stage_analysis_event_db)

lemma announced_put [simp]: "announced (put_delivery s d) = announced d"
  by (intro ext) (simp add: announced_def put_delivery_def)

lemma delivery_of_put:
  "delivery_of (put_delivery s d) pid mid =
     (if delivery_key s = (pid, mid) then map_option (\<lambda>_. s) (delivery_of d pid mid)
      else delivery_of d pid mid)"
  by (auto simp: delivery_of_def put_delivery_def is_delivery_key find_put_key
      simp flip: delivery_key_def)

definition versions_ok :: "analysis_delivery_state \<Rightarrow> bool" where
  "versions_ok s \<longleftrightarrow> (dl_status s = DL_SUCCEEDED \<longrightarrow>
     dl_required_graph_version s \<noteq> None \<and> dl_required_summary_version s \<noteq> None)"

lemma deliveries_ok_put: "deliveries_ok d \<Longrightarrow> versions_ok s \<Longrightarrow> deliveries_ok (put_delivery s d)"
  by (auto simp: deliveries_ok_def put_delivery_def is_delivery_key map_key_put_key versions_ok_def
      simp flip: delivery_key_def dest!: in_put_key)

lemma deliveries_ok_versions: "deliveries_ok d \<Longrightarrow> delivery_of d pid mid = Some s \<Longrightarrow> versions_ok s"
  by (auto simp: deliveries_ok_def versions_ok_def dest: delivery_ofD)

lemma deliveries_ok_append:
  "deliveries_ok d \<Longrightarrow> versions_ok s \<Longrightarrow> delivery_of d (dl_project_id s) (dl_external_meeting_id s) = None \<Longrightarrow>
   deliveries_ok (d\<lparr>db_deliveries := db_deliveries d @ [s]\<rparr>)"
  by (auto simp: deliveries_ok_def versions_ok_def delivery_of_def find_key_None_iff
      simp flip: delivery_key_def)

lemma delivery_of_append:
  "delivery_of d (dl_project_id s) (dl_external_meeting_id s) = None \<Longrightarrow>
   delivery_of (d\<lparr>db_deliveries := db_deliveries d @ [s]\<rparr>) pid mid =
     (if delivery_key s = (pid, mid) then Some s else delivery_of d pid mid)"
  by (auto simp: delivery_of_def find_key_None_iff find_key_append simp flip: delivery_key_def)

text \<open>The abstract delivery: completion as a function on one state.\<close>

definition completes :: "analysis_delivery_state \<Rightarrow> bool" where
  "completes s \<longleftrightarrow> dl_status s = DL_PROCESSING
     \<and> dl_required_graph_version s \<noteq> None \<and> dl_required_summary_version s \<noteq> None"

definition completed :: "time \<Rightarrow> analysis_delivery_state \<Rightarrow> analysis_delivery_state" where
  "completed now s = (if completes s then s\<lparr>dl_status := DL_SUCCEEDED, dl_updated_at := now\<rparr> else s)"

definition delivered :: "db \<Rightarrow> string \<Rightarrow> string \<Rightarrow> analysis_delivery_state \<Rightarrow> json list \<Rightarrow> db \<Rightarrow> bool" where
  "delivered d pid mid s news d' \<longleftrightarrow>
     deliveries_ok d' \<and> delivery_of d' pid mid = Some s \<and> announced d' pid mid = announced d pid mid @ news
   \<and> (\<forall>p m. (p, m) \<noteq> (pid, mid) \<longrightarrow> delivery_of d' p m = delivery_of d p m)"

lemma delivered_putI:
  assumes "deliveries_ok d" "delivery_of d pid mid = Some s0" "versions_ok s" "delivery_key s = (pid, mid)"
  shows "delivered d pid mid s [] (put_delivery s d)"
    and "delivered d pid mid s [status_json (dl_status s)] (snd (stage_analysis_event s now (put_delivery s d)))"
  using assms stage_analysis_event_db(2) [of s now "put_delivery s d"]
  by (auto simp: delivered_def deliveries_ok_put delivery_of_put delivery_key_def)

lemma delivered_addI:
  assumes "deliveries_ok d" "delivery_of d pid mid = None" "versions_ok s" "delivery_key s = (pid, mid)"
  shows "delivered d pid mid s [status_json (dl_status s)]
    (snd (stage_analysis_event s now (d\<lparr>db_deliveries := db_deliveries d @ [s]\<rparr>)))"
  using assms stage_analysis_event_db(2) [of s now "d\<lparr>db_deliveries := db_deliveries d @ [s]\<rparr>"]
  by (auto simp: delivered_def deliveries_ok_append delivery_of_append delivery_key_def announced_def)

lemma delivered_refl: "deliveries_ok d \<Longrightarrow> delivery_of d pid mid = Some s \<Longrightarrow> delivered d pid mid s [] d"
  by (simp add: delivered_def)

lemma delivered_trans:
  "delivered d pid mid s1 n1 d1 \<Longrightarrow> delivered d1 pid mid s2 n2 d2 \<Longrightarrow> delivered d pid mid s2 (n1 @ n2) d2"
  by (simp add: delivered_def)

lemma try_complete_analysis_refines:
  assumes "deliveries_ok d" "delivery_of d pid mid = Some s"
  shows "\<exists>d'. try_complete_analysis pid mid now d = Inr (Some (completed now s), d')
    \<and> delivered d pid mid (completed now s) (if completes s then [status_json DL_SUCCEEDED] else []) d'"
proof -
  have key: "dl_project_id s = pid" "dl_external_meeting_id s = mid" using assms by (auto dest: delivery_ofD)
  show ?thesis
  proof (cases "completes s")
    case True
    with assms key delivered_putI(2) [OF assms, of "completed now s" now] show ?thesis
      by (auto simp: try_complete_analysis_def delivery_state_of completes_def completed_def Let_def
          versions_ok_def delivery_key_def)
  next
    case False
    with assms delivered_refl [OF assms] show ?thesis
      by (cases "dl_status s")
        (auto simp: try_complete_analysis_def delivery_state_of completes_def completed_def)
  qed
qed

text \<open>The state a readiness report starts from, and the announcement of its start.\<close>

definition started :: "db \<Rightarrow> string \<Rightarrow> string \<Rightarrow> time \<Rightarrow> analysis_delivery_state" where
  "started d pid mid now = (case delivery_of d pid mid of None \<Rightarrow> fresh_delivery pid mid now | Some s \<Rightarrow> s)"

definition start_news :: "db \<Rightarrow> string \<Rightarrow> string \<Rightarrow> json list" where
  "start_news d pid mid = (if delivery_of d pid mid = None then [status_json DL_PROCESSING] else [])"

lemma delivery_or_start_refines:
  assumes "deliveries_ok d"
  shows "\<exists>d'. delivery_or_start pid mid now d = Inr (started d pid mid now, d')
    \<and> delivered d pid mid (started d pid mid now) (start_news d pid mid) d'"
proof (cases "delivery_of d pid mid")
  case None
  with assms delivered_addI [OF assms None, of "fresh_delivery pid mid now" now] show ?thesis
    by (auto simp: delivery_or_start_def stage_analysis_processing_def delivery_state_of Let_def
        started_def start_news_def versions_ok_def delivery_key_def)
next
  case (Some s)
  with assms delivered_refl [OF assms Some] show ?thesis
    by (auto simp: delivery_or_start_def delivery_state_of started_def start_news_def)
qed

lemma started_key: "delivery_key (started d pid mid now) = (pid, mid)"
  by (auto simp: started_def delivery_key_def split: option.splits dest: delivery_ofD)

lemma started_versions: "deliveries_ok d \<Longrightarrow> versions_ok (started d pid mid now)"
  by (cases "delivery_of d pid mid") (auto simp: started_def versions_ok_def dest: deliveries_ok_versions)

text \<open>Both readiness reports are one update of the started state followed by a completion.\<close>

lemma report_refines:
  fixes pid mid :: string and now :: time
  assumes ok: "deliveries_ok d"
    and f: "\<And>s. delivery_key (f s) = delivery_key s" "\<And>s. versions_ok s \<Longrightarrow> versions_ok (f s)"
  defines "s \<equiv> f (started d pid mid now)"
  shows "\<exists>d'. rbind (delivery_or_start pid mid now d) (\<lambda>(s, d1).
       rbind (try_complete_analysis pid mid now (put_delivery (f s) d1)) (\<lambda>(_, d2). Inr d2)) = Inr d'
    \<and> delivered d pid mid (completed now s)
        (start_news d pid mid @ (if completes s then [status_json DL_SUCCEEDED] else [])) d'"
proof -
  obtain d1 where d1: "delivery_or_start pid mid now d = Inr (started d pid mid now, d1)"
      "delivered d pid mid (started d pid mid now) (start_news d pid mid) d1"
    using delivery_or_start_refines [OF ok] by blast
  then have ok1: "deliveries_ok d1" "delivery_of d1 pid mid = Some (started d pid mid now)"
    by (auto simp: delivered_def)
  have put: "delivered d1 pid mid s [] (put_delivery s d1)"
    using delivered_putI(1) [OF ok1] started_key [of d pid mid now] started_versions [OF ok, of pid mid now] f
    by (simp add: s_def)
  then have ok2: "deliveries_ok (put_delivery s d1)" "delivery_of (put_delivery s d1) pid mid = Some s"
    by (auto simp: delivered_def)
  obtain d2 where d2: "try_complete_analysis pid mid now (put_delivery s d1) = Inr (Some (completed now s), d2)"
      "delivered (put_delivery s d1) pid mid (completed now s)
         (if completes s then [status_json DL_SUCCEEDED] else []) d2"
    using try_complete_analysis_refines [OF ok2] by blast
  have "delivered d pid mid (completed now s)
      (start_news d pid mid @ (if completes s then [status_json DL_SUCCEEDED] else [])) d2"
    using delivered_trans [OF delivered_trans [OF d1(2) put] d2(2)] by simp
  with d1(1) d2(1) show ?thesis by (simp add: s_def)
qed

lemma mark_graph_ready_refines:
  fixes pid mid :: string and now :: time and v :: nat
  assumes "deliveries_ok d"
  defines "s \<equiv> (started d pid mid now)\<lparr>dl_required_graph_version := Some v, dl_updated_at := now\<rparr>"
  shows "\<exists>d'. mark_graph_ready pid mid v now d = Inr d'
    \<and> delivered d pid mid (completed now s)
        (start_news d pid mid @ (if completes s then [status_json DL_SUCCEEDED] else [])) d'"
  unfolding mark_graph_ready_def s_def
  by (rule report_refines [OF assms(1)]) (auto simp: delivery_key_def versions_ok_def)

lemma mark_summary_ready_refines:
  fixes now :: time and m :: meeting_summary
  assumes "deliveries_ok d"
  defines "pid \<equiv> ms_project_id m" and "mid \<equiv> ms_external_meeting_id m"
  defines "s \<equiv> (started d pid mid now)\<lparr>dl_required_summary_version := Some (ms_summary_version m),
      dl_updated_at := now\<rparr>"
  shows "\<exists>d'. mark_summary_ready m now d = Inr d'
    \<and> delivered d pid mid (completed now s)
        (start_news d pid mid @ (if completes s then [status_json DL_SUCCEEDED] else [])) d'"
  unfolding mark_summary_ready_def s_def pid_def mid_def Let_def
  by (rule report_refines [OF assms(1)]) (auto simp: delivery_key_def versions_ok_def)





section \<open>Properties of the graph version\<close>

text \<open>C37. The version protocol of a command. The lock reports the current version; a command that
  changes the graph raises the version of its project by exactly one and leaves the other
  projects; and a command that changes nothing hands the lock row back, which leaves the table
  as it was (absence of the row is version 0).\<close>

theorem graph_version_protocol:
  assumes "graph_states_unique d" "\<forall>g \<in> set (db_graph_states d). gs_graph_version g \<noteq> 0"
    and "lock_project_graph_state pid now d = Inr ((v, m), d1)"
  shows "v = graph_version_of d pid
    \<and> (case bump_graph_version pid now d1 of (w, d2) \<Rightarrow> w = v + 1
         \<and> (\<forall>q. graph_version_of d2 q = (if q = pid then v + 1 else graph_version_of d q)))
    \<and> release_unmutated_graph_state pid d1 = Inr d"
proof -
  have "release_unmutated_graph_state pid d1 = Inr d"
  proof (cases "find (\<lambda>g. gs_project_id g = pid) (db_graph_states d)")
    case None
    then have "pid \<notin> gs_project_id ` set (db_graph_states d)" by (simp add: find_key_None_iff)
    moreover from this have "filter (\<lambda>g. gs_project_id g \<noteq> pid) (db_graph_states d) = db_graph_states d"
      by (auto intro: filter_True)
    ultimately show ?thesis using None assms(1,3)
      by (auto simp: lock_project_graph_state_def release_unmutated_graph_state_def
          locked_graph_state_find find_append)
  next
    case (Some g)
    then have "gs_graph_version g \<noteq> 0" using assms(2) by (auto dest: find_SomeD)
    moreover from Some assms(1,3) have "d1 = d"
      by (simp add: lock_project_graph_state_def locked_graph_state_find)
    ultimately show ?thesis using Some assms(1)
      by (simp add: release_unmutated_graph_state_def locked_graph_state_find)
  qed
  moreover have "v = graph_version_of d pid"
    using graph_register.lock_result [OF assms(1,3)] by simp
  ultimately show ?thesis
    using graph_register.accepted_command [OF assms(1,3)]
    by (auto split: prod.split)
qed

theorem graph_version_protocol_witness:
  "release_unmutated_graph_state ''7''
     (empty_db\<lparr>db_graph_states := [\<lparr>gs_project_id = ''7'', gs_graph_version = 0, gs_updated_at = 5\<rparr>]\<rparr>)
   = Inr empty_db"
  using graph_version_protocol [of empty_db "''7''" 5 0 True
    "empty_db\<lparr>db_graph_states := [\<lparr>gs_project_id = ''7'', gs_graph_version = 0, gs_updated_at = 5\<rparr>]\<rparr>"]
  by (simp add: empty_db_def lock_project_graph_state_def locked_graph_state_def)

section \<open>Round trip of the identifiers\<close>

lemma nat_str_decimal: "0 < n \<Longrightarrow> positive_decimal (nat_str n)"
proof (induction n rule: nat_str.induct)
  case (1 n)
  show ?case
  proof (cases "n < 10")
    case True
    with "1.prems" have "digit_char n \<noteq> CHR ''0''"
      using digit_val_digit_char [of n] digit_val_zero_iff [of "digit_char n"] is_digit_digit_char by force
    with True show ?thesis by (simp add: nat_str.simps [of n] is_digit_digit_char)
  next
    case False
    then have "positive_decimal (nat_str (n div 10))" using "1.IH" by simp
    moreover from this have "nat_str (n div 10) \<noteq> []" by auto
    ultimately show ?thesis using False
      by (simp add: nat_str.simps [of n] positive_decimal_snoc is_digit_digit_char)
  qed
qed

lemma positive_decimal_no_minus: "positive_decimal (c # cs) \<Longrightarrow> c \<noteq> CHR ''-''"
  by (auto simp: is_digit_def)

lemma int_str_canonical: "canonical_integer (int_str i) \<and> parse_int (int_str i) = i"
proof (cases "i = 0")
  case True
  have "int_str 0 = ''0''" by (simp add: int_str_def nat_str.simps digit_char_0)
  with True show ?thesis
    by (simp add: canonical_integer_def parse_int_def parse_digits_def digit_val_def)
next
  case False
  show ?thesis
  proof (cases "i < 0")
    case True
    then have "positive_decimal (nat_str (nat (- i)))" by (intro nat_str_decimal) simp
    with True show ?thesis
      by (simp add: int_str_def canonical_integer_def parse_int_def parse_digits_nat_str)
  next
    case nonneg: False
    with False have pos: "positive_decimal (nat_str (nat i))" by (intro nat_str_decimal) simp
    then obtain c cs where c: "nat_str (nat i) = c # cs" by (cases "nat_str (nat i)") auto
    with pos have "c \<noteq> CHR ''-''" using positive_decimal_no_minus by metis
    with nonneg pos c parse_digits_nat_str [of "nat i"] show ?thesis
      by (simp add: int_str_def canonical_integer_def parse_int_def)
  qed
qed

lemma strip_no_space: "(\<And>c. c \<in> set s \<Longrightarrow> \<not> is_space c) \<Longrightarrow> strip s = s"
proof -
  assume s: "\<And>c. c \<in> set s \<Longrightarrow> \<not> is_space c"
  have "dropWhile is_space t = t" if "set t = set s" for t
    using s [of "hd t"] that hd_in_set [of t] by (auto simp: dropWhile_eq_self_iff)
  then show "strip s = s" by (simp add: strip_def)
qed

lemma positive_decimal_digits: "positive_decimal s \<Longrightarrow> c \<in> set s \<Longrightarrow> is_digit c"
  by (cases s) auto

lemma canonical_integer_strip: "canonical_integer s \<Longrightarrow> s \<noteq> [] \<and> strip s = s"
proof -
  assume s: "canonical_integer s"
  have chars: "is_digit c \<or> c = CHR ''-'' \<Longrightarrow> \<not> is_space c" for c
    by (auto simp: is_digit_def is_space_def)
  from s consider "s = ''0''" | cs where "s = CHR ''-'' # cs" "positive_decimal cs" | "positive_decimal s"
    by (cases s) (auto simp: canonical_integer_def simp del: positive_decimal.simps split: if_splits)
  then have "s \<noteq> [] \<and> (\<forall>c \<in> set s. is_digit c \<or> c = CHR ''-'')"
    by cases (auto simp: is_digit_def dest: positive_decimal_digits)
  with chars show ?thesis by (blast intro: strip_no_space)
qed

text \<open>Identifiers keep their identity between storage and the events Java reads: the public form
  of stored identifiers is injective, and a 64-bit integer identifier accepted for storage comes
  back as the same number, while one outside the range is refused.\<close>

theorem identifier_roundtrip:
  "inj (\<lambda>s. public_identifier (IdStr s))
   \<and> (\<forall>i. (case canonical_storage_identifier (IdInt i) of
          Inr s \<Rightarrow> in_int64 i \<and> public_identifier (IdStr s) = JInt i
            \<and> canonical_storage_identifier (IdStr s) = Inr s
        | Inl e \<Rightarrow> \<not> in_int64 i))"
  using public_identifier_inj int_str_canonical canonical_integer_strip [of "int_str _"]
  by (auto simp: in_int64_def split: sum.splits if_splits)

end
