(* ===== verification/Revisions.thy ===== *)
theory Revisions
  imports Event_Contract "HOL-Library.Multiset"
begin

text \<open>
  \<open>pipeline/revisions.py\<close>, \<open>storage/evidence.py\<close> and the text contract of
  \<open>retrieval/embedding.py\<close>: immutable node revisions, the evidence they rest on, and the
  status of the embeddings after a revision. The parameter \<open>L\<close> is the standard library's
  \<open>json.dumps\<close> and SHA-256.
\<close>

section \<open>Evidence\<close>

record evidence_spec =
  sp_external_meeting_id :: "string option"
  sp_transcript_segment_id :: "uuid option"
  sp_source_segment_id :: "string option"
  sp_speaker_label :: "string option"
  sp_start_ms :: "int option"
  sp_end_ms :: "int option"
  sp_quote_start :: "int option"
  sp_quote_end :: "int option"
  sp_quoted_text :: string
  sp_source_type :: string
  sp_normalization_version :: "string option"
  sp_support_type :: string
  sp_legacy_imported :: bool

abbreviation jstr :: "string \<Rightarrow> json" where
  "jstr s \<equiv> JStr (Txt s)"

definition canonical_hash :: "stdlib \<Rightarrow> json \<Rightarrow> string" where
  "canonical_hash L payload = sha256_hexdigest L (json_dumps L payload)"

definition evidence_payload :: "string \<Rightarrow> evidence_spec \<Rightarrow> json" where
  "evidence_payload project_id spec = JObj
     [(''version'', jstr ''revision-evidence-v1''),
      (''projectId'', jstr project_id),
      (''meetingId'', jopt jstr (sp_external_meeting_id spec)),
      (''transcriptSegmentId'', jopt (\<lambda>u. JStr (UuidTxt u)) (sp_transcript_segment_id spec)),
      (''sourceSegmentId'', jopt jstr (sp_source_segment_id spec)),
      (''speakerLabel'', jopt jstr (sp_speaker_label spec)),
      (''startMs'', jopt JInt (sp_start_ms spec)),
      (''endMs'', jopt JInt (sp_end_ms spec)),
      (''quoteStart'', jopt JInt (sp_quote_start spec)),
      (''quoteEnd'', jopt JInt (sp_quote_end spec)),
      (''quotedText'', jstr (sp_quoted_text spec)),
      (''sourceType'', jstr (sp_source_type spec)),
      (''normalizationVersion'', jopt jstr (sp_normalization_version spec))]"

definition evidence_hash :: "stdlib \<Rightarrow> string \<Rightarrow> evidence_spec \<Rightarrow> string" where
  "evidence_hash L project_id spec = canonical_hash L (evidence_payload project_id spec)"

text \<open>Python truthiness of a JSON value, and \<open>a or b\<close> on JSON values.\<close>

fun json_truthy :: "json \<Rightarrow> bool" where
  "json_truthy JNull = False"
| "json_truthy (JBool b) = b"
| "json_truthy (JInt i) = (i \<noteq> 0)"
| "json_truthy (JStr (Txt s)) = (s \<noteq> [])"
| "json_truthy (JStr _) = True"
| "json_truthy (JTime _) = True"
| "json_truthy (JFloat r) = (r \<noteq> ''0.0'' \<and> r \<noteq> ''-0.0'')"
| "json_truthy (JList xs) = (xs \<noteq> [])"
| "json_truthy (JObj kvs) = (kvs \<noteq> [])"

text \<open>\<open>metadata = segment.normalization_metadata or {}\<close>; a value that is not an object has no
  version.\<close>

definition normalization_version :: "stdlib \<Rightarrow> transcript_segment \<Rightarrow> string option" where
  "normalization_version L segment =
     (case ts_normalization_metadata segment of
        Some (JObj kvs) \<Rightarrow>
          (let a = jget (JObj kvs) ''dictionary_version'';
               v = (if json_truthy a then a else jget (JObj kvs) ''version'')
           in if json_truthy v then Some (py_str L v) else None)
      | _ \<Rightarrow> None)"

text \<open>\<open>text[a:b]\<close> for \<open>0 <= a < b <= len(text)\<close>.\<close>

definition slice :: "string \<Rightarrow> int \<Rightarrow> int \<Rightarrow> string" where
  "slice t a b = take (nat (b - a)) (drop (nat a) t)"

text \<open>\<open>a or b\<close> on an optional string and a string.\<close>

definition or_str :: "string option \<Rightarrow> string \<Rightarrow> string" where
  "or_str a b = (case a of Some s \<Rightarrow> if s = [] then b else s | None \<Rightarrow> b)"

definition span_of :: "candidate_evidence \<Rightarrow> string \<Rightarrow> (int \<times> int) option" where
  "span_of row t =
     (case (ce_quote_start row, ce_quote_end row) of
        (Some a, Some b) \<Rightarrow>
          if 0 \<le> a \<and> a < b \<and> b \<le> int (length t) \<and> slice t a b = ce_quote row then Some (a, b) else None
      | _ \<Rightarrow> None)"

text \<open>The body of the loop: a specification, or \<open>None\<close> with the warning; \<open>first\<close> is
  \<open>not specs\<close>.\<close>

definition resolve_candidate_evidence ::
  "stdlib \<Rightarrow> db \<Rightarrow> candidate \<Rightarrow> bool \<Rightarrow> candidate_evidence \<Rightarrow> evidence_spec option result" where
  "resolve_candidate_evidence L d c first row =
     (let mid = or_str (ce_source_meeting_id row) (cd_external_meeting_id c) in
      rbind (one_or_none (filter (\<lambda>s. ts_project_id s = cd_project_id c
               \<and> ts_external_meeting_id s = mid \<and> ts_segment_id s = ce_segment_id row) (db_segments d)))
       (\<lambda>seg. case seg of
          None \<Rightarrow> Inr None
        | Some s \<Rightarrow>
            (let t = or_str (ts_normalized_text s) (ts_text s) in
             case span_of row t of
               None \<Rightarrow> Inr None
             | Some (a, b) \<Rightarrow> Inr (Some
                 \<lparr>sp_external_meeting_id = Some mid, sp_transcript_segment_id = Some (ts_id s),
                  sp_source_segment_id = Some (ts_segment_id s), sp_speaker_label = ts_speaker_label s,
                  sp_start_ms = ts_start_ms s, sp_end_ms = ts_end_ms s,
                  sp_quote_start = Some a, sp_quote_end = Some b, sp_quoted_text = slice t a b,
                  sp_source_type = ''TRANSCRIPT'', sp_normalization_version = normalization_version L s,
                  sp_support_type = (if first then ''PRIMARY'' else ''SUPPORTING''),
                  sp_legacy_imported = False\<rparr>))))"

fun validate_rows ::
  "stdlib \<Rightarrow> db \<Rightarrow> candidate \<Rightarrow> candidate_evidence list \<Rightarrow> evidence_spec list \<Rightarrow> json list
    \<Rightarrow> (evidence_spec list \<times> json list) result" where
  "validate_rows L d c [] specs warnings = Inr (specs, warnings)"
| "validate_rows L d c (row # rows) specs warnings =
     rbind (resolve_candidate_evidence L d c (specs = []) row) (\<lambda>r.
       case r of
         None \<Rightarrow> validate_rows L d c rows specs (warnings @ [JObj
             [(''code'', jstr ''INVALID_EVIDENCE_SPAN''), (''candidateId'', JStr (UuidTxt (cd_id c))),
              (''segmentId'', jstr (ce_segment_id row))]])
       | Some spec \<Rightarrow> validate_rows L d c rows (specs @ [spec]) warnings)"

definition validated_candidate_evidence ::
  "stdlib \<Rightarrow> db \<Rightarrow> candidate \<Rightarrow> (evidence_spec list \<times> json list) result" where
  "validated_candidate_evidence L d c = validate_rows L d c (cd_evidence c) [] []"

definition user_assertion_evidence :: "string \<Rightarrow> evidence_spec result" where
  "user_assertion_evidence t =
     (let assertion = strip t in
      if assertion = [] then Inl (EvidenceValidationError ''user assertion evidence must not be blank'')
      else Inr \<lparr>sp_external_meeting_id = None, sp_transcript_segment_id = None,
        sp_source_segment_id = None, sp_speaker_label = None, sp_start_ms = None, sp_end_ms = None,
        sp_quote_start = None, sp_quote_end = None, sp_quoted_text = assertion,
        sp_source_type = ''USER_ASSERTION'', sp_normalization_version = None,
        sp_support_type = ''USER_ASSERTION'', sp_legacy_imported = False\<rparr>)"

definition get_or_create_evidence ::
  "stdlib \<Rightarrow> string \<Rightarrow> evidence_spec \<Rightarrow> time \<Rightarrow> db \<Rightarrow> (evidence \<times> db) result" where
  "get_or_create_evidence L pid spec now d =
     (let h = evidence_hash L pid spec in
      rbind (one_or_none (filter (\<lambda>e. ev_project_id e = pid \<and> ev_immutable_hash e = h) (db_evidence d)))
       (\<lambda>existing. case existing of
          Some e \<Rightarrow> Inr (e, d)
        | None \<Rightarrow>
            (let (i, d1) = uuid4 d;
                 e = \<lparr>ev_id = i, ev_project_id = pid, ev_external_meeting_id = sp_external_meeting_id spec,
                      ev_transcript_segment_id = sp_transcript_segment_id spec,
                      ev_source_segment_id = sp_source_segment_id spec,
                      ev_speaker_label = sp_speaker_label spec, ev_start_ms = sp_start_ms spec,
                      ev_end_ms = sp_end_ms spec, ev_quote_start = sp_quote_start spec,
                      ev_quote_end = sp_quote_end spec, ev_quoted_text = sp_quoted_text spec,
                      ev_source_type = sp_source_type spec, ev_immutable_hash = h,
                      ev_normalization_version = sp_normalization_version spec,
                      ev_legacy_imported = sp_legacy_imported spec, ev_created_at = now\<rparr>
             in Inr (e, d1\<lparr>db_evidence := db_evidence d1 @ [e]\<rparr>))))"

section \<open>The node evidence projection\<close>

definition build_evidence_key ::
  "stdlib \<Rightarrow> string \<Rightarrow> string \<Rightarrow> int option \<Rightarrow> int option \<Rightarrow> string option \<Rightarrow> string option \<Rightarrow> string" where
  "build_evidence_key L segment_id quote quote_start quote_end evidence_type source_meeting_id =
     canonical_hash L (JList
       [jstr ''node-evidence-v1'', jopt jstr source_meeting_id, jstr segment_id,
        jopt JInt quote_start, jopt JInt quote_end, jstr quote, jopt jstr evidence_type])"

text \<open>INSERT ... ON CONFLICT (node_id, evidence_key) DO NOTHING; the result says whether a row was
  inserted.\<close>

definition upsert_node_evidence ::
  "stdlib \<Rightarrow> uuid \<Rightarrow> string \<Rightarrow> string \<Rightarrow> int option \<Rightarrow> int option \<Rightarrow> string option \<Rightarrow> string option
    \<Rightarrow> db \<Rightarrow> bool \<times> db" where
  "upsert_node_evidence L node_id segment_id quote quote_start quote_end evidence_type source_meeting_id d =
     (let key = build_evidence_key L segment_id quote quote_start quote_end evidence_type source_meeting_id;
          (i, d1) = uuid4 d
      in if \<exists>r \<in> set (db_node_evidence d1). ne_node_id r = node_id \<and> ne_evidence_key r = key
         then (False, d1)
         else (True, d1\<lparr>db_node_evidence := db_node_evidence d1 @
                [\<lparr>ne_id = i, ne_node_id = node_id, ne_evidence_key = key, ne_segment_id = segment_id,
                  ne_quote = quote, ne_quote_start = quote_start, ne_quote_end = quote_end,
                  ne_evidence_type = evidence_type, ne_source_meeting_id = source_meeting_id\<rparr>]\<rparr>))"

section \<open>Revisions\<close>

text \<open>One round of the evidence loop. The primary key of \<open>node_revision_evidence\<close> is
  (project, revision, evidence): a second link to the same evidence is an \<open>IntegrityError\<close>.\<close>

definition link_evidence ::
  "stdlib \<Rightarrow> string \<Rightarrow> uuid \<Rightarrow> uuid \<Rightarrow> time \<Rightarrow> evidence_spec \<Rightarrow> db \<Rightarrow> db result" where
  "link_evidence L pid nid rid now spec d =
     rbind (get_or_create_evidence L pid spec now d) (\<lambda>(e, d1).
       if \<exists>l \<in> set (db_revision_evidence d1). re_project_id l = pid
            \<and> re_node_revision_id l = rid \<and> re_evidence_id l = ev_id e
       then Inl IntegrityError
       else
         (let d2 = d1\<lparr>db_revision_evidence := db_revision_evidence d1 @
                [\<lparr>re_project_id = pid, re_node_revision_id = rid, re_evidence_id = ev_id e,
                  re_support_type = sp_support_type spec, re_created_at = now\<rparr>]\<rparr>
          in Inr (snd (upsert_node_evidence L nid (or_str (sp_source_segment_id spec) ''user-assertion'')
               (sp_quoted_text spec) (sp_quote_start spec) (sp_quote_end spec)
               (Some (sp_source_type spec)) (sp_external_meeting_id spec) d2))))"

fun link_all_evidence ::
  "stdlib \<Rightarrow> string \<Rightarrow> uuid \<Rightarrow> uuid \<Rightarrow> time \<Rightarrow> evidence_spec list \<Rightarrow> db \<Rightarrow> db result" where
  "link_all_evidence L pid nid rid now [] d = Inr d"
| "link_all_evidence L pid nid rid now (s # specs) d =
     rbind (link_evidence L pid nid rid now s d) (link_all_evidence L pid nid rid now specs)"

text \<open>The arguments of \<open>create_node_revision\<close> besides the session and the node.\<close>

record revision_args =
  ra_title :: string
  ra_content :: string
  ra_node_type :: node_type
  ra_category :: string
  ra_due_date :: "string option"
  ra_created_by_type :: string
  ra_created_by_id :: "string option"
  ra_generation_run_id :: "uuid option"
  ra_evidence_specs :: "evidence_spec list"
  ra_requires_evidence :: bool
  ra_legacy_imported :: bool

text \<open>\<open>create_node_revision\<close>; \<open>n\<close> is the node row. The unique key (node_id, version) of
  \<open>node_revision\<close> makes a second revision with the same version an \<open>IntegrityError\<close>.\<close>

definition create_node_revision ::
  "stdlib \<Rightarrow> node \<Rightarrow> revision_args \<Rightarrow> time \<Rightarrow> db \<Rightarrow> (node_revision \<times> db) result" where
  "create_node_revision L n a now d =
     (let title = strip (ra_title a) in
      rguard (title = []) (GraphMutationValidationError ''node title must not be blank'')
      (rguard (ra_requires_evidence a \<and> ra_evidence_specs a = [])
        (EvidenceValidationError ''automatic Node revisions require at least one valid Evidence'')
      (let next_version = (if nd_current_revision_id n \<noteq> None then nd_version n + 1 else nd_version n);
           (i, d1) = uuid4 d;
           r = \<lparr>rv_id = i, rv_project_id = nd_project_id n, rv_node_id = nd_id n,
                rv_version = next_version, rv_title = title, rv_content = ra_content a,
                rv_node_type = ra_node_type a, rv_category = ra_category a,
                rv_due_date = ra_due_date a, rv_created_by_type = ra_created_by_type a,
                rv_created_by_id = ra_created_by_id a, rv_generation_run_id = ra_generation_run_id a,
                rv_requires_evidence = ra_requires_evidence a,
                rv_legacy_imported = ra_legacy_imported a, rv_created_at = now\<rparr>
       in rguard (\<exists>x \<in> set (db_revisions d1). rv_node_id x = nd_id n \<and> rv_version x = next_version)
            IntegrityError
          (rbind (link_all_evidence L (nd_project_id n) (nd_id n) i now (ra_evidence_specs a)
                    (d1\<lparr>db_revisions := db_revisions d1 @ [r]\<rparr>)) (\<lambda>d2.
           Inr (r, set_node (nd_id n) (\<lambda>m. m\<lparr>nd_title := title, nd_content := ra_content a,
                nd_node_type := ra_node_type a, nd_category := ra_category a,
                nd_due_date := ra_due_date a, nd_version := next_version,
                nd_current_revision_id := Some i, nd_last_actor_type := ra_created_by_type a,
                nd_updated_at := now\<rparr>) d2))))))"

definition spec_of_link :: "node_revision_evidence \<Rightarrow> evidence \<Rightarrow> evidence_spec" where
  "spec_of_link l e = \<lparr>sp_external_meeting_id = ev_external_meeting_id e,
     sp_transcript_segment_id = ev_transcript_segment_id e,
     sp_source_segment_id = ev_source_segment_id e, sp_speaker_label = ev_speaker_label e,
     sp_start_ms = ev_start_ms e, sp_end_ms = ev_end_ms e, sp_quote_start = ev_quote_start e,
     sp_quote_end = ev_quote_end e, sp_quoted_text = ev_quoted_text e,
     sp_source_type = ev_source_type e, sp_normalization_version = ev_normalization_version e,
     sp_support_type = re_support_type l, sp_legacy_imported = ev_legacy_imported e\<rparr>"

text \<open>The query has no \<open>ORDER BY\<close>: the model lists the rows in the order of the table, and the properties below use the result as a
  multiset only.\<close>

definition current_revision_evidence_specs :: "db \<Rightarrow> node \<Rightarrow> evidence_spec list" where
  "current_revision_evidence_specs d n =
     (case nd_current_revision_id n of None \<Rightarrow> []
      | Some rid \<Rightarrow>
          [spec_of_link l e. l \<leftarrow> db_revision_evidence d,
             re_project_id l = nd_project_id n \<and> re_node_revision_id l = rid,
             e \<leftarrow> db_evidence d, ev_id e = re_evidence_id l \<and> ev_project_id e = nd_project_id n])"

definition mark_node_embedding_stale :: "uuid \<Rightarrow> db \<Rightarrow> db" where
  "mark_node_embedding_stale nid d = d\<lparr>db_embeddings :=
     update_where (\<lambda>m. em_node_id m = nid \<and> em_status m = EMB_READY) (\<lambda>m. m\<lparr>em_status := EMB_STALE\<rparr>)
       (db_embeddings d)\<rparr>"

section \<open>The embedding text\<close>

datatype evidence_pair = EvidencePair "string option" string
  | TimedEvidencePair "int option" "string option" string

fun sortable_pair :: "evidence_pair \<Rightarrow> int \<times> string \<times> string" where
  "sortable_pair (EvidencePair seg quote) = (2 ^ 63 - 1, or_str seg [], quote)"
| "sortable_pair (TimedEvidencePair start seg quote) =
     ((case start of Some t \<Rightarrow> t | None \<Rightarrow> 2 ^ 63 - 1), or_str seg [], quote)"

definition canonical_evidence :: "evidence_pair list \<Rightarrow> (string \<times> string) list" where
  "canonical_evidence pairs = map snd (sort (map sortable_pair pairs))"

definition build_embedding_text_from_parts ::
  "stdlib \<Rightarrow> node_type \<Rightarrow> string \<Rightarrow> string \<Rightarrow> evidence_pair list \<Rightarrow> string option \<Rightarrow> string" where
  "build_embedding_text_from_parts L node_type title content pairs category =
     json_dumps L (JList [jstr (node_type_value node_type), jstr title, jstr content,
       JList (map (\<lambda>(s, q). JList [jstr s, jstr q]) (canonical_evidence pairs))])"

definition embedding_text_hash :: "stdlib \<Rightarrow> string \<Rightarrow> string" where
  "embedding_text_hash L t = sha256_hexdigest L t"

record embedding_input =
  ei_revision_id :: uuid
  ei_revision_version :: int
  ei_text :: string
  ei_text_hash :: string

abbreviation "invalid_current_revision \<equiv> CurrentRevisionEmbeddingError ''INVALID_CURRENT_REVISION''"

definition load_pair :: "db \<Rightarrow> string \<Rightarrow> node_revision_evidence \<Rightarrow> evidence_pair result" where
  "load_pair d pid l =
     rguard (re_project_id l \<noteq> pid) invalid_current_revision
      (case evidence_by_id d (re_evidence_id l) of
         None \<Rightarrow> Inl invalid_current_revision
       | Some e \<Rightarrow> rguard (ev_project_id e \<noteq> pid) invalid_current_revision
           (Inr (TimedEvidencePair (ev_start_ms e) (Some (or_str (ev_source_segment_id e) []))
              (ev_quoted_text e))))"

definition load_current_revision_embedding_input ::
  "stdlib \<Rightarrow> db \<Rightarrow> node \<Rightarrow> embedding_input result" where
  "load_current_revision_embedding_input L d n =
     (case nd_current_revision_id n of
        None \<Rightarrow> Inl (CurrentRevisionEmbeddingError ''NO_CURRENT_REVISION'')
      | Some rid \<Rightarrow>
          (case revision_by_id d rid of
             None \<Rightarrow> Inl invalid_current_revision
           | Some r \<Rightarrow>
               rguard (rv_node_id r \<noteq> nd_id n \<or> rv_project_id r \<noteq> nd_project_id n) invalid_current_revision
               (rbind (collect_results (map (load_pair d (nd_project_id n))
                   (filter (\<lambda>l. re_node_revision_id l = rv_id r) (db_revision_evidence d)))) (\<lambda>pairs.
                rguard (rv_requires_evidence r \<and> pairs = []) invalid_current_revision
                (let t = build_embedding_text_from_parts L (rv_node_type r) (rv_title r) (rv_content r) pairs None
                 in Inr \<lparr>ei_revision_id = rv_id r, ei_revision_version = rv_version r, ei_text = t,
                         ei_text_hash = embedding_text_hash L t\<rparr>)))))"

record embedding_invalidation_result =
  ir_invalidated :: nat
  ir_kept_ready :: nat
  ir_current_hash :: "string option"
  ir_reason :: string

text \<open>\<open>reconcile_embedding_status_after_revision\<close>.\<close>

definition reconcile_embedding_status_after_revision ::
  "stdlib \<Rightarrow> node \<Rightarrow> db \<Rightarrow> (embedding_invalidation_result \<times> db) result" where
  "reconcile_embedding_status_after_revision L n d =
     (let ready = filter (\<lambda>m. em_node_id m = nd_id n \<and> em_status m = EMB_READY) (db_embeddings d) in
      if ready = []
      then Inr (\<lparr>ir_invalidated = 0, ir_kept_ready = 0, ir_current_hash = None,
                 ir_reason = ''NO_READY_EMBEDDING''\<rparr>, d)
      else case load_current_revision_embedding_input L d n of
        Inl (CurrentRevisionEmbeddingError reason) \<Rightarrow>
          Inr (\<lparr>ir_invalidated = length ready, ir_kept_ready = 0, ir_current_hash = None,
                ir_reason = reason\<rparr>, mark_node_embedding_stale (nd_id n) d)
      | Inl e \<Rightarrow> Inl e
      | Inr current \<Rightarrow>
          (let kept = length (filter (\<lambda>m. em_embedded_text_hash m = Some (ei_text_hash current)) ready);
               invalidated = length ready - kept
           in Inr (\<lparr>ir_invalidated = invalidated, ir_kept_ready = kept,
                    ir_current_hash = Some (ei_text_hash current),
                    ir_reason = (if 0 < invalidated then ''HASH_CHANGED'' else ''HASH_UNCHANGED'')\<rparr>,
                   d\<lparr>db_embeddings := update_where (\<lambda>m. em_node_id m = nd_id n \<and> em_status m = EMB_READY
                         \<and> em_embedded_text_hash m \<noteq> Some (ei_text_hash current))
                       (\<lambda>m. m\<lparr>em_status := EMB_STALE\<rparr>) (db_embeddings d)\<rparr>)))"

section \<open>Lemmas on evidence\<close>

lemma jopt_inj: "(\<And>x y. f x = f y \<longleftrightarrow> x = y) \<Longrightarrow> (\<And>x. f x \<noteq> JNull) \<Longrightarrow> jopt f a = jopt f b \<longleftrightarrow> a = b"
  by (cases a; cases b) (auto simp: jopt_def dest: sym)

lemma jopt_inst [simp]:
  "jopt jstr a = jopt jstr b \<longleftrightarrow> a = b"
  "jopt JInt i = jopt JInt j \<longleftrightarrow> i = j"
  "jopt (\<lambda>u. JStr (UuidTxt u)) k = jopt (\<lambda>u. JStr (UuidTxt u)) l \<longleftrightarrow> k = l"
  by (rule jopt_inj; simp)+

text \<open>The content of a specification: what its hash covers.\<close>

definition sp_content :: "evidence_spec \<Rightarrow> evidence_spec" where
  "sp_content s = s\<lparr>sp_support_type := [], sp_legacy_imported := False\<rparr>"

lemma evidence_payload_inj: "evidence_payload p s = evidence_payload p t \<longleftrightarrow> sp_content s = sp_content t"
  by (cases s; cases t) (simp add: evidence_payload_def sp_content_def)

definition ev_spec :: "evidence \<Rightarrow> evidence_spec" where
  "ev_spec e = \<lparr>sp_external_meeting_id = ev_external_meeting_id e,
     sp_transcript_segment_id = ev_transcript_segment_id e,
     sp_source_segment_id = ev_source_segment_id e, sp_speaker_label = ev_speaker_label e,
     sp_start_ms = ev_start_ms e, sp_end_ms = ev_end_ms e, sp_quote_start = ev_quote_start e,
     sp_quote_end = ev_quote_end e, sp_quoted_text = ev_quoted_text e,
     sp_source_type = ev_source_type e, sp_normalization_version = ev_normalization_version e,
     sp_support_type = [], sp_legacy_imported = False\<rparr>"

lemma sp_content_idem [simp]: "sp_content (ev_spec e) = ev_spec e"
  by (simp add: sp_content_def ev_spec_def)

lemma evidence_hash_content: "sp_content s = sp_content t \<Longrightarrow> evidence_hash L p s = evidence_hash L p t"
  unfolding evidence_hash_def by (simp only: evidence_payload_inj [of p s t, THEN iffD2])

text \<open>The invariant of the evidence tables: the keys are unique, the hash of a row is the hash of its
  content, and links only mention keys that have been drawn.\<close>

definition evidence_ok :: "stdlib \<Rightarrow> db \<Rightarrow> bool" where
  "evidence_ok L d \<longleftrightarrow>
     distinct (map ev_id (db_evidence d))
   \<and> distinct (map (\<lambda>e. (ev_project_id e, ev_immutable_hash e)) (db_evidence d))
   \<and> (\<forall>e \<in> set (db_evidence d). ev_id e < db_next_uuid d
        \<and> ev_immutable_hash e = evidence_hash L (ev_project_id e) (ev_spec e))
   \<and> (\<forall>l \<in> set (db_revision_evidence d). re_node_revision_id l < db_next_uuid d)
   \<and> (\<forall>r \<in> set (db_revisions d). rv_id r < db_next_uuid d)"

text \<open>The hash tells apart the evidence at hand: the contents \<open>S\<close> and the rows of the project.\<close>

definition collision_free :: "stdlib \<Rightarrow> string \<Rightarrow> evidence_spec set \<Rightarrow> bool" where
  "collision_free L pid S \<longleftrightarrow> inj_on (evidence_hash L pid) (sp_content ` S)"

definition project_evidence :: "db \<Rightarrow> string \<Rightarrow> evidence_spec set" where
  "project_evidence d pid = ev_spec ` {e \<in> set (db_evidence d). ev_project_id e = pid}"

lemma get_or_create_evidence_ok:
  assumes ok: "evidence_ok L d"
    and cf: "collision_free L pid (insert spec (project_evidence d pid))"
  obtains e d' where "get_or_create_evidence L pid spec now d = Inr (e, d')"
    "evidence_ok L d'" "e \<in> set (db_evidence d')" "ev_project_id e = pid" "ev_spec e = sp_content spec"
    "project_evidence d' pid = insert (sp_content spec) (project_evidence d pid)"
    "db_revision_evidence d' = db_revision_evidence d" "db_revisions d' = db_revisions d"
    "db_nodes d' = db_nodes d" "db_next_uuid d \<le> db_next_uuid d'"
    "\<exists>new. db_evidence d' = db_evidence d @ new" "db_embeddings d' = db_embeddings d"
proof -
  let ?h = "evidence_hash L pid spec"
  have "distinct (map (\<lambda>e. (ev_project_id e, ev_immutable_hash e)) (db_evidence d))"
    using ok by (simp add: evidence_ok_def)
  from one_or_none_filter_key [OF this, of "(pid, ?h)"]
  have sel: "one_or_none (filter (\<lambda>e. ev_project_id e = pid \<and> ev_immutable_hash e = ?h) (db_evidence d)) =
      Inr (find (\<lambda>e. (ev_project_id e, ev_immutable_hash e) = (pid, ?h)) (db_evidence d))"
    by simp
  show thesis
  proof (cases "find (\<lambda>e. (ev_project_id e, ev_immutable_hash e) = (pid, ?h)) (db_evidence d)")
    case (Some e)
    then have e: "e \<in> set (db_evidence d)" "ev_project_id e = pid" "ev_immutable_hash e = ?h"
      by (auto dest: find_SomeD)
    have "ev_immutable_hash e = evidence_hash L pid (ev_spec e)"
      using ok e by (simp add: evidence_ok_def)
    moreover have "?h = evidence_hash L pid (sp_content spec)"
      by (rule evidence_hash_content) (simp add: sp_content_def)
    ultimately have same: "evidence_hash L pid (ev_spec e) = evidence_hash L pid (sp_content spec)"
      using e(3) by simp
    have mem: "ev_spec e \<in> project_evidence d pid"
      using e by (simp add: project_evidence_def)
    then have "ev_spec e \<in> sp_content ` insert spec (project_evidence d pid)"
      by (metis image_eqI insertI2 sp_content_idem)
    from inj_onD [OF cf [unfolded collision_free_def] same this] mem
    have spec: "ev_spec e = sp_content spec"
      and pe: "insert (sp_content spec) (project_evidence d pid) = project_evidence d pid"
      by (simp_all add: insert_absorb)
    have "get_or_create_evidence L pid spec now d = Inr (e, d)"
      using Some sel by (simp add: get_or_create_evidence_def)
    with spec pe e ok show thesis by (intro that [of e d]) simp_all
  next
    case None
    then have fresh: "(pid, ?h) \<notin> (\<lambda>e. (ev_project_id e, ev_immutable_hash e)) ` set (db_evidence d)"
      by (auto simp: find_None_iff)
    obtain e d' where r: "get_or_create_evidence L pid spec now d = Inr (e, d')"
      using None sel by (auto simp: get_or_create_evidence_def uuid4_def Let_def)
    then have e: "ev_project_id e = pid" "ev_spec e = sp_content spec" "ev_id e = db_next_uuid d"
        "ev_immutable_hash e = ?h"
      and d': "d' = d\<lparr>db_next_uuid := Suc (db_next_uuid d), db_evidence := db_evidence d @ [e]\<rparr>"
      using None sel
      by (auto simp: get_or_create_evidence_def uuid4_def Let_def ev_spec_def sp_content_def)
    have "ev_immutable_hash e = evidence_hash L (ev_project_id e) (ev_spec e)"
      using e evidence_hash_content [of spec "sp_content spec" L pid] by (simp add: sp_content_def)
    moreover have "db_next_uuid d \<notin> ev_id ` set (db_evidence d)"
      using ok by (auto simp: evidence_ok_def)
    ultimately have "evidence_ok L d'"
      using ok fresh e unfolding evidence_ok_def d' by (auto simp: less_Suc_eq)
    moreover have "project_evidence d' pid = insert (ev_spec e) (project_evidence d pid)"
      using e(1) by (auto simp: d' project_evidence_def)
    ultimately show thesis using r e by (intro that [of e d']) (auto simp: d')
  qed
qed

lemma upsert_node_evidence_db:
  "db_evidence (snd (upsert_node_evidence L n s q a b t m d)) = db_evidence d"
  "db_revision_evidence (snd (upsert_node_evidence L n s q a b t m d)) = db_revision_evidence d"
  "db_revisions (snd (upsert_node_evidence L n s q a b t m d)) = db_revisions d"
  "db_nodes (snd (upsert_node_evidence L n s q a b t m d)) = db_nodes d"
  "db_embeddings (snd (upsert_node_evidence L n s q a b t m d)) = db_embeddings d"
  "db_next_uuid (snd (upsert_node_evidence L n s q a b t m d)) = Suc (db_next_uuid d)"
  by (auto simp: upsert_node_evidence_def uuid4_def Let_def)

text \<open>What the evidence loop leaves: the old rows, links to the evidence \<open>es\<close> in the order of the
  specifications, and new evidence rows.\<close>

definition linked :: "string \<Rightarrow> uuid \<Rightarrow> db \<Rightarrow> evidence_spec list \<Rightarrow> evidence list \<Rightarrow> db \<Rightarrow> bool" where
  "linked pid rid d specs es d' \<longleftrightarrow>
     (\<exists>links new. db_revision_evidence d' = db_revision_evidence d @ links
        \<and> db_evidence d' = db_evidence d @ new
        \<and> list_all2 (\<lambda>l (s, e). re_project_id l = pid \<and> re_node_revision_id l = rid
             \<and> re_evidence_id l = ev_id e \<and> re_support_type l = sp_support_type s) links (zip specs es))
   \<and> list_all2 (\<lambda>s e. ev_spec e = sp_content s \<and> ev_project_id e = pid \<and> e \<in> set (db_evidence d')) specs es
   \<and> db_revisions d' = db_revisions d \<and> db_nodes d' = db_nodes d \<and> db_embeddings d' = db_embeddings d"

lemma link_evidence_ok:
  assumes ok: "evidence_ok L d" and rid: "rid < db_next_uuid d"
    and cf: "collision_free L pid (insert s (project_evidence d pid))"
    and r: "link_evidence L pid nid rid now s d = Inr d'"
  obtains e where "linked pid rid d [s] [e] d'" "evidence_ok L d'" "rid < db_next_uuid d'"
    "project_evidence d' pid = insert (sp_content s) (project_evidence d pid)"
proof -
  obtain e d1 where e: "get_or_create_evidence L pid s now d = Inr (e, d1)"
    "evidence_ok L d1" "e \<in> set (db_evidence d1)" "ev_project_id e = pid" "ev_spec e = sp_content s"
    "project_evidence d1 pid = insert (sp_content s) (project_evidence d pid)"
    "db_revision_evidence d1 = db_revision_evidence d" "db_revisions d1 = db_revisions d"
    "db_nodes d1 = db_nodes d" "db_next_uuid d \<le> db_next_uuid d1"
    "\<exists>new. db_evidence d1 = db_evidence d @ new" "db_embeddings d1 = db_embeddings d"
    by (rule get_or_create_evidence_ok [OF ok cf])
  let ?l = "\<lparr>re_project_id = pid, re_node_revision_id = rid, re_evidence_id = ev_id e,
      re_support_type = sp_support_type s, re_created_at = now\<rparr>"
  from r e(1) have "db_revision_evidence d' = db_revision_evidence d1 @ [?l]"
      "db_evidence d' = db_evidence d1" "db_revisions d' = db_revisions d1" "db_nodes d' = db_nodes d1"
      "db_embeddings d' = db_embeddings d1" "db_next_uuid d' = Suc (db_next_uuid d1)"
    by (auto simp: link_evidence_def Let_def upsert_node_evidence_db split: if_splits)
  note d' = this
  have "evidence_ok L d'"
    using e(2,10) rid by (auto simp: evidence_ok_def d' less_Suc_eq)
  moreover have "linked pid rid d [s] [e] d'"
    using e unfolding linked_def d' by (auto simp: list_all2_Cons1 list_all2_Cons2)
  moreover have "project_evidence d' pid = project_evidence d1 pid"
    by (simp add: project_evidence_def d')
  ultimately show thesis using e rid d' by (intro that [of e]) auto
qed

lemma linked_Cons:
  assumes "linked pid rid d [s] [e] d1" "linked pid rid d1 specs es d2"
  shows "linked pid rid d (s # specs) (e # es) d2"
proof -
  from assms(1) obtain l new1 where 1: "db_revision_evidence d1 = db_revision_evidence d @ [l]"
    "db_evidence d1 = db_evidence d @ new1" "re_project_id l = pid" "re_node_revision_id l = rid"
    "re_evidence_id l = ev_id e" "re_support_type l = sp_support_type s"
    "ev_spec e = sp_content s" "ev_project_id e = pid" "e \<in> set (db_evidence d1)"
    "db_revisions d1 = db_revisions d" "db_nodes d1 = db_nodes d" "db_embeddings d1 = db_embeddings d"
    by (auto simp: linked_def list_all2_Cons2)
  from assms(2) obtain links new2 where 2: "db_revision_evidence d2 = db_revision_evidence d1 @ links"
    "db_evidence d2 = db_evidence d1 @ new2"
    "list_all2 (\<lambda>l (s, e). re_project_id l = pid \<and> re_node_revision_id l = rid
       \<and> re_evidence_id l = ev_id e \<and> re_support_type l = sp_support_type s) links (zip specs es)"
    by (auto simp: linked_def)
  show ?thesis
    using assms(2) 1 2 unfolding linked_def
    by (intro conjI exI [of _ "l # links"] exI [of _ "new1 @ new2"]) auto
qed

lemma linked_Nil: "linked pid rid d [] [] d"
  by (simp add: linked_def)

lemma link_all_evidence_ok:
  "link_all_evidence L pid nid rid now specs d = Inr d' \<Longrightarrow> evidence_ok L d \<Longrightarrow> rid < db_next_uuid d \<Longrightarrow>
   collision_free L pid (set specs \<union> project_evidence d pid) \<Longrightarrow>
   \<exists>es. linked pid rid d specs es d' \<and> evidence_ok L d'"
proof (induction specs arbitrary: d)
  case Nil
  then show ?case using linked_Nil by auto
next
  case (Cons s specs)
  from Cons.prems(1) obtain d1 where d1: "link_evidence L pid nid rid now s d = Inr d1"
      "link_all_evidence L pid nid rid now specs d1 = Inr d'"
    by (auto simp: rbind_Inr_iff)
  have "collision_free L pid (insert s (project_evidence d pid))"
    using Cons.prems(4) by (auto simp: collision_free_def intro: inj_on_subset)
  from link_evidence_ok [OF Cons.prems(2,3) this d1(1)] obtain e where
    e: "linked pid rid d [s] [e] d1" "evidence_ok L d1" "rid < db_next_uuid d1"
      "project_evidence d1 pid = insert (sp_content s) (project_evidence d pid)" by metis
  have "sp_content ` (set specs \<union> project_evidence d1 pid) = sp_content ` (set (s # specs) \<union> project_evidence d pid)"
    by (auto simp: e(4) sp_content_def image_iff)
  then have "collision_free L pid (set specs \<union> project_evidence d1 pid)"
    using Cons.prems(4) by (simp only: collision_free_def)
  from Cons.IH [OF d1(2) e(2,3) this] obtain es where "linked pid rid d1 specs es d'" "evidence_ok L d'"
    by auto
  with linked_Cons [OF e(1)] show ?case by blast
qed

lemma concat_map_if: "concat (map (\<lambda>x. if P x then [f x] else []) xs) = map f (filter P xs)"
  by (induction xs) auto

lemma concat_map_guard: "concat (map (\<lambda>x. if P x then g x else []) xs) = concat (map g (filter P xs))"
  by (induction xs) auto

text \<open>The specifications behind a list of links of one project.\<close>

definition link_specs :: "db \<Rightarrow> string \<Rightarrow> node_revision_evidence list \<Rightarrow> evidence_spec list" where
  "link_specs d pid links = concat (map (\<lambda>l. map (spec_of_link l)
     (filter (\<lambda>e. ev_id e = re_evidence_id l \<and> ev_project_id e = pid) (db_evidence d))) links)"

lemma current_revision_evidence_specs_alt:
  "current_revision_evidence_specs d n = (case nd_current_revision_id n of None \<Rightarrow> []
     | Some rid \<Rightarrow> link_specs d (nd_project_id n)
         (filter (\<lambda>l. re_project_id l = nd_project_id n \<and> re_node_revision_id l = rid) (db_revision_evidence d)))"
  by (simp add: current_revision_evidence_specs_def link_specs_def concat_map_if concat_map_guard
      cong: option.case_cong)

lemma filter_evidence_by_id:
  "evidence_ok L d \<Longrightarrow> e \<in> set (db_evidence d) \<Longrightarrow>
   filter (\<lambda>x. ev_id x = ev_id e \<and> ev_project_id x = pid) (db_evidence d) =
     (if ev_project_id e = pid then [e] else [])"
  using filter_key_singleton [of ev_id "db_evidence d" "ev_id e" "\<lambda>x. ev_project_id x = pid"]
    find_key_Some_iff [of ev_id "db_evidence d" "ev_id e" e]
  by (simp add: evidence_ok_def)

lemma sp_content_spec_of_link: "sp_content (spec_of_link l e) = ev_spec e"
  by (simp add: sp_content_def spec_of_link_def ev_spec_def)

lemma link_specs_linked:
  assumes "evidence_ok L d'"
    and "list_all2 (\<lambda>l (s, e). re_project_id l = pid \<and> re_node_revision_id l = rid
       \<and> re_evidence_id l = ev_id e \<and> re_support_type l = sp_support_type s) links (zip specs es)"
    and "list_all2 (\<lambda>s e. ev_spec e = sp_content s \<and> ev_project_id e = pid \<and> e \<in> set (db_evidence d')) specs es"
  shows "map sp_content (link_specs d' pid links) = map sp_content specs
    \<and> map sp_support_type (link_specs d' pid links) = map sp_support_type specs"
  using assms(3,2)
proof (induction arbitrary: links rule: list_all2_induct)
  case Nil
  then show ?case by (simp add: link_specs_def)
next
  case (Cons s specs e es)
  then obtain l links' where l: "links = l # links'" "re_evidence_id l = ev_id e"
      "re_support_type l = sp_support_type s" by (auto simp: list_all2_Cons2)
  have "map sp_content (link_specs d' pid links') = map sp_content specs
      \<and> map sp_support_type (link_specs d' pid links') = map sp_support_type specs"
    using Cons.prems l(1) by (intro Cons.IH) simp
  moreover have "sp_support_type (spec_of_link l e) = sp_support_type s"
    using l by (simp add: spec_of_link_def)
  ultimately show ?case using Cons.hyps(1) l(1,2) filter_evidence_by_id [OF assms(1), of e pid]
    by (simp add: link_specs_def sp_content_spec_of_link)
qed

lemma list_all2_filter_True: "list_all2 R xs ys \<Longrightarrow> (\<And>x y. R x y \<Longrightarrow> P x) \<Longrightarrow> filter P xs = xs"
  by (induction rule: list_all2_induct) auto

text \<open>The links of a revision made just now are the new ones.\<close>

lemma linked_specs:
  assumes "linked pid rid d specs es d'" "evidence_ok L d'"
    and fresh: "\<forall>l \<in> set (db_revision_evidence d). re_node_revision_id l < rid"
  shows "\<exists>links. filter (\<lambda>l. re_node_revision_id l = rid) (db_revision_evidence d') = links
    \<and> filter (\<lambda>l. re_project_id l = pid \<and> re_node_revision_id l = rid) (db_revision_evidence d') = links
    \<and> length links = length specs
    \<and> map sp_content (link_specs d' pid links) = map sp_content specs
    \<and> map sp_support_type (link_specs d' pid links) = map sp_support_type specs"
proof -
  from assms(1) obtain links new where 1: "db_revision_evidence d' = db_revision_evidence d @ links"
    and 2: "list_all2 (\<lambda>l (s, e). re_project_id l = pid \<and> re_node_revision_id l = rid
       \<and> re_evidence_id l = ev_id e \<and> re_support_type l = sp_support_type s) links (zip specs es)"
    and 3: "list_all2 (\<lambda>s e. ev_spec e = sp_content s \<and> ev_project_id e = pid \<and> e \<in> set (db_evidence d')) specs es"
    by (auto simp: linked_def)
  have "filter (\<lambda>l. re_node_revision_id l = rid) links = links"
       "filter (\<lambda>l. re_project_id l = pid \<and> re_node_revision_id l = rid) links = links"
    using 2 by (auto intro!: list_all2_filter_True)
  moreover have "filter (\<lambda>l. re_node_revision_id l = rid) (db_revision_evidence d) = []"
       "filter (\<lambda>l. re_project_id l = pid \<and> re_node_revision_id l = rid) (db_revision_evidence d) = []"
    using fresh by (auto simp: filter_empty_conv)
  moreover have "length links = length specs"
    using list_all2_lengthD [OF 2] list_all2_lengthD [OF 3] by simp
  ultimately show ?thesis using 1 link_specs_linked [OF assms(2) 2 3] by simp
qed

lemma create_node_revision_linked:
  assumes "create_node_revision L n a now d = Inr (r, d')" "evidence_ok L d"
    and "collision_free L (nd_project_id n) (set (ra_evidence_specs a) \<union> project_evidence d (nd_project_id n))"
  obtains d2 es where "evidence_ok L d2"
    "linked (nd_project_id n) (rv_id r) (d\<lparr>db_next_uuid := Suc (db_next_uuid d), db_revisions := db_revisions d @ [r]\<rparr>)
       (ra_evidence_specs a) es d2"
    "d' = set_node (nd_id n) (\<lambda>m. m\<lparr>nd_title := rv_title r, nd_content := rv_content r,
        nd_node_type := rv_node_type r, nd_category := rv_category r,
        nd_due_date := rv_due_date r, nd_version := rv_version r,
        nd_current_revision_id := Some (rv_id r), nd_last_actor_type := rv_created_by_type r,
        nd_updated_at := now\<rparr>) d2"
    "rv_id r = db_next_uuid d" "rv_node_id r = nd_id n" "rv_project_id r = nd_project_id n"
    "rv_version r = nd_version n + (if nd_current_revision_id n = None then 0 else 1)"
    "rv_title r = strip (ra_title a)" "rv_content r = ra_content a" "rv_node_type r = ra_node_type a"
    "rv_category r = ra_category a" "rv_due_date r = ra_due_date a"
    "rv_requires_evidence r = ra_requires_evidence a"
    "strip (ra_title a) \<noteq> []" "ra_requires_evidence a \<longrightarrow> ra_evidence_specs a \<noteq> []"
proof -
  from assms(1) obtain d2 where
    l: "link_all_evidence L (nd_project_id n) (nd_id n) (rv_id r) now (ra_evidence_specs a)
          (d\<lparr>db_next_uuid := Suc (db_next_uuid d), db_revisions := db_revisions d @ [r]\<rparr>) = Inr d2"
    and rest: "d' = set_node (nd_id n) (\<lambda>m. m\<lparr>nd_title := rv_title r, nd_content := rv_content r,
        nd_node_type := rv_node_type r, nd_category := rv_category r,
        nd_due_date := rv_due_date r, nd_version := rv_version r,
        nd_current_revision_id := Some (rv_id r), nd_last_actor_type := rv_created_by_type r,
        nd_updated_at := now\<rparr>) d2"
    "rv_id r = db_next_uuid d" "rv_node_id r = nd_id n" "rv_project_id r = nd_project_id n"
    "rv_version r = nd_version n + (if nd_current_revision_id n = None then 0 else 1)"
    "rv_title r = strip (ra_title a)" "rv_content r = ra_content a" "rv_node_type r = ra_node_type a"
    "rv_category r = ra_category a" "rv_due_date r = ra_due_date a"
    "rv_requires_evidence r = ra_requires_evidence a"
    "strip (ra_title a) \<noteq> []" "ra_requires_evidence a \<longrightarrow> ra_evidence_specs a \<noteq> []"
    by (cases "nd_current_revision_id n")
      (auto simp: create_node_revision_def Let_def uuid4_def rguard_Inr_iff rbind_Inr_iff)
  have "evidence_ok L (d\<lparr>db_next_uuid := Suc (db_next_uuid d), db_revisions := db_revisions d @ [r]\<rparr>)"
    using assms(2) rest(2) by (auto simp: evidence_ok_def less_Suc_eq)
  from link_all_evidence_ok [OF l this] rest(2) assms(3) obtain es where
    "linked (nd_project_id n) (rv_id r) (d\<lparr>db_next_uuid := Suc (db_next_uuid d), db_revisions := db_revisions d @ [r]\<rparr>)
       (ra_evidence_specs a) es d2" "evidence_ok L d2"
    by (auto simp: project_evidence_def)
  with rest show thesis by (intro that [of d2 es]) assumption+
qed

section \<open>Properties of revisions\<close>

definition sample_spec :: evidence_spec where
  "sample_spec = \<lparr>sp_external_meeting_id = Some ''m'', sp_transcript_segment_id = Some 50,
     sp_source_segment_id = Some ''s1'', sp_speaker_label = None, sp_start_ms = Some 10,
     sp_end_ms = Some 20, sp_quote_start = Some 0, sp_quote_end = Some 2, sp_quoted_text = ''ok'',
     sp_source_type = ''TRANSCRIPT'', sp_normalization_version = None, sp_support_type = ''PRIMARY'',
     sp_legacy_imported = False\<rparr>"

lemma create_node_revision_spec:
  assumes "nodes_unique d" "node_by_id d nid = Some n" "evidence_ok L d"
    and "collision_free L (nd_project_id n) (set (ra_evidence_specs a) \<union> project_evidence d (nd_project_id n))"
    and "create_node_revision L n a now d = Inr (r, d')"
  shows "\<exists>n'. node_by_id d' nid = Some n'
    \<and> db_revisions d' = db_revisions d @ [r] \<and> rv_id r \<notin> rv_id ` set (db_revisions d)
    \<and> rv_version r = nd_version n + (if nd_current_revision_id n = None then 0 else 1)
    \<and> nd_current_revision_id n' = Some (rv_id r) \<and> nd_version n' = rv_version r
    \<and> rv_node_id r = nid \<and> rv_project_id r = nd_project_id n
    \<and> rv_title r = strip (ra_title a) \<and> rv_content r = ra_content a \<and> rv_node_type r = ra_node_type a
    \<and> rv_category r = ra_category a \<and> rv_due_date r = ra_due_date a
    \<and> nd_title n' = rv_title r \<and> nd_content n' = rv_content r \<and> nd_node_type n' = rv_node_type r
    \<and> nd_category n' = rv_category r \<and> nd_due_date n' = rv_due_date r
    \<and> nd_graph_state n' = nd_graph_state n \<and> nd_parent_id n' = nd_parent_id n \<and> nd_merged_into_node_id n' = nd_merged_into_node_id n
    \<and> map sp_content (current_revision_evidence_specs d' n') = map sp_content (ra_evidence_specs a)
    \<and> map sp_support_type (current_revision_evidence_specs d' n') = map sp_support_type (ra_evidence_specs a)
    \<and> (\<forall>i. i \<noteq> nid \<longrightarrow> node_by_id d' i = node_by_id d i)
    \<and> (\<exists>new. db_evidence d' = db_evidence d @ new) \<and> evidence_ok L d'"
  using assms(5,3,4)
proof (rule create_node_revision_linked)
  fix d2 es
  let ?base = "d\<lparr>db_next_uuid := Suc (db_next_uuid d), db_revisions := db_revisions d @ [r]\<rparr>"
  let ?f = "\<lambda>m. m\<lparr>nd_title := rv_title r, nd_content := rv_content r,
        nd_node_type := rv_node_type r, nd_category := rv_category r,
        nd_due_date := rv_due_date r, nd_version := rv_version r,
        nd_current_revision_id := Some (rv_id r), nd_last_actor_type := rv_created_by_type r,
        nd_updated_at := now\<rparr>"
  assume ok2: "evidence_ok L d2"
    and lk: "linked (nd_project_id n) (rv_id r) ?base (ra_evidence_specs a) es d2"
    and d': "d' = set_node (nd_id n) ?f d2"
    and r: "rv_id r = db_next_uuid d" "rv_node_id r = nd_id n" "rv_project_id r = nd_project_id n"
      "rv_version r = nd_version n + (if nd_current_revision_id n = None then 0 else 1)"
      "rv_title r = strip (ra_title a)" "rv_content r = ra_content a" "rv_node_type r = ra_node_type a"
      "rv_category r = ra_category a" "rv_due_date r = ra_due_date a"
  have nid: "nd_id n = nid" using assms(2) by (auto dest: node_by_idD)
  have same: "db_nodes d2 = db_nodes d" "db_revisions d2 = db_revisions d @ [r]"
      "\<exists>new. db_evidence d2 = db_evidence d @ new"
    using lk by (auto simp: linked_def)
  have nodes: "node_by_id d2 i = node_by_id d i" for i
    by (simp add: node_by_id_def same)
  have n': "node_by_id d' i = (if i = nid then Some (?f n) else node_by_id d i)" for i
    using assms(2) by (simp add: d' node_by_id_set_node nid nodes)
  have tables: "db_evidence d' = db_evidence d2" "db_revision_evidence d' = db_revision_evidence d2"
    by (simp_all add: d')
  have old: "\<forall>l \<in> set (db_revision_evidence ?base). re_node_revision_id l < rv_id r"
      "rv_id r \<notin> rv_id ` set (db_revisions d)"
    using assms(3) r(1) by (auto simp: evidence_ok_def)
  from linked_specs [OF lk ok2 old(1)]
  have "map sp_content (current_revision_evidence_specs d' (?f n)) = map sp_content (ra_evidence_specs a)
     \<and> map sp_support_type (current_revision_evidence_specs d' (?f n)) = map sp_support_type (ra_evidence_specs a)"
    by (auto simp: current_revision_evidence_specs_alt link_specs_def tables)
  moreover have "evidence_ok L d'" using ok2 by (simp add: evidence_ok_def d')
  moreover have "db_revisions d' = db_revisions d @ [r]" "\<exists>new. db_evidence d' = db_evidence d @ new"
    using same(2,3) by (simp_all add: d')
  ultimately show ?thesis
    using old(2) r(2-9) nid by (intro exI [of _ "?f n"] conjI) (simp_all add: n')
qed

text \<open>C33. A revision appends exactly one immutable row and moves the node to it: the row belongs to the node, its version is the
  next one (the same one for the first revision), it holds the title, content, type, category and due date given, and the node
  shows exactly these; state, parent and merge target of the node stay. The evidence read back for the node is the evidence given,
  with the support types given (as a multiset: the query has no order), and no other node, no older revision and no older evidence
  changes.\<close>

theorem create_node_revision_correct:
  assumes "nodes_unique d" "node_by_id d nid = Some n" "evidence_ok L d"
    and "collision_free L (nd_project_id n) (set (ra_evidence_specs a) \<union> project_evidence d (nd_project_id n))"
    and "create_node_revision L n a now d = Inr (r, d')"
  shows "\<exists>n'. node_by_id d' nid = Some n'
    \<and> db_revisions d' = db_revisions d @ [r] \<and> rv_id r \<notin> rv_id ` set (db_revisions d)
    \<and> rv_node_id r = nid \<and> rv_project_id r = nd_project_id n
    \<and> rv_version r = nd_version n + (if nd_current_revision_id n = None then 0 else 1)
    \<and> rv_title r = strip (ra_title a) \<and> rv_content r = ra_content a \<and> rv_node_type r = ra_node_type a
    \<and> rv_category r = ra_category a \<and> rv_due_date r = ra_due_date a
    \<and> nd_current_revision_id n' = Some (rv_id r) \<and> nd_version n' = rv_version r
    \<and> nd_title n' = rv_title r \<and> nd_content n' = rv_content r \<and> nd_node_type n' = rv_node_type r
    \<and> nd_category n' = rv_category r \<and> nd_due_date n' = rv_due_date r
    \<and> nd_graph_state n' = nd_graph_state n \<and> nd_parent_id n' = nd_parent_id n \<and> nd_merged_into_node_id n' = nd_merged_into_node_id n
    \<and> mset (map (\<lambda>e. (sp_content e, sp_support_type e)) (current_revision_evidence_specs d' n'))
      = mset (map (\<lambda>e. (sp_content e, sp_support_type e)) (ra_evidence_specs a))
    \<and> (\<forall>i. i \<noteq> nid \<longrightarrow> node_by_id d' i = node_by_id d i)
    \<and> (\<exists>new. db_evidence d' = db_evidence d @ new) \<and> evidence_ok L d'"
proof -
  have pairs: "map (\<lambda>e. (sp_content e, sp_support_type e)) xs = map (\<lambda>e. (sp_content e, sp_support_type e)) ys"
    if "map sp_content xs = map sp_content ys" "map sp_support_type xs = map sp_support_type ys" for xs ys :: "evidence_spec list"
    using that by (induction xs ys rule: list_induct2') auto
  from create_node_revision_spec [OF assms] obtain n' where n': "node_by_id d' nid = Some n'"
      "map sp_content (current_revision_evidence_specs d' n') = map sp_content (ra_evidence_specs a)"
      "map sp_support_type (current_revision_evidence_specs d' n') = map sp_support_type (ra_evidence_specs a)" by blast
  show ?thesis
    using create_node_revision_spec [OF assms] pairs [OF n'(2,3)] n'(1) by (intro exI [of _ n']) simp
qed

theorem create_node_revision_correct_witness:
  "\<exists>r d' n'. create_node_revision sample_stdlib (sample_node 1 ''7'')
      \<lparr>ra_title = '' new '', ra_content = ''c'', ra_node_type = DECISION, ra_category = ''PLAN'',
       ra_due_date = None, ra_created_by_type = ''USER'', ra_created_by_id = Some ''u'',
       ra_generation_run_id = None, ra_evidence_specs = [sample_spec], ra_requires_evidence = True,
       ra_legacy_imported = False\<rparr> 9 (sample_db [sample_node 1 ''7'']) = Inr (r, d')
    \<and> node_by_id d' 1 = Some n' \<and> nd_version n' = 2 \<and> nd_title n' = ''new'' \<and> nd_category n' = ''PLAN''
    \<and> mset (map (\<lambda>e. (sp_content e, sp_support_type e)) (current_revision_evidence_specs d' n'))
      = {#(sp_content sample_spec, sp_support_type sample_spec)#}"
proof -
  let ?a = "\<lparr>ra_title = '' new '', ra_content = ''c'', ra_node_type = DECISION, ra_category = ''PLAN'',
       ra_due_date = None, ra_created_by_type = ''USER'', ra_created_by_id = Some ''u'',
       ra_generation_run_id = None, ra_evidence_specs = [sample_spec], ra_requires_evidence = True,
       ra_legacy_imported = False\<rparr>"
  let ?n = "sample_node 1 ''7''" and ?d = "sample_db [sample_node 1 ''7'']"
  have title: "strip '' new '' = ''new''" by code_simp
  obtain r d' where r: "create_node_revision sample_stdlib ?n ?a 9 ?d = Inr (r, d')"
    by (simp add: create_node_revision_def title link_evidence_def get_or_create_evidence_def uuid4_def
        sample_db_def sample_node_def empty_db_def Let_def)
  have "evidence_ok sample_stdlib ?d" by (simp add: evidence_ok_def sample_db_def empty_db_def)
  moreover have "collision_free sample_stdlib (nd_project_id ?n)
      (set (ra_evidence_specs ?a) \<union> project_evidence ?d (nd_project_id ?n))"
    by (simp add: collision_free_def project_evidence_def sample_db_def empty_db_def)
  moreover have "nodes_unique ?d" "node_by_id ?d 1 = Some ?n"
    by (simp_all add: sample_db_def sample_node_def node_by_id_def)
  ultimately show ?thesis
    using create_node_revision_correct [of ?d 1 ?n sample_stdlib ?a 9 r d'] r
    by (auto simp: title sample_node_def)
qed

text \<open>The pair the embedding text takes from a specification.\<close>

definition pair_of_spec :: "evidence_spec \<Rightarrow> evidence_pair" where
  "pair_of_spec s = TimedEvidencePair (sp_start_ms s) (Some (or_str (sp_source_segment_id s) [])) (sp_quoted_text s)"

lemma pair_of_spec_content: "pair_of_spec (sp_content s) = pair_of_spec s"
  by (simp add: pair_of_spec_def sp_content_def)

lemma canonical_evidence_mset: "mset xs = mset ys \<Longrightarrow> canonical_evidence xs = canonical_evidence ys"
proof -
  assume "mset xs = mset ys"
  then have "mset (map sortable_pair xs) = mset (map sortable_pair ys)" by simp
  then have "sort (map sortable_pair xs) = sort (map sortable_pair ys)"
    by (intro properties_for_sort) simp_all
  then show ?thesis by (simp add: canonical_evidence_def)
qed

lemma collect_results_Inr: "collect_results rs = Inr xs \<longleftrightarrow> rs = map Inr xs"
  by (induction rs arbitrary: xs) (auto simp: rbind_Inr_iff)

lemma load_pairs:
  assumes ok: "evidence_ok L d"
  shows "collect_results (map (load_pair d pid) ls) = Inr pairs \<Longrightarrow>
    pairs = map pair_of_spec (link_specs d pid ls) \<and> (\<forall>l \<in> set ls. re_project_id l = pid)"
proof (induction ls arbitrary: pairs)
  case Nil
  then show ?case by (simp add: link_specs_def)
next
  case (Cons l ls)
  then obtain p ps where p: "load_pair d pid l = Inr p" "collect_results (map (load_pair d pid) ls) = Inr ps"
      "pairs = p # ps" by (auto simp: rbind_Inr_iff)
  from p(1) obtain e where e: "evidence_by_id d (re_evidence_id l) = Some e" "ev_project_id e = pid"
      "re_project_id l = pid" "p = pair_of_spec (spec_of_link l e)"
    by (auto simp: load_pair_def rguard_Inr_iff pair_of_spec_def spec_of_link_def or_str_def
        split: option.splits if_splits)
  from e(1) have "e \<in> set (db_evidence d)" "ev_id e = re_evidence_id l"
    by (auto simp: evidence_by_id_def dest: find_SomeD)
  with filter_evidence_by_id [OF ok this(1), of pid] e have
    "filter (\<lambda>x. ev_id x = re_evidence_id l \<and> ev_project_id x = pid) (db_evidence d) = [e]" by simp
  with Cons.IH [OF p(2)] p(3) e show ?case by (simp add: link_specs_def)
qed

lemma load_pairs_total:
  assumes ok: "evidence_ok L d'"
    and "list_all2 (\<lambda>l e. re_project_id l = pid \<and> re_evidence_id l = ev_id e
       \<and> ev_project_id e = pid \<and> e \<in> set (db_evidence d')) ls es"
  shows "\<exists>pairs. collect_results (map (load_pair d' pid) ls) = Inr pairs"
  using assms(2)
proof (induction rule: list_all2_induct)
  case Nil
  then show ?case by simp
next
  case (Cons l ls e es)
  then have "evidence_by_id d' (re_evidence_id l) = Some e"
    using ok find_key_Some_iff [of ev_id "db_evidence d'" "ev_id e" e]
    by (simp add: evidence_by_id_def evidence_ok_def)
  with Cons show ?case by (auto simp: load_pair_def)
qed

text \<open>The meaning of a node for retrieval: the text of its current revision.\<close>

lemma load_current_text:
  assumes ok: "evidence_ok L d" and rid: "nd_current_revision_id n = Some rid" "revision_by_id d rid = Some r"
    and load: "load_current_revision_embedding_input L d n = Inr cur"
  shows "ei_text_hash cur = embedding_text_hash L (build_embedding_text_from_parts L (rv_node_type r)
      (rv_title r) (rv_content r) (map pair_of_spec (current_revision_evidence_specs d n)) None)"
proof -
  have rv: "rv_id r = rid" using rid(2) by (auto simp: revision_by_id_def dest: find_SomeD)
  let ?ls = "filter (\<lambda>l. re_node_revision_id l = rid) (db_revision_evidence d)"
  from load rid rv obtain pairs where p: "collect_results (map (load_pair d (nd_project_id n)) ?ls) = Inr pairs"
    "ei_text_hash cur = embedding_text_hash L (build_embedding_text_from_parts L (rv_node_type r)
       (rv_title r) (rv_content r) pairs None)"
    by (auto simp: load_current_revision_embedding_input_def rguard_Inr_iff rbind_Inr_iff Let_def)
  from load_pairs [OF ok p(1)] have "pairs = map pair_of_spec (link_specs d (nd_project_id n) ?ls)"
    and "filter (\<lambda>l. re_project_id l = nd_project_id n \<and> re_node_revision_id l = rid) (db_revision_evidence d) = ?ls"
    by (auto intro!: filter_cong)
  with p(2) rid(1) show ?thesis by (simp add: current_revision_evidence_specs_alt)
qed

lemma linked_load_total:
  assumes lk: "linked pid rid d specs es d'" and ok: "evidence_ok L d'"
    and fresh: "\<forall>l \<in> set (db_revision_evidence d). re_node_revision_id l < rid"
  shows "\<exists>pairs. length pairs = length specs \<and> collect_results (map (load_pair d' pid)
      (filter (\<lambda>l. re_node_revision_id l = rid) (db_revision_evidence d'))) = Inr pairs"
proof -
  from lk obtain links new where 1: "db_revision_evidence d' = db_revision_evidence d @ links"
    and 2: "list_all2 (\<lambda>l (s, e). re_project_id l = pid \<and> re_node_revision_id l = rid
       \<and> re_evidence_id l = ev_id e \<and> re_support_type l = sp_support_type s) links (zip specs es)"
    and 3: "list_all2 (\<lambda>s e. ev_spec e = sp_content s \<and> ev_project_id e = pid \<and> e \<in> set (db_evidence d')) specs es"
    by (auto simp: linked_def)
  have len: "length links = length es" "length specs = length es"
    using list_all2_lengthD [OF 2] list_all2_lengthD [OF 3] by auto
  have "list_all2 (\<lambda>l e. re_project_id l = pid \<and> re_evidence_id l = ev_id e
       \<and> ev_project_id e = pid \<and> e \<in> set (db_evidence d')) links es"
    using 2 3 len by (auto simp: list_all2_conv_all_nth)
  from load_pairs_total [OF ok this] obtain pairs where
    p: "collect_results (map (load_pair d' pid) links) = Inr pairs" by blast
  moreover have "filter (\<lambda>l. re_node_revision_id l = rid) links = links"
    using 2 by (auto intro!: list_all2_filter_True)
  moreover have "filter (\<lambda>l. re_node_revision_id l = rid) (db_revision_evidence d) = []"
    using fresh by (auto simp: filter_empty_conv)
  moreover from p have "length pairs = length links"
    by (metis collect_results_Inr length_map)
  ultimately show ?thesis using 1 len by simp
qed

text \<open>The reconciliation makes exactly those READY vectors of the node STALE that were made from another text.\<close>

definition outdated_vector :: "uuid \<Rightarrow> string \<Rightarrow> node_embedding \<Rightarrow> bool" where
  "outdated_vector nid h m \<longleftrightarrow> em_node_id m = nid \<and> em_status m = EMB_READY \<and> em_embedded_text_hash m \<noteq> Some h"

lemma reconcile_exact:
  assumes "load_current_revision_embedding_input L d n = Inr cur"
  shows "\<exists>res. reconcile_embedding_status_after_revision L n d = Inr (res, d\<lparr>db_embeddings :=
        update_where (outdated_vector (nd_id n) (ei_text_hash cur)) (\<lambda>m. m\<lparr>em_status := EMB_STALE\<rparr>) (db_embeddings d)\<rparr>)
      \<and> ir_invalidated res = length (filter (outdated_vector (nd_id n) (ei_text_hash cur)) (db_embeddings d))"
proof (cases "filter (\<lambda>m. em_node_id m = nd_id n \<and> em_status m = EMB_READY) (db_embeddings d) = []")
  case True
  then have no: "\<And>m. m \<in> set (db_embeddings d) \<Longrightarrow> \<not> outdated_vector (nd_id n) (ei_text_hash cur) m"
    by (auto simp: filter_empty_conv outdated_vector_def)
  have "update_where (outdated_vector (nd_id n) (ei_text_hash cur)) (\<lambda>m. m\<lparr>em_status := EMB_STALE\<rparr>) (db_embeddings d) = db_embeddings d"
    by (rule update_where_id) (rule no)
  moreover have "filter (outdated_vector (nd_id n) (ei_text_hash cur)) (db_embeddings d) = []" using no by (simp add: filter_empty_conv)
  ultimately show ?thesis using True by (simp add: reconcile_embedding_status_after_revision_def)
next
  case False
  let ?P = "\<lambda>m. em_node_id m = nd_id n \<and> em_status m = EMB_READY" and ?h = "\<lambda>m. em_embedded_text_hash m = Some (ei_text_hash cur)"
  have p: "outdated_vector (nd_id n) (ei_text_hash cur) = (\<lambda>m. ?P m \<and> \<not> ?h m)" by (rule ext) (simp add: outdated_vector_def)
  have "length (filter (\<lambda>m. ?P m \<and> \<not> ?h m) ms) = length (filter ?P ms) - length (filter ?h (filter ?P ms))" for ms :: "node_embedding list"
    using sum_length_filter_compl [of ?h "filter ?P ms"] by (simp add: conj_commute)
  with False assms show ?thesis by (simp add: reconcile_embedding_status_after_revision_def Let_def p)
qed

lemma revision_loads:
  assumes "create_node_revision L n a now d = Inr (r, d')" "evidence_ok L d"
    and "collision_free L (nd_project_id n) (set (ra_evidence_specs a) \<union> project_evidence d (nd_project_id n))"
    and "node_by_id d nid = Some n" "node_by_id d' nid = Some n'"
  obtains cur' where "load_current_revision_embedding_input L d' n' = Inr cur'" "nd_id n' = nid"
    "rv_title r = strip (ra_title a)" "rv_content r = ra_content a" "rv_node_type r = ra_node_type a"
    "db_embeddings d' = db_embeddings d"
  using assms(1-3)
proof (rule create_node_revision_linked)
  fix d2 es
  let ?base = "d\<lparr>db_next_uuid := Suc (db_next_uuid d), db_revisions := db_revisions d @ [r]\<rparr>"
  let ?f = "\<lambda>m. m\<lparr>nd_title := rv_title r, nd_content := rv_content r,
        nd_node_type := rv_node_type r, nd_category := rv_category r,
        nd_due_date := rv_due_date r, nd_version := rv_version r,
        nd_current_revision_id := Some (rv_id r), nd_last_actor_type := rv_created_by_type r,
        nd_updated_at := now\<rparr>"
  assume ok2: "evidence_ok L d2"
    and lk: "linked (nd_project_id n) (rv_id r) ?base (ra_evidence_specs a) es d2"
    and d': "d' = set_node (nd_id n) ?f d2"
    and r: "rv_id r = db_next_uuid d" "rv_node_id r = nd_id n" "rv_project_id r = nd_project_id n"
      "rv_title r = strip (ra_title a)" "rv_content r = ra_content a" "rv_node_type r = ra_node_type a"
      "rv_requires_evidence r = ra_requires_evidence a" "ra_requires_evidence a \<longrightarrow> ra_evidence_specs a \<noteq> []"
  have nid: "nd_id n = nid" using assms(4) by (auto dest: node_by_idD)
  have same: "db_nodes d2 = db_nodes d" "db_revisions d2 = db_revisions d @ [r]" "db_embeddings d2 = db_embeddings d"
    using lk by (auto simp: linked_def)
  have n': "n' = ?f n"
    using assms(4,5) by (simp add: d' node_by_id_set_node nid) (simp add: node_by_id_def same)
  have old: "\<forall>l \<in> set (db_revision_evidence ?base). re_node_revision_id l < rv_id r"
      "rv_id r \<notin> rv_id ` set (db_revisions d)"
    using assms(2) r(1) by (auto simp: evidence_ok_def)
  have rev: "revision_by_id d' (rv_id r) = Some r"
    using old(2) by (simp add: revision_by_id_def d' same find_key_append)
  obtain pairs where "length pairs = length (ra_evidence_specs a)"
    "collect_results (map (load_pair d2 (nd_project_id n))
      (filter (\<lambda>l. re_node_revision_id l = rv_id r) (db_revision_evidence d2))) = Inr pairs"
    using linked_load_total [OF lk ok2 old(1)] by blast
  moreover have "load_pair d2 = load_pair d'"
    by (intro ext) (simp add: load_pair_def evidence_by_id_def d')
  ultimately obtain cur' where "load_current_revision_embedding_input L d' n' = Inr cur'"
    using rev r by (cases pairs)
      (auto simp: load_current_revision_embedding_input_def n' d' rguard_def Let_def)
  with r nid show thesis by (intro that [of cur']) (simp_all add: n' d' same set_node_def)
qed

text \<open>C34. A revision that keeps type, title, content and evidence (in any order) keeps the meaning: the
  embedding hash of the node is the one it had, whatever category and due date the revision
  carries. The reconciliation after it therefore keeps every READY vector that was made from the current text, and makes STALE exactly the READY vectors
  of the node that had been made from another text already; no other vector, and nothing else, changes.\<close>

theorem same_meaning_keeps_embeddings:
  assumes "nodes_unique d" "node_by_id d nid = Some n" "evidence_ok L d"
    and "collision_free L (nd_project_id n) (set (ra_evidence_specs a) \<union> project_evidence d (nd_project_id n))"
    and "create_node_revision L n a now d = Inr (r, d')" "node_by_id d' nid = Some n'"
    and "load_current_revision_embedding_input L d n = Inr cur"
    and "nd_current_revision_id n = Some rid" "revision_by_id d rid = Some r0"
    and "rv_node_type r0 = ra_node_type a" "rv_title r0 = strip (ra_title a)" "rv_content r0 = ra_content a"
    and "mset (map sp_content (ra_evidence_specs a)) = mset (map sp_content (current_revision_evidence_specs d n))"
  shows "\<exists>cur' res. load_current_revision_embedding_input L d' n' = Inr cur'
    \<and> ei_text_hash cur' = ei_text_hash cur
    \<and> reconcile_embedding_status_after_revision L n' d' = Inr (res, d'\<lparr>db_embeddings :=
        update_where (outdated_vector nid (ei_text_hash cur)) (\<lambda>m. m\<lparr>em_status := EMB_STALE\<rparr>) (db_embeddings d)\<rparr>)
    \<and> ir_invalidated res = length (filter (outdated_vector nid (ei_text_hash cur)) (db_embeddings d))"
proof -
  obtain m where m: "node_by_id d' nid = Some m" "db_revisions d' = db_revisions d @ [r]"
    "rv_id r \<notin> rv_id ` set (db_revisions d)" "nd_current_revision_id m = Some (rv_id r)"
    "map sp_content (current_revision_evidence_specs d' m) = map sp_content (ra_evidence_specs a)"
    "evidence_ok L d'"
    using create_node_revision_spec [OF assms(1-5)] by blast
  then have n': "n' = m" using assms(6) by simp
  have rev: "revision_by_id d' (rv_id r) = Some r"
    using m(2,3) by (simp add: revision_by_id_def find_key_append)
  from assms(5,3,4) obtain cur' where
    cur': "load_current_revision_embedding_input L d' n' = Inr cur'" and proj: "nd_id n' = nid"
    and r: "rv_title r = strip (ra_title a)" "rv_content r = ra_content a" "rv_node_type r = ra_node_type a"
    and emb: "db_embeddings d' = db_embeddings d"
    by (rule revision_loads [OF _ _ _ assms(2,6)])
  have "mset (map pair_of_spec (current_revision_evidence_specs d' n')) =
        mset (map pair_of_spec (current_revision_evidence_specs d n))"
  proof -
    have "image_mset pair_of_spec (mset (map sp_content xs)) = mset (map pair_of_spec xs)" for xs
      by (simp add: pair_of_spec_content image_mset.compositionality comp_def)
    then show ?thesis using m(5) assms(13) n' by metis
  qed
  then have "canonical_evidence (map pair_of_spec (current_revision_evidence_specs d' n')) =
      canonical_evidence (map pair_of_spec (current_revision_evidence_specs d n))"
    by (rule canonical_evidence_mset)
  then have hash: "ei_text_hash cur' = ei_text_hash cur"
    using load_current_text [OF m(6) _ rev cur'] m(4) n' load_current_text [OF assms(3,8,9,7)] assms(10-12) r
    by (simp add: build_embedding_text_from_parts_def)
  from reconcile_exact [OF cur'] hash cur' show ?thesis by (simp add: emb proj)
qed

definition sample_args :: revision_args where
  "sample_args = \<lparr>ra_title = ''t'', ra_content = ''c'', ra_node_type = DECISION, ra_category = ''OTHER'',
     ra_due_date = Some ''2030-01-01'', ra_created_by_type = ''USER'', ra_created_by_id = Some ''u'',
     ra_generation_run_id = None, ra_evidence_specs = [], ra_requires_evidence = False,
     ra_legacy_imported = False\<rparr>"

definition sample_revision :: "uuid \<Rightarrow> node_revision" where
  "sample_revision i = \<lparr>rv_id = i + 100, rv_project_id = ''7'', rv_node_id = i, rv_version = 1,
     rv_title = ''t'', rv_content = ''c'', rv_node_type = DECISION, rv_category = ''PLAN'',
     rv_due_date = None, rv_created_by_type = ''SYSTEM'', rv_created_by_id = None,
     rv_generation_run_id = None, rv_requires_evidence = False, rv_legacy_imported = False,
     rv_created_at = 0\<rparr>"

definition sample_revision_db :: db where
  "sample_revision_db = (sample_db [sample_node 1 ''7''])\<lparr>db_revisions := [sample_revision 1],
     db_embeddings := [\<lparr>em_node_id = 1, em_embedding_version = ''v2'', em_embedding_model = ''m'',
       em_dimension = 1536, em_embedded_text_hash = Some ''{}'', em_embedding = None, em_status = EMB_READY,
       em_embedded_at = Some 0\<rparr>]\<rparr>"

theorem same_meaning_keeps_embeddings_witness:
  "\<exists>r d' n' res. create_node_revision sample_stdlib (sample_node 1 ''7'') sample_args 9 sample_revision_db = Inr (r, d')
    \<and> node_by_id d' 1 = Some n' \<and> nd_category n' = ''OTHER''
    \<and> (\<exists>d''. reconcile_embedding_status_after_revision sample_stdlib n' d' = Inr (res, d'')
         \<and> db_embeddings d'' = db_embeddings sample_revision_db \<and> ir_invalidated res = 0)"
proof -
  let ?n = "sample_node 1 ''7''" and ?d = sample_revision_db and ?L = sample_stdlib
  note defs = sample_revision_db_def sample_db_def sample_node_def sample_revision_def empty_db_def sample_args_def
  have title: "strip ''t'' = ''t''" by code_simp
  obtain r d' n' where r: "create_node_revision ?L ?n sample_args 9 ?d = Inr (r, d')"
      "node_by_id d' 1 = Some n'" "nd_category n' = ''OTHER''"
    by (simp add: create_node_revision_def title uuid4_def Let_def set_node_def node_by_id_def defs)
  obtain cur where cur: "load_current_revision_embedding_input ?L ?d ?n = Inr cur" "ei_text_hash cur = ''{}''"
    by (simp add: load_current_revision_embedding_input_def revision_by_id_def defs Let_def
        embedding_text_hash_def build_embedding_text_from_parts_def sample_stdlib_def)
  have "nodes_unique ?d" "node_by_id ?d 1 = Some ?n" "evidence_ok ?L ?d"
    "collision_free ?L (nd_project_id ?n) (set (ra_evidence_specs sample_args) \<union> project_evidence ?d (nd_project_id ?n))"
    "nd_current_revision_id ?n = Some 101" "revision_by_id ?d 101 = Some (sample_revision 1)"
    by (simp_all add: defs node_by_id_def revision_by_id_def evidence_ok_def collision_free_def project_evidence_def)
  note known = this
  have args: "rv_node_type (sample_revision 1) = ra_node_type sample_args" "rv_title (sample_revision 1) = strip (ra_title sample_args)"
      "rv_content (sample_revision 1) = ra_content sample_args"
      "mset (map sp_content (ra_evidence_specs sample_args)) = mset (map sp_content (current_revision_evidence_specs ?d ?n))"
    by (simp_all add: title current_revision_evidence_specs_def defs)
  have kept: "update_where (outdated_vector 1 (ei_text_hash cur)) f (db_embeddings ?d) = db_embeddings ?d"
      "filter (outdated_vector 1 (ei_text_hash cur)) (db_embeddings ?d) = []" for f
    by (simp_all add: outdated_vector_def cur(2) defs)
  from same_meaning_keeps_embeddings [OF known(1-4) r(1,2) cur(1) known(5,6) args, unfolded kept] r
  show ?thesis by fastforce
qed

section \<open>Properties of the evidence resolution\<close>

text \<open>The evidence of a candidate rests on the transcript the server holds.\<close>

definition verbatim :: "db \<Rightarrow> candidate \<Rightarrow> evidence_spec \<Rightarrow> bool" where
  "verbatim d c s \<longleftrightarrow> (\<exists>seg \<in> set (db_segments d). \<exists>a b. let t = or_str (ts_normalized_text seg) (ts_text seg) in
     ts_project_id seg = cd_project_id c \<and> sp_transcript_segment_id s = Some (ts_id seg)
   \<and> sp_source_segment_id s = Some (ts_segment_id seg)
   \<and> sp_quote_start s = Some a \<and> sp_quote_end s = Some b \<and> 0 \<le> a \<and> a < b \<and> b \<le> int (length t)
   \<and> sp_quoted_text s = slice t a b \<and> sp_quoted_text s \<noteq> [])"

lemma slice_nonempty: "0 \<le> a \<Longrightarrow> a < b \<Longrightarrow> b \<le> int (length t) \<Longrightarrow> slice t a b \<noteq> []"
  by (simp add: slice_def)

lemma resolve_candidate_evidence_verbatim:
  assumes "resolve_candidate_evidence L d c first row = Inr (Some s)"
  shows "verbatim d c s \<and> sp_support_type s = (if first then ''PRIMARY'' else ''SUPPORTING'')"
proof -
  let ?mid = "or_str (ce_source_meeting_id row) (cd_external_meeting_id c)"
  let ?P = "\<lambda>s. ts_project_id s = cd_project_id c
        \<and> ts_external_meeting_id s = ?mid \<and> ts_segment_id s = ce_segment_id row"
  from assms obtain x where x: "one_or_none (filter ?P (db_segments d)) = Inr x" "x \<noteq> None"
    by (cases "one_or_none (filter ?P (db_segments d))")
      (auto simp: resolve_candidate_evidence_def Let_def split: option.splits)
  then obtain seg where seg: "filter ?P (db_segments d) = [seg]" by (auto simp: one_or_none_Some_iff)
  with assms obtain a b where sp: "span_of row (or_str (ts_normalized_text seg) (ts_text seg)) = Some (a, b)"
    by (cases "span_of row (or_str (ts_normalized_text seg) (ts_text seg))")
      (auto simp: resolve_candidate_evidence_def Let_def)
  from assms seg sp have s: "sp_transcript_segment_id s = Some (ts_id seg)"
      "sp_source_segment_id s = Some (ts_segment_id seg)" "sp_quote_start s = Some a" "sp_quote_end s = Some b"
      "sp_quoted_text s = slice (or_str (ts_normalized_text seg) (ts_text seg)) a b"
      "sp_support_type s = (if first then ''PRIMARY'' else ''SUPPORTING'')"
    by (auto simp: resolve_candidate_evidence_def Let_def)
  from seg have "seg \<in> set (filter ?P (db_segments d))" by simp
  then have seg: "seg \<in> set (db_segments d)" "ts_project_id seg = cd_project_id c" by auto
  from sp have ab: "0 \<le> a" "a < b" "b \<le> int (length (or_str (ts_normalized_text seg) (ts_text seg)))"
    by (auto simp: span_of_def split: option.splits if_splits)
  from seg s ab slice_nonempty [OF ab] show ?thesis by (auto simp: verbatim_def Let_def)
qed

definition support_types :: "nat \<Rightarrow> string list" where
  "support_types n = (if n = 0 then [] else ''PRIMARY'' # replicate (n - 1) ''SUPPORTING'')"

lemma support_types_Suc: "support_types (Suc n) = support_types n @ [if n = 0 then ''PRIMARY'' else ''SUPPORTING'']"
  by (cases n) (simp_all add: support_types_def flip: replicate_append_same)

lemma validate_rows_ok:
  "validate_rows L d c rows specs ws = Inr (specs', ws') \<Longrightarrow>
   \<forall>s \<in> set specs. verbatim d c s \<Longrightarrow> map sp_support_type specs = support_types (length specs) \<Longrightarrow>
   length specs' + length ws' = length rows + length specs + length ws
   \<and> (\<forall>s \<in> set specs'. verbatim d c s) \<and> map sp_support_type specs' = support_types (length specs')"
proof (induction rows arbitrary: specs ws)
  case Nil
  then show ?case by simp
next
  case (Cons row rows)
  from Cons.prems(1) obtain r where r: "resolve_candidate_evidence L d c (specs = []) row = Inr r"
    by (auto simp: rbind_Inr_iff)
  show ?case
  proof (cases r)
    case None
    with Cons.prems(1) r obtain w where "validate_rows L d c rows specs (ws @ [w]) = Inr (specs', ws')"
      by auto
    from Cons.IH [OF this Cons.prems(2,3)] show ?thesis by simp
  next
    case (Some s)
    with r have s: "verbatim d c s" "sp_support_type s = (if specs = [] then ''PRIMARY'' else ''SUPPORTING'')"
      using resolve_candidate_evidence_verbatim by blast+
    have "map sp_support_type (specs @ [s]) = support_types (length (specs @ [s]))"
      using Cons.prems(3) s(2) by (simp add: support_types_Suc)
    moreover have "validate_rows L d c rows (specs @ [s]) ws = Inr (specs', ws')"
      using Cons.prems(1) r Some by simp
    ultimately show ?thesis using Cons.IH [of "specs @ [s]" ws] Cons.prems(2) s(1) by simp
  qed
qed

text \<open>C35. Evidence is never taken from the model: every specification that the resolution of a
  candidate returns is a non-empty, in-range slice of a transcript segment of the candidate's
  project, every other row becomes a warning, and exactly the first specification is PRIMARY.\<close>

theorem validated_evidence_verbatim:
  assumes "validated_candidate_evidence L d c = Inr (specs, warnings)"
  shows "length specs + length warnings = length (cd_evidence c)
    \<and> (\<forall>s \<in> set specs. verbatim d c s)
    \<and> map sp_support_type specs = support_types (length specs)"
  using validate_rows_ok [OF assms [unfolded validated_candidate_evidence_def]]
  by (simp add: support_types_def)

definition sample_segment :: transcript_segment where
  "sample_segment = \<lparr>ts_id = 50, ts_project_id = ''7'', ts_external_meeting_id = ''m'', ts_segment_id = ''s1'',
     ts_sequence_no = 1, ts_start_ms = Some 10, ts_end_ms = Some 20, ts_speaker_label = None,
     ts_text = ''raw'', ts_normalized_text = Some ''we ship'', ts_normalization_metadata = None\<rparr>"

definition sample_candidate :: candidate where
  "sample_candidate = \<lparr>cd_id = 3, cd_request_id = 60, cd_project_id = ''7'', cd_external_meeting_id = ''m'', cd_source_item_id = ''i1'',
     cd_raw_item = JObj [], cd_suggested_node_type = ''DECISION'', cd_suggested_category = Some ''PLAN'', cd_suggested_title = ''t'',
     cd_suggested_content = ''c'', cd_suggested_parent_candidate_id = None, cd_review_status = ''PENDING'', cd_confirmed_node_id = None,
     cd_initial_review_node_id = None, cd_version = 1, cd_created_at = 0, cd_reviewed_at = None, cd_reviewed_by = None,
     cd_evidence = [\<lparr>ce_segment_id = ''s1'', ce_quote = ''ship'', ce_quote_start = Some 3, ce_quote_end = Some 7,
          ce_source_meeting_id = None\<rparr>,
         \<lparr>ce_segment_id = ''s1'', ce_quote = ''ship'', ce_quote_start = Some 0, ce_quote_end = Some 4,
          ce_source_meeting_id = None\<rparr>]\<rparr>"

theorem validated_evidence_verbatim_witness:
  "\<exists>s w. validated_candidate_evidence sample_stdlib (empty_db\<lparr>db_segments := [sample_segment]\<rparr>)
      sample_candidate = Inr ([s], [w])
    \<and> verbatim (empty_db\<lparr>db_segments := [sample_segment]\<rparr>)
      sample_candidate s
    \<and> sp_support_type s = ''PRIMARY''"
proof -
  let ?d = "empty_db\<lparr>db_segments := [sample_segment]\<rparr>"
  let ?c = sample_candidate
  have "\<exists>s w. validated_candidate_evidence sample_stdlib ?d ?c = Inr ([s], [w])"
    by (simp add: validated_candidate_evidence_def resolve_candidate_evidence_def sample_segment_def sample_candidate_def
        or_str_def span_of_def slice_def Let_def)
  then obtain s w where r: "validated_candidate_evidence sample_stdlib ?d ?c = Inr ([s], [w])" by blast
  from validated_evidence_verbatim [OF r] r show ?thesis by (auto simp: support_types_def)
qed

end
