(* ===== verification/Graph_Merge.thy ===== *)
theory Graph_Merge
  imports Revisions
begin

text \<open>
  \<open>pipeline/graph.py\<close>: reading a node of a project, resolving a merge chain to its canonical
  node, reading relations through canonical nodes, and the reversible logical merge. Node
  arguments of the Python functions are rows of the session; they are passed here as the row,
  and assignments to them are updates of the table. \<open>for_update\<close> only takes row locks.
\<close>

section \<open>Reading nodes\<close>

definition MAX_CANONICAL_HOPS :: nat where "MAX_CANONICAL_HOPS = 128"

definition canonical_state :: "graph_state \<Rightarrow> bool" where
  "canonical_state s \<longleftrightarrow> s = ACTIVE \<or> s = UNATTACHED"

definition node_in_any_project :: "db \<Rightarrow> uuid \<Rightarrow> node option result" where
  "node_in_any_project d i = one_or_none (filter (\<lambda>n. nd_id n = i) (db_nodes d))"

definition get_project_node :: "db \<Rightarrow> string \<Rightarrow> uuid \<Rightarrow> bool \<Rightarrow> node result" where
  "get_project_node d pid i include_deleted =
     rbind (one_or_none (filter (\<lambda>n. nd_id n = i \<and> nd_project_id n = pid
              \<and> (include_deleted \<or> nd_deleted_at n = None)) (db_nodes d))) (\<lambda>r.
       case r of
         Some n \<Rightarrow> Inr n
       | None \<Rightarrow> rbind (node_in_any_project d i) (\<lambda>other.
           if other \<noteq> None then Inl (GraphMutationValidationError ''node belongs to another project'')
           else Inl (GraphMutationValidationError ''node not found'')))"

text \<open>The loop of \<open>resolve_canonical_node\<close>; the first argument is the number of rounds left.\<close>

fun resolve_loop :: "nat \<Rightarrow> db \<Rightarrow> string \<Rightarrow> node_type \<Rightarrow> uuid set \<Rightarrow> node \<Rightarrow> node result" where
  "resolve_loop 0 d pid expected visited current =
     Inl (GraphIntegrityError ''merge chain exceeds the canonical hop limit'')"
| "resolve_loop (Suc k) d pid expected visited current =
     (if nd_id current \<in> visited then Inl (GraphIntegrityError ''merge cycle detected'')
      else if nd_node_type current \<noteq> expected
      then Inl (GraphIntegrityError ''merge chain changes Node type'')
      else if nd_graph_state current \<noteq> MERGED
      then (if nd_merged_into_node_id current \<noteq> None
            then Inl (GraphIntegrityError ''non-MERGED Node has merged_into_node_id'')
            else if \<not> canonical_state (nd_graph_state current)
            then Inl (GraphMutationValidationError ''canonical target is not available'')
            else Inr current)
      else case nd_merged_into_node_id current of
        None \<Rightarrow> Inl (GraphIntegrityError ''MERGED Node has no target'')
      | Some j \<Rightarrow>
          rbind (one_or_none (filter (\<lambda>n. nd_id n = j \<and> nd_project_id n = pid
                   \<and> nd_deleted_at n = None) (db_nodes d))) (\<lambda>r.
            case r of
              Some n \<Rightarrow> resolve_loop k d pid expected (insert (nd_id current) visited) n
            | None \<Rightarrow> rbind (node_in_any_project d j) (\<lambda>other.
                if other \<noteq> None then Inl (GraphIntegrityError ''merge chain crosses project boundary'')
                else Inl (GraphIntegrityError ''merge chain points to a missing Node''))))"

definition resolve_canonical_node ::
  "db \<Rightarrow> string \<Rightarrow> uuid \<Rightarrow> node_type option \<Rightarrow> node result" where
  "resolve_canonical_node d pid i expected_node_type =
     rbind (get_project_node d pid i False) (\<lambda>current.
       resolve_loop MAX_CANONICAL_HOPS d pid
         (case expected_node_type of Some t \<Rightarrow> t | None \<Rightarrow> nd_node_type current) {} current)"

section \<open>Canonical relations\<close>

record canonical_relation =
  cr_relation_id :: uuid
  cr_relation_type :: relation_type
  cr_original_from_node_id :: uuid
  cr_original_to_node_id :: uuid
  cr_canonical_from_node_id :: uuid
  cr_canonical_to_node_id :: uuid

text \<open>\<open>sorted(..., key=str)\<close> on two UUIDs is their order.\<close>

definition relation_key :: "uuid \<Rightarrow> uuid \<Rightarrow> relation_type \<Rightarrow> uuid \<times> uuid \<times> relation_type" where
  "relation_key a b t = (if t = RELATED_TO then (min a b, max a b, t) else (a, b, t))"

fun canonical_relations_loop ::
  "db \<Rightarrow> string \<Rightarrow> (uuid \<times> uuid \<times> relation_type) set \<Rightarrow> relation list \<Rightarrow> canonical_relation list result" where
  "canonical_relations_loop d pid seen [] = Inr []"
| "canonical_relations_loop d pid seen (r # rs) =
     rbind (resolve_canonical_node d pid (rl_from_node_id r) None) (\<lambda>f.
     rbind (resolve_canonical_node d pid (rl_to_node_id r) None) (\<lambda>t.
       if nd_id f = nd_id t then canonical_relations_loop d pid seen rs
       else
         (let key = relation_key (nd_id f) (nd_id t) (rl_relation_type r) in
          if key \<in> seen then canonical_relations_loop d pid seen rs
          else rbind (canonical_relations_loop d pid (insert key seen) rs) (\<lambda>rest.
            Inr (\<lparr>cr_relation_id = rl_id r, cr_relation_type = rl_relation_type r,
                  cr_original_from_node_id = rl_from_node_id r, cr_original_to_node_id = rl_to_node_id r,
                  cr_canonical_from_node_id = nd_id f, cr_canonical_to_node_id = nd_id t\<rparr> # rest)))))"

definition list_canonical_relations :: "db \<Rightarrow> string \<Rightarrow> canonical_relation list result" where
  "list_canonical_relations d pid = canonical_relations_loop d pid {}
     (filter (\<lambda>r. rl_project_id r = pid \<and> rl_status r = REL_CONFIRMED \<and> rl_valid_to r = None) (db_relations d))"

section \<open>Audit\<close>

definition audit_and_outbox ::
  "string \<Rightarrow> node \<Rightarrow> string \<Rightarrow> string \<Rightarrow> py_text option \<Rightarrow> json \<Rightarrow> (string \<times> json) list \<Rightarrow> bool \<Rightarrow> time \<Rightarrow> db \<Rightarrow> db" where
  "audit_and_outbox pid n change_type actor_type request_id before detail emit_legacy_outbox now d =
     (let after = JObj
            [(''nodeId'', JStr (UuidTxt (nd_id n))),
             (''graphState'', jstr (graph_state_value (nd_graph_state n))),
             (''mergedIntoNodeId'', jopt (\<lambda>i. JStr (UuidTxt i)) (nd_merged_into_node_id n)),
             (''version'', JInt (nd_version n))];
          d1 = d\<lparr>db_change_events := db_change_events d @
                 [\<lparr>gc_project_id = pid, gc_request_id = request_id, gc_node_id = Some (nd_id n),
                   gc_item_id = None, gc_change_type = change_type, gc_actor_type = actor_type,
                   gc_before = before, gc_after = after, gc_detail = JObj detail\<rparr>]\<rparr>
      in if emit_legacy_outbox
         then snd (stage_outbox ''GRAPH_CHANGED'' ''node'' (UuidTxt (nd_id n)) pid ''auto-graph-v1''
                (JObj ([(''changeType'', jstr change_type), (''nodeId'', JStr (UuidTxt (nd_id n)))] @ detail)) now d1)
         else d1)"

section \<open>Logical merge\<close>

record merge_args =
  ma_actor_type :: string
  ma_actor_id :: "string option"
  ma_generation_run_id :: "uuid option"
  ma_reason_code :: string
  ma_reason_text :: "string option"
  ma_evaluation :: json

text \<open>The redirection of the source row.\<close>

definition merged_source :: "uuid \<Rightarrow> string \<Rightarrow> time \<Rightarrow> node \<Rightarrow> node" where
  "merged_source target actor_type now n =
     n\<lparr>nd_graph_state := MERGED, nd_merged_into_node_id := Some target, nd_version := nd_version n + 1,
       nd_last_actor_type := actor_type, nd_updated_at := now\<rparr>"

definition merge_operation_row :: "uuid \<Rightarrow> string \<Rightarrow> node \<Rightarrow> node \<Rightarrow> node \<Rightarrow> merge_args \<Rightarrow> time \<Rightarrow> merge_operation" where
  "merge_operation_row i pid source target canonical a now =
     \<lparr>mo_id = i, mo_project_id = pid, mo_source_node_id = nd_id source, mo_source_version = nd_version source,
      mo_target_node_id = nd_id target, mo_target_version = nd_version canonical,
      mo_resolved_target_node_id = nd_id canonical, mo_source_original_graph_state = nd_graph_state source,
      mo_actor_type = ma_actor_type a, mo_actor_id = ma_actor_id a,
      mo_generation_run_id = ma_generation_run_id a, mo_reason_code = ma_reason_code a,
      mo_reason_text = ma_reason_text a, mo_evaluation = ma_evaluation a, mo_status = APPLIED,
      mo_applied_at = now, mo_reverted_at = None, mo_reverted_by = None\<rparr>"

text \<open>The operation row, with a dependency on every applied operation that merged into the source.\<close>

definition record_merge ::
  "string \<Rightarrow> node \<Rightarrow> node \<Rightarrow> node \<Rightarrow> merge_args \<Rightarrow> time \<Rightarrow> db \<Rightarrow> merge_operation \<times> db" where
  "record_merge pid source target canonical a now d =
     (let (i, d1) = uuid4 d;
          op = merge_operation_row i pid source target canonical a now;
          d2 = d1\<lparr>db_merge_operations := db_merge_operations d1 @ [op]\<rparr>;
          incoming = filter (\<lambda>m. mo_project_id m = pid \<and> mo_status m = APPLIED
              \<and> mo_resolved_target_node_id m = nd_id source \<and> mo_id m \<noteq> i) (db_merge_operations d2)
      in (op, d2\<lparr>db_merge_dependencies := db_merge_dependencies d2 @ map (\<lambda>m.
              \<lparr>md_project_id = pid, md_operation_id = i, md_depends_on_operation_id = mo_id m\<rparr>) incoming\<rparr>))"

text \<open>The legacy history keeps one row per source.\<close>

definition record_merge_history :: "string \<Rightarrow> node \<Rightarrow> node \<Rightarrow> merge_args \<Rightarrow> time \<Rightarrow> db \<Rightarrow> db result" where
  "record_merge_history pid source canonical a now d =
     rbind (one_or_none (filter (\<lambda>h. mh_source_node_id h = nd_id source) (db_merge_history d))) (\<lambda>history.
       if history = None
       then (let (h, d1) = uuid4 d in
             Inr (d1\<lparr>db_merge_history := db_merge_history d1 @
               [\<lparr>mh_id = h, mh_project_id = pid, mh_source_node_id = nd_id source,
                 mh_target_node_id = nd_id canonical, mh_analysis_run_id = None, mh_candidate_id = None,
                 mh_approved_by = or_str (ma_actor_id a) (ma_actor_type a), mh_approved_at = now,
                 mh_source_version = nd_version source, mh_target_version = nd_version canonical,
                 mh_merged_title = nd_title canonical, mh_merged_content = nd_content canonical\<rparr>]\<rparr>))
       else Inr d)"

text \<open>The effects of \<open>apply_logical_merge\<close> after its checks; the legacy outbox row is left out when
  a meeting command exists for the source's meeting.\<close>

definition merge_effects ::
  "string \<Rightarrow> node \<Rightarrow> node \<Rightarrow> node \<Rightarrow> merge_args \<Rightarrow> time \<Rightarrow> db \<Rightarrow> (merge_operation \<times> db) result" where
  "merge_effects pid source target canonical a now d =
     (let (op, d1) = record_merge pid source target canonical a now d;
          redirect = merged_source (nd_id canonical) (ma_actor_type a) now;
          before = JObj [(''nodeId'', JStr (UuidTxt (nd_id source))),
              (''graphState'', jstr (graph_state_value (nd_graph_state source))),
              (''mergedIntoNodeId'', JNull), (''version'', JInt (nd_version source))];
          d2 = mark_node_embedding_stale (nd_id source) (set_node (nd_id source) redirect d1)
      in rguard (\<not> ck_merge_operation op) IntegrityError
         (rbind (record_merge_history pid source canonical a now d2) (\<lambda>d3.
          rbind (one_or_none (filter (\<lambda>c. mc_project_id c = pid
                \<and> mc_meeting_id c = Some (nd_source_meeting_id source)) (db_commands d3))) (\<lambda>command.
          Inr (op, audit_and_outbox pid (redirect source) ''LOGICAL_MERGE'' (ma_actor_type a)
                (map_option UuidTxt (ma_generation_run_id a)) before
                [(''mergeOperationId'', JStr (UuidTxt (mo_id op))), (''targetNodeId'', JStr (UuidTxt (nd_id target))),
                 (''resolvedTargetNodeId'', JStr (UuidTxt (nd_id canonical))),
                 (''reasonCode'', jstr (ma_reason_code a))] (command = None) now d3)))))"

definition apply_logical_merge ::
  "string \<Rightarrow> node \<Rightarrow> node \<Rightarrow> merge_args \<Rightarrow> time \<Rightarrow> db \<Rightarrow> (merge_operation \<times> db) result" where
  "apply_logical_merge pid source target a now d =
     rguard (nd_project_id source \<noteq> pid \<or> nd_project_id target \<noteq> pid)
       (GraphMutationValidationError ''merge Nodes must belong to the project'')
     (rguard (nd_id source = nd_id target) (GraphMutationValidationError ''a Node cannot merge into itself'')
     (rguard (\<not> canonical_state (nd_graph_state source) \<or> nd_merged_into_node_id source \<noteq> None)
       (GraphMutationValidationError ''merge source is not available'')
     (rguard (nd_node_type source \<noteq> nd_node_type target)
       (GraphMutationValidationError ''merge Nodes must have the same type'')
     (rbind (resolve_canonical_node d pid (nd_id target) (Some (nd_node_type source))) (\<lambda>canonical.
      rguard (nd_id canonical = nd_id source) (GraphMutationValidationError ''merge would create a cycle'')
     (rguard (nd_current_revision_id source = None \<or> nd_current_revision_id canonical = None)
       (GraphIntegrityError ''merge Nodes must have current revisions'')
     (merge_effects pid source target canonical a now d)))))))"

section \<open>Undoing a merge\<close>

definition applied_dependents :: "db \<Rightarrow> string \<Rightarrow> uuid \<Rightarrow> uuid list" where
  "applied_dependents d pid op =
     [mo_id m. m \<leftarrow> db_merge_operations d, mo_status m = APPLIED,
        x \<leftarrow> db_merge_dependencies d, md_operation_id x = mo_id m
          \<and> md_project_id x = pid \<and> md_depends_on_operation_id x = op]"

text \<open>The source row after the undo; the flag says that the target has moved on since.\<close>

definition unmerged_source :: "graph_state \<Rightarrow> bool \<Rightarrow> time \<Rightarrow> node \<Rightarrow> node" where
  "unmerged_source original target_changed now n =
     n\<lparr>nd_graph_state := original, nd_merged_into_node_id := None, nd_version := nd_version n + 1,
       nd_last_actor_type := ''USER'', nd_updated_at := now,
       nd_consistency_status := (if target_changed then ''NEEDS_ATTENTION'' else nd_consistency_status n)\<rparr>"

text \<open>The rows the undo writes before it stages the graph change.\<close>

definition unmerge_rows ::
  "string \<Rightarrow> merge_operation \<Rightarrow> node \<Rightarrow> node \<Rightarrow> string \<Rightarrow> time \<Rightarrow> db \<Rightarrow> node \<times> db" where
  "unmerge_rows pid op source target actor_id now d =
     (let before = JObj [(''nodeId'', JStr (UuidTxt (nd_id source))),
              (''graphState'', jstr (graph_state_value (nd_graph_state source))),
              (''mergedIntoNodeId'', jopt (\<lambda>i. JStr (UuidTxt i)) (nd_merged_into_node_id source)),
              (''version'', JInt (nd_version source))];
          undo = unmerged_source (mo_source_original_graph_state op) (nd_version target \<noteq> mo_target_version op) now;
          d1 = mark_node_embedding_stale (nd_id source) (set_node (nd_id source) undo d);
          d2 = d1\<lparr>db_merge_operations :=
                 update_where (\<lambda>m. mo_id m = mo_id op) (\<lambda>m. m\<lparr>mo_status := REVERTED,
                   mo_reverted_at := Some now, mo_reverted_by := Some actor_id\<rparr>) (db_merge_operations d1)\<rparr>
      in (undo source, audit_and_outbox pid (undo source) ''LOGICAL_UNMERGE'' ''USER'' None before
            [(''mergeOperationId'', JStr (UuidTxt (mo_id op))), (''actorId'', jstr actor_id)] True now d2))"

definition unmerge_effects ::
  "string \<Rightarrow> merge_operation \<Rightarrow> node \<Rightarrow> node \<Rightarrow> string \<Rightarrow> time \<Rightarrow> db \<Rightarrow> (merge_operation \<times> db) result" where
  "unmerge_effects pid op source target actor_id now d =
     (let (source', d1) = unmerge_rows pid op source target actor_id now d;
          op' = op\<lparr>mo_status := REVERTED, mo_reverted_at := Some now, mo_reverted_by := Some actor_id\<rparr>
      in rbind (stage_project_graph_changed pid [source', target] [] now d1) (\<lambda>(_, d2). Inr (op', d2)))"

definition unmerge_operation ::
  "string \<Rightarrow> uuid \<Rightarrow> string \<Rightarrow> time \<Rightarrow> db \<Rightarrow> (merge_operation \<times> db) result" where
  "unmerge_operation pid op_id actor_id now d =
     rbind (one_or_none (filter (\<lambda>m. mo_id m = op_id \<and> mo_project_id m = pid) (db_merge_operations d))) (\<lambda>found.
       case found of
         None \<Rightarrow> Inl (GraphMutationValidationError ''merge operation not found'')
       | Some op \<Rightarrow>
           if mo_status op = REVERTED then Inr (op, d)
           else
             rbind (one_or_none (applied_dependents d pid (mo_id op))) (\<lambda>dependent.
             rguard (dependent \<noteq> None) (MergeNotReversibleError ''a dependent merge must be undone first'')
             (rbind (get_project_node d pid (mo_source_node_id op) False) (\<lambda>source.
              rguard (nd_graph_state source \<noteq> MERGED
                  \<or> nd_merged_into_node_id source \<noteq> Some (mo_resolved_target_node_id op))
                (GraphIntegrityError ''source Node no longer matches the merge operation'')
             (rbind (one_or_none (filter (\<lambda>r. Some (rv_id r) = nd_current_revision_id source
                  \<and> rv_project_id r = pid \<and> rv_node_id r = nd_id source) (db_revisions d))) (\<lambda>revision.
              case revision of
                None \<Rightarrow> Inl (GraphIntegrityError ''merge source has no recoverable current revision'')
              | Some rvn \<Rightarrow>
                  rguard (rv_requires_evidence rvn \<and> filter (\<lambda>l. re_project_id l = pid
                      \<and> re_node_revision_id l = rv_id rvn) (db_revision_evidence d) = [])
                    (GraphIntegrityError ''merge source revision has no recoverable Evidence'')
                  (rbind (get_project_node d pid (mo_resolved_target_node_id op) False) (\<lambda>target.
                   unmerge_effects pid op source target actor_id now d))))))))"

section \<open>Redirection maps\<close>

text \<open>A map from keys to keys seen as a graph, and the key a chain of redirections ends in.\<close>

definition edges :: "('k \<Rightarrow> 'k option) \<Rightarrow> ('k \<times> 'k) set" where
  "edges m = {(i, j). m i = Some j}"

definition represents :: "('k \<Rightarrow> 'k option) \<Rightarrow> 'k \<Rightarrow> 'k \<Rightarrow> bool" where
  "represents m i c \<longleftrightarrow> (i, c) \<in> (edges m)\<^sup>* \<and> m c = None"

lemma represents_refl: "m c = None \<Longrightarrow> represents m c c"
  by (simp add: represents_def)

lemma represents_step: "m i = Some j \<Longrightarrow> represents m i c \<longleftrightarrow> represents m j c"
proof
  assume "m i = Some j" "represents m i c"
  then show "represents m j c"
    by (auto simp: represents_def edges_def elim: converse_rtranclE)
next
  assume "m i = Some j" "represents m j c"
  then show "represents m i c"
    by (auto simp: represents_def edges_def intro: converse_rtrancl_into_rtrancl)
qed

lemma terminal_rtrancl: "m t = None \<Longrightarrow> (t, c) \<in> (edges m)\<^sup>* \<longleftrightarrow> c = t"
  by (auto simp: edges_def elim: converse_rtranclE)

lemma represents_unique: "represents m i c \<Longrightarrow> represents m i c' \<Longrightarrow> c = c'"
proof -
  assume "represents m i c" and c': "represents m i c'"
  then have path: "(i, c) \<in> (edges m)\<^sup>*" and "m c = None" by (auto simp: represents_def)
  from path c' have "represents m c c'"
    by (induction rule: rtrancl_induct) (auto simp: edges_def represents_step)
  with \<open>m c = None\<close> show ?thesis by (simp add: represents_def terminal_rtrancl)
qed

lemma edges_upd: "m s = None \<Longrightarrow> edges (m(s \<mapsto> t)) = insert (s, t) (edges m)"
  by (auto simp: edges_def split: if_splits)

lemma represents_redirect:
  assumes "m s = None" "m t = None" "s \<noteq> t"
  shows "represents (m(s \<mapsto> t)) i c \<longleftrightarrow>
    c \<noteq> s \<and> (represents m i c \<or> c = t \<and> represents m i s)"
  using assms by (auto simp: represents_def edges_upd rtrancl_insert terminal_rtrancl)

lemma acyclic_redirect:
  assumes "acyclic (edges m)" "m s = None" "m t = None" "s \<noteq> t"
  shows "acyclic (edges (m(s \<mapsto> t)))"
  using assms by (auto simp: edges_upd acyclic_insert terminal_rtrancl)

lemma acyclic_restore: "acyclic (edges m) \<Longrightarrow> acyclic (edges (m(s := None)))"
  by (rule acyclic_subset) (auto simp: edges_def split: if_splits)

text \<open>A store whose operations redirect a terminal key to another terminal key, and restore a
  redirected key. Its clients may rely on acyclicity and on what happens to the
  representatives.\<close>

locale redirect_store =
  fixes target :: "'d \<Rightarrow> 'k \<Rightarrow> 'k option"
    and redirects :: "'k \<Rightarrow> 'k \<Rightarrow> 'd \<Rightarrow> 'd \<Rightarrow> bool"
    and restores :: "'k \<Rightarrow> 'd \<Rightarrow> 'd \<Rightarrow> bool"
  assumes redirect: "redirects s t d d' \<Longrightarrow>
      target d s = None \<and> target d t = None \<and> s \<noteq> t \<and> target d' = (target d)(s \<mapsto> t)"
    and restore: "restores s d d' \<Longrightarrow> target d' = (target d)(s := None)"
begin

lemma redirect_acyclic: "redirects s t d d' \<Longrightarrow> acyclic (edges (target d)) \<Longrightarrow> acyclic (edges (target d'))"
  using redirect [of s t d d'] by (auto intro: acyclic_redirect)

lemma restore_acyclic: "restores s d d' \<Longrightarrow> acyclic (edges (target d)) \<Longrightarrow> acyclic (edges (target d'))"
  using restore [of s d d'] by (auto intro: acyclic_restore)

lemma redirect_representative:
  "redirects s t d d' \<Longrightarrow> represents (target d) i c \<Longrightarrow>
   represents (target d') i (if c = s then t else c)"
  using redirect [of s t d d'] by (auto simp: represents_redirect)

lemma redirect_restore: "redirects s t d d' \<Longrightarrow> restores s d' d'' \<Longrightarrow> target d'' = target d"
  using redirect [of s t d d'] restore [of s d' d''] by auto

end

section \<open>Lemmas on node reads\<close>

lemma select_node:
  assumes "nodes_unique d"
  shows "one_or_none (filter (\<lambda>n. nd_id n = i \<and> P n) (db_nodes d)) =
    Inr (case node_by_id d i of Some n \<Rightarrow> if P n then Some n else None | None \<Rightarrow> None)"
  using filter_key_singleton [OF assms, of i P]
  by (simp add: node_by_id_def split: option.splits)

lemma node_in_any_project_eq: "nodes_unique d \<Longrightarrow> node_in_any_project d i = Inr (node_by_id d i)"
  by (simp add: node_in_any_project_def node_by_id_def one_or_none_filter_key)

lemma get_project_node_Inr:
  assumes "nodes_unique d"
  shows "get_project_node d pid i b = Inr n \<longleftrightarrow>
    node_by_id d i = Some n \<and> nd_project_id n = pid \<and> (b \<or> nd_deleted_at n = None)"
  using assms
  by (auto simp: get_project_node_def select_node [OF assms] node_in_any_project_eq split: option.splits)

definition merge_target :: "db \<Rightarrow> uuid \<Rightarrow> uuid option" where
  "merge_target d i = (case node_by_id d i of None \<Rightarrow> None | Some n \<Rightarrow> nd_merged_into_node_id n)"

definition project_node :: "db \<Rightarrow> string \<Rightarrow> node \<Rightarrow> bool" where
  "project_node d pid n \<longleftrightarrow> node_by_id d (nd_id n) = Some n \<and> nd_project_id n = pid \<and> nd_deleted_at n = None"

lemma resolve_loop_sound:
  "resolve_loop k d pid ex vis cur = Inr n \<Longrightarrow> nodes_unique d \<Longrightarrow> project_node d pid cur \<Longrightarrow>
   project_node d pid n \<and> canonical_state (nd_graph_state n) \<and> nd_node_type n = ex
   \<and> represents (merge_target d) (nd_id cur) (nd_id n)"
proof (induction k arbitrary: vis cur)
  case 0
  then show ?case by simp
next
  case (Suc k)
  have target: "merge_target d (nd_id cur) = nd_merged_into_node_id cur"
    using Suc.prems(3) by (simp add: project_node_def merge_target_def)
  show ?case
  proof (cases "nd_graph_state cur = MERGED")
    case False
    with Suc.prems target show ?thesis
      by (auto split: if_splits simp: represents_refl)
  next
    case True
    with Suc.prems(1) obtain j where j: "nd_merged_into_node_id cur = Some j"
      by (auto split: if_splits option.splits)
    with True Suc.prems obtain m where m: "node_by_id d j = Some m" "nd_project_id m = pid"
        "nd_deleted_at m = None" and rest: "resolve_loop k d pid ex (insert (nd_id cur) vis) m = Inr n"
        "nd_id cur \<notin> vis" "nd_node_type cur = ex"
      by (auto simp: select_node node_in_any_project_eq split: if_splits option.splits)
    from m have "project_node d pid m" "nd_id m = j" by (auto simp: project_node_def dest: node_by_idD)
    with Suc.IH [OF rest(1) Suc.prems(2)]
    have "project_node d pid n \<and> canonical_state (nd_graph_state n) \<and> nd_node_type n = ex
       \<and> represents (merge_target d) j (nd_id n)"
      by simp
    with j target show ?thesis by (simp add: represents_step)
  qed
qed

lemma resolve_canonical_node_sound:
  assumes "nodes_unique d" "resolve_canonical_node d pid i ex = Inr n"
  shows "project_node d pid n \<and> canonical_state (nd_graph_state n)
    \<and> (case ex of Some t \<Rightarrow> nd_node_type n = t | None \<Rightarrow> True) \<and> represents (merge_target d) i (nd_id n)"
proof -
  from assms obtain cur where cur: "node_by_id d i = Some cur" "nd_project_id cur = pid" "nd_deleted_at cur = None"
    and loop: "resolve_loop MAX_CANONICAL_HOPS d pid
         (case ex of Some t \<Rightarrow> t | None \<Rightarrow> nd_node_type cur) {} cur = Inr n"
    by (auto simp: resolve_canonical_node_def rbind_Inr_iff get_project_node_Inr)
  then have "project_node d pid cur" "nd_id cur = i" by (auto simp: project_node_def dest: node_by_idD)
  with resolve_loop_sound [OF loop assms(1)] show ?thesis by (auto split: option.splits)
qed

text \<open>The well-formedness of the merge chains of a project: MERGED nodes, and only they, have a target,
  which is a live node of the project of the same type, and the chains are acyclic.\<close>

definition chains_ok :: "db \<Rightarrow> string \<Rightarrow> bool" where
  "chains_ok d pid \<longleftrightarrow> (\<forall>n. project_node d pid n \<longrightarrow>
      (nd_graph_state n = MERGED \<longleftrightarrow> nd_merged_into_node_id n \<noteq> None)
    \<and> (\<forall>j. nd_merged_into_node_id n = Some j \<longrightarrow>
         (\<exists>m. project_node d pid m \<and> nd_id m = j \<and> nd_node_type m = nd_node_type n)))"

definition merge_ok :: "db \<Rightarrow> string \<Rightarrow> bool" where
  "merge_ok d pid \<longleftrightarrow> nodes_unique d \<and> chains_ok d pid \<and> acyclic (edges (merge_target d))"

lemma cycle_paths: "(x, x) \<in> E\<^sup>+ \<Longrightarrow> \<exists>y. (x, y) \<in> E ^^ n \<and> (y, x) \<in> E\<^sup>+"
proof (induction n)
  case 0
  then show ?case by auto
next
  case (Suc n)
  then obtain y where y: "(x, y) \<in> E ^^ n" "(y, x) \<in> E\<^sup>+" by blast
  from tranclD [OF y(2)] obtain z where z: "(y, z) \<in> E" "(z, x) \<in> E\<^sup>*" by blast
  with Suc.prems have "(z, x) \<in> E\<^sup>+" by (metis rtrancl_trancl_trancl)
  moreover from y(1) z(1) have "(x, z) \<in> E ^^ Suc n" by auto
  ultimately show ?case by blast
qed

lemma resolve_loop_complete:
  assumes "nodes_unique d" "chains_ok d pid"
  shows "project_node d pid cur \<Longrightarrow> nd_node_type cur = ex \<Longrightarrow>
    \<forall>v \<in> vis. (v, nd_id cur) \<in> (edges (merge_target d))\<^sup>+ \<Longrightarrow>
    \<forall>j. (nd_id cur, j) \<notin> (edges (merge_target d)) ^^ k \<Longrightarrow>
    (\<exists>n. resolve_loop k d pid ex vis cur = Inr n)
    \<or> (resolve_loop k d pid ex vis cur = Inl (GraphMutationValidationError ''canonical target is not available'')
       \<and> (\<exists>n. project_node d pid n \<and> represents (merge_target d) (nd_id cur) (nd_id n)
            \<and> \<not> canonical_state (nd_graph_state n)))"
proof (induction k arbitrary: vis cur)
  case 0
  then show ?case by simp
next
  case (Suc k)
  let ?E = "edges (merge_target d)"
  have target: "merge_target d (nd_id cur) = nd_merged_into_node_id cur"
    using Suc.prems(1) by (simp add: project_node_def merge_target_def)
  have fresh: "nd_id cur \<notin> vis"
    using Suc.prems(3,4) cycle_paths [of "nd_id cur" ?E "Suc k"] by blast
  have state: "nd_graph_state cur = MERGED \<longleftrightarrow> nd_merged_into_node_id cur \<noteq> None"
    using assms(2) Suc.prems(1) by (auto simp: chains_ok_def)
  show ?case
  proof (cases "nd_merged_into_node_id cur")
    case None
    with state fresh Suc.prems(1,2) target show ?thesis
      by (auto simp: represents_refl intro!: exI [of _ cur])
  next
    case (Some j)
    with assms(2) Suc.prems(1) obtain m where m: "project_node d pid m" "nd_id m = j" "nd_node_type m = nd_node_type cur"
      by (auto simp: chains_ok_def)
    have edge: "(nd_id cur, nd_id m) \<in> ?E" using Some target m(2) by (simp add: edges_def)
    have "\<forall>v \<in> insert (nd_id cur) vis. (v, nd_id m) \<in> ?E\<^sup>+"
      using edge Suc.prems(3) by (auto intro: trancl_into_trancl)
    moreover have "\<forall>i. (nd_id m, i) \<notin> ?E ^^ k"
      using edge Suc.prems(4) relpow_Suc_I2 by metis
    ultimately have "(\<exists>n. resolve_loop k d pid ex (insert (nd_id cur) vis) m = Inr n)
      \<or> (resolve_loop k d pid ex (insert (nd_id cur) vis) m
            = Inl (GraphMutationValidationError ''canonical target is not available'')
         \<and> (\<exists>n. project_node d pid n \<and> represents (merge_target d) (nd_id m) (nd_id n)
              \<and> \<not> canonical_state (nd_graph_state n)))"
      using Suc.IH [OF m(1)] m(3) Suc.prems(2) by simp
    moreover have "resolve_loop (Suc k) d pid ex vis cur = resolve_loop k d pid ex (insert (nd_id cur) vis) m"
      using fresh Suc.prems(2) state Some m(1,2) assms(1)
      by (simp add: select_node project_node_def)
    moreover have "represents (merge_target d) (nd_id cur) c = represents (merge_target d) (nd_id m) c" for c
      using Some target m(2) by (simp add: represents_step)
    ultimately show ?thesis by simp
  qed
qed

text \<open>C13. Resolving a node of a project whose merge chains are well formed (and no longer than the hop
  limit) either returns the end of its chain, a live ACTIVE or UNATTACHED node of the same project and
  type, or reports that the end of the chain is not available; the integrity errors cannot occur.\<close>

theorem resolve_canonical_node_correct:
  assumes "nodes_unique d" "chains_ok d pid" "project_node d pid cur"
    and "\<forall>j. (nd_id cur, j) \<notin> (edges (merge_target d)) ^^ MAX_CANONICAL_HOPS"
  shows "case resolve_canonical_node d pid (nd_id cur) None of
      Inr n \<Rightarrow> project_node d pid n \<and> canonical_state (nd_graph_state n)
        \<and> nd_node_type n = nd_node_type cur \<and> represents (merge_target d) (nd_id cur) (nd_id n)
    | Inl e \<Rightarrow> e = GraphMutationValidationError ''canonical target is not available''
        \<and> (\<exists>n. project_node d pid n \<and> represents (merge_target d) (nd_id cur) (nd_id n)
             \<and> \<not> canonical_state (nd_graph_state n))"
proof -
  let ?loop = "resolve_loop MAX_CANONICAL_HOPS d pid (nd_node_type cur) {} cur"
  have "resolve_canonical_node d pid (nd_id cur) None = ?loop"
    using assms(1,3) by (simp add: resolve_canonical_node_def get_project_node_def select_node project_node_def)
  moreover have "?loop = Inr n \<Longrightarrow> project_node d pid n \<and> canonical_state (nd_graph_state n)
      \<and> nd_node_type n = nd_node_type cur \<and> represents (merge_target d) (nd_id cur) (nd_id n)" for n
    using resolve_loop_sound assms(1,3) by blast
  ultimately show ?thesis
    using resolve_loop_complete [OF assms(1,2,3) refl, of "{}" MAX_CANONICAL_HOPS] assms(4)
    by (auto split: sum.splits)
qed

section \<open>Lemmas on the merge operations\<close>

lemma mark_stale_db [simp]:
  "db_nodes (mark_node_embedding_stale i d) = db_nodes d"
  "db_revisions (mark_node_embedding_stale i d) = db_revisions d"
  "db_revision_evidence (mark_node_embedding_stale i d) = db_revision_evidence d"
  "db_merge_operations (mark_node_embedding_stale i d) = db_merge_operations d"
  "db_merge_dependencies (mark_node_embedding_stale i d) = db_merge_dependencies d"
  "db_merge_history (mark_node_embedding_stale i d) = db_merge_history d"
  "db_graph_states (mark_node_embedding_stale i d) = db_graph_states d"
  "db_commands (mark_node_embedding_stale i d) = db_commands d"
  "db_generation_runs (mark_node_embedding_stale i d) = db_generation_runs d"
  "db_next_uuid (mark_node_embedding_stale i d) = db_next_uuid d"
  by (simp_all add: mark_node_embedding_stale_def)

lemma audit_and_outbox_db [simp]:
  "db_nodes (audit_and_outbox p n c a r b t e now d) = db_nodes d"
  "db_revisions (audit_and_outbox p n c a r b t e now d) = db_revisions d"
  "db_revision_evidence (audit_and_outbox p n c a r b t e now d) = db_revision_evidence d"
  "db_merge_operations (audit_and_outbox p n c a r b t e now d) = db_merge_operations d"
  "db_merge_dependencies (audit_and_outbox p n c a r b t e now d) = db_merge_dependencies d"
  "db_graph_states (audit_and_outbox p n c a r b t e now d) = db_graph_states d"
  "db_generation_runs (audit_and_outbox p n c a r b t e now d) = db_generation_runs d"
  by (simp_all add: audit_and_outbox_def Let_def stage_outbox_def uuid4_def)

lemma audit_next: "db_next_uuid d \<le> db_next_uuid (audit_and_outbox p n c a r b t e now d)"
  by (simp add: audit_and_outbox_def Let_def stage_outbox_def uuid4_def)

definition graph_frame :: "db \<Rightarrow> db \<Rightarrow> bool" where
  "graph_frame d d' \<longleftrightarrow> db_nodes d' = db_nodes d \<and> db_revisions d' = db_revisions d
     \<and> db_revision_evidence d' = db_revision_evidence d \<and> db_merge_operations d' = db_merge_operations d
     \<and> db_merge_dependencies d' = db_merge_dependencies d \<and> db_graph_states d' = db_graph_states d
     \<and> db_generation_runs d' = db_generation_runs d \<and> db_next_uuid d \<le> db_next_uuid d'"

lemma graph_frame_trans: "graph_frame d d1 \<Longrightarrow> graph_frame d1 d2 \<Longrightarrow> graph_frame d d2"
  by (simp add: graph_frame_def)

lemma record_merge_history_frame: "record_merge_history pid s c a now d = Inr d' \<Longrightarrow> graph_frame d d'"
  by (auto simp: record_merge_history_def rbind_Inr_iff uuid4_def Let_def graph_frame_def split: if_splits)

lemma audit_frame: "graph_frame d (audit_and_outbox p n c a r b t e now d)"
  using audit_next by (simp add: graph_frame_def)

lemma merge_effects_frame:
  assumes "merge_effects pid s t c a now d = Inr (op, d')"
  shows "ck_merge_operation op \<and> op = fst (record_merge pid s t c a now d)
    \<and> graph_frame (mark_node_embedding_stale (nd_id s) (set_node (nd_id s)
        (merged_source (nd_id c) (ma_actor_type a) now) (snd (record_merge pid s t c a now d)))) d'"
proof -
  obtain op1 d1 where r: "record_merge pid s t c a now d = (op1, d1)" by fastforce
  from assms r obtain d3 cmd where
    h: "record_merge_history pid s c a now (mark_node_embedding_stale (nd_id s)
        (set_node (nd_id s) (merged_source (nd_id c) (ma_actor_type a) now) d1)) = Inr d3"
    and d': "\<exists>n ct at q b l e. d' = audit_and_outbox pid n ct at q b l e now d3"
    and op: "op = op1" "ck_merge_operation op1"
    by (simp add: merge_effects_def Let_def rguard_Inr_iff rbind_Inr_iff) blast
  with record_merge_history_frame [OF h] audit_frame r show ?thesis
    by (auto intro: graph_frame_trans)
qed

lemma merge_effects_db:
  assumes "merge_effects pid s t c a now d = Inr (op, d')"
  shows "op = merge_operation_row (db_next_uuid d) pid s t c a now"
    and "db_nodes d' = db_nodes (set_node (nd_id s) (merged_source (nd_id c) (ma_actor_type a) now) d)"
    and "db_merge_operations d' = db_merge_operations d @ [op]"
    and "db_merge_dependencies d' = db_merge_dependencies d @ map (\<lambda>m.
           \<lparr>md_project_id = pid, md_operation_id = mo_id op, md_depends_on_operation_id = mo_id m\<rparr>)
           (filter (\<lambda>m. mo_project_id m = pid \<and> mo_status m = APPLIED
              \<and> mo_resolved_target_node_id m = nd_id s \<and> mo_id m \<noteq> mo_id op) (db_merge_operations d))"
    and "db_revisions d' = db_revisions d"
    and "db_revision_evidence d' = db_revision_evidence d"
    and "db_graph_states d' = db_graph_states d"
    and "db_next_uuid d < db_next_uuid d'"
    and "db_generation_runs d' = db_generation_runs d"
  using merge_effects_frame [OF assms]
  by (simp_all add: graph_frame_def record_merge_def uuid4_def Let_def merge_operation_row_def set_node_def
      Suc_le_eq)

lemma apply_logical_mergeE:
  assumes "apply_logical_merge pid s t a now d = Inr (op, d')"
  obtains c where "resolve_canonical_node d pid (nd_id t) (Some (nd_node_type s)) = Inr c"
    "merge_effects pid s t c a now d = Inr (op, d')" "nd_id c \<noteq> nd_id s" "nd_project_id s = pid"
    "canonical_state (nd_graph_state s)" "nd_merged_into_node_id s = None"
    "nd_current_revision_id s \<noteq> None"
  using assms by (auto simp: apply_logical_merge_def rguard_Inr_iff rbind_Inr_iff)

lemma merged_source_id [simp]: "nd_id (merged_source c act now n) = nd_id n"
  by (simp add: merged_source_def)

lemma unmerged_source_id [simp]: "nd_id (unmerged_source g b now n) = nd_id n"
  by (simp add: unmerged_source_def)

lemma merge_nodes:
  assumes "merge_effects pid s t c a now d = Inr (op, d')"
  shows "node_by_id d' i = (if i = nd_id s
      then map_option (merged_source (nd_id c) (ma_actor_type a) now) (node_by_id d i) else node_by_id d i)"
    and "nodes_unique d' = nodes_unique d"
proof -
  have "node_by_id d' i = node_by_id (set_node (nd_id s) (merged_source (nd_id c) (ma_actor_type a) now) d) i"
    using merge_effects_db(2) [OF assms] by (simp add: node_by_id_def)
  then show "node_by_id d' i = (if i = nd_id s
      then map_option (merged_source (nd_id c) (ma_actor_type a) now) (node_by_id d i) else node_by_id d i)"
    by (simp add: node_by_id_set_node)
  show "nodes_unique d' = nodes_unique d"
    using merge_effects_db(2) [OF assms] by simp
qed

lemma merge_target_merge:
  assumes "merge_effects pid s t c a now d = Inr (op, d')" "node_by_id d (nd_id s) = Some s"
  shows "merge_target d' = (merge_target d)(nd_id s \<mapsto> nd_id c)"
  by (rule ext) (simp add: merge_target_def merge_nodes(1) [OF assms(1)] assms(2) merged_source_def)

lemma chains_ok_merge:
  assumes eff: "merge_effects pid s t c a now d = Inr (op, d')" and s: "node_by_id d (nd_id s) = Some s"
    and c: "project_node d pid c" "nd_id c \<noteq> nd_id s" "nd_node_type c = nd_node_type s"
    and ok: "chains_ok d pid"
  shows "chains_ok d' pid"
proof -
  let ?s = "merged_source (nd_id c) (ma_actor_type a) now s"
  have step: "node_by_id d' i = (if i = nd_id s then Some ?s else node_by_id d i)" for i
    using merge_nodes(1) [OF eff] s by simp
  have live: "project_node d' pid n \<longleftrightarrow> (if nd_id n = nd_id s then n = ?s \<and> project_node d pid s else project_node d pid n)" for n
    by (auto simp: project_node_def step s) (auto simp: merged_source_def)
  have keep: "\<exists>m. project_node d' pid m \<and> nd_id m = j \<and> nd_node_type m = T"
    if "project_node d pid m" "nd_id m = j" "nd_node_type m = T" for m j T
  proof (cases "j = nd_id s")
    case True
    with that s have "m = s" by (simp add: project_node_def)
    with that True show ?thesis by (intro exI [of _ ?s]) (simp add: live, simp add: merged_source_def)
  next
    case False
    with that show ?thesis by (intro exI [of _ m]) (simp add: live)
  qed
  show ?thesis
    unfolding chains_ok_def
  proof (intro allI impI)
    fix n assume n: "project_node d' pid n"
    show "(nd_graph_state n = MERGED \<longleftrightarrow> nd_merged_into_node_id n \<noteq> None)
      \<and> (\<forall>j. nd_merged_into_node_id n = Some j \<longrightarrow>
           (\<exists>m. project_node d' pid m \<and> nd_id m = j \<and> nd_node_type m = nd_node_type n))"
    proof (cases "nd_id n = nd_id s")
      case True
      with n have "n = ?s" by (simp add: live)
      with keep [OF c(1) refl c(3)] show ?thesis by (simp add: merged_source_def)
    next
      case False
      with n have "project_node d pid n" by (simp add: live)
      with ok keep show ?thesis unfolding chains_ok_def by blast
    qed
  qed
qed

lemma merge_is_redirect:
  assumes "nodes_unique d" "node_by_id d sid = Some s" "apply_logical_merge pid s t a now d = Inr (op, d')"
  shows "merge_target d sid = None \<and> merge_target d (mo_resolved_target_node_id op) = None
    \<and> sid \<noteq> mo_resolved_target_node_id op
    \<and> merge_target d' = (merge_target d)(sid \<mapsto> mo_resolved_target_node_id op)"
proof -
  obtain c where c: "resolve_canonical_node d pid (nd_id t) (Some (nd_node_type s)) = Inr c"
    "merge_effects pid s t c a now d = Inr (op, d')" "nd_id c \<noteq> nd_id s" "nd_merged_into_node_id s = None"
    using assms(3) by (rule apply_logical_mergeE)
  have "represents (merge_target d) (nd_id t) (nd_id c)"
    using resolve_canonical_node_sound [OF assms(1) c(1)] by simp
  moreover have "mo_resolved_target_node_id op = nd_id c"
    using merge_effects_db(1) [OF c(2)] by (simp add: merge_operation_row_def)
  moreover have sid: "nd_id s = sid" using assms(2) by (auto dest: node_by_idD)
  moreover have "merge_target d' = (merge_target d)(sid \<mapsto> nd_id c)"
    using merge_target_merge [OF c(2)] assms(2) sid by simp
  ultimately show ?thesis using c(3,4) assms(2) by (simp add: represents_def) (simp add: merge_target_def)
qed

section \<open>Lemmas on undoing a merge\<close>

lemma bump_graph_version_db:
  "db_nodes (snd (bump_graph_version pid now d)) = db_nodes d"
  "db_merge_operations (snd (bump_graph_version pid now d)) = db_merge_operations d"
  by (simp_all add: bump_graph_version_def split: option.splits)

lemma stage_outbox_merge_operations:
  "db_merge_operations (snd (stage_outbox a b c p v j now d)) = db_merge_operations d"
  by (simp add: stage_outbox_def uuid4_def Let_def)

lemma stage_project_graph_changed_ok:
  obtains r d' where "stage_project_graph_changed pid ups [] now d = Inr (r, d')"
    "db_nodes d' = db_nodes d" "db_merge_operations d' = db_merge_operations d"
    "db_graph_states d' = db_graph_states (snd (bump_graph_version pid now d))"
proof -
  obtain v d1 where b: "bump_graph_version pid now d = (v, d1)" by fastforce
  then obtain j where j: "stage_project_graph_changed pid ups [] now d =
      Inr ((fst (stage_v1 ''PROJECT_GRAPH_CHANGED'' ''project_graph'' (Txt pid) pid j now d1), v),
           snd (stage_v1 ''PROJECT_GRAPH_CHANGED'' ''project_graph'' (Txt pid) pid j now d1))"
    by (simp add: stage_project_graph_changed_def Let_def split_beta)
  from that [OF j] b bump_graph_version_db [of pid now d] show thesis
    by (simp add: stage_v1_def stage_outbox_merge_operations)
qed

lemma unmerge_rows_db:
  "fst (unmerge_rows pid op s t act now d) =
     unmerged_source (mo_source_original_graph_state op) (nd_version t \<noteq> mo_target_version op) now s"
  "db_nodes (snd (unmerge_rows pid op s t act now d)) = db_nodes (set_node (nd_id s)
     (unmerged_source (mo_source_original_graph_state op) (nd_version t \<noteq> mo_target_version op) now) d)"
  "db_merge_operations (snd (unmerge_rows pid op s t act now d)) =
     update_where (\<lambda>m. mo_id m = mo_id op) (\<lambda>m. m\<lparr>mo_status := REVERTED,
        mo_reverted_at := Some now, mo_reverted_by := Some act\<rparr>) (db_merge_operations d)"
  "db_graph_states (snd (unmerge_rows pid op s t act now d)) = db_graph_states d"
  by (simp_all add: unmerge_rows_def Let_def)

lemma unmerge_effects_ok:
  obtains d' where "unmerge_effects pid op s t act now d =
      Inr (op\<lparr>mo_status := REVERTED, mo_reverted_at := Some now, mo_reverted_by := Some act\<rparr>, d')"
    "db_nodes d' = db_nodes (set_node (nd_id s)
       (unmerged_source (mo_source_original_graph_state op) (nd_version t \<noteq> mo_target_version op) now) d)"
    "db_merge_operations d' = update_where (\<lambda>m. mo_id m = mo_id op) (\<lambda>m. m\<lparr>mo_status := REVERTED,
       mo_reverted_at := Some now, mo_reverted_by := Some act\<rparr>) (db_merge_operations d)"
    "graph_states_unique d \<longrightarrow> graph_version_of d' pid = graph_version_of d pid + 1"
proof -
  obtain s' d1 where r: "unmerge_rows pid op s t act now d = (s', d1)" by fastforce
  note d1 = unmerge_rows_db [of pid op s t act now d, unfolded r, simplified]
  obtain x d' where st: "stage_project_graph_changed pid [s', t] [] now d1 = Inr (x, d')"
    "db_nodes d' = db_nodes d1" "db_merge_operations d' = db_merge_operations d1"
    "db_graph_states d' = db_graph_states (snd (bump_graph_version pid now d1))"
    by (rule stage_project_graph_changed_ok)
  have "graph_version_of d' pid = graph_version_of d pid + 1" if "graph_states_unique d"
  proof -
    obtain v d2 where b: "bump_graph_version pid now d1 = (v, d2)" by fastforce
    have "graph_states_unique d1" "graph_version_of d1 pid = graph_version_of d pid"
      using that d1(4) by (simp_all add: graph_version_of_def)
    moreover have "graph_version_of d' = graph_version_of d2"
      using st(4) b by (simp add: graph_version_of_def fun_eq_iff)
    ultimately show ?thesis using bump_graph_version_ok [OF _ b] by simp
  qed
  moreover have "unmerge_effects pid op s t act now d =
      Inr (op\<lparr>mo_status := REVERTED, mo_reverted_at := Some now, mo_reverted_by := Some act\<rparr>, d')"
    using r st(1) by (simp add: unmerge_effects_def)
  ultimately show thesis using st(2,3) d1(2,3) by (intro that [of d']) simp_all
qed

text \<open>What an undo of an applied operation that commits has checked.\<close>

lemma unmerge_operationE:
  assumes "nodes_unique d" "unmerge_operation pid oid act now d = Inr (op', d')"
    and "one_or_none (filter (\<lambda>m. mo_id m = oid \<and> mo_project_id m = pid) (db_merge_operations d)) = Inr (Some op)"
    and "mo_status op = APPLIED"
  obtains s t where "node_by_id d (mo_source_node_id op) = Some s" "nd_project_id s = pid"
    "nd_merged_into_node_id s = Some (mo_resolved_target_node_id op)" "nd_graph_state s = MERGED"
    "node_by_id d (mo_resolved_target_node_id op) = Some t"
    "unmerge_effects pid op s t act now d = Inr (op', d')"
    "applied_dependents d pid (mo_id op) = []"
  using assms
  by (auto simp: unmerge_operation_def rbind_Inr_iff rguard_Inr_iff get_project_node_Inr one_or_none_None_iff
      split: option.splits)

lemma unmerge_nodes:
  assumes "unmerge_effects pid op s t act now d = Inr (op', d')"
  shows "node_by_id d' i = (if i = nd_id s
      then map_option (unmerged_source (mo_source_original_graph_state op)
        (nd_version t \<noteq> mo_target_version op) now) (node_by_id d i) else node_by_id d i)"
proof -
  let ?f = "unmerged_source (mo_source_original_graph_state op) (nd_version t \<noteq> mo_target_version op) now"
  have "db_nodes d' = db_nodes (set_node (nd_id s) ?f d)"
    using unmerge_effects_ok [of pid op s t act now d] assms by auto
  then have "node_by_id d' i = node_by_id (set_node (nd_id s) ?f d) i" by (simp add: node_by_id_def)
  then show ?thesis by (simp add: node_by_id_set_node)
qed

lemma unmerge_is_restore:
  assumes "nodes_unique d" "unmerge_operation pid oid act now d = Inr (op', d')"
    and "one_or_none (filter (\<lambda>m. mo_id m = oid \<and> mo_project_id m = pid) (db_merge_operations d)) = Inr (Some op)"
    and "mo_status op = APPLIED"
  shows "merge_target d' = (merge_target d)(mo_source_node_id op := None)"
proof -
  obtain s t where s: "node_by_id d (mo_source_node_id op) = Some s"
    "unmerge_effects pid op s t act now d = Inr (op', d')"
    using assms by (rule unmerge_operationE)
  then have "nd_id s = mo_source_node_id op" by (auto dest: node_by_idD)
  then show ?thesis
    by (intro ext) (simp add: merge_target_def unmerge_nodes [OF s(2)] s(1) unmerged_source_def)
qed

text \<open>The merge and its undo as operations of a redirection store.\<close>

definition merges :: "uuid \<Rightarrow> uuid \<Rightarrow> db \<Rightarrow> db \<Rightarrow> bool" where
  "merges s t d d' \<longleftrightarrow> nodes_unique d \<and> (\<exists>pid source target a now op. node_by_id d s = Some source
     \<and> apply_logical_merge pid source target a now d = Inr (op, d') \<and> mo_resolved_target_node_id op = t)"

definition unmerges :: "uuid \<Rightarrow> db \<Rightarrow> db \<Rightarrow> bool" where
  "unmerges s d d' \<longleftrightarrow> nodes_unique d \<and> (\<exists>pid oid act now op op'.
     one_or_none (filter (\<lambda>m. mo_id m = oid \<and> mo_project_id m = pid) (db_merge_operations d)) = Inr (Some op)
     \<and> mo_status op = APPLIED \<and> mo_source_node_id op = s
     \<and> unmerge_operation pid oid act now d = Inr (op', d'))"

interpretation merge_store: redirect_store merge_target merges unmerges
  by unfold_locales (auto simp: merges_def unmerges_def dest: merge_is_redirect unmerge_is_restore)

text \<open>C14. A logical merge keeps the merge chains of the project well formed and acyclic, moves exactly the
  nodes that the source represented to the node the target resolves to, the end of the merge chain of the target, raises the version of the
  source by one and leaves every other node, the target included, as it was. The recorded operation names source, target and that node,
  which is live, canonical and of the type of the source.\<close>

theorem apply_logical_merge_correct:
  assumes "merge_ok d pid" "node_by_id d sid = Some s" "apply_logical_merge pid s t a now d = Inr (op, d')"
  shows "merge_ok d' pid
    \<and> mo_source_node_id op = sid \<and> mo_target_node_id op = nd_id t
    \<and> represents (merge_target d) (nd_id t) (mo_resolved_target_node_id op)
    \<and> (\<exists>c. resolve_canonical_node d pid (nd_id t) (Some (nd_node_type s)) = Inr c \<and> nd_id c = mo_resolved_target_node_id op
          \<and> project_node d pid c \<and> canonical_state (nd_graph_state c) \<and> nd_node_type c = nd_node_type s)
    \<and> (\<forall>i c. represents (merge_target d) i c \<longrightarrow>
          represents (merge_target d') i (if c = sid then mo_resolved_target_node_id op else c))
    \<and> (\<exists>s'. node_by_id d' sid = Some s' \<and> nd_version s' = nd_version s + 1 \<and> nd_graph_state s' = MERGED
          \<and> nd_title s' = nd_title s \<and> nd_content s' = nd_content s)
    \<and> (\<forall>i. i \<noteq> sid \<longrightarrow> node_by_id d' i = node_by_id d i)"
proof -
  have u: "nodes_unique d" and ch: "chains_ok d pid" and ac: "acyclic (edges (merge_target d))"
    using assms(1) by (simp_all add: merge_ok_def)
  obtain c where c: "resolve_canonical_node d pid (nd_id t) (Some (nd_node_type s)) = Inr c"
    "merge_effects pid s t c a now d = Inr (op, d')" "nd_id c \<noteq> nd_id s"
    using assms(3) by (rule apply_logical_mergeE)
  have s: "nd_id s = sid" "node_by_id d (nd_id s) = Some s" using assms(2) by (auto dest: node_by_idD)
  have op: "mo_source_node_id op = sid" "mo_target_node_id op = nd_id t" "mo_resolved_target_node_id op = nd_id c"
    using merge_effects_db(1) [OF c(2)] s(1) by (simp_all add: merge_operation_row_def)
  note sound = resolve_canonical_node_sound [OF u c(1), simplified]
  have m: "merges sid (mo_resolved_target_node_id op) d d'"
    unfolding merges_def using u assms(2,3) by blast
  have "chains_ok d' pid"
    using sound by (intro chains_ok_merge [OF c(2) s(2) _ c(3) _ ch]) auto
  with u merge_nodes(2) [OF c(2)] merge_store.redirect_acyclic [OF m ac] have "merge_ok d' pid"
    by (simp add: merge_ok_def)
  moreover have "node_by_id d' sid = Some (merged_source (nd_id c) (ma_actor_type a) now s)"
    using merge_nodes(1) [OF c(2), of sid] assms(2) s(1) by simp
  ultimately show ?thesis
    using merge_store.redirect_representative [OF m] merge_nodes(1) [OF c(2)] s(1) sound c(1) op
    by (auto simp: merged_source_def)
qed

text \<open>The log of merge operations: keys are unique and drawn before.\<close>

definition merge_log_ok :: "db \<Rightarrow> bool" where
  "merge_log_ok d \<longleftrightarrow> distinct (map mo_id (db_merge_operations d))
     \<and> (\<forall>m \<in> set (db_merge_operations d). mo_id m < db_next_uuid d)
     \<and> (\<forall>x \<in> set (db_merge_dependencies d). md_depends_on_operation_id x < db_next_uuid d
          \<and> md_operation_id x < db_next_uuid d)"

lemma merge_log_ok_merge:
  assumes "merge_log_ok d" "merge_effects pid s t c a now d = Inr (op, d')"
  shows "merge_log_ok d' \<and> mo_id op = db_next_uuid d \<and> db_next_uuid d < db_next_uuid d'"
proof -
  note db = merge_effects_db [OF assms(2)]
  have op: "mo_id op = db_next_uuid d" using db(1) by (simp add: merge_operation_row_def)
  have log: "distinct (map mo_id (db_merge_operations d))"
    "\<And>m. m \<in> set (db_merge_operations d) \<Longrightarrow> mo_id m < db_next_uuid d"
    "\<And>x. x \<in> set (db_merge_dependencies d) \<Longrightarrow> md_depends_on_operation_id x < db_next_uuid d
       \<and> md_operation_id x < db_next_uuid d"
    using assms(1) by (auto simp: merge_log_ok_def)
  have "distinct (map mo_id (db_merge_operations d'))"
    using log(1) op by (auto simp: db(3) dest: log(2))
  moreover have "\<forall>m \<in> set (db_merge_operations d'). mo_id m < db_next_uuid d'"
    using log(2) op db(8) by (auto simp: db(3) dest: less_trans)
  moreover have "\<forall>x \<in> set (db_merge_dependencies d'). md_depends_on_operation_id x < db_next_uuid d'
       \<and> md_operation_id x < db_next_uuid d'"
    using op db(8) by (auto simp: db(4) dest!: log(2) log(3))
  ultimately show ?thesis using op db(8) by (simp add: merge_log_ok_def)
qed

lemma applied_dependents_alt:
  "applied_dependents d pid oid = concat (map (\<lambda>m. map (\<lambda>_. mo_id m) (filter (\<lambda>x. md_operation_id x = mo_id m
     \<and> md_project_id x = pid \<and> md_depends_on_operation_id x = oid) (db_merge_dependencies d)))
     (filter (\<lambda>m. mo_status m = APPLIED) (db_merge_operations d)))"
  by (simp add: applied_dependents_def concat_map_if concat_map_guard)

lemma find_operation:
  assumes "merge_log_ok d" "op \<in> set (db_merge_operations d)" "mo_project_id op = pid"
  shows "one_or_none (filter (\<lambda>m. mo_id m = mo_id op \<and> mo_project_id m = pid) (db_merge_operations d)) = Inr (Some op)"
proof -
  have u: "distinct (map mo_id (db_merge_operations d))" using assms(1) by (simp add: merge_log_ok_def)
  then have "find (\<lambda>m. mo_id m = mo_id op) (db_merge_operations d) = Some op"
    using assms(2) by (simp add: find_key_Some_iff)
  with filter_key_singleton [OF u, of "mo_id op" "\<lambda>m. mo_project_id m = pid"] assms(3) show ?thesis by simp
qed

text \<open>C15. A merge can be undone at once, whatever else the project holds: the undo succeeds, and it
  restores the source to its state before the merge (its chain, its graph state, its text and its
  consistency status; its version counts both steps), leaves every other node as it was, marks
  the operation REVERTED and raises the graph version of the project by one.\<close>

theorem merge_then_unmerge:
  assumes "merge_ok d pid" "merge_log_ok d" "graph_states_unique d"
    and "node_by_id d sid = Some s" "nd_deleted_at s = None"
    and "apply_logical_merge pid s t a now d = Inr (op, d1)"
    and "filter (\<lambda>r. Some (rv_id r) = nd_current_revision_id s \<and> rv_project_id r = pid
           \<and> rv_node_id r = sid) (db_revisions d) = [rvn]"
    and "rv_requires_evidence rvn \<longrightarrow> (\<exists>l \<in> set (db_revision_evidence d). re_project_id l = pid
           \<and> re_node_revision_id l = rv_id rvn)"
  shows "\<exists>op' d2 s2. unmerge_operation pid (mo_id op) act now2 d1 = Inr (op', d2)
    \<and> mo_status op' = REVERTED \<and> merge_target d2 = merge_target d
    \<and> node_by_id d2 sid = Some s2
    \<and> s2 = s\<lparr>nd_version := nd_version s + 2, nd_last_actor_type := ''USER'', nd_updated_at := now2\<rparr>
    \<and> (\<forall>i. i \<noteq> sid \<longrightarrow> node_by_id d2 i = node_by_id d i)
    \<and> graph_version_of d2 pid = graph_version_of d pid + 1"
proof -
  have u: "nodes_unique d" using assms(1) by (simp add: merge_ok_def)
  obtain c where c: "resolve_canonical_node d pid (nd_id t) (Some (nd_node_type s)) = Inr c"
    "merge_effects pid s t c a now d = Inr (op, d1)" "nd_id c \<noteq> nd_id s" "nd_project_id s = pid"
    "nd_merged_into_node_id s = None"
    using assms(6) by (rule apply_logical_mergeE)
  note db = merge_effects_db [OF c(2)]
  have op: "mo_id op = db_next_uuid d" "mo_source_node_id op = nd_id s" "mo_project_id op = pid"
    "mo_resolved_target_node_id op = nd_id c" "mo_status op = APPLIED"
    "mo_source_original_graph_state op = nd_graph_state s" "mo_target_version op = nd_version c"
    by (simp_all add: db(1) merge_operation_row_def)
  have sid: "nd_id s = sid" using assms(4) by (auto dest: node_by_idD)
  let ?s = "merged_source (nd_id c) (ma_actor_type a) now s"
  have n1: "node_by_id d1 i = (if i = sid then Some ?s else node_by_id d i)" for i
    using merge_nodes(1) [OF c(2)] assms(4) sid by simp
  have u1: "nodes_unique d1" using u merge_nodes(2) [OF c(2)] by simp
  have log: "merge_log_ok d1" using merge_log_ok_merge [OF assms(2) c(2)] by simp
  have found: "one_or_none (filter (\<lambda>m. mo_id m = mo_id op \<and> mo_project_id m = pid) (db_merge_operations d1)) = Inr (Some op)"
    using find_operation [OF log _ op(3)] by (simp add: db(3))
  have "x \<in> set (db_merge_dependencies d1) \<Longrightarrow> md_depends_on_operation_id x \<noteq> mo_id op" for x
    using assms(2) op(1) by (auto simp: db(4) merge_log_ok_def)
  then have dep: "applied_dependents d1 pid (mo_id op) = []"
    by (auto simp: applied_dependents_alt filter_empty_conv)
  have canon: "project_node d pid c" using resolve_canonical_node_sound [OF u c(1)] by simp
  have src: "get_project_node d1 pid (mo_source_node_id op) False = Inr ?s"
    using assms(5) c(4) by (simp add: get_project_node_Inr [OF u1] op(2) sid n1 merged_source_def)
  have tgt: "get_project_node d1 pid (mo_resolved_target_node_id op) False = Inr c"
    using canon c(3) by (simp add: get_project_node_Inr [OF u1] op(4) sid n1 project_node_def)
  have rv: "one_or_none (filter (\<lambda>r. Some (rv_id r) = nd_current_revision_id ?s
       \<and> rv_project_id r = pid \<and> rv_node_id r = nd_id ?s) (db_revisions d1)) = Inr (Some rvn)"
    using assms(7) sid by (simp add: db(5) merged_source_def)
  have ev: "\<not> (rv_requires_evidence rvn \<and> filter (\<lambda>l. re_project_id l = pid
       \<and> re_node_revision_id l = rv_id rvn) (db_revision_evidence d1) = [])"
    using assms(8) by (auto simp: db(6) filter_empty_conv)
  obtain d2 where d2: "unmerge_effects pid op ?s c act now2 d1 =
      Inr (op\<lparr>mo_status := REVERTED, mo_reverted_at := Some now2, mo_reverted_by := Some act\<rparr>, d2)"
    "graph_states_unique d1 \<longrightarrow> graph_version_of d2 pid = graph_version_of d1 pid + 1"
    by (rule unmerge_effects_ok)
  have run: "unmerge_operation pid (mo_id op) act now2 d1 =
      Inr (op\<lparr>mo_status := REVERTED, mo_reverted_at := Some now2, mo_reverted_by := Some act\<rparr>, d2)"
    using found dep src rv ev tgt d2(1) op(4,5)
    by (simp add: unmerge_operation_def merged_source_def rguard_def)
  have "unmerges sid d1 d2"
    unfolding unmerges_def using u1 found op(2,5) sid run by blast
  moreover have "merges sid (nd_id c) d d1"
    unfolding merges_def using u assms(4,6) op(4) by blast
  ultimately have "merge_target d2 = merge_target d" using merge_store.redirect_restore by blast
  moreover have "graph_version_of d2 pid = graph_version_of d pid + 1"
    using d2(2) assms(3) by (simp add: db(7) graph_version_of_def)
  ultimately show ?thesis
    using run unmerge_nodes [OF d2(1)] n1 sid c(5)
    by (auto simp: op(6,7) merged_source_def unmerged_source_def)
qed

text \<open>C16. Merges are undone in the reverse order of their dependencies: after a merge into a node and a
  merge of that node into another, the first merge cannot be undone.\<close>

theorem unmerge_order:
  assumes "merge_ok d pid" "merge_log_ok d"
    and "node_by_id d sid = Some s" "apply_logical_merge pid s t a now d = Inr (op1, d1)"
    and "node_by_id d1 (mo_resolved_target_node_id op1) = Some s2"
    and "apply_logical_merge pid s2 t2 a2 now2 d1 = Inr (op2, d2)"
  shows "unmerge_operation pid (mo_id op1) act now3 d2 =
    Inl (MergeNotReversibleError ''a dependent merge must be undone first'')"
proof -
  obtain c where c: "merge_effects pid s t c a now d = Inr (op1, d1)"
    using assms(4) by (rule apply_logical_mergeE)
  obtain c2 where c2: "merge_effects pid s2 t2 c2 a2 now2 d1 = Inr (op2, d2)"
    using assms(6) by (rule apply_logical_mergeE)
  note db1 = merge_effects_db [OF c] and db2 = merge_effects_db [OF c2]
  have op1: "mo_id op1 = db_next_uuid d" "mo_project_id op1 = pid" "mo_status op1 = APPLIED"
    by (simp_all add: db1(1) merge_operation_row_def)
  have op2: "mo_id op2 = db_next_uuid d1" "mo_status op2 = APPLIED"
    by (simp_all add: db2(1) merge_operation_row_def)
  have s2: "nd_id s2 = mo_resolved_target_node_id op1" using assms(5) by (auto dest: node_by_idD)
  have log1: "merge_log_ok d1" using merge_log_ok_merge [OF assms(2) c] by simp
  have log2: "merge_log_ok d2" using merge_log_ok_merge [OF log1 c2] by simp
  let ?P = "\<lambda>m. mo_project_id m = pid \<and> mo_status m = APPLIED
       \<and> mo_resolved_target_node_id m = nd_id s2 \<and> mo_id m \<noteq> mo_id op2"
  let ?dep = "\<lambda>m. \<lparr>md_project_id = pid, md_operation_id = mo_id op2, md_depends_on_operation_id = mo_id m\<rparr>"
  have new_dep: "filter (\<lambda>x. md_depends_on_operation_id x = mo_id op1) (db_merge_dependencies d2) = [?dep op1]"
  proof -
    have "md_depends_on_operation_id x \<noteq> mo_id op1" if "x \<in> set (db_merge_dependencies d1)" for x
      using that assms(2) by (auto simp: db1(4) merge_log_ok_def op1(1))
    then have "filter (\<lambda>x. md_depends_on_operation_id x = mo_id op1) (db_merge_dependencies d1) = []"
      by (simp add: filter_empty_conv)
    moreover have "filter (\<lambda>m. mo_id m = mo_id op1) (filter ?P (db_merge_operations d1)) = [op1]"
    proof -
      have u: "distinct (map mo_id (db_merge_operations d1))" using log1 by (simp add: merge_log_ok_def)
      have "mo_id op1 \<noteq> mo_id op2" using log1 by (auto simp: merge_log_ok_def op2(1) db1(3))
      then have "filter (\<lambda>m. mo_id m = mo_id op1 \<and> ?P m) (db_merge_operations d1) = [op1]"
        using filter_key_singleton [OF u, of "mo_id op1" ?P] op1 s2 find_key_Some_iff [OF u, of "mo_id op1" op1]
        by (simp add: db1(3))
      then show ?thesis by (simp add: conj_commute)
    qed
    ultimately show ?thesis by (simp add: db2(4) filter_map comp_def)
  qed
  have "applied_dependents d2 pid (mo_id op1) = [mo_id op2]"
  proof -
    have sel: "filter (\<lambda>x. md_operation_id x = mo_id m \<and> md_project_id x = pid
        \<and> md_depends_on_operation_id x = mo_id op1) (db_merge_dependencies d2) =
        (if mo_id m = mo_id op2 then [?dep op1] else [])" for m
      using arg_cong [OF new_dep, of "filter (\<lambda>x. md_operation_id x = mo_id m \<and> md_project_id x = pid)"]
      by (simp add: conj_commute conj_left_commute conj_assoc)
    have u: "distinct (map mo_id (db_merge_operations d2))" using log2 by (simp add: merge_log_ok_def)
    have "filter (\<lambda>m. mo_id m = mo_id op2 \<and> mo_status m = APPLIED) (db_merge_operations d2) = [op2]"
      using filter_key_singleton [OF u, of "mo_id op2" "\<lambda>m. mo_status m = APPLIED"] op2
        find_key_Some_iff [OF u, of "mo_id op2" op2] by (simp add: db2(3))
    moreover have "map (\<lambda>_. mo_id m) (if mo_id m = mo_id op2 then [?dep op1] else []) =
        (if mo_id m = mo_id op2 then [mo_id m] else [])" for m :: merge_operation
      by simp
    ultimately show ?thesis
      by (simp add: applied_dependents_alt sel concat_map_if conj_commute)
  qed
  moreover have "one_or_none (filter (\<lambda>m. mo_id m = mo_id op1 \<and> mo_project_id m = pid) (db_merge_operations d2)) = Inr (Some op1)"
    by (rule find_operation [OF log2 _ op1(2)]) (simp add: db2(3) db1(3))
  ultimately show ?thesis using op1(3) by (simp add: unmerge_operation_def)
qed

section \<open>The properties at concrete inputs\<close>

text \<open>A merge of two live ACTIVE nodes of the same type goes through.\<close>

lemma resolve_terminal:
  assumes "nodes_unique d" "project_node d pid n" "nd_graph_state n = ACTIVE" "nd_merged_into_node_id n = None"
  shows "resolve_canonical_node d pid (nd_id n) (Some (nd_node_type n)) = Inr n"
proof -
  have "resolve_loop k d pid (nd_node_type n) {} n = Inr n" if "0 < k" for k
    using that assms by (cases k) (simp_all add: canonical_state_def)
  then show ?thesis using assms
    by (simp add: resolve_canonical_node_def MAX_CANONICAL_HOPS_def get_project_node_def select_node project_node_def)
qed

lemma record_merge_tables [simp]:
  "db_commands (snd (record_merge pid s t c a now d)) = db_commands d"
  "db_merge_history (snd (record_merge pid s t c a now d)) = db_merge_history d"
  by (simp_all add: record_merge_def uuid4_def Let_def)

lemma audit_tables [simp]:
  "db_commands (audit_and_outbox p n c a r b t e now d) = db_commands d"
  "db_merge_history (audit_and_outbox p n c a r b t e now d) = db_merge_history d"
  by (simp_all add: audit_and_outbox_def Let_def stage_outbox_def uuid4_def)

lemma merge_succeeds:
  assumes "nodes_unique d" "project_node d pid s" "project_node d pid t" "nd_id s \<noteq> nd_id t"
    and "nd_graph_state s = ACTIVE" "nd_graph_state t = ACTIVE"
    and "nd_merged_into_node_id s = None" "nd_merged_into_node_id t = None" "nd_node_type s = nd_node_type t"
    and "nd_current_revision_id s \<noteq> None" "nd_current_revision_id t \<noteq> None"
    and "ma_actor_type a \<in> {''SYSTEM'', ''USER'', ''LEGACY''}" "1 \<le> nd_version s" "1 \<le> nd_version t"
    and "\<forall>h \<in> set (db_merge_history d). mh_source_node_id h \<noteq> nd_id s" "db_commands d = []"
  shows "\<exists>op d'. apply_logical_merge pid s t a now d = Inr (op, d') \<and> mo_resolved_target_node_id op = nd_id t
    \<and> db_commands d' = [] \<and> (\<forall>h \<in> set (db_merge_history d'). h \<in> set (db_merge_history d) \<or> mh_source_node_id h = nd_id s)"
proof -
  have hist: "filter (\<lambda>h. mh_source_node_id h = nd_id s) (db_merge_history d) = []"
    using assms(15) by (simp add: filter_empty_conv)
  have "resolve_canonical_node d pid (nd_id t) (Some (nd_node_type s)) = Inr t"
    using resolve_terminal [OF assms(1,3,6,8)] assms(9) by simp
  then have ap: "apply_logical_merge pid s t a now d = merge_effects pid s t t a now d"
    using assms by (auto simp: apply_logical_merge_def project_node_def canonical_state_def)
  obtain op d1 where r: "record_merge pid s t t a now d = (op, d1)" by fastforce
  have op: "op = merge_operation_row (db_next_uuid d) pid s t t a now"
    using r by (auto simp: record_merge_def uuid4_def Let_def)
  have tab: "db_commands d1 = []" "db_merge_history d1 = db_merge_history d"
    using record_merge_tables [of pid s t t a now d] r assms(16) by simp_all
  have "ck_merge_operation op"
    using assms(4,12-14) by (simp add: op merge_operation_row_def ck_merge_operation_def)
  then show ?thesis
    unfolding ap using r tab hist
    by (auto simp: merge_effects_def record_merge_history_def uuid4_def Let_def set_node_def op
        merge_operation_row_def)
qed

definition sample_graph :: db where
  "sample_graph = (sample_db [sample_node 1 ''7'', sample_node 2 ''7'', sample_node 3 ''7''])
     \<lparr>db_revisions := [sample_revision 1, sample_revision 2, sample_revision 3]\<rparr>"

definition sample_merge_args :: merge_args where
  "sample_merge_args = \<lparr>ma_actor_type = ''USER'', ma_actor_id = Some ''u'', ma_generation_run_id = None,
     ma_reason_code = ''SAME'', ma_reason_text = None, ma_evaluation = JNull\<rparr>"

lemma sample_graph_node:
  "node_by_id sample_graph i = (if i = 1 \<or> i = 2 \<or> i = 3 then Some (sample_node i ''7'') else None)"
  by (auto simp: sample_graph_def sample_db_def sample_node_def node_by_id_def)

lemma sample_graph_unique: "nodes_unique sample_graph"
  by (simp add: sample_graph_def sample_db_def sample_node_def)

lemma sample_node_sel [simp]:
  "nd_id (sample_node i p) = i" "nd_graph_state (sample_node i p) = ACTIVE" "nd_node_type (sample_node i p) = DECISION"
  "nd_merged_into_node_id (sample_node i p) = None" "nd_current_revision_id (sample_node i p) = Some (i + 100)"
  "nd_version (sample_node i p) = 1" "nd_deleted_at (sample_node i p) = None" "nd_project_id (sample_node i p) = p"
  by (simp_all add: sample_node_def)

lemma sample_graph_targets: "merge_target sample_graph = (\<lambda>_. None)"
  by (rule ext) (simp add: merge_target_def sample_graph_node)

lemma sample_graph_chains: "chains_ok sample_graph ''7''"
  by (auto simp: chains_ok_def project_node_def sample_graph_node split: if_splits)

lemma sample_graph_ok: "merge_ok sample_graph ''7''"
  using sample_graph_unique sample_graph_chains
  by (simp add: merge_ok_def sample_graph_targets edges_def acyclic_def)

lemma sample_graph_logs: "merge_log_ok sample_graph" "graph_states_unique sample_graph"
    "db_merge_history sample_graph = []" "db_commands sample_graph = []"
  by (simp_all add: merge_log_ok_def sample_graph_def sample_db_def empty_db_def)

lemma sample_project_node: "i \<in> {1, 2, 3} \<Longrightarrow> project_node sample_graph ''7'' (sample_node i ''7'')"
  by (auto simp: project_node_def sample_graph_node)

lemma sample_merge:
  obtains op d1 where "apply_logical_merge ''7'' (sample_node 1 ''7'') (sample_node 2 ''7'') sample_merge_args 5 sample_graph = Inr (op, d1)"
    "mo_resolved_target_node_id op = 2" "db_commands d1 = []" "\<forall>h \<in> set (db_merge_history d1). mh_source_node_id h = 1"
  using merge_succeeds [of sample_graph "''7''" "sample_node 1 ''7''" "sample_node 2 ''7''" sample_merge_args 5]
    sample_graph_unique sample_project_node [of 1] sample_project_node [of 2] sample_graph_logs
  by (auto simp: sample_merge_args_def)

theorem resolve_canonical_node_correct_witness:
  "\<exists>n. resolve_canonical_node sample_graph ''7'' 2 None = Inr n \<and> canonical_state (nd_graph_state n)
     \<and> represents (merge_target sample_graph) 2 (nd_id n)"
proof -
  have "\<forall>j. (nd_id (sample_node 2 ''7''), j) \<notin> (edges (merge_target sample_graph)) ^^ MAX_CANONICAL_HOPS"
    by (simp add: sample_graph_targets edges_def MAX_CANONICAL_HOPS_def relpow_empty)
  from resolve_canonical_node_correct [OF sample_graph_unique sample_graph_chains sample_project_node [of 2] this]
  have "case resolve_canonical_node sample_graph ''7'' 2 None of
      Inr n \<Rightarrow> canonical_state (nd_graph_state n) \<and> represents (merge_target sample_graph) 2 (nd_id n)
    | Inl e \<Rightarrow> \<exists>n. project_node sample_graph ''7'' n \<and> \<not> canonical_state (nd_graph_state n)"
    by (auto split: sum.splits)
  moreover have "canonical_state (nd_graph_state n)" if "project_node sample_graph ''7'' n" for n
    using that by (auto simp: project_node_def sample_graph_node canonical_state_def split: if_splits)
  ultimately show ?thesis by (auto split: sum.splits)
qed

theorem apply_logical_merge_correct_witness:
  "\<exists>op d1. apply_logical_merge ''7'' (sample_node 1 ''7'') (sample_node 2 ''7'') sample_merge_args 5 sample_graph = Inr (op, d1)
     \<and> merge_ok d1 ''7'' \<and> represents (merge_target d1) 1 2"
proof -
  obtain op d1 where m: "apply_logical_merge ''7'' (sample_node 1 ''7'') (sample_node 2 ''7'') sample_merge_args 5 sample_graph = Inr (op, d1)"
    "mo_resolved_target_node_id op = 2" by (rule sample_merge)
  have "represents (merge_target sample_graph) 1 1" by (simp add: represents_def sample_graph_targets)
  with apply_logical_merge_correct [OF sample_graph_ok _ m(1), of 1] m show ?thesis
    by (fastforce simp: sample_graph_node)
qed

theorem merge_then_unmerge_witness:
  "\<exists>op d1 op' d2. apply_logical_merge ''7'' (sample_node 1 ''7'') (sample_node 2 ''7'') sample_merge_args 5 sample_graph = Inr (op, d1)
     \<and> unmerge_operation ''7'' (mo_id op) ''u'' 9 d1 = Inr (op', d2)
     \<and> mo_status op' = REVERTED \<and> merge_target d2 = merge_target sample_graph"
proof -
  obtain op d1 where m: "apply_logical_merge ''7'' (sample_node 1 ''7'') (sample_node 2 ''7'') sample_merge_args 5 sample_graph = Inr (op, d1)"
    by (rule sample_merge)
  have "filter (\<lambda>r. Some (rv_id r) = nd_current_revision_id (sample_node 1 ''7'') \<and> rv_project_id r = ''7''
      \<and> rv_node_id r = 1) (db_revisions sample_graph) = [sample_revision 1]"
    by (simp add: sample_graph_def sample_revision_def)
  from merge_then_unmerge [OF sample_graph_ok sample_graph_logs(1,2) _ _ m this, of "''u''" 9] m show ?thesis
    by (auto simp: sample_graph_node sample_revision_def)
qed

theorem unmerge_order_witness:
  "\<exists>op1 d1 op2 d2. apply_logical_merge ''7'' (sample_node 1 ''7'') (sample_node 2 ''7'') sample_merge_args 5 sample_graph = Inr (op1, d1)
     \<and> apply_logical_merge ''7'' (sample_node 2 ''7'') (sample_node 3 ''7'') sample_merge_args 6 d1 = Inr (op2, d2)
     \<and> unmerge_operation ''7'' (mo_id op1) ''u'' 9 d2 =
         Inl (MergeNotReversibleError ''a dependent merge must be undone first'')"
proof -
  obtain op1 d1 where m: "apply_logical_merge ''7'' (sample_node 1 ''7'') (sample_node 2 ''7'') sample_merge_args 5 sample_graph = Inr (op1, d1)"
    "mo_resolved_target_node_id op1 = 2" "db_commands d1 = []" "\<forall>h \<in> set (db_merge_history d1). mh_source_node_id h = 1"
    by (rule sample_merge)
  obtain c where c: "merge_effects ''7'' (sample_node 1 ''7'') (sample_node 2 ''7'') c sample_merge_args 5 sample_graph = Inr (op1, d1)"
    using m(1) by (rule apply_logical_mergeE)
  have n: "node_by_id d1 2 = Some (sample_node 2 ''7'')" "node_by_id d1 3 = Some (sample_node 3 ''7'')"
    by (simp_all add: merge_nodes(1) [OF c] sample_graph_node)
  have "\<exists>op2 d2. apply_logical_merge ''7'' (sample_node 2 ''7'') (sample_node 3 ''7'') sample_merge_args 6 d1 = Inr (op2, d2)"
    using merge_succeeds [of d1 "''7''" "sample_node 2 ''7''" "sample_node 3 ''7''" sample_merge_args 6]
      n m(3,4) merge_nodes(2) [OF c] sample_graph_unique
    by (auto simp: project_node_def sample_merge_args_def)
  then obtain op2 d2 where m2: "apply_logical_merge ''7'' (sample_node 2 ''7'') (sample_node 3 ''7'') sample_merge_args 6 d1 = Inr (op2, d2)"
    by blast
  from unmerge_order [OF sample_graph_ok sample_graph_logs(1) _ m(1) _ m2, of 1 "''u''" 9] m m2 n(1) show ?thesis
    by (auto simp: sample_graph_node)
qed
end
