(* ===== verification/Retrieval.thy ===== *)
theory Retrieval
  imports Graph_Merge
begin

text \<open>
  \<open>retrieval/search.py\<close> (the PostgreSQL path), the vector check of \<open>retrieval/embedding.py\<close>, the failure
  codes of \<open>b_model/failures.py\<close> and the decision contract \<open>BModelDecision\<close> of \<open>contracts/dto.py\<close>. What lies outside
  the repository is the record \<open>graph_env\<close>: the embedding client and the B-model client (ports that are called with the given
  arguments and either raise or answer), the field parsing of pydantic, the distance of pgvector, the subtraction and the
  \<open>repr\<close> of floats, \<open>re.sub\<close> and \<open>uuid.uuid5\<close>.
\<close>

section \<open>Exceptions of the ports\<close>

record py_exception =
  ex_type :: string
  ex_text :: string
  ex_failure_code :: "string option"
  ex_provider_message :: "string option"

definition raised :: "string \<Rightarrow> string \<Rightarrow> py_exception" where
  "raised name message = \<lparr>ex_type = name, ex_text = message, ex_failure_code = None, ex_provider_message = None\<rparr>"

datatype py_number = Finite py_float | NonFinite

record b_model_decision =
  bd_recommendation :: recommendation_type
  bd_target_node_id :: "uuid option"
  bd_relation_type :: "relation_type option"
  bd_suggested_title :: string
  bd_suggested_content :: string
  bd_reason :: string
  bd_metadata :: json

record graph_env =
  ge_embed :: "string \<Rightarrow> string \<Rightarrow> int \<Rightarrow> py_exception + py_number list"
  ge_recommend :: "json \<Rightarrow> json list \<Rightarrow> py_exception + json"
  ge_provider_model :: string
  ge_model_fields :: "json \<Rightarrow> py_exception + b_model_decision"
  ge_model_error :: "string \<Rightarrow> py_exception"
  ge_distance :: "py_float list \<Rightarrow> py_float list \<Rightarrow> py_float"
  ge_float_sub :: "py_float \<Rightarrow> py_float \<Rightarrow> py_float"
  ge_float_repr :: "py_float \<Rightarrow> string"
  ge_re_sub :: "string \<Rightarrow> string \<Rightarrow> string \<Rightarrow> string"
  ge_uuid5 :: "string \<Rightarrow> uuid"

section \<open>Failure codes\<close>

fun words_of :: "string \<Rightarrow> string \<Rightarrow> string list" where
  "words_of word [] = (if word = [] then [] else [word])"
| "words_of word (c # cs) =
     (if is_space c then (if word = [] then words_of [] cs else word # words_of [] cs) else words_of (word @ [c]) cs)"

fun join_spaces :: "string list \<Rightarrow> string" where
  "join_spaces [] = []"
| "join_spaces [w] = w"
| "join_spaces (w # v # ws) = w @ '' '' @ join_spaces (v # ws)"

definition MAX_PROVIDER_MESSAGE_CHARS :: nat where
  "MAX_PROVIDER_MESSAGE_CHARS = 500"

text \<open>The patterns, in which a hash sign stands for the backslash.\<close>

definition regex :: "string \<Rightarrow> string" where
  "regex pattern = map (\<lambda>c. if c = CHR ''#'' then CHR 0x5C else c) pattern"

definition SECRET_PATTERNS :: "string list" where
  "SECRET_PATTERNS = map regex [''(?i)#bbearer#s+#S+'', ''#bsk-[A-Za-z0-9_#-]{8,}'',
     ''(?i)#b(api[-_]?key|authorization|token|secret)#b#s*[:=]#s*#S+'']"

definition redact_secrets :: "graph_env \<Rightarrow> string \<Rightarrow> string" where
  "redact_secrets E text = foldl (\<lambda>v pattern. ge_re_sub E pattern ''[REDACTED]'' v) text SECRET_PATTERNS"

definition sanitize_text :: "graph_env \<Rightarrow> string \<Rightarrow> string" where
  "sanitize_text E text =
     (let cleaned = join_spaces (words_of [] (redact_secrets E text))
      in if length cleaned > MAX_PROVIDER_MESSAGE_CHARS then take MAX_PROVIDER_MESSAGE_CHARS cleaned @ ''...(truncated)'' else cleaned)"

definition exception_line :: "py_exception \<Rightarrow> string" where
  "exception_line exc = ex_type exc @ '': '' @ ex_text exc"

definition describe_b_model_failure :: "graph_env \<Rightarrow> py_exception \<Rightarrow> string \<times> string" where
  "describe_b_model_failure E exc =
     (let code = (if truthy (ex_failure_code exc) then the (ex_failure_code exc)
                  else if ex_type exc = ''ValidationError'' then ''B_MODEL_VALIDATION_ERROR'' else ''B_MODEL_UNCLASSIFIED_ERROR'')
      in (code, if truthy (ex_provider_message exc) then redact_secrets E (exception_line exc) else sanitize_text E (exception_line exc)))"

section \<open>The decision contract\<close>

definition validate_combination :: "b_model_decision \<Rightarrow> string option" where
  "validate_combination b =
     (if bd_recommendation b = CREATE_NEW \<and> (bd_target_node_id b \<noteq> None \<or> bd_relation_type b \<noteq> None)
      then Some ''CREATE_NEW must not contain targetNodeId or relationType''
      else if bd_recommendation b = LINK \<and> (bd_target_node_id b = None \<or> bd_relation_type b = None)
      then Some ''LINK requires targetNodeId and relationType''
      else if bd_recommendation b = MERGE \<and> (bd_target_node_id b = None \<or> bd_relation_type b \<noteq> None)
      then Some ''MERGE requires targetNodeId and no relationType''
      else if strip (bd_suggested_title b) = [] then Some ''suggestedTitle must not be blank''
      else if strip (bd_reason b) = [] then Some ''reason must not be blank''
      else None)"

definition model_validate :: "graph_env \<Rightarrow> json \<Rightarrow> py_exception + b_model_decision" where
  "model_validate E raw =
     (case ge_model_fields E raw of
        Inl exc \<Rightarrow> Inl exc
      | Inr b \<Rightarrow> (case validate_combination b of Some message \<Rightarrow> Inl (ge_model_error E message) | None \<Rightarrow> Inr b))"

section \<open>Vectors\<close>

definition validate_embedding :: "py_number list \<Rightarrow> int \<Rightarrow> py_exception + py_float list" where
  "validate_embedding vector expected_dimension =
     (if int (length vector) \<noteq> expected_dimension
      then Inl (raised ''EmbeddingValidationError'' (''embedding dimension mismatch: expected='' @ int_str expected_dimension
             @ '', actual='' @ int_str (int (length vector))))
      else if NonFinite \<in> set vector then Inl (raised ''EmbeddingValidationError'' ''embedding must contain only finite values'')
      else if set vector \<subseteq> {Finite 0} then Inl (raised ''EmbeddingValidationError'' ''embedding must not be a zero vector'')
      else Inr (map (\<lambda>v. case v of Finite x \<Rightarrow> x | NonFinite \<Rightarrow> 0) vector))"

section \<open>Searching\<close>

record retrieved_node =
  rt_target_node_id :: uuid
  rt_target_node_version :: int
  rt_project_id :: string
  rt_similarity :: py_float

record search_options =
  so_project_id :: string
  so_source_node_id :: uuid
  so_embedding :: "py_float list"
  so_embedding_model :: string
  so_embedding_version :: string
  so_embedding_dimension :: int
  so_top_k :: int
  so_min_similarity :: "py_float option"
  so_require_category :: "string option"
  so_require_node_type :: "node_type option"
  so_graph_states :: "graph_state list"

definition FLOAT_ONE :: py_float where
  "FLOAT_ONE = 2 ^ 1074"

definition validate_search_options :: "search_options \<Rightarrow> string option" where
  "validate_search_options opts =
     (if so_top_k opts < 1 then Some ''top_k must be at least 1''
      else case so_min_similarity opts of
             None \<Rightarrow> None
           | Some m \<Rightarrow> if - FLOAT_ONE \<le> m \<and> m \<le> FLOAT_ONE then None else Some ''min_similarity must be between -1.0 and 1.0'')"

definition similarity_to :: "graph_env \<Rightarrow> search_options \<Rightarrow> node_embedding \<Rightarrow> py_float" where
  "similarity_to E opts m = ge_float_sub E FLOAT_ONE (ge_distance E (the (em_embedding m)) (so_embedding opts))"

definition searchable :: "graph_env \<Rightarrow> search_options \<Rightarrow> node \<Rightarrow> node_embedding \<Rightarrow> bool" where
  "searchable E opts n m \<longleftrightarrow> em_node_id m = nd_id n \<and> nd_project_id n = so_project_id opts \<and> nd_id n \<noteq> so_source_node_id opts
     \<and> nd_deleted_at n = None \<and> nd_graph_state n \<in> set (so_graph_states opts) \<and> nd_merged_into_node_id n = None
     \<and> (case so_require_category opts of None \<Rightarrow> True | Some c \<Rightarrow> nd_category n = c)
     \<and> (case so_require_node_type opts of None \<Rightarrow> True | Some t \<Rightarrow> nd_node_type n = t)
     \<and> em_embedding_model m = so_embedding_model opts \<and> em_embedding_version m = so_embedding_version opts
     \<and> em_dimension m = so_embedding_dimension opts \<and> em_status m = EMB_READY \<and> em_embedding m \<noteq> None
     \<and> (case so_min_similarity opts of None \<Rightarrow> True | Some s \<Rightarrow> s \<le> similarity_to E opts m)"

definition search_postgresql :: "graph_env \<Rightarrow> search_options \<Rightarrow> db \<Rightarrow> retrieved_node list" where
  "search_postgresql E opts d =
     map (\<lambda>(n, m). \<lparr>rt_target_node_id = nd_id n, rt_target_node_version = nd_version n, rt_project_id = nd_project_id n,
            rt_similarity = similarity_to E opts m\<rparr>)
       (take (nat (so_top_k opts))
         (sort_key (\<lambda>(n, m). (ge_distance E (the (em_embedding m)) (so_embedding opts), nd_id n))
           (filter (\<lambda>(n, m). searchable E opts n m) (List.product (db_nodes d) (db_embeddings d)))))"

definition search :: "graph_env \<Rightarrow> search_options \<Rightarrow> db \<Rightarrow> py_exception + retrieved_node list" where
  "search E opts d =
     (case validate_search_options opts of
        Some message \<Rightarrow> Inl (raised ''RetrievalExecutionError'' message)
      | None \<Rightarrow>
          (let results = search_postgresql E opts d
           in if \<exists>row \<in> set results. rt_project_id row \<noteq> so_project_id opts
              then Inl (raised ''CrossProjectRetrievalError'' ''Retrieval returned a Node from another project'')
              else Inr results))"

text \<open>Both searches of the automatic graph ask for ACTIVE nodes of one type in the category of the source.\<close>

definition search_merge_candidates :: "graph_env \<Rightarrow> search_options \<Rightarrow> string \<Rightarrow> node_type \<Rightarrow> int \<Rightarrow> db \<Rightarrow> py_exception + retrieved_node list" where
  "search_merge_candidates E opts category t top_k d =
     search E (opts\<lparr>so_top_k := top_k, so_require_category := Some category, so_require_node_type := Some t, so_graph_states := [ACTIVE]\<rparr>) d"

definition search_link_candidates :: "graph_env \<Rightarrow> search_options \<Rightarrow> string \<Rightarrow> node_type \<Rightarrow> int \<Rightarrow> db \<Rightarrow> py_exception + retrieved_node list" where
  "search_link_candidates E opts category parent_type top_k d =
     search E (opts\<lparr>so_top_k := top_k, so_require_category := Some category, so_require_node_type := Some parent_type, so_graph_states := [ACTIVE]\<rparr>) d"

section \<open>What a search returns\<close>

lemma search_sound:
  assumes "search E opts d = Inr rows" "row \<in> set rows"
  shows "\<exists>n m. n \<in> set (db_nodes d) \<and> m \<in> set (db_embeddings d) \<and> searchable E opts n m \<and> rt_target_node_id row = nd_id n
    \<and> rt_target_node_version row = nd_version n \<and> rt_similarity row = similarity_to E opts m"
proof -
  from assms have "row \<in> set (search_postgresql E opts d)" by (auto simp: search_def Let_def split: option.splits if_splits)
  then obtain n m where nm: "(n, m) \<in> set (filter (\<lambda>(n, m). searchable E opts n m) (List.product (db_nodes d) (db_embeddings d)))"
      and row: "row = \<lparr>rt_target_node_id = nd_id n, rt_target_node_version = nd_version n, rt_project_id = nd_project_id n,
            rt_similarity = similarity_to E opts m\<rparr>"
    unfolding search_postgresql_def by (auto dest!: in_set_takeD)
  from nm have "n \<in> set (db_nodes d)" "m \<in> set (db_embeddings d)" "searchable E opts n m" by auto
  then show ?thesis by (intro exI [of _ n] exI [of _ m]) (simp add: row)
qed

end
