(* ===== verification/Generation_Run.thy ===== *)
theory Generation_Run
  imports Retrieval
begin

text \<open>
  The generation run of \<open>pipeline/automatic_graph.py\<close>: the idempotent claim of one recording, the stages of the run and its
  failure. A run is found by its input (project, meeting, hash of the recording, version of the pipeline).
\<close>

section \<open>The hash of the recording\<close>

definition is_hex :: "char \<Rightarrow> bool" where
  "is_hex c = (let n = (of_char c :: nat) in (48 \<le> n \<and> n \<le> 57) \<or> (97 \<le> n \<and> n \<le> 102) \<or> (65 \<le> n \<and> n \<le> 70))"

text \<open>\<open>bytes.fromhex\<close> succeeds: pairs of hexadecimal digits, ASCII white space between the pairs.\<close>

fun fromhex_ok :: "string \<Rightarrow> bool" where
  "fromhex_ok [] = True"
| "fromhex_ok [c] = (of_char c \<in> {9, 10, 11, 12, 13, 32 :: nat})"
| "fromhex_ok (c # h # cs) =
     (if of_char c \<in> {9, 10, 11, 12, 13, 32 :: nat} then fromhex_ok (h # cs) else is_hex c \<and> is_hex h \<and> fromhex_ok cs)"

definition ascii_lower :: "char \<Rightarrow> char" where
  "ascii_lower c = (let n = (of_char c :: nat) in if 65 \<le> n \<and> n \<le> 90 then char_of (n + 32) else c)"

text \<open>\<open>str(value)\<close>: a string is its own text.\<close>

definition str_of :: "stdlib \<Rightarrow> json \<Rightarrow> string" where
  "str_of L v = (case v of JStr (Txt s) \<Rightarrow> s | JStr (UuidTxt u) \<Rightarrow> uuid_str L u | _ \<Rightarrow> py_str L v)"

definition fallback_request_id :: "stdlib \<Rightarrow> json \<Rightarrow> string result" where
  "fallback_request_id L input =
     (if json_truthy (jget input ''requestId'') then Inr (str_of L (jget input ''requestId''))
      else case input of
             JObj kvs \<Rightarrow> (case map_of kvs ''externalMeetingId'' of None \<Rightarrow> Inl KeyError | Some v \<Rightarrow> Inr (''meeting:'' @ str_of L v))
           | _ \<Rightarrow> Inl TypeError)"

definition recording_hash :: "stdlib \<Rightarrow> json \<Rightarrow> string result" where
  "recording_hash L input =
     (case jget input ''recordingHash'' of
        JStr (Txt s) \<Rightarrow>
          if length s = 64 \<and> fromhex_ok s then Inr (map ascii_lower s)
          else rbind (fallback_request_id L input) (\<lambda>i. Inr (sha256_hexdigest L i))
      | _ \<Rightarrow> rbind (fallback_request_id L input) (\<lambda>i. Inr (sha256_hexdigest L i)))"

section \<open>Claiming\<close>

record run_input =
  ri_project_id :: string
  ri_external_meeting_id :: string
  ri_recording_hash :: string
  ri_pipeline_version :: string

record generation_claim =
  gl_run :: generation_run
  gl_claimed :: bool
  gl_replayed :: bool

definition PUBLISHED_STATES :: "generation_status list" where
  "PUBLISHED_STATES = [GEN_COMPLETED, GEN_COMPLETED_WITH_WARNINGS]"

abbreviation published :: "generation_run \<Rightarrow> bool" where
  "published r \<equiv> gr_status r \<in> set PUBLISHED_STATES"

definition run_of :: "run_input \<Rightarrow> generation_run \<Rightarrow> bool" where
  "run_of k r \<longleftrightarrow> gr_project_id r = ri_project_id k \<and> gr_external_meeting_id r = ri_external_meeting_id k
     \<and> gr_recording_hash r = ri_recording_hash k \<and> gr_pipeline_version r = ri_pipeline_version k"

definition set_run :: "uuid \<Rightarrow> (generation_run \<Rightarrow> generation_run) \<Rightarrow> db \<Rightarrow> db" where
  "set_run i f d = d\<lparr>db_generation_runs := update_where (\<lambda>r. gr_id r = i) f (db_generation_runs d)\<rparr>"

text \<open>The command of the meeting analysis that asked for the run, if there is one.\<close>

definition product_command :: "db \<Rightarrow> string \<Rightarrow> string \<Rightarrow> meeting_analysis_command option result" where
  "product_command d pid mid = one_or_none (filter (\<lambda>c. mc_project_id c = pid \<and> mc_meeting_id c = Some mid) (db_commands d))"

definition announce_processing :: "string \<Rightarrow> string \<Rightarrow> time \<Rightarrow> db \<Rightarrow> db result" where
  "announce_processing pid mid now d =
     rbind (product_command d pid mid) (\<lambda>c.
       if c = None then rbind (stage_analysis_processing pid mid now d) (\<lambda>(_, d1). Inr d1) else Inr d)"

definition new_run :: "run_input \<Rightarrow> string option \<Rightarrow> uuid \<Rightarrow> time \<Rightarrow> generation_run" where
  "new_run k request_id i now = \<lparr>gr_id = i, gr_project_id = ri_project_id k, gr_external_meeting_id = ri_external_meeting_id k,
     gr_recording_hash = ri_recording_hash k, gr_pipeline_version = ri_pipeline_version k, gr_external_request_id = request_id,
     gr_source_request_id = None, gr_status = GEN_EXTRACTING, gr_warnings = None, gr_result_summary = None, gr_failure_code = None,
     gr_failure_message = None, gr_started_at = Some now, gr_completed_at = None, gr_created_at = now, gr_updated_at = now\<rparr>"

definition restarted :: "time \<Rightarrow> generation_run \<Rightarrow> generation_run" where
  "restarted now r = r\<lparr>gr_status := GEN_EXTRACTING, gr_failure_code := None, gr_failure_message := None, gr_warnings := None,
     gr_result_summary := None, gr_completed_at := None, gr_started_at := Some now, gr_updated_at := now\<rparr>"

definition claim_attempt :: "run_input \<Rightarrow> string option \<Rightarrow> bool \<Rightarrow> time \<Rightarrow> db \<Rightarrow> (generation_claim \<times> db) result" where
  "claim_attempt k request_id force_retry now d =
     rbind (one_or_none (filter (run_of k) (db_generation_runs d))) (\<lambda>existing.
       case existing of
         None \<Rightarrow>
           (let (i, d1) = uuid4 d; r = new_run k request_id i now
            in rbind (announce_processing (ri_project_id k) (ri_external_meeting_id k) now
                        (d1\<lparr>db_generation_runs := db_generation_runs d1 @ [r]\<rparr>)) (\<lambda>d2.
               Inr (\<lparr>gl_run = r, gl_claimed = True, gl_replayed = False\<rparr>, d2)))
       | Some r \<Rightarrow>
           if published r then Inr (\<lparr>gl_run = r, gl_claimed = False, gl_replayed = True\<rparr>, d)
           else if gr_status r = GEN_FAILED \<or> force_retry
           then rbind (announce_processing (ri_project_id k) (ri_external_meeting_id k) now (set_run (gr_id r) (restarted now) d)) (\<lambda>d1.
                  Inr (\<lparr>gl_run = restarted now r, gl_claimed = True, gl_replayed = False\<rparr>, d1))
           else Inr (\<lparr>gl_run = r, gl_claimed = False, gl_replayed = False\<rparr>, d))"

text \<open>The retry: the commit of a new row fails when another transaction has committed a row of the same input since this one
  looked. The list holds, in order, the databases that these transactions left behind; the claim is tried again on the next one.\<close>

fun claim_generation_run :: "run_input \<Rightarrow> string option \<Rightarrow> bool \<Rightarrow> time \<Rightarrow> db list \<Rightarrow> db \<Rightarrow> (generation_claim \<times> db) result" where
  "claim_generation_run k request_id force_retry now [] d = claim_attempt k request_id force_retry now d"
| "claim_generation_run k request_id force_retry now (winner # winners) d =
     (case claim_attempt k request_id force_retry now d of
        Inl e \<Rightarrow> Inl e
      | Inr r \<Rightarrow> if filter (run_of k) (db_generation_runs d) = []
                 then claim_generation_run k request_id force_retry now winners winner else Inr r)"

section \<open>Stages and failure\<close>

definition select_run :: "db \<Rightarrow> string \<Rightarrow> uuid \<Rightarrow> generation_run result" where
  "select_run d pid i = exactly_one (filter (\<lambda>r. gr_id r = i \<and> gr_project_id r = pid) (db_generation_runs d))"

definition set_run_stage :: "string \<Rightarrow> uuid \<Rightarrow> generation_status \<Rightarrow> time \<Rightarrow> db \<Rightarrow> db result" where
  "set_run_stage pid i status now d =
     rbind (select_run d pid i) (\<lambda>r.
     rguard (published r) (GenerationRunStateError ''published GenerationRun is immutable'')
       (Inr (set_run i (\<lambda>r. r\<lparr>gr_status := status, gr_updated_at := now\<rparr>) d)))"

definition failed_run :: "graph_env \<Rightarrow> string \<Rightarrow> py_exception \<Rightarrow> time \<Rightarrow> generation_run \<Rightarrow> generation_run" where
  "failed_run E code exc now r = r\<lparr>gr_status := GEN_FAILED, gr_failure_code := Some code,
     gr_failure_message := Some (take 2000 (sanitize_text E (exception_line exc))), gr_completed_at := Some now, gr_updated_at := now\<rparr>"

definition generation_failed_payload :: "generation_run \<Rightarrow> string \<Rightarrow> py_exception \<Rightarrow> json" where
  "generation_failed_payload r code exc = JObj [(''generationRunId'', JStr (UuidTxt (gr_id r))), (''projectId'', jstr (gr_project_id r)),
     (''externalMeetingId'', jstr (gr_external_meeting_id r)), (''failureCode'', jstr code), (''errorType'', jstr (ex_type exc))]"

definition mark_generation_failed :: "graph_env \<Rightarrow> string \<Rightarrow> uuid \<Rightarrow> string \<Rightarrow> py_exception \<Rightarrow> time \<Rightarrow> db \<Rightarrow> db result" where
  "mark_generation_failed E pid i code exc now d =
     rbind (one_or_none (filter (\<lambda>r. gr_id r = i \<and> gr_project_id r = pid) (db_generation_runs d))) (\<lambda>found.
       case found of
         None \<Rightarrow> Inr d
       | Some r \<Rightarrow>
           rbind (product_command d pid (gr_external_meeting_id r)) (\<lambda>command.
             if published r
             then (if command = None
                   then rbind (stage_analysis_failed pid (gr_external_meeting_id r) code (Some (ex_type exc)) now d) (\<lambda>(_, d1). Inr d1)
                   else Inr d)
             else if gr_status r = GEN_FAILED then Inr d
             else
               (let d1 = set_run i (failed_run E code exc now) d
                in if command = None
                   then (let (_, d2) = stage_outbox ''GRAPH_GENERATION_FAILED'' ''generation_run'' (UuidTxt i) pid ''auto-graph-v1''
                                         (generation_failed_payload r code exc) now d1
                         in rbind (stage_analysis_failed pid (gr_external_meeting_id r) code (Some (ex_type exc)) now d2) (\<lambda>(_, d3). Inr d3))
                   else Inr d1)))"

section \<open>Lemmas\<close>

abbreviation runs_unique :: "db \<Rightarrow> bool" where
  "runs_unique d \<equiv> distinct (map gr_id (db_generation_runs d))"

text \<open>No operation of the event contract writes the table of the generation runs.\<close>

lemma stage_outbox_runs [simp]: "db_generation_runs (snd (stage_outbox a b c p v j now d)) = db_generation_runs d"
  by (simp add: stage_outbox_def uuid4_def Let_def)

lemma stage_analysis_event_runs [simp]: "db_generation_runs (snd (stage_analysis_event s now d)) = db_generation_runs d"
  by (simp add: stage_analysis_event_def stage_v1_def)

lemma announce_processing_runs: "announce_processing pid mid now d = Inr d' \<Longrightarrow> db_generation_runs d' = db_generation_runs d"
  by (auto simp: announce_processing_def stage_analysis_processing_def put_delivery_def result_simps Let_def split: option.splits if_splits)

lemma stage_analysis_failed_runs: "stage_analysis_failed pid mid code msg now d = Inr (s, d') \<Longrightarrow> db_generation_runs d' = db_generation_runs d"
  by (auto simp: stage_analysis_failed_def put_delivery_def result_simps Let_def split: option.splits if_splits)

end
