(* ===== verification/Snapshot_Events.thy ===== *)
theory Snapshot_Events
  imports Graph_Merge
begin

text \<open>
  \<open>meeting_analysis/snapshot.py\<close> and \<open>meeting_analysis/result_events.py\<close>: the full-graph
  snapshot that Java projects, its size limit, and the staging of the v3 result events. The
  environment variables are read through the parameter \<open>L\<close>.
\<close>

section \<open>The size limit\<close>

text \<open>\<open>int(text)\<close> on a string: surrounding whitespace, an optional sign, decimal digits with single
  underscores between them; \<open>None\<close> is \<open>ValueError\<close>.\<close>

fun int_body :: "string \<Rightarrow> bool" where
  "int_body [] = False"
| "int_body [c] = is_digit c"
| "int_body (c # d # cs) = (is_digit c \<and> (if d = CHR ''_'' then int_body cs else int_body (d # cs)))"

definition py_int :: "string \<Rightarrow> int option" where
  "py_int s =
     (let t = strip s;
          (neg, body) = (case t of [] \<Rightarrow> (False, [])
             | c # cs \<Rightarrow> if c = CHR ''-'' then (True, cs) else if c = CHR ''+'' then (False, cs) else (False, t))
      in if int_body body
         then Some ((if neg then -1 else 1) * parse_digits (filter is_digit body)) else None)"

datatype limit_value = LimitInt int | LimitStr string

definition GRAPH_SNAPSHOT_MAX_SIZE_ENV :: string where
  "GRAPH_SNAPSHOT_MAX_SIZE_ENV = ''PROJECTREE_GRAPH_SNAPSHOT_MAX_SIZE_BYTES''"

definition DEFAULT_GRAPH_SNAPSHOT_MAX_SIZE_BYTES :: int where
  "DEFAULT_GRAPH_SNAPSHOT_MAX_SIZE_BYTES = 10 * 1024 * 1024"

definition graph_snapshot_max_size_bytes :: "stdlib \<Rightarrow> limit_value option \<Rightarrow> int result" where
  "graph_snapshot_max_size_bytes L value =
     (let raw = (case value of
            None \<Rightarrow> LimitStr (case getenv L GRAPH_SNAPSHOT_MAX_SIZE_ENV of
               None \<Rightarrow> int_str DEFAULT_GRAPH_SNAPSHOT_MAX_SIZE_BYTES | Some s \<Rightarrow> s)
          | Some v \<Rightarrow> v);
          limit = (case raw of LimitInt i \<Rightarrow> Some i | LimitStr s \<Rightarrow> py_int s)
      in case limit of
           None \<Rightarrow> Inl (ValueError ''must be a positive integer'')
         | Some i \<Rightarrow> if i \<le> 0 then Inl (ValueError ''must be a positive integer'') else Inr i)"

definition validate_graph_snapshot_size :: "stdlib \<Rightarrow> string \<Rightarrow> limit_value option \<Rightarrow> nat result" where
  "validate_graph_snapshot_size L content max_size_bytes =
     rbind (graph_snapshot_max_size_bytes L max_size_bytes) (\<lambda>limit.
       if limit < int (length content)
       then Inl (GraphSnapshotTooLargeError (''graph snapshot size '' @ int_str (int (length content))
              @ '' exceeds maximum '' @ int_str limit @ '' bytes''))
       else Inr (length content))"

section \<open>The snapshot\<close>

definition snapshot_state :: "graph_state \<Rightarrow> bool" where
  "snapshot_state s \<longleftrightarrow> s = ACTIVE \<or> s = UNATTACHED \<or> s = MERGED"

definition snapshot_nodes :: "db \<Rightarrow> string \<Rightarrow> node list" where
  "snapshot_nodes d pid = sort_key nd_id (filter (\<lambda>n. nd_project_id n = pid
     \<and> snapshot_state (nd_graph_state n) \<and> nd_deleted_at n = None) (db_nodes d))"

definition snapshot_node_row :: "node \<Rightarrow> json" where
  "snapshot_node_row n = JObj
     [(''nodeId'', JStr (UuidTxt (nd_id n))),
      (''sourceMeetingId'', public_identifier (IdStr (nd_source_meeting_id n))),
      (''parentNodeId'', jopt (\<lambda>i. JStr (UuidTxt i)) (nd_parent_id n)),
      (''mergedIntoNodeId'', jopt (\<lambda>i. JStr (UuidTxt i)) (nd_merged_into_node_id n)),
      (''nodeType'', jstr (node_type_value (nd_node_type n))),
      (''category'', jstr (nd_category n)),
      (''graphState'', jstr (graph_state_value (nd_graph_state n))),
      (''title'', jstr (nd_title n)),
      (''content'', jstr (nd_content n)),
      (''linkSource'', jstr (nd_origin_type n)),
      (''nodeVersion'', JInt (nd_version n)),
      (''createdAt'', JTime (nd_created_at n)),
      (''updatedAt'', JTime (nd_updated_at n))]"

definition snapshot_evidence_row :: "node \<Rightarrow> nat \<Rightarrow> evidence \<Rightarrow> json" where
  "snapshot_evidence_row n order e = JObj
     [(''evidenceId'', JStr (UuidTxt (ev_id e))),
      (''nodeId'', JStr (UuidTxt (nd_id n))),
      (''meetingId'', jopt (\<lambda>m. public_identifier (IdStr m)) (ev_external_meeting_id e)),
      (''quoteText'', jstr (ev_quoted_text e)),
      (''speakerLabel'', jopt jstr (ev_speaker_label e)),
      (''startMs'', jopt JInt (ev_start_ms e)),
      (''endMs'', jopt JInt (ev_end_ms e)),
      (''evidenceOrder'', JInt (int order))]"

text \<open>The evidence rows with their sort key (node, order, evidence).\<close>

definition snapshot_node_evidence :: "db \<Rightarrow> string \<Rightarrow> node \<Rightarrow> ((uuid \<times> nat \<times> uuid) \<times> json) list" where
  "snapshot_node_evidence d pid n =
     (case nd_current_revision_id n of None \<Rightarrow> []
      | Some rid \<Rightarrow> map (\<lambda>(order, e). ((nd_id n, order, ev_id e), snapshot_evidence_row n order e))
          (enumerate 1 (revision_evidence_rows d pid rid)))"

definition snapshot_evidence :: "db \<Rightarrow> string \<Rightarrow> node list \<Rightarrow> json list" where
  "snapshot_evidence d pid nodes =
     map snd (sort_key fst (concat (map (snapshot_node_evidence d pid) nodes)))"

definition snapshot_merge_row :: "merge_operation \<Rightarrow> node \<Rightarrow> json" where
  "snapshot_merge_row m source = JObj
     [(''mergeId'', JStr (UuidTxt (mo_id m))),
      (''sourceNodeId'', JStr (UuidTxt (mo_source_node_id m))),
      (''targetNodeId'', JStr (UuidTxt (mo_resolved_target_node_id m))),
      (''sourceMeetingId'', public_identifier (IdStr (nd_source_meeting_id source))),
      (''mergedAt'', JTime (mo_applied_at m))]"

definition snapshot_merges :: "db \<Rightarrow> string \<Rightarrow> node list \<Rightarrow> (merge_operation \<times> node) list" where
  "snapshot_merges d pid nodes =
     sort_key (\<lambda>(m, _). (mo_source_node_id m, mo_id m))
       [(m, n). m \<leftarrow> db_merge_operations d, mo_project_id m = pid \<and> mo_status m = APPLIED,
          n \<leftarrow> db_nodes d, nd_id n = mo_source_node_id m \<and> nd_project_id n = pid
            \<and> nd_id n \<in> set (map nd_id nodes) \<and> nd_graph_state n = MERGED \<and> nd_deleted_at n = None]"

definition build_full_graph_snapshot ::
  "db \<Rightarrow> string \<Rightarrow> string option \<Rightarrow> uuid \<Rightarrow> nat \<Rightarrow> time \<Rightarrow> json" where
  "build_full_graph_snapshot d pid meeting_id command_id graph_version generated =
     (let nodes = snapshot_nodes d pid in JObj
       [(''snapshotSchemaVersion'', JInt 1),
        (''projectId'', public_identifier (IdStr pid)),
        (''meetingId'', jopt (\<lambda>m. public_identifier (IdStr m)) meeting_id),
        (''commandId'', JStr (UuidTxt command_id)),
        (''graphVersion'', JInt (int graph_version)),
        (''generatedAt'', JTime generated),
        (''nodes'', JList (map snapshot_node_row nodes)),
        (''evidences'', JList (snapshot_evidence d pid nodes)),
        (''mergeRecords'', JList (if nodes = [] then []
            else map (\<lambda>(m, n). snapshot_merge_row m n) (snapshot_merges d pid nodes)))])"

definition snapshot_digest :: "stdlib \<Rightarrow> json \<Rightarrow> string \<times> string" where
  "snapshot_digest L payload = (let content = json_dumps L payload in (content, sha256_hexdigest L content))"

section \<open>Result events\<close>

definition NODE_DELETE_REJECTION_REASONS :: "string list" where
  "NODE_DELETE_REJECTION_REASONS = [''GRAPH_VERSION_CONFLICT'', ''NODE_NOT_FOUND'', ''NODE_PROJECT_MISMATCH'']"

definition NODE_CONTENT_UPDATE_REJECTION_REASONS :: "string list" where
  "NODE_CONTENT_UPDATE_REJECTION_REASONS = [''NODE_NOT_FOUND'', ''NODE_NOT_EDITABLE'',
     ''MERGED_SOURCE_NOT_EDITABLE'', ''NODE_VERSION_CONFLICT'', ''INVALID_CURRENT_REVISION'', ''NO_CHANGE'',
     ''GRAPH_SNAPSHOT_TOO_LARGE'']"

definition stage_v3 ::
  "string \<Rightarrow> meeting_analysis_command \<Rightarrow> json \<Rightarrow> string \<Rightarrow> py_text \<Rightarrow> time \<Rightarrow> db \<Rightarrow> outbox_event \<times> db" where
  "stage_v3 event_type command payload aggregate_type aggregate_id now d =
     stage_outbox event_type aggregate_type aggregate_id (mc_project_id command) ''3''
       (JObj [(''meetingId'', jopt (\<lambda>m. public_identifier (IdStr m)) (mc_meeting_id command)),
              (''commandId'', JStr (UuidTxt (mc_command_id command))),
              (''payload'', payload)]) now d"

text \<open>\<open>text.strip("/")\<close>.\<close>

definition strip_slashes :: "string \<Rightarrow> string" where
  "strip_slashes s = rev (dropWhile (\<lambda>c. c = CHR ''/'') (rev (dropWhile (\<lambda>c. c = CHR ''/'') s)))"

definition snapshot_prefix_of :: "stdlib \<Rightarrow> string option \<Rightarrow> string" where
  "snapshot_prefix_of L snapshot_prefix =
     strip_slashes (or_str snapshot_prefix
       (case getenv L ''PROJECTREE_GRAPH_SNAPSHOT_PREFIX'' of None \<Rightarrow> ''graph-snapshots/'' | Some s \<Rightarrow> s))"

text \<open>The unique keys of \<open>graph_snapshot_artifact\<close>: (project, version) and (command, version).\<close>

definition artifact_clash :: "db \<Rightarrow> string \<Rightarrow> uuid \<Rightarrow> nat \<Rightarrow> bool" where
  "artifact_clash d pid cid v \<longleftrightarrow> (\<exists>a \<in> set (db_artifacts d). sa_graph_version a = v
     \<and> (sa_project_id a = pid \<or> sa_command_id a = cid))"

definition stage_project_graph_changed_v3 ::
  "stdlib \<Rightarrow> meeting_analysis_command \<Rightarrow> string option \<Rightarrow> string \<Rightarrow> time \<Rightarrow> db
    \<Rightarrow> ((outbox_event \<times> graph_snapshot_artifact \<times> nat) \<times> db) result" where
  "stage_project_graph_changed_v3 L command snapshot_prefix source_type now d =
     rguard (source_type \<notin> set [''MEETING_ANALYSIS'', ''NODE_CONTENT_UPDATE'', ''NODE_DELETE''])
       (ValueError ''unsupported PROJECT_GRAPH_CHANGED sourceType'')
     (let pid = mc_project_id command;
          (v, d1) = bump_graph_version pid now d;
          snapshot = build_full_graph_snapshot d1 pid (mc_meeting_id command) (mc_command_id command) v now;
          (content, digest) = snapshot_digest L snapshot
      in rbind (validate_graph_snapshot_size L content None) (\<lambda>size.
         let prefix = snapshot_prefix_of L snapshot_prefix;
             (i, d2) = uuid4 d1;
             artifact = \<lparr>sa_id = i, sa_project_id = pid, sa_meeting_id = mc_meeting_id command,
               sa_command_id = mc_command_id command, sa_graph_version = v, sa_snapshot_schema_version = 1,
               sa_payload_json = snapshot, sa_size_bytes = size, sa_sha256 = digest,
               sa_content_type = ''application/json'',
               sa_object_key = KeyTxt prefix pid (mc_command_id command) (int v),
               sa_status = ART_PENDING, sa_uploaded_at = None\<rparr>
         in rguard (prefix = []) (ValueError ''PROJECTREE_GRAPH_SNAPSHOT_PREFIX must not be blank'')
           (rguard (artifact_clash d2 pid (mc_command_id command) v) IntegrityError
           (let (e, d3) = stage_v3 ''PROJECT_GRAPH_CHANGED'' command
                  (JObj [(''sourceType'', jstr source_type), (''graphVersion'', JInt (int v)),
                         (''snapshotArtifactId'', JStr (UuidTxt i))])
                  ''project_graph'' (Txt pid) now (d2\<lparr>db_artifacts := db_artifacts d2 @ [artifact]\<rparr>)
            in Inr ((e, artifact, v), d3)))))"

definition stage_meeting_summary_ready_v3 ::
  "meeting_analysis_command \<Rightarrow> meeting_summary \<Rightarrow> string \<Rightarrow> time \<Rightarrow> db \<Rightarrow> outbox_event \<times> db" where
  "stage_meeting_summary_ready_v3 command summary api_path now d =
     stage_v3 ''MEETING_SUMMARY_READY'' command
       (JObj [(''meetingSummaryId'', JStr (UuidTxt (ms_id summary))),
              (''summaryVersion'', JInt (ms_summary_version summary)),
              (''status'', jstr (ms_status summary)), (''apiPath'', jstr api_path)])
       ''meeting_summary'' (UuidTxt (ms_id summary)) now d"

definition stage_node_delete_rejected_v3 ::
  "meeting_analysis_command \<Rightarrow> string \<Rightarrow> time \<Rightarrow> db \<Rightarrow> (outbox_event \<times> db) result" where
  "stage_node_delete_rejected_v3 command reason_code now d =
     rguard (reason_code \<notin> set NODE_DELETE_REJECTION_REASONS)
       (ValueError ''unsupported NODE_DELETE_REJECTED reasonCode'')
     (Inr (stage_v3 ''NODE_DELETE_REJECTED'' command
        (JObj [(''sourceType'', jstr ''NODE_DELETE''), (''reasonCode'', jstr reason_code)])
        ''project_graph'' (Txt (mc_project_id command)) now d))"

definition stage_node_content_update_rejected_v3 ::
  "meeting_analysis_command \<Rightarrow> string \<Rightarrow> py_text option \<Rightarrow> time \<Rightarrow> db \<Rightarrow> (outbox_event \<times> db) result" where
  "stage_node_content_update_rejected_v3 command reason_code failed_node_id now d =
     rguard (reason_code \<notin> set NODE_CONTENT_UPDATE_REJECTION_REASONS)
       (ValueError ''unsupported NODE_CONTENT_UPDATE_REJECTED reasonCode'')
     (Inr (stage_v3 ''NODE_CONTENT_UPDATE_REJECTED'' command
        (JObj [(''sourceType'', jstr ''NODE_CONTENT_UPDATE''), (''reasonCode'', jstr reason_code),
               (''failedNodeId'', jopt JStr failed_node_id)])
        ''project_graph'' (Txt (mc_project_id command)) now d))"

text \<open>The task type is the datatype of the table, so the check of its name cannot fail.\<close>

fun task_type_value :: "task_type \<Rightarrow> string" where
  "task_type_value SUMMARY = ''SUMMARY''"
| "task_type_value NODES = ''NODES''"

definition stage_task_failed_v3 ::
  "meeting_analysis_command \<Rightarrow> task_type \<Rightarrow> string \<Rightarrow> string option \<Rightarrow> time \<Rightarrow> db \<Rightarrow> (outbox_event \<times> db) result" where
  "stage_task_failed_v3 command task_type failure_code failure_message now d =
     (let normalized_code = strip failure_code;
          normalized_message = (case failure_message of
             Some m \<Rightarrow> if strip m \<noteq> [] then strip m else normalized_code | None \<Rightarrow> normalized_code)
      in rguard (normalized_code = []) (ValueError ''failure_code must not be blank'')
         (Inr (stage_v3 ''ANALYSIS_TASK_STATUS_CHANGED'' command
            (JObj [(''taskType'', jstr (task_type_value task_type)), (''status'', jstr ''FAILED''),
                   (''failureCode'', jstr (take 100 normalized_code)),
                   (''failureMessage'', jstr (take 1000 normalized_message))])
            ''meeting_analysis_task'' (TaskTxt (mc_command_id command) (task_type_value task_type)) now d)))"

section \<open>The snapshot is deterministic\<close>

lemma sort_key_mset_cong:
  assumes "mset xs = mset ys" "inj_on k (set xs)"
  shows "sort_key k xs = sort_key k ys"
  using assms sort_key_inj_key_eq [of xs "sort_key k ys" k] by simp

lemma mset_concat_map_cong:
  assumes "mset xs = mset ys" "\<And>x. x \<in> set xs \<Longrightarrow> mset (f x) = mset (g x)"
  shows "mset (concat (map f xs)) = mset (concat (map g ys))"
proof -
  have "mset (concat (map f xs)) = (\<Sum>x\<in>#mset xs. mset (f x))"
    by (simp add: mset_concat comp_def flip: mset_map sum_mset_sum_list)
  also have "\<dots> = (\<Sum>x\<in>#mset xs. mset (g x))"
    using assms(2) by (intro arg_cong [where f = sum_mset] image_mset_cong) simp
  also have "\<dots> = mset (concat (map g ys))"
    using assms(1) by (simp add: mset_concat comp_def flip: mset_map sum_mset_sum_list)
  finally show ?thesis .
qed

text \<open>Two databases that hold the same rows, in whatever order the tables return them.\<close>

definition same_rows :: "db \<Rightarrow> db \<Rightarrow> bool" where
  "same_rows d d' \<longleftrightarrow> mset (db_nodes d) = mset (db_nodes d')
     \<and> mset (db_evidence d) = mset (db_evidence d')
     \<and> mset (db_revision_evidence d) = mset (db_revision_evidence d')
     \<and> mset (db_merge_operations d) = mset (db_merge_operations d')"

definition keys_unique :: "db \<Rightarrow> bool" where
  "keys_unique d \<longleftrightarrow> nodes_unique d \<and> distinct (map ev_id (db_evidence d))
     \<and> distinct (map mo_id (db_merge_operations d))"

lemma inj_on_key: "distinct (map k xs) \<Longrightarrow> inj_on k (set xs)"
  by (simp add: distinct_map)

lemma mset_set_eq: "mset xs = mset ys \<Longrightarrow> set xs = set ys"
  by (metis set_mset_mset)

lemma snapshot_nodes_cong:
  assumes "same_rows d d'" "keys_unique d"
  shows "snapshot_nodes d pid = snapshot_nodes d' pid"
proof -
  let ?P = "\<lambda>n. nd_project_id n = pid \<and> snapshot_state (nd_graph_state n) \<and> nd_deleted_at n = None"
  have "mset (filter ?P (db_nodes d)) = mset (filter ?P (db_nodes d'))"
    using assms(1) by (simp add: same_rows_def)
  moreover have "inj_on nd_id (set (filter ?P (db_nodes d)))"
    using assms(2) by (auto simp: keys_unique_def intro: inj_on_subset [OF inj_on_key])
  ultimately show ?thesis unfolding snapshot_nodes_def by (rule sort_key_mset_cong)
qed

lemma revision_evidence_rows_cong:
  assumes "same_rows d d'" "keys_unique d"
  shows "revision_evidence_rows d pid rid = revision_evidence_rows d' pid rid"
proof -
  let ?f = "\<lambda>D l. if re_project_id l = pid \<and> re_node_revision_id l = rid
     then concat (map (\<lambda>e. if ev_id e = re_evidence_id l \<and> ev_project_id e = pid then [e] else []) (db_evidence D))
     else []"
  have "mset (concat (map (?f d) (db_revision_evidence d))) = mset (concat (map (?f d') (db_revision_evidence d')))"
    using assms(1) by (intro mset_concat_map_cong) (auto simp: same_rows_def intro: mset_concat_map_cong)
  moreover have "inj_on (\<lambda>e. (ev_created_at e, ev_id e)) (set (concat (map (?f d) (db_revision_evidence d))))"
  proof -
    have "set (concat (map (?f d) (db_revision_evidence d))) \<subseteq> set (db_evidence d)"
      by (auto split: if_splits)
    then have "inj_on ev_id (set (concat (map (?f d) (db_revision_evidence d))))"
      using assms(2) by (auto simp: keys_unique_def intro: inj_on_subset [OF inj_on_key])
    then show ?thesis by (auto simp: inj_on_def)
  qed
  ultimately show ?thesis unfolding revision_evidence_rows_def by (rule sort_key_mset_cong)
qed

lemma snapshot_merges_cong:
  assumes "same_rows d d'" "keys_unique d"
  shows "snapshot_merges d pid nodes = snapshot_merges d' pid nodes"
proof -
  let ?f = "\<lambda>D m. if mo_project_id m = pid \<and> mo_status m = APPLIED
     then concat (map (\<lambda>n. if nd_id n = mo_source_node_id m \<and> nd_project_id n = pid
            \<and> nd_id n \<in> set (map nd_id nodes) \<and> nd_graph_state n = MERGED \<and> nd_deleted_at n = None
            then [(m, n)] else []) (db_nodes D)) else []"
  let ?X = "concat (map (?f d) (db_merge_operations d))"
  have "mset ?X = mset (concat (map (?f d') (db_merge_operations d')))"
    using assms(1) by (intro mset_concat_map_cong) (auto simp: same_rows_def intro: mset_concat_map_cong)
  moreover have "inj_on (\<lambda>(m, _). (mo_source_node_id m, mo_id m)) (set ?X)"
  proof (rule inj_onI)
    fix x y
    assume x: "x \<in> set ?X" and y: "y \<in> set ?X"
      and k: "(case x of (m, _) \<Rightarrow> (mo_source_node_id m, mo_id m)) = (case y of (m, _) \<Rightarrow> (mo_source_node_id m, mo_id m))"
    from x obtain m n where x': "x = (m, n)" "m \<in> set (db_merge_operations d)" "n \<in> set (db_nodes d)"
      "nd_id n = mo_source_node_id m" by (auto split: if_splits)
    from y obtain m' n' where y': "y = (m', n')" "m' \<in> set (db_merge_operations d)" "n' \<in> set (db_nodes d)"
      "nd_id n' = mo_source_node_id m'" by (auto split: if_splits)
    have "distinct (map mo_id (db_merge_operations d))" "nodes_unique d"
      using assms(2) by (simp_all add: keys_unique_def)
    with k x' y' show "x = y"
      using distinct_key_inj [of mo_id "db_merge_operations d" m m'] distinct_key_inj [of nd_id "db_nodes d" n n'] by simp
  qed
  ultimately show ?thesis unfolding snapshot_merges_def by (rule sort_key_mset_cong)
qed

text \<open>C38. The snapshot is deterministic: it depends on the rows of the graph and not on the order in which
  the tables return them, so two replicas of a graph version have the same content and digest.\<close>

theorem snapshot_deterministic:
  assumes "same_rows d d'" "keys_unique d"
  shows "snapshot_digest L (build_full_graph_snapshot d pid mid cid v t) =
    snapshot_digest L (build_full_graph_snapshot d' pid mid cid v t)"
proof -
  have "snapshot_node_evidence d pid = snapshot_node_evidence d' pid"
    using revision_evidence_rows_cong [OF assms]
    by (intro ext) (simp add: snapshot_node_evidence_def split: option.splits)
  then show ?thesis
    using snapshot_nodes_cong [OF assms] snapshot_merges_cong [OF assms]
    by (simp add: build_full_graph_snapshot_def snapshot_evidence_def Let_def)
qed

theorem snapshot_deterministic_witness:
  "snapshot_digest sample_stdlib (build_full_graph_snapshot
      (sample_db [sample_node 1 ''7'', sample_node 2 ''7'']) ''7'' None 9 1 0) =
   snapshot_digest sample_stdlib (build_full_graph_snapshot
      (sample_db [sample_node 2 ''7'', sample_node 1 ''7'']) ''7'' None 9 1 0)"
  by (rule snapshot_deterministic)
    (simp_all add: same_rows_def keys_unique_def sample_db_def empty_db_def sample_node_def)

section \<open>Staging a graph change\<close>

lemma stage_outbox_tables [simp]:
  "db_commands (snd (stage_outbox a b c p v j now d)) = db_commands d"
  "db_artifacts (snd (stage_outbox a b c p v j now d)) = db_artifacts d"
  "db_revisions (snd (stage_outbox a b c p v j now d)) = db_revisions d"
  "db_change_events (snd (stage_outbox a b c p v j now d)) = db_change_events d"
  "db_relations (snd (stage_outbox a b c p v j now d)) = db_relations d"
  "db_tasks (snd (stage_outbox a b c p v j now d)) = db_tasks d"
  "db_generation_runs (snd (stage_outbox a b c p v j now d)) = db_generation_runs d"
  by (simp_all add: stage_outbox_def uuid4_def Let_def)

lemma stage_outbox_keys [simp]:
  "ob_project_id (fst (stage_outbox a b c p v j now d)) = p"
  "ob_schema_version (fst (stage_outbox a b c p v j now d)) = v"
  by (simp_all add: stage_outbox_def uuid4_def Let_def)

lemma bump_graph_version_tables [simp]:
  "db_commands (snd (bump_graph_version pid now d)) = db_commands d"
  "db_artifacts (snd (bump_graph_version pid now d)) = db_artifacts d"
  "db_change_events (snd (bump_graph_version pid now d)) = db_change_events d"
  "db_relations (snd (bump_graph_version pid now d)) = db_relations d"
  "db_outbox (snd (bump_graph_version pid now d)) = db_outbox d"
  "db_tasks (snd (bump_graph_version pid now d)) = db_tasks d"
  "db_generation_runs (snd (bump_graph_version pid now d)) = db_generation_runs d"
  by (simp_all add: bump_graph_version_def split: option.splits)

lemma stage_project_graph_changed_v3_ok:
  assumes "stage_project_graph_changed_v3 L c prefix src now d = Inr ((e, a, v), d')"
  shows "(\<exists>d1. bump_graph_version (mc_project_id c) now d = (v, d1)
      \<and> sa_payload_json a = build_full_graph_snapshot d1 (mc_project_id c) (mc_meeting_id c) (mc_command_id c) v now
      \<and> db_graph_states d' = db_graph_states d1)
    \<and> sa_sha256 a = sha256_hexdigest L (json_dumps L (sa_payload_json a))
    \<and> sa_size_bytes a = length (json_dumps L (sa_payload_json a))
    \<and> (\<exists>limit. graph_snapshot_max_size_bytes L None = Inr limit \<and> int (sa_size_bytes a) \<le> limit)
    \<and> sa_graph_version a = v \<and> sa_command_id a = mc_command_id c \<and> sa_project_id a = mc_project_id c
    \<and> db_artifacts d' = db_artifacts d @ [a] \<and> db_outbox d' = db_outbox d @ [e]
    \<and> ob_event_type e = ''PROJECT_GRAPH_CHANGED'' \<and> ob_project_id e = mc_project_id c \<and> ob_schema_version e = ''3''
    \<and> jget (ob_payload e) ''commandId'' = JStr (UuidTxt (mc_command_id c))
    \<and> jget (jget (ob_payload e) ''payload'') ''snapshotArtifactId'' = JStr (UuidTxt (sa_id a))
    \<and> jget (jget (ob_payload e) ''payload'') ''graphVersion'' = JInt (int v)
    \<and> db_nodes d' = db_nodes d \<and> db_commands d' = db_commands d \<and> db_relations d' = db_relations d
    \<and> db_change_events d' = db_change_events d \<and> db_generation_runs d' = db_generation_runs d"
proof -
  obtain w d1 where b: "bump_graph_version (mc_project_id c) now d = (w, d1)" by fastforce
  have f: "db_nodes d1 = db_nodes d" "db_commands d1 = db_commands d" "db_relations d1 = db_relations d"
    "db_change_events d1 = db_change_events d" "db_artifacts d1 = db_artifacts d" "db_outbox d1 = db_outbox d"
    "db_generation_runs d1 = db_generation_runs d"
    using bump_graph_version_tables [of "mc_project_id c" now d] bump_graph_version_db [of "mc_project_id c" now d] b
    by simp_all
  define snap where "snap = build_full_graph_snapshot d1 (mc_project_id c) (mc_meeting_id c) (mc_command_id c) w now"
  obtain size d2 where size: "validate_graph_snapshot_size L (json_dumps L snap) None = Inr size"
    and v: "v = w" and a: "sa_payload_json a = snap" "sa_sha256 a = sha256_hexdigest L (json_dumps L snap)"
      "sa_size_bytes a = size" "sa_graph_version a = w" "sa_command_id a = mc_command_id c"
      "sa_project_id a = mc_project_id c"
    and d2: "d2 = d1\<lparr>db_next_uuid := Suc (db_next_uuid d1), db_artifacts := db_artifacts d1 @ [a]\<rparr>"
    and ev: "e = fst (stage_v3 ''PROJECT_GRAPH_CHANGED'' c
       (JObj [(''sourceType'', jstr src), (''graphVersion'', JInt (int w)), (''snapshotArtifactId'', JStr (UuidTxt (sa_id a)))])
       ''project_graph'' (Txt (mc_project_id c)) now d2)"
      "d' = snd (stage_v3 ''PROJECT_GRAPH_CHANGED'' c
       (JObj [(''sourceType'', jstr src), (''graphVersion'', JInt (int w)), (''snapshotArtifactId'', JStr (UuidTxt (sa_id a)))])
       ''project_graph'' (Txt (mc_project_id c)) now d2)"
    using assms unfolding stage_project_graph_changed_v3_def b Let_def snapshot_digest_def prod.case
      uuid4_def snap_def [symmetric]
    by (auto simp: rguard_Inr_iff rbind_Inr_iff split_beta)
  from size obtain limit where "graph_snapshot_max_size_bytes L None = Inr limit"
      "size = length (json_dumps L snap)" "int size \<le> limit"
    by (auto simp: validate_graph_snapshot_size_def rbind_Inr_iff split: if_splits)
  then show ?thesis
    using b a v by (simp add: ev stage_v3_def d2 f snap_def)
qed


lemma int_body_digits: "s \<noteq> [] \<Longrightarrow> \<forall>c \<in> set s. is_digit c \<Longrightarrow> int_body s"
  by (induction s rule: int_body.induct) (auto simp: is_digit_def)

lemma py_int_int_str: "0 < i \<Longrightarrow> py_int (int_str i) = Some i"
proof -
  assume "0 < i"
  then have dec: "positive_decimal (nat_str (nat i))" by (intro nat_str_decimal) simp
  then obtain c cs where c: "nat_str (nat i) = c # cs" by (cases "nat_str (nat i)") auto
  have digits: "\<forall>x \<in> set (c # cs). is_digit x" using dec c positive_decimal_digits by metis
  then have "c \<noteq> CHR ''-''" "c \<noteq> CHR ''+''" by (auto simp: is_digit_def)
  moreover have "int_str i = c # cs" using \<open>0 < i\<close> c by (simp add: int_str_def)
  moreover have "strip (int_str i) = int_str i"
    using int_str_canonical canonical_integer_strip by blast
  moreover have "parse_digits (filter is_digit (c # cs)) = i"
  proof -
    have "filter is_digit (c # cs) = c # cs" using digits by (intro filter_True) blast
    then show ?thesis using parse_digits_nat_str [of "nat i"] c \<open>0 < i\<close> by simp
  qed
  ultimately show ?thesis using int_body_digits [OF _ digits] by (simp add: py_int_def)
qed

lemma sample_limit: "graph_snapshot_max_size_bytes sample_stdlib None = Inr 10485760"
  by (simp add: graph_snapshot_max_size_bytes_def sample_stdlib_def DEFAULT_GRAPH_SNAPSHOT_MAX_SIZE_BYTES_def
      py_int_int_str)
lemma sample_prefix: "snapshot_prefix_of sample_stdlib None = ''graph-snapshots''"
  by code_simp

definition sample_command :: "uuid \<Rightarrow> command_type \<Rightarrow> meeting_analysis_command" where
  "sample_command i t = \<lparr>mc_id = i, mc_command_id = i, mc_command_type = t, mc_project_id = ''7'',
     mc_meeting_id = None, mc_room_name = None, mc_generate_summary = None, mc_generate_nodes = None,
     mc_target_node_id = None, mc_expected_node_version = None, mc_expected_graph_version = None,
     mc_requested_by_member_id = Some ''u'', mc_requested_at = 0, mc_status = CMD_PROCESSING,
     mc_payload_hash = ''h'', mc_failure_code = None, mc_failure_message = None\<rparr>"


end
