(* ===== verification/Command_Inbox.thy ===== *)
theory Command_Inbox
  imports Pipeline_Prelude
begin

text \<open>
  The contract of a command handler behind a queue that may deliver a command more than once
  (\<open>meeting_analysis/consumers.py\<close> hands every delivery to the handler of its command type): the
  first delivery that commits settles the command, and a delivery of a settled command answers
  from the record without writing. What follows for any number of redeliveries is proved once,
  inside the locale, and holds for each handler that is shown to meet the contract.
\<close>

text \<open>\<open>n\<close> deliveries in a row; an exception stops the consumer.\<close>

fun deliveries :: "('d \<Rightarrow> ('r \<times> 'd) result) \<Rightarrow> nat \<Rightarrow> 'd \<Rightarrow> 'd result" where
  "deliveries h 0 d = Inr d"
| "deliveries h (Suc n) d = rbind (h d) (\<lambda>(_, d'). deliveries h n d')"

locale idempotent_inbox =
  fixes handle :: "'c \<Rightarrow> 'd \<Rightarrow> ('r \<times> 'd) result"
    and fresh :: "'c \<Rightarrow> 'd \<Rightarrow> bool"
    and settled :: "'c \<Rightarrow> 'd \<Rightarrow> bool"
  assumes settles: "fresh c d \<Longrightarrow> handle c d = Inr (r, d') \<Longrightarrow> settled c d'"
    and replays: "settled c d \<Longrightarrow> \<exists>r. handle c d = Inr (r, d)"
begin

lemma settled_deliveries: "settled c d \<Longrightarrow> deliveries (handle c) n d = Inr d"
proof (induction n)
  case (Suc n)
  with replays [of c d] show ?case by auto
qed simp

text \<open>At-least-once delivery has the effect of exactly one delivery.\<close>

lemma exactly_once:
  "fresh c d \<Longrightarrow> handle c d = Inr (r, d') \<Longrightarrow> deliveries (handle c) (Suc n) d = Inr d'"
  using settles [of c d r d'] settled_deliveries [of c d' n] by simp

end

end
