(* ===== verification/Node_Deletes.thy ===== *)
theory Node_Deletes
  imports Snapshot_Events Command_Inbox
begin

text \<open>
  \<open>meeting_analysis/node_deletes.py\<close>: the logical delete of nodes requested by Java. The command
  carries seeds; the graph decides the set that is removed: every structural descendant of a seed
  and every MERGED source that points into the set, transitively. \<open>now\<close> is the clock; \<open>seen\<close> is
  the database that a session opened after a rollback sees (other transactions may have committed
  in between).
\<close>

section \<open>Command and result\<close>

record node_delete_command =
  dc_command_id :: uuid
  dc_requested_at :: time
  dc_requested_at_iso :: string
  dc_project_id :: string
  dc_node_ids :: "uuid list"
  dc_expected_graph_version :: int
  dc_requested_by_member_id :: string

record node_delete_result =
  dr_command_id :: uuid
  dr_status :: command_status
  dr_deleted_node_ids :: "uuid list"
  dr_graph_version :: "nat option"
  dr_changed :: bool
  dr_failure_code :: "string option"
  dr_event_id :: "uuid option"
  dr_artifact_id :: "uuid option"
  dr_replayed :: bool
  dr_node_versions :: "(uuid \<times> int) list"

definition deletable_state :: "graph_state \<Rightarrow> bool" where
  "deletable_state s \<longleftrightarrow> s = ACTIVE \<or> s = MERGED \<or> s = UNATTACHED"

definition delete_payload_hash :: "stdlib \<Rightarrow> node_delete_command \<Rightarrow> string" where
  "delete_payload_hash L c = canonical_hash L (JObj
     [(''commandSchemaVersion'', JInt 1),
      (''commandId'', JStr (UuidTxt (dc_command_id c))),
      (''commandType'', jstr ''NODE_DELETE_REQUESTED''),
      (''requestedAt'', jstr (dc_requested_at_iso c)),
      (''projectId'', jstr (dc_project_id c)),
      (''payload'', JObj
        [(''nodeIds'', JList (map (\<lambda>i. JStr (UuidTxt i)) (dc_node_ids c))),
         (''expectedGraphVersion'', JInt (dc_expected_graph_version c)),
         (''requestedByMemberId'', jstr (dc_requested_by_member_id c))])])"

definition delete_inbox_row ::
  "uuid \<Rightarrow> node_delete_command \<Rightarrow> string \<Rightarrow> command_status \<Rightarrow> meeting_analysis_command" where
  "delete_inbox_row i c payload_hash status =
     \<lparr>mc_id = i, mc_command_id = dc_command_id c, mc_command_type = NODE_DELETE_REQUESTED,
      mc_project_id = dc_project_id c, mc_meeting_id = None, mc_room_name = None,
      mc_generate_summary = None, mc_generate_nodes = None, mc_target_node_id = None,
      mc_expected_node_version = None, mc_expected_graph_version = Some (dc_expected_graph_version c),
      mc_requested_by_member_id = Some (dc_requested_by_member_id c), mc_requested_at = dc_requested_at c,
      mc_status = status, mc_payload_hash = payload_hash, mc_failure_code = None, mc_failure_message = None\<rparr>"

text \<open>The row of the inbox with a command id, and assignments to it.\<close>

definition command_rows :: "db \<Rightarrow> uuid \<Rightarrow> meeting_analysis_command list" where
  "command_rows d cid = filter (\<lambda>r. mc_command_id r = cid) (db_commands d)"

definition set_command :: "uuid \<Rightarrow> (meeting_analysis_command \<Rightarrow> meeting_analysis_command) \<Rightarrow> db \<Rightarrow> db" where
  "set_command cid f d = d\<lparr>db_commands := update_where (\<lambda>r. mc_command_id r = cid) f (db_commands d)\<rparr>"

definition add_command :: "(uuid \<Rightarrow> meeting_analysis_command) \<Rightarrow> db \<Rightarrow> meeting_analysis_command \<times> db" where
  "add_command f d = (let (i, d1) = uuid4 d in (f i, d1\<lparr>db_commands := db_commands d1 @ [f i]\<rparr>))"

definition command_event :: "db \<Rightarrow> uuid \<Rightarrow> string \<Rightarrow> string \<Rightarrow> outbox_event option" where
  "command_event d cid pid event_type =
     find (\<lambda>e. jget (ob_payload e) ''commandId'' = JStr (UuidTxt cid))
       (filter (\<lambda>e. ob_project_id e = pid \<and> ob_event_type e = event_type \<and> ob_schema_version e = ''3'') (db_outbox d))"

section \<open>Recorded outcomes\<close>

definition existing_delete_result ::
  "db \<Rightarrow> node_delete_command \<Rightarrow> meeting_analysis_command \<Rightarrow> node_delete_result result" where
  "existing_delete_result d c row =
     rbind (one_or_none (filter (\<lambda>a. sa_project_id a = dc_project_id c \<and> sa_command_id a = dc_command_id c)
              (db_artifacts d))) (\<lambda>artifact.
       let event_type = (if artifact \<noteq> None then ''PROJECT_GRAPH_CHANGED'' else ''NODE_DELETE_REJECTED'');
           event = command_event d (dc_command_id c) (dc_project_id c) event_type;
           deleted = (if mc_status row = CMD_COMPLETED
              then sort (List.map_filter gc_node_id (filter (\<lambda>g. gc_project_id g = dc_project_id c
                  \<and> gc_request_id g = Some (UuidTxt (dc_command_id c))
                  \<and> gc_change_type g \<in> set [''USER_DELETE_NODE'', ''USER_DELETE_MERGED'']) (db_change_events d)))
              else [])
       in Inr \<lparr>dr_command_id = dc_command_id c, dr_status = mc_status row, dr_deleted_node_ids = deleted,
               dr_graph_version = map_option sa_graph_version artifact, dr_changed = (artifact \<noteq> None),
               dr_failure_code = mc_failure_code row, dr_event_id = map_option ob_id event,
               dr_artifact_id = map_option sa_id artifact, dr_replayed = True, dr_node_versions = []\<rparr>)"

definition reject_delete ::
  "meeting_analysis_command \<Rightarrow> node_delete_command \<Rightarrow> string \<Rightarrow> string \<Rightarrow> bool \<Rightarrow> time \<Rightarrow> db
    \<Rightarrow> (node_delete_result \<times> db) result" where
  "reject_delete row c reason_code message materialized now d =
     (let fail = (\<lambda>r. r\<lparr>mc_status := CMD_FAILED, mc_failure_code := Some reason_code,
                       mc_failure_message := Some (take 2000 message)\<rparr>);
          d1 = set_command (dc_command_id c) fail d
      in rbind (stage_node_delete_rejected_v3 (fail row) reason_code now d1) (\<lambda>(e, d2).
         rbind (if materialized then release_unmutated_graph_state (dc_project_id c) d2 else Inr d2) (\<lambda>d3.
         Inr (\<lparr>dr_command_id = dc_command_id c, dr_status = CMD_FAILED, dr_deleted_node_ids = [],
                dr_graph_version = None, dr_changed = False, dr_failure_code = Some reason_code,
                dr_event_id = Some (ob_id e), dr_artifact_id = None, dr_replayed = False,
                dr_node_versions = []\<rparr>, d3))))"

text \<open>The check of a recorded command: same type and same payload.\<close>

definition command_conflict :: "command_type \<Rightarrow> string \<Rightarrow> meeting_analysis_command \<Rightarrow> bool" where
  "command_conflict t payload_hash row \<longleftrightarrow> mc_command_type row \<noteq> t \<or> mc_payload_hash row \<noteq> payload_hash"

definition record_delete_failure ::
  "stdlib \<Rightarrow> node_delete_command \<Rightarrow> string \<Rightarrow> string \<Rightarrow> db \<Rightarrow> (node_delete_result \<times> db) result" where
  "record_delete_failure L c code message d =
     (let h = delete_payload_hash L c in
      rbind (one_or_none (command_rows d (dc_command_id c))) (\<lambda>existing.
        case existing of
          Some row \<Rightarrow>
            rguard (command_conflict NODE_DELETE_REQUESTED h row) CommandPayloadConflictError
            (rbind (existing_delete_result d c row) (\<lambda>r. Inr (r, d)))
        | None \<Rightarrow>
            (let (row, d1) = add_command (\<lambda>i. (delete_inbox_row i c h CMD_FAILED)
                   \<lparr>mc_failure_code := Some code, mc_failure_message := Some (take 2000 message)\<rparr>) d
             in Inr (\<lparr>dr_command_id = dc_command_id c, dr_status = CMD_FAILED, dr_deleted_node_ids = [],
                      dr_graph_version = None, dr_changed = False, dr_failure_code = Some code,
                      dr_event_id = None, dr_artifact_id = None, dr_replayed = False,
                      dr_node_versions = []\<rparr>, d1))))"

section \<open>The delete closure\<close>

text \<open>The live nodes that hang on the frontier, by parent or by merge.\<close>

definition hangs_on :: "db \<Rightarrow> string \<Rightarrow> uuid \<Rightarrow> node \<Rightarrow> bool" where
  "hangs_on d pid p n \<longleftrightarrow> nd_project_id n = pid \<and> nd_deleted_at n = None \<and> deletable_state (nd_graph_state n)
     \<and> (nd_parent_id n = Some p \<or> nd_merged_into_node_id n = Some p)"

definition frontier_rows :: "db \<Rightarrow> string \<Rightarrow> uuid list \<Rightarrow> node list" where
  "frontier_rows d pid frontier =
     sort_key nd_id (filter (\<lambda>n. \<exists>p \<in> set frontier. hangs_on d pid p n) (db_nodes d))"

text \<open>One round: the rows that are not resolved yet join the resolved ones and the next frontier.\<close>

fun absorb_rows :: "node list \<Rightarrow> uuid list \<Rightarrow> uuid list \<Rightarrow> uuid list \<times> uuid list" where
  "absorb_rows [] resolved frontier = (resolved, frontier)"
| "absorb_rows (n # ns) resolved frontier =
     (if nd_id n \<in> set resolved then absorb_rows ns resolved frontier
      else absorb_rows ns (resolved @ [nd_id n]) (frontier @ [nd_id n]))"

lemma absorb_rows_set:
  "absorb_rows ns res fr = (res', fr') \<Longrightarrow>
   set res' = set res \<union> nd_id ` set ns \<and> set fr' = set fr \<union> (nd_id ` set ns - set res)"
  by (induction ns arbitrary: res fr) (auto split: if_splits)

function closure_loop :: "db \<Rightarrow> string \<Rightarrow> uuid list \<Rightarrow> uuid list \<Rightarrow> uuid list" where
  "closure_loop d pid resolved frontier =
     (if frontier = [] then resolved
      else case absorb_rows (frontier_rows d pid frontier) resolved [] of
        (resolved', frontier') \<Rightarrow> closure_loop d pid resolved' frontier')"
  by pat_completeness auto

termination
proof (relation "measure (\<lambda>(d, pid, resolved, frontier).
    2 * card (set (map nd_id (db_nodes d)) - set resolved) + (if frontier = [] then 0 else 1))", goal_cases)
  case 1
  then show ?case by simp
next
  case (2 d pid resolved frontier resolved' frontier')
  let ?A = "set (map nd_id (db_nodes d))"
  have abs: "absorb_rows (frontier_rows d pid frontier) resolved [] = (resolved', frontier')" using 2(2) by simp
  have rows: "nd_id ` set (frontier_rows d pid frontier) \<subseteq> ?A" by (auto simp: frontier_rows_def)
  note sets = absorb_rows_set [OF abs]
  show ?case
  proof (cases "frontier' = []")
    case True
    have "card (?A - set resolved') \<le> card (?A - set resolved)" using sets by (intro card_mono) auto
    with True 2(1) show ?thesis by simp
  next
    case False
    then obtain i where "i \<in> set frontier'" by (cases frontier') auto
    with sets rows have "i \<in> ?A - set resolved" "i \<notin> ?A - set resolved'" by auto
    moreover have "?A - set resolved' \<subseteq> ?A - set resolved" using sets by auto
    ultimately have "?A - set resolved' \<subset> ?A - set resolved" by blast
    then have "card (?A - set resolved') < card (?A - set resolved)" by (intro psubset_card_mono) auto
    with 2(1) show ?thesis by simp
  qed
qed

declare closure_loop.simps [simp del]

definition effective_delete_closure :: "db \<Rightarrow> string \<Rightarrow> uuid list \<Rightarrow> uuid list" where
  "effective_delete_closure d pid seeds = closure_loop d pid [] seeds"

text \<open>\<open>_assert_no_dangling_references\<close>.\<close>

definition dangling :: "db \<Rightarrow> string \<Rightarrow> uuid list \<Rightarrow> uuid list" where
  "dangling d pid delete_ids = map nd_id (filter (\<lambda>n. nd_id n \<notin> set delete_ids
     \<and> (\<exists>p \<in> set delete_ids. hangs_on d pid p n)) (db_nodes d))"

definition assert_no_dangling_references :: "db \<Rightarrow> string \<Rightarrow> uuid list \<Rightarrow> unit result" where
  "assert_no_dangling_references d pid delete_ids =
     (if dangling d pid delete_ids = [] then Inr ()
      else Inl (GraphIntegrityError ''delete closure left a live Node referencing a deleted Node''))"

section \<open>Deleting\<close>

definition expire_relations :: "string \<Rightarrow> uuid list \<Rightarrow> time \<Rightarrow> db \<Rightarrow> db" where
  "expire_relations pid delete_ids now d = d\<lparr>db_relations :=
     update_where (\<lambda>r. rl_project_id r = pid \<and> (rl_from_node_id r \<in> set delete_ids \<or> rl_to_node_id r \<in> set delete_ids)
         \<and> rl_status r = REL_CONFIRMED \<and> rl_valid_to r = None)
       (\<lambda>r. r\<lparr>rl_status := REL_REJECTED, rl_valid_to := Some now\<rparr>) (db_relations d)\<rparr>"

definition bury :: "string \<Rightarrow> time \<Rightarrow> node \<Rightarrow> node" where
  "bury member now n = n\<lparr>nd_parent_id := None, nd_merged_into_node_id := None, nd_graph_state := DELETED,
     nd_deleted_at := Some now, nd_deleted_by := Some member, nd_last_actor_type := ''USER''\<rparr>"

definition delete_revision_args :: "node \<Rightarrow> string \<Rightarrow> evidence_spec list \<Rightarrow> revision_args" where
  "delete_revision_args n member specs =
     \<lparr>ra_title = nd_title n, ra_content = nd_content n, ra_node_type = nd_node_type n,
      ra_category = nd_category n, ra_due_date = nd_due_date n, ra_created_by_type = ''USER'',
      ra_created_by_id = Some member, ra_generation_run_id = None, ra_evidence_specs = specs,
      ra_requires_evidence = (specs \<noteq> []), ra_legacy_imported = False\<rparr>"

definition logically_delete :: "stdlib \<Rightarrow> node_delete_command \<Rightarrow> time \<Rightarrow> uuid \<Rightarrow> db \<Rightarrow> db result" where
  "logically_delete L c now i d =
     (case node_by_id d i of
        None \<Rightarrow> Inl KeyError
      | Some n \<Rightarrow>
         (let before = JObj [(''nodeId'', JStr (UuidTxt i)),
                (''graphState'', jstr (graph_state_value (nd_graph_state n))), (''version'', JInt (nd_version n)),
                (''parentNodeId'', jopt (\<lambda>x. JStr (UuidTxt x)) (nd_parent_id n)),
                (''mergedIntoNodeId'', jopt (\<lambda>x. JStr (UuidTxt x)) (nd_merged_into_node_id n))];
              specs = current_revision_evidence_specs d n;
              n1 = (if nd_current_revision_id n = None then n\<lparr>nd_version := nd_version n + 1\<rparr> else n);
              d1 = (if nd_current_revision_id n = None then set_node i (\<lambda>m. m\<lparr>nd_version := nd_version m + 1\<rparr>) d else d)
          in rbind (create_node_revision L n1 (delete_revision_args n (dc_requested_by_member_id c) specs) now d1) (\<lambda>(r, d2).
             let d3 = mark_node_embedding_stale i (set_node i (bury (dc_requested_by_member_id c) now) d2)
             in Inr (d3\<lparr>db_change_events := db_change_events d3 @
               [\<lparr>gc_project_id = dc_project_id c, gc_request_id = Some (UuidTxt (dc_command_id c)),
                 gc_node_id = Some i, gc_item_id = Some (nd_source_item_id n),
                 gc_change_type = (if nd_graph_state n = MERGED then ''USER_DELETE_MERGED'' else ''USER_DELETE_NODE''),
                 gc_actor_type = ''USER'', gc_before = before,
                 gc_after = JObj [(''nodeId'', JStr (UuidTxt i)), (''graphState'', jstr ''DELETED''),
                   (''version'', JInt (rv_version r)), (''parentNodeId'', JNull), (''mergedIntoNodeId'', JNull)],
                 gc_detail = JObj [(''actorId'', jstr (dc_requested_by_member_id c)),
                   (''commandId'', JStr (UuidTxt (dc_command_id c))), (''sourceType'', jstr ''NODE_DELETE''),
                   (''representativeNodeId'', jopt (\<lambda>x. JStr (UuidTxt x)) (nd_merged_into_node_id n))]\<rparr>]\<rparr>))))"

fun delete_all :: "stdlib \<Rightarrow> node_delete_command \<Rightarrow> time \<Rightarrow> uuid list \<Rightarrow> db \<Rightarrow> db result" where
  "delete_all L c now [] d = Inr d"
| "delete_all L c now (i # is) d = rbind (logically_delete L c now i d) (delete_all L c now is)"

text \<open>\<open>", ".join(str(i) for i in ids)\<close>.\<close>

fun join_ids :: "stdlib \<Rightarrow> uuid list \<Rightarrow> string" where
  "join_ids L [] = []"
| "join_ids L [i] = uuid_str L i"
| "join_ids L (i # j # is) = uuid_str L i @ '', '' @ join_ids L (j # is)"

definition seed_missing :: "db \<Rightarrow> uuid \<Rightarrow> bool" where
  "seed_missing d i = (case node_by_id d i of None \<Rightarrow> True
     | Some n \<Rightarrow> nd_deleted_at n \<noteq> None \<or> \<not> deletable_state (nd_graph_state n))"

definition seed_foreign :: "db \<Rightarrow> string \<Rightarrow> uuid \<Rightarrow> bool" where
  "seed_foreign d pid i = (case node_by_id d i of None \<Rightarrow> False | Some n \<Rightarrow> nd_project_id n \<noteq> pid)"

text \<open>The accepted command: the whole closure is removed, then one graph change is staged.\<close>

definition accept_delete ::
  "stdlib \<Rightarrow> meeting_analysis_command \<Rightarrow> node_delete_command \<Rightarrow> time \<Rightarrow> db \<Rightarrow> (node_delete_result \<times> db) result" where
  "accept_delete L row c now d =
     (let pid = dc_project_id c;
          closure = effective_delete_closure d pid (remdups (dc_node_ids c));
          delete_ids = sort (remdups (closure @ dc_node_ids c))
      in rbind (assert_no_dangling_references d pid delete_ids) (\<lambda>_.
         rbind (delete_all L c now delete_ids (expire_relations pid delete_ids now d)) (\<lambda>d1.
         rbind (assert_no_dangling_references d1 pid delete_ids) (\<lambda>_.
         rbind (stage_project_graph_changed_v3 L row None ''NODE_DELETE'' now d1) (\<lambda>((e, a, v), d2).
         let d3 = set_command (dc_command_id c) (\<lambda>r. r\<lparr>mc_status := CMD_COMPLETED, mc_failure_code := None,
                     mc_failure_message := None\<rparr>) d2
         in Inr (\<lparr>dr_command_id = dc_command_id c, dr_status = CMD_COMPLETED, dr_deleted_node_ids = delete_ids,
                  dr_graph_version = Some v, dr_changed = True, dr_failure_code = None,
                  dr_event_id = Some (ob_id e), dr_artifact_id = Some (sa_id a), dr_replayed = False,
                  dr_node_versions = List.map_filter (\<lambda>i. map_option (\<lambda>n. (i, nd_version n)) (node_by_id d3 i)) delete_ids\<rparr>,
                 d3))))))"

text \<open>The decision once the project is locked at version \<open>current\<close>.\<close>

definition decide_delete ::
  "stdlib \<Rightarrow> meeting_analysis_command \<Rightarrow> node_delete_command \<Rightarrow> nat \<Rightarrow> bool \<Rightarrow> time \<Rightarrow> db
    \<Rightarrow> (node_delete_result \<times> db) result" where
  "decide_delete L row c current materialized now d =
     (let missing = filter (seed_missing d) (dc_node_ids c);
          foreign = filter (seed_foreign d (dc_project_id c)) (dc_node_ids c)
      in if int current \<noteq> dc_expected_graph_version c
         then reject_delete row c ''GRAPH_VERSION_CONFLICT''
                (''expected graph version '' @ int_str (dc_expected_graph_version c)
                   @ '' but the project is at '' @ int_str (int current)) materialized now d
         else if missing \<noteq> []
         then reject_delete row c ''NODE_NOT_FOUND''
                (''seed Node is missing or already deleted: '' @ join_ids L missing) materialized now d
         else if foreign \<noteq> []
         then reject_delete row c ''NODE_PROJECT_MISMATCH''
                (''seed Node belongs to another project: '' @ join_ids L foreign) materialized now d
         else accept_delete L row c now d)"

text \<open>The first transaction of \<open>process_node_delete\<close>.\<close>

definition delete_attempt :: "stdlib \<Rightarrow> node_delete_command \<Rightarrow> time \<Rightarrow> db \<Rightarrow> (node_delete_result \<times> db) result" where
  "delete_attempt L c now d =
     (let h = delete_payload_hash L c in
      rbind (one_or_none (command_rows d (dc_command_id c))) (\<lambda>existing.
        case existing of
          Some row \<Rightarrow>
            rguard (command_conflict NODE_DELETE_REQUESTED h row) CommandPayloadConflictError
            (if mc_status row = CMD_COMPLETED \<or> mc_status row = CMD_FAILED
             then rbind (existing_delete_result d c row) (\<lambda>r. Inr (r, d))
             else Inl (RuntimeError ''Node delete command is already processing''))
        | None \<Rightarrow>
            (let (row, d1) = add_command (\<lambda>i. delete_inbox_row i c h CMD_PROCESSING) d in
             rbind (lock_project_graph_state (dc_project_id c) now d1) (\<lambda>((current, materialized), d2).
             decide_delete L row c current materialized now d2))))"

text \<open>The whole handler. After a rollback for a snapshot that is too large the failure is recorded; after an
  \<open>IntegrityError\<close> a command row that another transaction has committed meanwhile is served, any
  other \<open>IntegrityError\<close> is raised.\<close>

definition process_node_delete ::
  "stdlib \<Rightarrow> node_delete_command \<Rightarrow> time \<Rightarrow> db \<Rightarrow> db \<Rightarrow> (node_delete_result \<times> db) result" where
  "process_node_delete L c now d seen =
     (case delete_attempt L c now d of
        Inl (GraphSnapshotTooLargeError m) \<Rightarrow> record_delete_failure L c ''GRAPH_SNAPSHOT_TOO_LARGE'' m seen
      | Inl IntegrityError \<Rightarrow>
          rbind (one_or_none (command_rows seen (dc_command_id c))) (\<lambda>concurrent.
            if concurrent \<noteq> None then delete_attempt L c now seen else Inl IntegrityError)
      | r \<Rightarrow> r)"

section \<open>The closure is the reachable set\<close>

definition hang_edges :: "db \<Rightarrow> string \<Rightarrow> (uuid \<times> uuid) set" where
  "hang_edges d pid = {(p, nd_id n) | p n. n \<in> set (db_nodes d) \<and> hangs_on d pid p n}"

lemma frontier_rows_ids: "nd_id ` set (frontier_rows d pid fr) = hang_edges d pid `` set fr"
  by (auto simp: frontier_rows_def hang_edges_def)

lemma closure_loop_correct:
  "set res \<subseteq> (hang_edges d pid)\<^sup>+ `` S \<Longrightarrow> set fr \<subseteq> set res \<union> S \<Longrightarrow>
   hang_edges d pid `` ((set res \<union> S) - set fr) \<subseteq> set res \<Longrightarrow>
   set (closure_loop d pid res fr) = (hang_edges d pid)\<^sup>+ `` S"
proof (induction d pid res fr rule: closure_loop.induct)
  case (1 d pid res fr)
  let ?E = "hang_edges d pid"
  show ?case
  proof (cases "fr = []")
    case True
    have "y \<in> set res" if "(x, y) \<in> ?E\<^sup>+" "x \<in> S" for x y
      using that(1)
    proof (induction rule: trancl_induct)
      case (base y)
      with 1(4) True that(2) show ?case by auto
    next
      case (step y z)
      with 1(4) True show ?case by auto
    qed
    moreover have "closure_loop d pid res fr = res" using True by (simp add: closure_loop.simps)
    ultimately show ?thesis using 1(2) by auto
  next
    case False
    obtain res' fr' where abs: "absorb_rows (frontier_rows d pid fr) res [] = (res', fr')" by fastforce
    have res': "set res' = set res \<union> ?E `` set fr" and fr': "set fr' = ?E `` set fr - set res"
      using absorb_rows_set [OF abs] frontier_rows_ids [of d pid fr] by auto
    have "?E `` set fr \<subseteq> ?E\<^sup>+ `` S"
    proof
      fix y assume "y \<in> ?E `` set fr"
      then obtain x where x: "x \<in> set fr" "(x, y) \<in> ?E" by blast
      from x(1) 1(2,3) consider "x \<in> S" | z where "z \<in> S" "(z, x) \<in> ?E\<^sup>+" by blast
      then show "y \<in> ?E\<^sup>+ `` S" using x(2) by cases (auto intro: trancl_into_trancl)
    qed
    then have "set res' \<subseteq> ?E\<^sup>+ `` S" using res' 1(2) by auto
    moreover have "set fr' \<subseteq> set res' \<union> S" using res' fr' by auto
    moreover have "?E `` ((set res' \<union> S) - set fr') \<subseteq> set res'"
    proof -
      have "(set res' \<union> S) - set fr' \<subseteq> ((set res \<union> S) - set fr) \<union> set fr" using res' fr' by blast
      then have "?E `` ((set res' \<union> S) - set fr') \<subseteq> ?E `` ((set res \<union> S) - set fr) \<union> ?E `` set fr" by blast
      with 1(4) res' show ?thesis by blast
    qed
    ultimately show ?thesis
      using 1(1) [OF False abs [symmetric]] False abs
      by (simp add: closure_loop.simps [of d pid res fr])
  qed
qed

lemma effective_delete_closure_set:
  "set (effective_delete_closure d pid seeds) = (hang_edges d pid)\<^sup>+ `` set seeds"
  unfolding effective_delete_closure_def by (rule closure_loop_correct) auto

text \<open>C4. The delete closure terminates and is exact: it holds the nodes that hang, by parent or by merge
  and over any number of steps, on a seed, and no other node.\<close>

theorem delete_closure_exact:
  "set (effective_delete_closure d pid seeds) =
     {j. \<exists>i \<in> set seeds. (i, j) \<in> (hang_edges d pid)\<^sup>+}"
  by (auto simp: effective_delete_closure_set)

section \<open>Lemmas on the delete steps\<close>

text \<open>The tables that a revision leaves alone.\<close>

definition side_frame :: "db \<Rightarrow> db \<Rightarrow> bool" where
  "side_frame d d' \<longleftrightarrow> db_relations d' = db_relations d \<and> db_graph_states d' = db_graph_states d
     \<and> db_commands d' = db_commands d \<and> db_artifacts d' = db_artifacts d \<and> db_outbox d' = db_outbox d
     \<and> db_change_events d' = db_change_events d \<and> db_merge_operations d' = db_merge_operations d
     \<and> db_tasks d' = db_tasks d \<and> db_recordings d' = db_recordings d \<and> db_generation_runs d' = db_generation_runs d"

lemma side_frame_refl [simp]: "side_frame d d"
  by (simp add: side_frame_def)

lemma side_frame_trans: "side_frame d d1 \<Longrightarrow> side_frame d1 d2 \<Longrightarrow> side_frame d d2"
  by (simp add: side_frame_def)

lemma get_or_create_evidence_frame:
  "get_or_create_evidence L pid s now d = Inr (e, d') \<Longrightarrow> side_frame d d' \<and> db_nodes d' = db_nodes d"
  by (auto simp: get_or_create_evidence_def Let_def rbind_Inr_iff uuid4_def side_frame_def split: option.splits)

lemma upsert_node_evidence_frame: "side_frame d (snd (upsert_node_evidence L n s q a b t m d))"
  by (auto simp: upsert_node_evidence_def uuid4_def Let_def side_frame_def)

lemma link_evidence_frame:
  assumes "link_evidence L pid nid rid now s d = Inr d'"
  shows "side_frame d d' \<and> db_nodes d' = db_nodes d"
proof -
  from assms obtain e d1 where e: "get_or_create_evidence L pid s now d = Inr (e, d1)"
    by (auto simp: link_evidence_def rbind_Inr_iff)
  with assms obtain l g q a b t m where
    d': "d' = snd (upsert_node_evidence L nid g q a b t m (d1\<lparr>db_revision_evidence := l\<rparr>))"
    by (simp add: link_evidence_def Let_def split: if_splits) metis
  have "side_frame d1 (d1\<lparr>db_revision_evidence := l\<rparr>)" by (simp add: side_frame_def)
  with d' have "side_frame d1 d'" "db_nodes d' = db_nodes d1"
    using side_frame_trans upsert_node_evidence_frame by (blast, simp add: upsert_node_evidence_db)
  with get_or_create_evidence_frame [OF e] show ?thesis by (auto intro: side_frame_trans)
qed

lemma link_all_evidence_frame:
  "link_all_evidence L pid nid rid now specs d = Inr d' \<Longrightarrow> side_frame d d' \<and> db_nodes d' = db_nodes d"
proof (induction specs arbitrary: d)
  case (Cons s specs)
  then obtain d1 where "link_evidence L pid nid rid now s d = Inr d1"
      "link_all_evidence L pid nid rid now specs d1 = Inr d'" by (auto simp: rbind_Inr_iff)
  with link_evidence_frame Cons.IH show ?case by (metis side_frame_trans)
qed auto

text \<open>A revision changes the row of its node and no other node.\<close>

lemma create_node_revision_frame:
  assumes "create_node_revision L n a now d = Inr (r, d')"
  shows "side_frame d d'
    \<and> node_by_id d' j = (if j = nd_id n then map_option (\<lambda>m. m\<lparr>nd_title := strip (ra_title a),
         nd_content := ra_content a, nd_node_type := ra_node_type a, nd_category := ra_category a,
         nd_due_date := ra_due_date a, nd_version := rv_version r, nd_current_revision_id := Some (rv_id r),
         nd_last_actor_type := ra_created_by_type a, nd_updated_at := now\<rparr>) (node_by_id d j)
       else node_by_id d j)
    \<and> (nodes_unique d \<longrightarrow> nodes_unique d')
    \<and> rv_version r = nd_version n + (if nd_current_revision_id n = None then 0 else 1)
    \<and> strip (ra_title a) \<noteq> []"
proof -
  let ?f = "\<lambda>m. m\<lparr>nd_title := strip (ra_title a),
         nd_content := ra_content a, nd_node_type := ra_node_type a, nd_category := ra_category a,
         nd_due_date := ra_due_date a, nd_version := rv_version r, nd_current_revision_id := Some (rv_id r),
         nd_last_actor_type := ra_created_by_type a, nd_updated_at := now\<rparr>"
  from assms obtain d2 where l: "link_all_evidence L (nd_project_id n) (nd_id n) (rv_id r) now (ra_evidence_specs a)
          (d\<lparr>db_next_uuid := Suc (db_next_uuid d), db_revisions := db_revisions d @ [r]\<rparr>) = Inr d2"
    and d': "d' = set_node (nd_id n) ?f d2"
    and r: "rv_version r = nd_version n + (if nd_current_revision_id n = None then 0 else 1)" "strip (ra_title a) \<noteq> []"
    by (cases "nd_current_revision_id n")
      (auto simp: create_node_revision_def Let_def uuid4_def rguard_Inr_iff rbind_Inr_iff)
  have "side_frame d d2" "db_nodes d2 = db_nodes d"
    using link_all_evidence_frame [OF l] by (auto simp: side_frame_def)
  moreover from this have "node_by_id d2 j = node_by_id d j" by (simp add: node_by_id_def)
  ultimately show ?thesis using r
    by (auto simp: d' node_by_id_set_node) (auto simp: side_frame_def set_node_def)
qed

text \<open>The row of a deleted node, from the row it had.\<close>

definition buried :: "string \<Rightarrow> time \<Rightarrow> node \<Rightarrow> node \<Rightarrow> bool" where
  "buried member now n n' \<longleftrightarrow> nd_id n' = nd_id n \<and> nd_project_id n' = nd_project_id n
     \<and> nd_version n' = nd_version n + 1 \<and> nd_graph_state n' = DELETED \<and> nd_deleted_at n' = Some now
     \<and> nd_deleted_by n' = Some member \<and> nd_parent_id n' = None \<and> nd_merged_into_node_id n' = None
     \<and> nd_content n' = nd_content n \<and> nd_node_type n' = nd_node_type n"

lemma bury_id [simp]: "nd_id (bury m now n) = nd_id n"
  by (simp add: bury_def)

definition delete_change :: "node_delete_command \<Rightarrow> uuid \<Rightarrow> graph_change_event \<Rightarrow> bool" where
  "delete_change c i g \<longleftrightarrow> gc_project_id g = dc_project_id c \<and> gc_request_id g = Some (UuidTxt (dc_command_id c))
     \<and> gc_node_id g = Some i \<and> gc_change_type g \<in> {''USER_DELETE_NODE'', ''USER_DELETE_MERGED''}"

lemma mark_stale_change_events [simp]:
  "db_change_events (mark_node_embedding_stale i d) = db_change_events d"
  by (simp add: mark_node_embedding_stale_def)

lemma logically_delete_ok:
  assumes "nodes_unique d" "logically_delete L c now i d = Inr d'"
  shows "\<exists>n n' g. node_by_id d i = Some n \<and> buried (dc_requested_by_member_id c) now n n'
    \<and> (\<forall>j. node_by_id d' j = (if j = i then Some n' else node_by_id d j)) \<and> nodes_unique d'
    \<and> db_change_events d' = db_change_events d @ [g] \<and> delete_change c i g
    \<and> side_frame d (d'\<lparr>db_change_events := db_change_events d\<rparr>)"
proof -
  from assms(2) obtain n where n: "node_by_id d i = Some n" by (auto simp: logically_delete_def split: option.splits)
  then have nid: "nd_id n = i" by (auto dest: node_by_idD)
  define n1 where "n1 = (if nd_current_revision_id n = None then n\<lparr>nd_version := nd_version n + 1\<rparr> else n)"
  define d1 where "d1 = (if nd_current_revision_id n = None then set_node i (\<lambda>m. m\<lparr>nd_version := nd_version m + 1\<rparr>) d else d)"
  let ?a = "delete_revision_args n (dc_requested_by_member_id c) (current_revision_evidence_specs d n)"
  have n1: "nd_id n1 = i" and d1: "side_frame d d1" "nodes_unique d1" "db_change_events d1 = db_change_events d"
    "node_by_id d1 j = (if j = i then Some n1 else node_by_id d j)" for j
    using n nid assms(1) by (auto simp: n1_def d1_def node_by_id_set_node) (auto simp: side_frame_def set_node_def)
  from assms(2) n obtain r d2 g where r: "create_node_revision L n1 ?a now d1 = Inr (r, d2)"
    and d': "d' = (mark_node_embedding_stale i (set_node i (bury (dc_requested_by_member_id c) now) d2))
       \<lparr>db_change_events := db_change_events d2 @ [g]\<rparr>" and g: "delete_change c i g"
    by (auto simp: logically_delete_def n1_def [symmetric] d1_def [symmetric] Let_def rbind_Inr_iff delete_change_def)
  note fr = create_node_revision_frame [OF r]
  let ?f = "\<lambda>m. m\<lparr>nd_title := strip (ra_title ?a), nd_content := ra_content ?a, nd_node_type := ra_node_type ?a,
       nd_category := ra_category ?a, nd_due_date := ra_due_date ?a, nd_version := rv_version r,
       nd_current_revision_id := Some (rv_id r), nd_last_actor_type := ra_created_by_type ?a, nd_updated_at := now\<rparr>"
  have nodes2: "node_by_id d2 j = (if j = i then Some (?f n1) else node_by_id d j)" for j
    using fr [of j] d1(4) [of j] n1 by auto
  have "node_by_id d' j = node_by_id (set_node i (bury (dc_requested_by_member_id c) now) d2) j" for j
    by (simp add: node_by_id_def d')
  then have nodes: "node_by_id d' j = (if j = i then Some (bury (dc_requested_by_member_id c) now (?f n1)) else node_by_id d j)" for j
    using nodes2 by (simp add: node_by_id_set_node)
  have "side_frame d d2" using fr [of 0] d1(1) side_frame_trans by blast
  then have "side_frame d (d'\<lparr>db_change_events := db_change_events d\<rparr>)" "db_change_events d' = db_change_events d @ [g]"
    by (simp_all add: side_frame_def d' mark_node_embedding_stale_def set_node_def)
  moreover have "nodes_unique d'" using fr [of 0] d1(2) by (simp add: d')
  moreover have "buried (dc_requested_by_member_id c) now n (bury (dc_requested_by_member_id c) now (?f n1))"
    using fr [of 0] by (auto simp: buried_def bury_def n1_def delete_revision_args_def)
  ultimately show ?thesis using n nodes g by blast
qed

lemma delete_all_ok:
  "delete_all L c now is d = Inr d' \<Longrightarrow> nodes_unique d \<Longrightarrow> distinct is \<Longrightarrow>
   (\<forall>i \<in> set is. \<exists>n n'. node_by_id d i = Some n \<and> node_by_id d' i = Some n'
      \<and> buried (dc_requested_by_member_id c) now n n')
   \<and> (\<forall>j. j \<notin> set is \<longrightarrow> node_by_id d' j = node_by_id d j) \<and> nodes_unique d'
   \<and> (\<exists>gs. db_change_events d' = db_change_events d @ gs \<and> list_all2 (delete_change c) is gs)
   \<and> side_frame d (d'\<lparr>db_change_events := db_change_events d\<rparr>)"
proof (induction "is" arbitrary: d)
  case Nil
  then show ?case by (auto simp: side_frame_def)
next
  case (Cons i "is")
  from Cons.prems(1) obtain d1 where d1: "logically_delete L c now i d = Inr d1" "delete_all L c now is d1 = Inr d'"
    by (auto simp: rbind_Inr_iff)
  from logically_delete_ok [OF Cons.prems(2) d1(1)] obtain n n' g where
    n: "node_by_id d i = Some n" "buried (dc_requested_by_member_id c) now n n'" "nodes_unique d1"
      "\<And>j. node_by_id d1 j = (if j = i then Some n' else node_by_id d j)"
      "db_change_events d1 = db_change_events d @ [g]" "delete_change c i g"
      "side_frame d (d1\<lparr>db_change_events := db_change_events d\<rparr>)" by blast
  have "distinct is" "i \<notin> set is" using Cons.prems(3) by auto
  note IH = Cons.IH [OF d1(2) n(3) this(1)]
  from IH obtain gs where gs: "db_change_events d' = db_change_events d1 @ gs" "list_all2 (delete_change c) is gs"
    by blast
  have "node_by_id d' i = Some n'" using IH n(4) [of i] \<open>i \<notin> set is\<close> by auto
  moreover have "\<exists>m m'. node_by_id d j = Some m \<and> node_by_id d' j = Some m' \<and> buried (dc_requested_by_member_id c) now m m'"
    if "j \<in> set is" for j
  proof -
    have "node_by_id d1 j = node_by_id d j" using that n(4) [of j] \<open>i \<notin> set is\<close> by auto
    with IH that show ?thesis by metis
  qed
  moreover have "side_frame d (d'\<lparr>db_change_events := db_change_events d\<rparr>)"
    using IH n(7) by (simp add: side_frame_def)
  moreover have "\<exists>gs. db_change_events d' = db_change_events d @ gs \<and> list_all2 (delete_change c) (i # is) gs"
    using gs n(5,6) by (intro exI [of _ "g # gs"]) simp
  ultimately show ?case using IH n by auto
qed

section \<open>An accepted delete\<close>

definition deleted_set :: "db \<Rightarrow> node_delete_command \<Rightarrow> uuid set" where
  "deleted_set d c = (hang_edges d (dc_project_id c))\<^sup>* `` set (dc_node_ids c)"

lemma delete_ids_set:
  "set (sort (remdups (effective_delete_closure d (dc_project_id c) (remdups (dc_node_ids c)) @ dc_node_ids c))) =
     deleted_set d c"
  by (auto simp: deleted_set_def effective_delete_closure_set rtrancl_eq_or_trancl Image_iff)

lemma set_command_tables [simp]:
  "db_nodes (set_command i f d) = db_nodes d" "db_graph_states (set_command i f d) = db_graph_states d"
  "db_relations (set_command i f d) = db_relations d" "db_artifacts (set_command i f d) = db_artifacts d"
  "db_outbox (set_command i f d) = db_outbox d" "db_change_events (set_command i f d) = db_change_events d"
  by (simp_all add: set_command_def)

lemma hangs_on_db: "hangs_on d pid p n = hangs_on d' pid p n"
  by (simp add: hangs_on_def)

lemma accept_delete_ok:
  assumes "nodes_unique d" "graph_states_unique d" "accept_delete L row c now d = Inr (r, d')"
    and "mc_project_id row = dc_project_id c"
  shows "set (dr_deleted_node_ids r) = deleted_set d c \<and> sorted (dr_deleted_node_ids r) \<and> distinct (dr_deleted_node_ids r)
    \<and> (\<forall>i \<in> deleted_set d c. \<exists>n n'. node_by_id d i = Some n \<and> node_by_id d' i = Some n'
         \<and> buried (dc_requested_by_member_id c) now n n')
    \<and> (\<forall>i. i \<notin> deleted_set d c \<longrightarrow> node_by_id d' i = node_by_id d i)
    \<and> (\<forall>n \<in> set (db_nodes d'). \<forall>p \<in> deleted_set d c. \<not> hangs_on d' (dc_project_id c) p n)
    \<and> graph_version_of d' (dc_project_id c) = graph_version_of d (dc_project_id c) + 1
    \<and> dr_graph_version r = Some (graph_version_of d (dc_project_id c) + 1)
    \<and> db_relations d' = db_relations (expire_relations (dc_project_id c) (dr_deleted_node_ids r) now d)
    \<and> dr_status r = CMD_COMPLETED
    \<and> (\<exists>gs. db_change_events d' = db_change_events d @ gs \<and> list_all2 (delete_change c) (dr_deleted_node_ids r) gs)
    \<and> (\<exists>a e. db_artifacts d' = db_artifacts d @ [a] \<and> db_outbox d' = db_outbox d @ [e]
         \<and> dr_artifact_id r = Some (sa_id a) \<and> dr_event_id r = Some (ob_id e) \<and> dr_graph_version r = Some (sa_graph_version a)
         \<and> sa_command_id a = mc_command_id row \<and> sa_project_id a = dc_project_id c
         \<and> ob_event_type e = ''PROJECT_GRAPH_CHANGED'' \<and> ob_project_id e = dc_project_id c \<and> ob_schema_version e = ''3''
         \<and> jget (ob_payload e) ''commandId'' = JStr (UuidTxt (mc_command_id row)))
    \<and> db_commands d' = update_where (\<lambda>r. mc_command_id r = dc_command_id c) (\<lambda>r. r\<lparr>mc_status := CMD_COMPLETED,
         mc_failure_code := None, mc_failure_message := None\<rparr>) (db_commands d)"
proof -
  let ?pid = "dc_project_id c" and ?x = "\<lambda>ids. expire_relations (dc_project_id c) ids now d"
  define ids where "ids = sort (remdups (effective_delete_closure d ?pid (remdups (dc_node_ids c)) @ dc_node_ids c))"
  obtain d1 e a v d2 where del: "delete_all L c now ids (?x ids) = Inr d1"
    and nd: "assert_no_dangling_references d1 ?pid ids = Inr ()"
    and st: "stage_project_graph_changed_v3 L row None ''NODE_DELETE'' now d1 = Inr ((e, a, v), d2)"
    and d': "d' = set_command (dc_command_id c) (\<lambda>r. r\<lparr>mc_status := CMD_COMPLETED, mc_failure_code := None,
                     mc_failure_message := None\<rparr>) d2"
    and r: "dr_deleted_node_ids r = ids" "dr_graph_version r = Some v" "dr_status r = CMD_COMPLETED"
      "dr_artifact_id r = Some (sa_id a)" "dr_event_id r = Some (ob_id e)"
    using assms(3) unfolding accept_delete_def Let_def ids_def [symmetric]
    by (auto simp: rbind_Inr_iff)
  have set: "set ids = deleted_set d c" "sorted ids" "distinct ids"
    using delete_ids_set [of d c] by (auto simp: ids_def)
  have x: "node_by_id (?x ids) j = node_by_id d j" "db_nodes (?x ids) = db_nodes d"
    "db_graph_states (?x ids) = db_graph_states d" "db_artifacts (?x ids) = db_artifacts d"
    "db_outbox (?x ids) = db_outbox d" "db_change_events (?x ids) = db_change_events d" "db_commands (?x ids) = db_commands d" for j
    by (simp_all add: expire_relations_def node_by_id_def)
  have "nodes_unique (?x ids)" using assms(1) x(2) by simp
  from delete_all_ok [OF del this set(3)]
  have da: "\<And>i. i \<in> set ids \<Longrightarrow> \<exists>n n'. node_by_id d i = Some n \<and> node_by_id d1 i = Some n'
      \<and> buried (dc_requested_by_member_id c) now n n'"
    "\<And>j. j \<notin> set ids \<Longrightarrow> node_by_id d1 j = node_by_id d j" "nodes_unique d1"
    "\<exists>gs. db_change_events d1 = db_change_events d @ gs \<and> list_all2 (delete_change c) ids gs"
    "side_frame (?x ids) (d1\<lparr>db_change_events := db_change_events (?x ids)\<rparr>)"
    using x by auto
  have side: "db_relations d1 = db_relations (?x ids)" "db_graph_states d1 = db_graph_states d"
    "db_artifacts d1 = db_artifacts d" "db_outbox d1 = db_outbox d" "db_commands d1 = db_commands d"
    using da(5) x by (simp_all add: side_frame_def)
  note sg = stage_project_graph_changed_v3_ok [OF st]
  have nodes: "db_nodes d' = db_nodes d1" using sg by (simp add: d')
  then have look: "node_by_id d' j = node_by_id d1 j" for j by (simp add: node_by_id_def)
  obtain d3 where b: "bump_graph_version ?pid now d1 = (v, d3)" "db_graph_states d' = db_graph_states d3"
    using sg assms(4) by (auto simp: d')
  have "graph_states_unique d1" "graph_version_of d1 ?pid = graph_version_of d ?pid"
    using assms(2) side(2) by (simp_all add: graph_version_of_def)
  moreover from bump_graph_version_ok [OF this(1) b(1)]
  have "v = graph_version_of d1 ?pid + 1" "graph_version_of d3 ?pid = v" by auto
  ultimately have gv: "v = graph_version_of d ?pid + 1" "graph_version_of d' ?pid = v"
    using b(2) by (simp_all add: graph_version_of_def)
  have live: "\<not> hangs_on d' ?pid p n" if n: "n \<in> set (db_nodes d')" and p: "p \<in> set ids" for n p
  proof (cases "nd_id n \<in> set ids")
    case True
    then obtain n' where "node_by_id d1 (nd_id n) = Some n'" "nd_deleted_at n' = Some now"
      using da(1) by (fastforce simp: buried_def)
    moreover have "node_by_id d1 (nd_id n) = Some n"
      using n nodes da(3) by (simp add: node_by_id_Some)
    ultimately show ?thesis by (simp add: hangs_on_def)
  next
    case False
    with nd n p nodes show ?thesis
      by (auto simp: assert_no_dangling_references_def dangling_def filter_empty_conv hangs_on_db [of d1 _ _ _ d'] split: if_splits)
  qed
  have ev: "\<exists>a e. db_artifacts d' = db_artifacts d @ [a] \<and> db_outbox d' = db_outbox d @ [e]
         \<and> dr_artifact_id r = Some (sa_id a) \<and> dr_event_id r = Some (ob_id e) \<and> dr_graph_version r = Some (sa_graph_version a)
         \<and> sa_command_id a = mc_command_id row \<and> sa_project_id a = dc_project_id c
         \<and> ob_event_type e = ''PROJECT_GRAPH_CHANGED'' \<and> ob_project_id e = dc_project_id c \<and> ob_schema_version e = ''3''
         \<and> jget (ob_payload e) ''commandId'' = JStr (UuidTxt (mc_command_id row))"
    using sg r side assms(4) by (intro exI [of _ a] exI [of _ e]) (simp add: d')
  have cmds: "db_commands d' = update_where (\<lambda>r. mc_command_id r = dc_command_id c) (\<lambda>r. r\<lparr>mc_status := CMD_COMPLETED,
         mc_failure_code := None, mc_failure_message := None\<rparr>) (db_commands d)"
    using sg side(5) by (simp add: d' set_command_def)
  have rest: "db_relations d' = db_relations (?x ids)"
    "\<exists>gs. db_change_events d' = db_change_events d @ gs \<and> list_all2 (delete_change c) ids gs"
    using sg side(1) da(4) by (simp_all add: d')
  show ?thesis
    using set gv live ev cmds rest da(1,2) by (simp add: r look)
qed

section \<open>The handler on a command it has not seen\<close>

lemma lock_frame:
  assumes "graph_states_unique d" "lock_project_graph_state pid now d = Inr ((v, m), d')"
  shows "db_nodes d' = db_nodes d \<and> db_commands d' = db_commands d \<and> db_artifacts d' = db_artifacts d
    \<and> db_outbox d' = db_outbox d \<and> db_change_events d' = db_change_events d \<and> db_relations d' = db_relations d
    \<and> v = graph_version_of d pid \<and> graph_states_unique d' \<and> graph_version_of d' = graph_version_of d"
  using graph_register.lock_result [OF assms] assms
  by (cases "find (\<lambda>g. gs_project_id g = pid) (db_graph_states d)")
    (auto simp: lock_project_graph_state_def locked_graph_state_find)

lemma hang_edges_cong: "db_nodes d = db_nodes d' \<Longrightarrow> hang_edges d pid = hang_edges d' pid"
  by (auto simp: hang_edges_def hangs_on_def)

lemma node_by_id_cong: "db_nodes d = db_nodes d' \<Longrightarrow> node_by_id d = node_by_id d'"
  by (rule ext) (simp add: node_by_id_def)

text \<open>What a fresh command sees after its inbox row is written and the project is locked.\<close>

definition delete_row :: "stdlib \<Rightarrow> node_delete_command \<Rightarrow> db \<Rightarrow> meeting_analysis_command" where
  "delete_row L c d = delete_inbox_row (db_next_uuid d) c (delete_payload_hash L c) CMD_PROCESSING"

lemma delete_attempt_fresh:
  assumes "graph_states_unique d" "command_rows d (dc_command_id c) = []"
  obtains m d2 where "db_nodes d2 = db_nodes d" "db_commands d2 = db_commands d @ [delete_row L c d]"
    "db_artifacts d2 = db_artifacts d" "db_outbox d2 = db_outbox d" "db_change_events d2 = db_change_events d"
    "db_relations d2 = db_relations d" "graph_states_unique d2" "graph_version_of d2 = graph_version_of d"
    "delete_attempt L c now d = decide_delete L (delete_row L c d) c (graph_version_of d (dc_project_id c)) m now d2"
proof -
  define d1 where "d1 = d\<lparr>db_next_uuid := Suc (db_next_uuid d), db_commands := db_commands d @ [delete_row L c d]\<rparr>"
  have add: "add_command (\<lambda>i. delete_inbox_row i c (delete_payload_hash L c) CMD_PROCESSING) d = (delete_row L c d, d1)"
    by (simp add: add_command_def uuid4_def d1_def delete_row_def)
  have u1: "graph_states_unique d1" and gv1: "graph_version_of d1 = graph_version_of d"
    using assms(1) by (simp_all add: d1_def graph_version_of_def fun_eq_iff)
  obtain v m d2 where lk: "lock_project_graph_state (dc_project_id c) now d1 = Inr ((v, m), d2)"
    using lock_project_graph_state_ok [OF u1] by blast
  note fr = lock_frame [OF u1 lk]
  have "delete_attempt L c now d = decide_delete L (delete_row L c d) c v m now d2"
    using assms(2) by (simp add: delete_attempt_def add lk)
  with fr gv1 show thesis by (intro that [of d2 m]) (simp_all add: d1_def)
qed

lemma release_frame:
  "release_unmutated_graph_state p D = Inr D' \<Longrightarrow> db_nodes D' = db_nodes D \<and> db_relations D' = db_relations D
      \<and> db_artifacts D' = db_artifacts D \<and> db_change_events D' = db_change_events D \<and> db_outbox D' = db_outbox D
      \<and> db_commands D' = db_commands D"
  by (cases "locked_graph_state D p") (auto simp: release_unmutated_graph_state_def split: option.splits if_splits)

lemma reject_delete_ok:
  assumes "graph_states_unique d" "reject_delete row c code msg m now d = Inr (r, d')"
    and "mc_project_id row = dc_project_id c" "mc_command_id row = dc_command_id c"
  shows "db_nodes d' = db_nodes d \<and> db_relations d' = db_relations d \<and> db_artifacts d' = db_artifacts d
    \<and> db_change_events d' = db_change_events d
    \<and> graph_version_of d' = graph_version_of d \<and> graph_states_unique d'
    \<and> dr_status r = CMD_FAILED \<and> dr_failure_code r = Some code \<and> dr_deleted_node_ids r = []
    \<and> (\<exists>e. db_outbox d' = db_outbox d @ [e] \<and> ob_event_type e = ''NODE_DELETE_REJECTED''
         \<and> jget (jget (ob_payload e) ''payload'') ''reasonCode'' = jstr code
         \<and> jget (ob_payload e) ''commandId'' = JStr (UuidTxt (dc_command_id c)) \<and> dr_event_id r = Some (ob_id e))
    \<and> db_commands d' = update_where (\<lambda>r. mc_command_id r = dc_command_id c) (\<lambda>r. r\<lparr>mc_status := CMD_FAILED,
         mc_failure_code := Some code, mc_failure_message := Some (take 2000 msg)\<rparr>) (db_commands d)"
proof -
  let ?fail = "\<lambda>r. r\<lparr>mc_status := CMD_FAILED, mc_failure_code := Some code, mc_failure_message := Some (take 2000 msg)\<rparr>"
  let ?d1 = "set_command (dc_command_id c) ?fail d"
  define ev where "ev = stage_v3 ''NODE_DELETE_REJECTED'' (?fail row)
     (JObj [(''sourceType'', jstr ''NODE_DELETE''), (''reasonCode'', jstr code)]) ''project_graph''
     (Txt (mc_project_id row)) now ?d1"
  define res where "res = \<lparr>dr_command_id = dc_command_id c, dr_status = CMD_FAILED, dr_deleted_node_ids = [],
      dr_graph_version = None, dr_changed = False, dr_failure_code = Some code, dr_event_id = Some (ob_id (fst ev)),
      dr_artifact_id = None, dr_replayed = False, dr_node_versions = []\<rparr>"
  have "reject_delete row c code msg m now d = rguard (code \<notin> set NODE_DELETE_REJECTION_REASONS)
      (ValueError ''unsupported NODE_DELETE_REJECTED reasonCode'')
      (rbind (if m then release_unmutated_graph_state (dc_project_id c) (snd ev) else Inr (snd ev)) (\<lambda>d3. Inr (res, d3)))"
    by (simp add: reject_delete_def stage_node_delete_rejected_v3_def Let_def ev_def res_def split_beta rguard_def)
  with assms(2) obtain d3 where
    d3: "(if m then release_unmutated_graph_state (dc_project_id c) (snd ev) else Inr (snd ev)) = Inr d3"
    and d': "d' = d3" and "r = res"
    by (auto simp only: rguard_Inr_iff rbind_Inr_iff sum.inject prod.inject)
  then have r: "dr_status r = CMD_FAILED" "dr_failure_code r = Some code" "dr_deleted_node_ids r = []"
      "dr_event_id r = Some (ob_id (fst ev))"
    by (simp_all add: res_def)
  have u: "graph_states_unique (snd ev)" "graph_version_of (snd ev) = graph_version_of d"
    using assms(1) by (simp_all add: ev_def stage_v3_def graph_version_of_def fun_eq_iff)
  have "graph_version_of d' = graph_version_of d \<and> graph_states_unique d'"
    using d3 d' u release_unmutated_graph_state_ok [OF u(1), of "dc_project_id c"] by (auto split: if_splits)
  moreover have "db_nodes d' = db_nodes (snd ev) \<and> db_relations d' = db_relations (snd ev)
      \<and> db_artifacts d' = db_artifacts (snd ev) \<and> db_change_events d' = db_change_events (snd ev)
      \<and> db_outbox d' = db_outbox (snd ev) \<and> db_commands d' = db_commands (snd ev)"
    using d3 d' release_frame by (auto split: if_splits)
  ultimately show ?thesis
    using r assms(3,4) by (simp add: ev_def stage_v3_def) (simp add: set_command_def)
qed

lemma delete_row_fields [simp]:
  "mc_project_id (delete_row L c d) = dc_project_id c" "mc_command_id (delete_row L c d) = dc_command_id c"
  "mc_command_type (delete_row L c d) = NODE_DELETE_REQUESTED" "mc_payload_hash (delete_row L c d) = delete_payload_hash L c"
  by (simp_all add: delete_row_def delete_inbox_row_def)

text \<open>C5. An accepted delete command removes exactly its closure. The command was based on the current
  graph version; each removed node gets a tombstone with one more version; every other node of every
  project is untouched; afterwards no live node of the project has a removed node as its parent or
  merge target; and the graph version of the project rises by exactly one, however many nodes were
  removed.\<close>

theorem node_delete_accepted:
  assumes "nodes_unique d" "graph_states_unique d" "command_rows d (dc_command_id c) = []"
    and "delete_attempt L c now d = Inr (r, d')" "dr_status r = CMD_COMPLETED"
  shows "int (graph_version_of d (dc_project_id c)) = dc_expected_graph_version c
    \<and> set (dr_deleted_node_ids r) = deleted_set d c
    \<and> (\<forall>i \<in> deleted_set d c. \<exists>n n'. node_by_id d i = Some n \<and> node_by_id d' i = Some n'
         \<and> buried (dc_requested_by_member_id c) now n n')
    \<and> (\<forall>i. i \<notin> deleted_set d c \<longrightarrow> node_by_id d' i = node_by_id d i)
    \<and> (\<forall>n \<in> set (db_nodes d'). \<forall>p \<in> deleted_set d c. \<not> hangs_on d' (dc_project_id c) p n)
    \<and> graph_version_of d' (dc_project_id c) = graph_version_of d (dc_project_id c) + 1
    \<and> dr_graph_version r = Some (graph_version_of d (dc_project_id c) + 1)"
  using assms(2,3)
proof (rule delete_attempt_fresh [where L = L and now = now])
  fix m d2
  assume n2: "db_nodes d2 = db_nodes d" and u2: "graph_states_unique d2" "graph_version_of d2 = graph_version_of d"
    and run: "delete_attempt L c now d =
      decide_delete L (delete_row L c d) c (graph_version_of d (dc_project_id c)) m now d2"
  have no_reject: "reject_delete (delete_row L c d) c code msg m now d2 \<noteq> Inr (r, d')" for code msg
    using reject_delete_ok [OF u2(1), of "delete_row L c d" c code msg m now r d'] assms(5) by auto
  then have v: "int (graph_version_of d (dc_project_id c)) = dc_expected_graph_version c"
    and acc: "accept_delete L (delete_row L c d) c now d2 = Inr (r, d')"
    using run assms(4) by (auto simp: decide_delete_def Let_def split: if_splits)
  have "deleted_set d2 c = deleted_set d c" "node_by_id d2 = node_by_id d"
    using n2 by (simp_all add: deleted_set_def hang_edges_cong [of d2 d] node_by_id_cong [of d2 d])
  with accept_delete_ok [OF _ u2(1) acc] assms(1) n2 u2(2) v show ?thesis by simp
qed

lemma update_where_new: "filter P xs = [] \<Longrightarrow> P y \<Longrightarrow> update_where P f (xs @ [y]) = xs @ [f y]"
  by (induction xs) (auto split: if_splits)


section \<open>Redelivery\<close>

lemma command_rows_update:
  "command_rows (d\<lparr>db_commands := update_where (\<lambda>r. mc_command_id r = cid) f rows\<rparr>) cid =
     map f (filter (\<lambda>r. mc_command_id r = cid) rows)" if "\<And>r. mc_command_id (f r) = mc_command_id r"
  using that by (induction rows) (auto simp: command_rows_def)

definition settled_delete :: "stdlib \<Rightarrow> node_delete_command \<Rightarrow> db \<Rightarrow> bool" where
  "settled_delete L c d \<longleftrightarrow> (\<exists>row. command_rows d (dc_command_id c) = [row]
     \<and> \<not> command_conflict NODE_DELETE_REQUESTED (delete_payload_hash L c) row
     \<and> (mc_status row = CMD_COMPLETED \<or> mc_status row = CMD_FAILED))
   \<and> length (filter (\<lambda>a. sa_project_id a = dc_project_id c \<and> sa_command_id a = dc_command_id c) (db_artifacts d)) \<le> 1"

definition fresh_delete :: "node_delete_command \<Rightarrow> db \<Rightarrow> bool" where
  "fresh_delete c d \<longleftrightarrow> nodes_unique d \<and> graph_states_unique d \<and> command_rows d (dc_command_id c) = []
     \<and> filter (\<lambda>a. sa_project_id a = dc_project_id c \<and> sa_command_id a = dc_command_id c) (db_artifacts d) = []"

lemma one_or_none_le1: "length xs \<le> 1 \<Longrightarrow> \<exists>x. one_or_none xs = Inr x"
  by (cases xs rule: one_or_none.cases) auto

lemma settled_delete_replays:
  assumes "settled_delete L c d"
  shows "\<exists>r. delete_attempt L c now d = Inr (r, d)"
proof -
  let ?arts = "filter (\<lambda>a. sa_project_id a = dc_project_id c \<and> sa_command_id a = dc_command_id c) (db_artifacts d)"
  from assms obtain row where row: "command_rows d (dc_command_id c) = [row]"
      "\<not> command_conflict NODE_DELETE_REQUESTED (delete_payload_hash L c) row"
      "mc_status row = CMD_COMPLETED \<or> mc_status row = CMD_FAILED" and "length ?arts \<le> 1"
    by (auto simp: settled_delete_def)
  then obtain x where "one_or_none ?arts = Inr x" using one_or_none_le1 by blast
  with row show ?thesis by (auto simp: delete_attempt_def existing_delete_result_def Let_def)
qed

lemma command_rows_of: "db_commands d = rows \<Longrightarrow> command_rows d cid = filter (\<lambda>r. mc_command_id r = cid) rows"
  by (simp add: command_rows_def)

lemma filter_command_update:
  "(\<And>r. mc_command_id (f r) = mc_command_id r) \<Longrightarrow>
   filter (\<lambda>r. mc_command_id r = cid) (update_where (\<lambda>r. mc_command_id r = cid) f rows) =
     map f (filter (\<lambda>r. mc_command_id r = cid) rows)"
  by (induction rows) auto

lemma delete_attempt_settles:
  assumes "fresh_delete c d" "delete_attempt L c now d = Inr (r, d')"
  shows "settled_delete L c d'"
proof -
  let ?P = "\<lambda>a. sa_project_id a = dc_project_id c \<and> sa_command_id a = dc_command_id c"
  have fr: "nodes_unique d" "graph_states_unique d" "command_rows d (dc_command_id c) = []" "filter ?P (db_artifacts d) = []"
    using assms(1) by (simp_all add: fresh_delete_def)
  show ?thesis
    using fr(2,3)
  proof (rule delete_attempt_fresh [where L = L and now = now])
    fix m d2
    assume d2: "db_nodes d2 = db_nodes d" "db_commands d2 = db_commands d @ [delete_row L c d]"
        "db_artifacts d2 = db_artifacts d" "graph_states_unique d2"
      and run: "delete_attempt L c now d =
        decide_delete L (delete_row L c d) c (graph_version_of d (dc_project_id c)) m now d2"
    have cmd2: "filter (\<lambda>r. mc_command_id r = dc_command_id c) (db_commands d2) = [delete_row L c d]"
      using fr(3) by (simp add: d2(2) command_rows_def)
    from run assms(2) consider
        code msg where "reject_delete (delete_row L c d) c code msg m now d2 = Inr (r, d')"
      | "accept_delete L (delete_row L c d) c now d2 = Inr (r, d')"
      by (auto simp: decide_delete_def Let_def split: if_splits)
    then show ?thesis
    proof cases
      case 1
      from reject_delete_ok [OF d2(4) 1] fr(4) show ?thesis
        by (simp add: settled_delete_def command_rows_def filter_command_update cmd2 command_conflict_def d2(3))
    next
      case 2
      have "nodes_unique d2" using fr(1) d2(1) by simp
      from accept_delete_ok [OF this d2(4) 2] have
        "db_commands d' = update_where (\<lambda>r. mc_command_id r = dc_command_id c) (\<lambda>r. r\<lparr>mc_status := CMD_COMPLETED,
         mc_failure_code := None, mc_failure_message := None\<rparr>) (db_commands d2)"
        "\<exists>a. db_artifacts d' = db_artifacts d2 @ [a]" by auto
      with fr(4) show ?thesis
        by (auto simp: settled_delete_def command_rows_def filter_command_update cmd2 command_conflict_def d2(3))
    qed
  qed
qed

lemma record_delete_failure_settles:
  assumes "fresh_delete c d" "record_delete_failure L c code msg d = Inr (r, d')"
  shows "settled_delete L c d'"
  using assms by (auto simp: fresh_delete_def record_delete_failure_def Let_def add_command_def uuid4_def
      settled_delete_def command_rows_def command_conflict_def delete_inbox_row_def)

interpretation node_delete_inbox: idempotent_inbox "\<lambda>c d. process_node_delete L c now d d" fresh_delete "settled_delete L"
proof (unfold_locales, goal_cases)
  case (1 c d r d')
  show ?case
  proof (cases "delete_attempt L c now d")
    case (Inr x)
    with 1 delete_attempt_settles [of c d L now r d'] show ?thesis by (auto simp: process_node_delete_def)
  next
    case (Inl e)
    have "one_or_none (command_rows d (dc_command_id c)) = Inr None"
      using 1(1) by (simp add: fresh_delete_def)
    with 1 Inl record_delete_failure_settles [of c d L _ _ r d'] show ?thesis
      by (cases e) (auto simp: process_node_delete_def)
  qed
next
  case (2 c d)
  then show ?case using settled_delete_replays [of L c d now] by (auto simp: process_node_delete_def)
qed

text \<open>Delivering a delete command again and again has the effect of delivering it once: when the first
  delivery commits, every later delivery of the same command succeeds and leaves the database exactly
  as the first one left it.\<close>

theorem node_delete_exactly_once:
  assumes "fresh_delete c d" "process_node_delete L c now d d = Inr (r, d')"
  shows "deliveries (\<lambda>d. process_node_delete L c now d d) (Suc n) d = Inr d'"
  using assms by (rule node_delete_inbox.exactly_once)

text \<open>A redelivered delete answers with the recorded outcome: the same removed nodes, graph version and
  artifact as the delivery that removed them, and nothing is staged a second time.\<close>

theorem node_delete_replay:
  assumes "fresh_delete c d" "\<forall>g \<in> set (db_change_events d). gc_request_id g \<noteq> Some (UuidTxt (dc_command_id c))"
    and "delete_attempt L c now d = Inr (r, d')" "dr_status r = CMD_COMPLETED"
  shows "\<exists>r2. delete_attempt L c now2 d' = Inr (r2, d') \<and> dr_replayed r2 \<and> dr_status r2 = CMD_COMPLETED
    \<and> dr_deleted_node_ids r2 = dr_deleted_node_ids r \<and> dr_graph_version r2 = dr_graph_version r
    \<and> dr_artifact_id r2 = dr_artifact_id r"
proof -
  let ?P = "\<lambda>a. sa_project_id a = dc_project_id c \<and> sa_command_id a = dc_command_id c"
  let ?G = "\<lambda>g. gc_project_id g = dc_project_id c \<and> gc_request_id g = Some (UuidTxt (dc_command_id c))
      \<and> gc_change_type g \<in> set [''USER_DELETE_NODE'', ''USER_DELETE_MERGED'']"
  have fr: "nodes_unique d" "graph_states_unique d" "command_rows d (dc_command_id c) = []" "filter ?P (db_artifacts d) = []"
    using assms(1) by (simp_all add: fresh_delete_def)
  show ?thesis
    using fr(2,3)
  proof (rule delete_attempt_fresh [where L = L and now = now])
    fix m d2
    assume d2: "db_nodes d2 = db_nodes d" "db_commands d2 = db_commands d @ [delete_row L c d]"
        "db_artifacts d2 = db_artifacts d" "db_change_events d2 = db_change_events d" "graph_states_unique d2"
      and run: "delete_attempt L c now d =
        decide_delete L (delete_row L c d) c (graph_version_of d (dc_project_id c)) m now d2"
    have "reject_delete (delete_row L c d) c code msg m now d2 \<noteq> Inr (r, d')" for code msg
      using reject_delete_ok [OF d2(5), of "delete_row L c d" c code msg m now r d'] assms(4) by auto
    then have acc: "accept_delete L (delete_row L c d) c now d2 = Inr (r, d')"
      using run assms(3) by (auto simp: decide_delete_def Let_def split: if_splits)
    have "nodes_unique d2" using fr(1) d2(1) by simp
    note ok = accept_delete_ok [OF this d2(5) acc]
    from ok obtain a where a: "db_artifacts d' = db_artifacts d @ [a]" "?P a" "dr_artifact_id r = Some (sa_id a)"
        "dr_graph_version r = Some (sa_graph_version a)" using d2(3) by auto
    from ok obtain gs where gs: "db_change_events d' = db_change_events d @ gs"
        "list_all2 (delete_change c) (dr_deleted_node_ids r) gs" using d2(4) by auto
    have "filter ?G (db_change_events d) = []" using assms(2) by (auto simp: filter_empty_conv)
    moreover have "filter ?G gs = gs \<and> List.map_filter gc_node_id gs = dr_deleted_node_ids r"
      using gs(2) by (induction rule: list_all2_induct) (auto simp: delete_change_def map_filter_simps)
    ultimately have del: "sort (List.map_filter gc_node_id (filter ?G (db_change_events d'))) = dr_deleted_node_ids r"
      using ok gs(1) by (simp add: sort_key_id_if_sorted)
    have "filter (\<lambda>r. mc_command_id r = dc_command_id c) (db_commands d2) = [delete_row L c d]"
      using fr(3) by (simp add: d2(2) command_rows_def)
    then have "command_rows d' (dc_command_id c) = [(delete_row L c d)\<lparr>mc_status := CMD_COMPLETED,
         mc_failure_code := None, mc_failure_message := None\<rparr>]"
      using ok by (simp add: command_rows_def filter_command_update)
    with a fr(4) del show ?thesis
      by (simp add: delete_attempt_def command_conflict_def existing_delete_result_def Let_def)
  qed
qed

section \<open>The properties at a concrete tree\<close>

lemma logically_delete_succeeds:
  assumes "node_by_id d i = Some n" "strip (nd_title n) \<noteq> []" "db_revision_evidence d = []"
    and "\<forall>x \<in> set (db_revisions d). rv_node_id x \<noteq> i"
  shows "\<exists>d' r. logically_delete L c now i d = Inr d' \<and> db_revision_evidence d' = []
    \<and> db_revisions d' = db_revisions d @ [r] \<and> rv_node_id r = i"
proof -
  have "current_revision_evidence_specs d n = []"
    using assms(3) by (simp add: current_revision_evidence_specs_def split: option.splits)
  moreover have "nd_id n = i" using assms(1) by (auto dest: node_by_idD)
  ultimately show ?thesis
    using assms by (simp add: logically_delete_def Let_def create_node_revision_def delete_revision_args_def uuid4_def
        rguard_def)
qed

lemma sample_stage:
  assumes "db_artifacts d = []"
  shows "\<exists>x d'. stage_project_graph_changed_v3 sample_stdlib row None ''NODE_DELETE'' now d = Inr (x, d')"
proof -
  obtain v d1 where b: "bump_graph_version (mc_project_id row) now d = (v, d1)" by fastforce
  then have "db_artifacts d1 = []" using assms bump_graph_version_tables(2) [of "mc_project_id row" now d] by simp
  with b assms show ?thesis
    by (simp add: stage_project_graph_changed_v3_def Let_def snapshot_digest_def validate_graph_snapshot_size_def
        sample_limit sample_prefix uuid4_def artifact_clash_def split_beta) (simp add: sample_stdlib_def)
qed

definition sample_delete :: "int \<Rightarrow> node_delete_command" where
  "sample_delete v = \<lparr>dc_command_id = 500, dc_requested_at = 0, dc_requested_at_iso = ''t'', dc_project_id = ''7'',
     dc_node_ids = [2], dc_expected_graph_version = v, dc_requested_by_member_id = ''u''\<rparr>"

definition sample_child :: node where
  "sample_child = (sample_node 3 ''7'')\<lparr>nd_parent_id := Some 2\<rparr>"

definition sample_tree :: db where
  "sample_tree = sample_db [sample_node 2 ''7'', sample_child]"

lemma sample_tree_tables:
  "db_nodes sample_tree = [sample_node 2 ''7'', sample_child]" "db_commands sample_tree = []"
  "db_artifacts sample_tree = []" "db_graph_states sample_tree = []" "db_change_events sample_tree = []"
  "db_revisions sample_tree = []" "db_revision_evidence sample_tree = []"
  by (simp_all add: sample_tree_def sample_db_def empty_db_def)

lemma sample_child_fields: "nd_id sample_child = 3" "nd_title (sample_node i p) = ''t''" "nd_parent_id (sample_node i p) = None"
  by (simp_all add: sample_child_def sample_node_def)

lemma sample_tree_fresh: "fresh_delete (sample_delete v) sample_tree"
  by (simp add: fresh_delete_def sample_tree_tables command_rows_def sample_child_fields)

lemma sample_tree_closure: "db_nodes d = db_nodes sample_tree \<Longrightarrow> effective_delete_closure d ''7'' [2] = [3]"
  by (simp add: effective_delete_closure_def closure_loop.simps frontier_rows_def hangs_on_def sample_tree_tables
      sample_child_def sample_child_fields deletable_state_def)

lemma sample_delete_all:
  assumes "db_nodes d = db_nodes sample_tree" "db_revisions d = []" "db_revision_evidence d = []"
  obtains d' where "delete_all L (sample_delete v) now [2, 3] d = Inr d'" 
proof -
  have t: "strip ''t'' \<noteq> []" by code_simp
  have n1: "node_by_id d 2 = Some (sample_node 2 ''7'')" and u: "nodes_unique d"
    using assms(1) by (simp_all add: node_by_id_def sample_tree_tables sample_child_fields)
  obtain d1 r where d1: "logically_delete L (sample_delete v) now 2 d = Inr d1" "db_revision_evidence d1 = []"
    "db_revisions d1 = [r]" "rv_node_id r = 2"
    using logically_delete_succeeds [OF n1, of L "sample_delete v" now] t assms by (auto simp: sample_child_fields)
  have "node_by_id d1 3 = Some sample_child"
    using logically_delete_ok [OF u d1(1)] assms(1) by (auto simp: node_by_id_def sample_tree_tables sample_child_fields)
  with logically_delete_succeeds [of d1 3 sample_child L "sample_delete v" now] d1 t
  obtain d2 where "logically_delete L (sample_delete v) now 3 d1 = Inr d2"
    by (auto simp: sample_child_def sample_child_fields)
  with d1(1) that [of d2] show thesis by simp
qed

lemma sample_accept:
  assumes "db_nodes d = db_nodes sample_tree" "db_revisions d = []" "db_revision_evidence d = []" "db_artifacts d = []"
  shows "\<exists>r d'. accept_delete sample_stdlib row (sample_delete 0) now d = Inr (r, d') \<and> dr_status r = CMD_COMPLETED"
proof -
  let ?ids = "[2, 3 :: uuid]" and ?c = "sample_delete 0"
  have clo: "sort (remdups (effective_delete_closure d (dc_project_id ?c) (remdups (dc_node_ids ?c)) @ dc_node_ids ?c)) = ?ids"
    using sample_tree_closure [OF assms(1)] by (simp add: sample_delete_def)
  let ?x = "expire_relations (dc_project_id ?c) ?ids now d"
  have x: "db_nodes ?x = db_nodes sample_tree" "db_revisions ?x = []" "db_revision_evidence ?x = []" "db_artifacts ?x = []"
    using assms by (simp_all add: expire_relations_def)
  obtain d1 where d1: "delete_all sample_stdlib ?c now ?ids ?x = Inr d1"
    by (rule sample_delete_all [OF x(1-3)])
  have ux: "nodes_unique ?x" by (simp add: x(1) sample_tree_tables sample_child_fields)
  note da = delete_all_ok [OF d1 ux]
  have art: "db_artifacts d1 = []" using da x(4) by (simp add: side_frame_def)
  have "assert_no_dangling_references d (dc_project_id ?c) ?ids = Inr ()"
    using assms(1) by (simp add: assert_no_dangling_references_def dangling_def sample_tree_tables sample_child_fields)
  moreover have "assert_no_dangling_references d1 (dc_project_id ?c) ?ids = Inr ()"
  proof -
    have "nd_id n \<in> set ?ids" if "n \<in> set (db_nodes d1)" for n
    proof (rule ccontr)
      assume "nd_id n \<notin> set ?ids"
      then have "node_by_id d1 (nd_id n) = None"
        using da x(1) by (auto simp: node_by_id_def sample_tree_tables sample_child_fields)
      with that da show False by (auto simp: node_by_id_None)
    qed
    then show ?thesis by (auto simp: assert_no_dangling_references_def dangling_def filter_empty_conv)
  qed
  ultimately show ?thesis
    using sample_stage [OF art, of row now] d1 unfolding accept_delete_def Let_def clo by auto
qed

lemma sample_attempt:
  obtains r d' where "delete_attempt sample_stdlib (sample_delete 0) 9 sample_tree = Inr (r, d')" "dr_status r = CMD_COMPLETED"
proof -
  let ?row = "delete_row sample_stdlib (sample_delete 0) sample_tree"
  define d2 where "d2 = sample_tree\<lparr>db_next_uuid := Suc (db_next_uuid sample_tree), db_commands := [?row],
     db_graph_states := [\<lparr>gs_project_id = ''7'', gs_graph_version = 0, gs_updated_at = 9\<rparr>]\<rparr>"
  have "delete_attempt sample_stdlib (sample_delete 0) 9 sample_tree =
      decide_delete sample_stdlib ?row (sample_delete 0) 0 True 9 d2"
    by (simp add: delete_attempt_def command_rows_def sample_tree_tables add_command_def uuid4_def
        delete_row_def [symmetric] lock_project_graph_state_def locked_graph_state_def sample_delete_def d2_def)
  moreover have "decide_delete sample_stdlib ?row (sample_delete 0) 0 True 9 d2 = accept_delete sample_stdlib ?row (sample_delete 0) 9 d2"
    by (simp add: decide_delete_def sample_delete_def seed_missing_def seed_foreign_def d2_def node_by_id_def
        sample_tree_tables deletable_state_def)
  moreover have "\<exists>r d'. accept_delete sample_stdlib ?row (sample_delete 0) 9 d2 = Inr (r, d') \<and> dr_status r = CMD_COMPLETED"
    by (rule sample_accept) (simp_all add: d2_def sample_tree_tables)
  ultimately show thesis using that by auto
qed

lemma sample_deleted_set: "deleted_set sample_tree (sample_delete 0) = {2, 3}"
  using delete_ids_set [of sample_tree "sample_delete 0"] sample_tree_closure [of sample_tree]
  by (simp add: sample_delete_def)

theorem node_delete_accepted_witness:
  "\<exists>r d'. delete_attempt sample_stdlib (sample_delete 0) 9 sample_tree = Inr (r, d')
     \<and> set (dr_deleted_node_ids r) = {2, 3} \<and> graph_version_of d' ''7'' = 1"
proof -
  obtain r d' where r: "delete_attempt sample_stdlib (sample_delete 0) 9 sample_tree = Inr (r, d')" "dr_status r = CMD_COMPLETED"
    by (rule sample_attempt)
  have "nodes_unique sample_tree" "graph_states_unique sample_tree" "command_rows sample_tree (dc_command_id (sample_delete 0)) = []"
    using sample_tree_fresh by (simp_all add: fresh_delete_def)
  from node_delete_accepted [OF this r] r(1) show ?thesis
    by (simp add: sample_deleted_set) (simp add: sample_delete_def graph_version_of_def sample_tree_tables)
qed


end
