(* ===== verification/User_Graph.thy ===== *)
theory User_Graph
  imports Node_Deletes
begin

text \<open>
  \<open>pipeline/user_graph.py\<close>: the edits of the published graph by users: create, edit with re-parenting and category changes, delete, merge
  and merge again. A node object of the session is its row; after a change it is read again.
\<close>

section \<open>Results and audit\<close>

record user_graph_mutation_result =
  ug_node_id :: uuid
  ug_version :: int
  ug_graph_state :: graph_state
  ug_operation_id :: "uuid option"
  ug_relation_id :: "uuid option"
  ug_changed :: bool

definition mutation_result :: "node \<Rightarrow> uuid option \<Rightarrow> bool \<Rightarrow> user_graph_mutation_result" where
  "mutation_result n operation changed = \<lparr>ug_node_id = nd_id n, ug_version = nd_version n, ug_graph_state = nd_graph_state n,
     ug_operation_id = operation, ug_relation_id = None, ug_changed = changed\<rparr>"

definition user_after :: "node \<Rightarrow> json" where
  "user_after n = JObj [(''nodeId'', JStr (UuidTxt (nd_id n))), (''title'', jstr (nd_title n)), (''content'', jstr (nd_content n)),
     (''nodeType'', jstr (node_type_value (nd_node_type n))), (''category'', jstr (nd_category n)),
     (''graphState'', jstr (graph_state_value (nd_graph_state n))), (''version'', JInt (nd_version n))]"

definition user_event ::
  "string \<Rightarrow> node \<Rightarrow> string \<Rightarrow> string option \<Rightarrow> string \<Rightarrow> json \<Rightarrow> (string \<times> json) list \<Rightarrow> time \<Rightarrow> db \<Rightarrow> db" where
  "user_event pid n actor request_id change_type before detail now d =
     (let d1 = d\<lparr>db_change_events := db_change_events d @ [\<lparr>gc_project_id = pid, gc_request_id = map_option Txt request_id,
            gc_node_id = Some (nd_id n), gc_item_id = None, gc_change_type = change_type, gc_actor_type = ''USER'',
            gc_before = before, gc_after = user_after n, gc_detail = JObj ((''actorId'', jstr actor) # detail)\<rparr>]\<rparr>
      in snd (stage_outbox ''GRAPH_CHANGED'' ''node'' (UuidTxt (nd_id n)) pid ''auto-graph-v1''
           (JObj ([(''changeType'', jstr change_type), (''nodeId'', JStr (UuidTxt (nd_id n))), (''actorId'', jstr actor)] @ detail)) now d1))"

text \<open>A row that the session holds, read again.\<close>

definition refreshed :: "db \<Rightarrow> node \<Rightarrow> node" where
  "refreshed d n = (case node_by_id d (nd_id n) of Some m \<Rightarrow> m | None \<Rightarrow> n)"

section \<open>Subtrees\<close>

definition child_rows :: "(graph_state \<Rightarrow> bool) \<Rightarrow> db \<Rightarrow> string \<Rightarrow> uuid list \<Rightarrow> node list" where
  "child_rows live d pid frontier = sort_key nd_id (filter (\<lambda>n. nd_project_id n = pid
     \<and> (case nd_parent_id n of None \<Rightarrow> False | Some p \<Rightarrow> p \<in> set frontier) \<and> live (nd_graph_state n) \<and> nd_deleted_at n = None) (db_nodes d))"

fun visit_children :: "string \<Rightarrow> node list \<Rightarrow> uuid list \<Rightarrow> uuid list result" where
  "visit_children message [] visited = Inr visited"
| "visit_children message (c # cs) visited =
     (if nd_id c \<in> set visited then Inl (GraphIntegrityError message) else visit_children message cs (nd_id c # visited))"

lemma visit_children_set: "visit_children m cs visited = Inr visited' \<Longrightarrow>
    set visited' = nd_id ` set cs \<union> set visited \<and> nd_id ` set cs \<inter> set visited = {} \<and> distinct (map nd_id cs)"
proof (induction cs arbitrary: visited)
  case (Cons c cs)
  from Cons.prems have v: "nd_id c \<notin> set visited" "visit_children m cs (nd_id c # visited) = Inr visited'" by (simp_all split: if_splits)
  from Cons.IH [OF v(2)] v(1) show ?case by auto
qed simp

function subtree_loop :: "(graph_state \<Rightarrow> bool) \<Rightarrow> string \<Rightarrow> db \<Rightarrow> string \<Rightarrow> uuid list \<Rightarrow> uuid list \<Rightarrow> node list \<Rightarrow> node list result" where
  "subtree_loop live message d pid visited frontier acc =
     (if frontier = [] then Inr acc
      else case visit_children message (child_rows live d pid frontier) visited of
             Inl e \<Rightarrow> Inl e
           | Inr visited' \<Rightarrow> subtree_loop live message d pid visited' (map nd_id (child_rows live d pid frontier))
                 (acc @ child_rows live d pid frontier))"
  by pat_completeness auto

termination
proof (relation "measure (\<lambda>(live, message, d, pid, visited, frontier, acc).
    2 * card (set (map nd_id (db_nodes d)) - set visited) + (if frontier = [] then 0 else 1))", goal_cases)
  case (2 live message d pid visited frontier acc visited')
  let ?A = "set (map nd_id (db_nodes d))" and ?C = "child_rows live d pid frontier"
  have rows: "nd_id ` set ?C \<subseteq> ?A" by (auto simp: child_rows_def)
  have v: "set visited' = nd_id ` set ?C \<union> set visited" "nd_id ` set ?C \<inter> set visited = {}" using visit_children_set [OF 2(2)] by auto
  show ?case
  proof (cases "?C = []")
    case True
    with v 2(1) show ?thesis by simp
  next
    case False
    then obtain c where c: "c \<in> set ?C" by (cases ?C) auto
    then have "nd_id c \<in> ?A - set visited" using rows v(2) by blast
    moreover have "?A - set visited' \<subseteq> ?A - set visited - {nd_id c}" using v(1) c by auto
    ultimately have "?A - set visited' \<subset> ?A - set visited" by blast
    then have "card (?A - set visited') < card (?A - set visited)" by (intro psubset_card_mono) auto
    then show ?thesis by simp
  qed
qed simp

declare subtree_loop.simps [simp del]

definition active_subtree :: "db \<Rightarrow> string \<Rightarrow> node \<Rightarrow> node list result" where
  "active_subtree d pid root =
     subtree_loop (\<lambda>s. s = ACTIVE) ''category subtree contains a cycle'' d pid [nd_id root] [nd_id root] [root]"

definition structural_descendants_for_delete :: "db \<Rightarrow> string \<Rightarrow> uuid \<Rightarrow> node list result" where
  "structural_descendants_for_delete d pid root_id =
     subtree_loop (\<lambda>s. s = ACTIVE \<or> s = UNATTACHED) ''delete subtree contains a cycle'' d pid [root_id] [root_id] []"

section \<open>Moving a node under a new parent\<close>

definition live_attachment :: "string \<Rightarrow> relation \<Rightarrow> bool" where
  "live_attachment pid r \<longleftrightarrow> rl_project_id r = pid \<and> rl_relation_type r = ATTACHED_TO \<and> rl_status r = REL_CONFIRMED \<and> rl_valid_to r = None"

definition end_relation :: "time \<Rightarrow> relation \<Rightarrow> relation" where
  "end_relation now r = r\<lparr>rl_status := REL_REJECTED, rl_valid_to := Some now\<rparr>"

definition allowed_parents :: "node_type \<Rightarrow> node_type set" where
  "allowed_parents t = (if t = ACTION then {DECISION} else {DECISION, ACTION})"

lemma get_project_node_in: "get_project_node d pid i b = Inr n \<Longrightarrow> n \<in> set (db_nodes d) \<and> nd_id n = i \<and> nd_project_id n = pid"
proof -
  assume "get_project_node d pid i b = Inr n"
  then have "filter (\<lambda>n. nd_id n = i \<and> nd_project_id n = pid \<and> (b \<or> nd_deleted_at n = None)) (db_nodes d) = [n]"
    by (auto simp: get_project_node_def result_simps split: option.splits if_splits)
  then have "n \<in> set (filter (\<lambda>n. nd_id n = i \<and> nd_project_id n = pid \<and> (b \<or> nd_deleted_at n = None)) (db_nodes d))" by simp
  then show ?thesis by simp
qed

function check_ancestors :: "db \<Rightarrow> string \<Rightarrow> string \<Rightarrow> uuid list \<Rightarrow> uuid list \<Rightarrow> node \<Rightarrow> unit result" where
  "check_ancestors d pid category subtree seen ancestor =
     (case nd_parent_id ancestor of
        None \<Rightarrow> Inr ()
      | Some p \<Rightarrow>
          if nd_id ancestor \<in> set seen \<or> nd_id ancestor \<in> set subtree
          then Inl (GraphMutationValidationError ''new parent would create a cycle'')
          else case get_project_node d pid p True of
                 Inl e \<Rightarrow> Inl e
               | Inr a \<Rightarrow>
                   if nd_deleted_at a \<noteq> None \<or> nd_category a \<noteq> category
                   then Inl (GraphMutationValidationError ''new parent chain crosses a deleted or different-category Node'')
                   else check_ancestors d pid category subtree (nd_id ancestor # seen) a)"
  by pat_completeness auto

termination
proof (relation "measure (\<lambda>(d, pid, category, subtree, seen, ancestor).
    card (insert (nd_id ancestor) (nd_id ` set (db_nodes d)) - set seen))", goal_cases)
  case (2 d pid category subtree seen ancestor p a)
  let ?A = "nd_id ` set (db_nodes d)"
  have "insert (nd_id a) ?A = ?A" using get_project_node_in [OF 2(3)] by auto
  then have "insert (nd_id a) ?A - set (nd_id ancestor # seen) \<subset> insert (nd_id ancestor) ?A - set seen" using 2(2) by auto
  then show ?case by (auto intro!: psubset_card_mono)
qed simp

declare check_ancestors.simps [simp del]

definition attach_to :: "string \<Rightarrow> uuid \<Rightarrow> uuid \<Rightarrow> time \<Rightarrow> db \<Rightarrow> db result" where
  "attach_to pid i parent now d =
     rbind (one_or_none (filter (\<lambda>r. rl_project_id r = pid \<and> rl_from_node_id r = i \<and> rl_to_node_id r = parent
              \<and> rl_relation_type r = ATTACHED_TO) (db_relations d))) (\<lambda>relation.
       case relation of
         None \<Rightarrow>
           (let (rid, d1) = uuid4 d
            in Inr (d1\<lparr>db_relations := db_relations d1 @ [\<lparr>rl_id = rid, rl_project_id = pid, rl_from_node_id = i, rl_to_node_id = parent,
                 rl_relation_type = ATTACHED_TO, rl_status = REL_CONFIRMED, rl_actor_type = ''USER'',
                 rl_generation_run_id = None, rl_valid_from = now, rl_valid_to = None\<rparr>]\<rparr>))
       | Some r \<Rightarrow> Inr (d\<lparr>db_relations := update_where (\<lambda>x. rl_id x = rl_id r)
             (\<lambda>x. x\<lparr>rl_status := REL_CONFIRMED, rl_valid_from := now, rl_valid_to := None, rl_actor_type := ''USER''\<rparr>) (db_relations d)\<rparr>))"

definition valid_new_parent :: "node_type \<Rightarrow> string \<Rightarrow> uuid list \<Rightarrow> node \<Rightarrow> bool" where
  "valid_new_parent t category subtree p \<longleftrightarrow> nd_id p \<notin> set subtree \<and> nd_deleted_at p = None \<and> nd_graph_state p = ACTIVE
     \<and> nd_merged_into_node_id p = None \<and> nd_node_type p \<in> allowed_parents t \<and> nd_category p = category"

definition reparent_for_category_change ::
  "string \<Rightarrow> node \<Rightarrow> node_type \<Rightarrow> string \<Rightarrow> uuid \<Rightarrow> uuid list \<Rightarrow> time \<Rightarrow> db \<Rightarrow> db result" where
  "reparent_for_category_change pid n t category new_parent subtree now d =
     rguard (t = DECISION) (GraphMutationValidationError ''only Action/Issue Nodes accept a structural parent'')
    (rbind (resolve_canonical_node d pid new_parent None) (\<lambda>parent.
     rguard (\<not> valid_new_parent t category subtree parent)
       (GraphMutationValidationError ''newParentNodeId is not a valid ACTIVE canonical parent in the new category'')
    (rbind (check_ancestors d pid category subtree [] parent) (\<lambda>_.
     rbind (attach_to pid (nd_id n) (nd_id parent) now (d\<lparr>db_relations :=
              update_where (\<lambda>r. live_attachment pid r \<and> rl_from_node_id r = nd_id n) (end_relation now) (db_relations d)\<rparr>)) (\<lambda>d1.
       Inr (set_node (nd_id n) (\<lambda>m. m\<lparr>nd_parent_id := Some (nd_id parent), nd_graph_state := ACTIVE,
              nd_consistency_status := ''NORMAL''\<rparr>) d1))))))"

section \<open>A changed type\<close>

text \<open>The relations of the node are checked one after the other: a parent that is no longer allowed ends its relation.\<close>

fun sort_attachments :: "string \<Rightarrow> node_type \<Rightarrow> time \<Rightarrow> relation list \<Rightarrow> (relation \<times> node) list \<Rightarrow> db \<Rightarrow> ((relation \<times> node) list \<times> db) result" where
  "sort_attachments pid t now [] valid d = Inr (valid, d)"
| "sort_attachments pid t now (r # rs) valid d =
     rbind (resolve_canonical_node d pid (rl_to_node_id r) None) (\<lambda>parent.
       if nd_graph_state parent = ACTIVE \<and> nd_node_type parent \<in> allowed_parents t
       then sort_attachments pid t now rs (valid @ [(r, parent)]) d
       else sort_attachments pid t now rs valid
              (d\<lparr>db_relations := update_where (\<lambda>x. rl_id x = rl_id r) (end_relation now) (db_relations d)\<rparr>))"

definition reconcile_edited_node_structure :: "string \<Rightarrow> node \<Rightarrow> time \<Rightarrow> db \<Rightarrow> db result" where
  "reconcile_edited_node_structure pid n now d =
     (let attached = filter (\<lambda>r. live_attachment pid r \<and> rl_from_node_id r = nd_id n) (db_relations d) in
      if nd_node_type n = DECISION
      then Inr (set_node (nd_id n) (\<lambda>m. m\<lparr>nd_parent_id := None, nd_graph_state := ACTIVE\<rparr>)
             (d\<lparr>db_relations := update_where (\<lambda>r. live_attachment pid r \<and> rl_from_node_id r = nd_id n) (end_relation now) (db_relations d)\<rparr>))
      else rbind (sort_attachments pid (nd_node_type n) now attached [] d) (\<lambda>(valid, d1).
             case valid of
               [] \<Rightarrow> Inr (set_node (nd_id n) (\<lambda>m. m\<lparr>nd_parent_id := None, nd_graph_state := UNATTACHED,
                        nd_consistency_status := ''NEEDS_ATTENTION''\<rparr>) d1)
             | [(_, parent)] \<Rightarrow> Inr (set_node (nd_id n) (\<lambda>m. m\<lparr>nd_parent_id := Some (nd_id parent), nd_graph_state := ACTIVE,
                        nd_consistency_status := ''NORMAL''\<rparr>) d1)
             | _ \<Rightarrow> Inl (GraphIntegrityError ''Node has multiple active structural parents'')))"

definition mark_structural_dependents :: "string \<Rightarrow> uuid \<Rightarrow> db \<Rightarrow> db" where
  "mark_structural_dependents pid parent d =
     (let children = map rl_from_node_id (filter (\<lambda>r. live_attachment pid r \<and> rl_to_node_id r = parent) (db_relations d))
      in d\<lparr>db_nodes := update_where (\<lambda>n. nd_id n \<in> set children \<and> nd_project_id n = pid
             \<and> \<not> (nd_graph_state n = DELETED \<or> nd_graph_state n = MERGED)) (\<lambda>n. n\<lparr>nd_consistency_status := ''NEEDS_ATTENTION''\<rparr>) (db_nodes d)\<rparr>)"


section \<open>Editing a node\<close>

record user_edit =
  ue_title :: "string option"
  ue_content :: "string option"
  ue_node_type :: "string option"
  ue_category :: "string option"
  ue_due_date :: "string option"
  ue_evidence_assertion :: "string option"
  ue_new_parent :: "uuid option"

definition node_type_of :: "string \<Rightarrow> node_type option" where
  "node_type_of s = find (\<lambda>t. node_type_value t = s) [DECISION, ACTION, ISSUE]"

definition user_revision_args :: "string \<Rightarrow> string \<Rightarrow> node_type \<Rightarrow> string \<Rightarrow> string option \<Rightarrow> string \<Rightarrow> evidence_spec list \<Rightarrow> bool \<Rightarrow> revision_args" where
  "user_revision_args title content t category due actor specs requires =
     \<lparr>ra_title = title, ra_content = content, ra_node_type = t, ra_category = category, ra_due_date = due, ra_created_by_type = ''USER'',
      ra_created_by_id = Some actor, ra_generation_run_id = None, ra_evidence_specs = specs, ra_requires_evidence = requires,
      ra_legacy_imported = False\<rparr>"

text \<open>A revision with unchanged content under a category: the descendants of a category change and the nodes of a delete.\<close>

definition carry_revision :: "stdlib \<Rightarrow> string \<Rightarrow> string \<Rightarrow> time \<Rightarrow> node \<Rightarrow> db \<Rightarrow> db result" where
  "carry_revision L actor category now n d =
     (let specs = current_revision_evidence_specs d n
      in rbind (create_node_revision L n (user_revision_args (nd_title n) (nd_content n) (nd_node_type n) category (nd_due_date n) actor
                 specs (specs \<noteq> [])) now d) (\<lambda>(_, d1). Inr d1))"

fun carry_revisions :: "stdlib \<Rightarrow> string \<Rightarrow> string \<Rightarrow> time \<Rightarrow> node list \<Rightarrow> db \<Rightarrow> db result" where
  "carry_revisions L actor category now [] d = Inr d"
| "carry_revisions L actor category now (n # ns) d =
     rbind (carry_revision L actor category now (refreshed d n) d) (carry_revisions L actor category now ns)"

definition add_assertion :: "string option \<Rightarrow> evidence_spec list \<Rightarrow> evidence_spec list result" where
  "add_assertion assertion specs =
     (case assertion of None \<Rightarrow> Inr specs | Some t \<Rightarrow> rbind (user_assertion_evidence t) (\<lambda>s. Inr (specs @ [s])))"

text \<open>The moves of an edit: the subtree that takes the new category, and the database after the node was put under its new parent.\<close>

definition edit_structure :: "string \<Rightarrow> node \<Rightarrow> node_type \<Rightarrow> string \<Rightarrow> uuid option \<Rightarrow> time \<Rightarrow> db \<Rightarrow> (node list \<times> db) result" where
  "edit_structure pid n t category new_parent now d =
     (if category \<noteq> nd_category n
      then rbind (active_subtree d pid n) (\<lambda>subtree.
             if t = ACTION \<or> t = ISSUE
             then (case new_parent of
                     None \<Rightarrow> Inl (GraphMutationValidationError ''CATEGORY_REPARENT_REQUIRED: Action/Issue category changes require newParentNodeId'')
                   | Some p \<Rightarrow> rbind (reparent_for_category_change pid n t category p (map nd_id subtree) now d) (\<lambda>d1. Inr (subtree, d1)))
             else if new_parent \<noteq> None
             then Inl (GraphMutationValidationError ''Decision category changes do not accept newParentNodeId'')
             else Inr (subtree, d))
      else case new_parent of
             None \<Rightarrow> Inr ([n], d)
           | Some p \<Rightarrow> rbind (reparent_for_category_change pid n t category p [nd_id n] now d) (\<lambda>d1. Inr ([n], d1)))"

definition edit_before :: "node \<Rightarrow> json" where
  "edit_before n = JObj [(''nodeId'', JStr (UuidTxt (nd_id n))), (''title'', jstr (nd_title n)), (''content'', jstr (nd_content n)),
     (''nodeType'', jstr (node_type_value (nd_node_type n))), (''category'', jstr (nd_category n)), (''version'', JInt (nd_version n))]"

definition edit_type :: "user_edit \<Rightarrow> node \<Rightarrow> node_type option" where
  "edit_type e n = node_type_of (or_str (ue_node_type e) (node_type_value (nd_node_type n)))"

definition edit_title :: "user_edit \<Rightarrow> node \<Rightarrow> string" where
  "edit_title e n = (case ue_title e of Some t \<Rightarrow> strip t | None \<Rightarrow> nd_title n)"

definition edit_content :: "user_edit \<Rightarrow> node \<Rightarrow> string" where
  "edit_content e n = (case ue_content e of Some t \<Rightarrow> t | None \<Rightarrow> nd_content n)"

definition edit_due :: "user_edit \<Rightarrow> node \<Rightarrow> string option" where
  "edit_due e n = (if ue_due_date e \<noteq> None then ue_due_date e else nd_due_date n)"

definition apply_edit ::
  "stdlib \<Rightarrow> string \<Rightarrow> string \<Rightarrow> string option \<Rightarrow> user_edit \<Rightarrow> node \<Rightarrow> node_type \<Rightarrow> string \<Rightarrow> evidence_spec list \<Rightarrow> time \<Rightarrow> db
    \<Rightarrow> (user_graph_mutation_result \<times> db) result" where
  "apply_edit L pid actor request_id e n t category specs now d =
     rbind (edit_structure pid n t category (ue_new_parent e) now d) (\<lambda>(subtree, d1).
     rbind (create_node_revision L (refreshed d1 n) (user_revision_args (edit_title e n) (edit_content e n) t category (edit_due e n) actor specs True) now d1) (\<lambda>(_, d2).
     rbind (if edit_title e n \<noteq> nd_title n \<or> edit_content e n \<noteq> nd_content n \<or> t \<noteq> nd_node_type n \<or> ue_evidence_assertion e \<noteq> None
            then rbind (reconcile_embedding_status_after_revision L (refreshed d2 n) d2) (\<lambda>(_, d3). Inr d3) else Inr d2) (\<lambda>d3.
     rbind (if category \<noteq> nd_category n then carry_revisions L actor category now (tl subtree) d3 else Inr d3) (\<lambda>d4.
     rbind (if t \<noteq> nd_node_type n
            then rbind (reconcile_edited_node_structure pid (refreshed d4 n) now d4) (\<lambda>d5. Inr (mark_structural_dependents pid (nd_id n) d5))
            else Inr d4) (\<lambda>d6.
     let d7 = user_event pid (refreshed d6 n) actor request_id ''USER_EDIT_NODE'' (edit_before n) [] now d6
     in rbind (stage_project_graph_changed pid (map (refreshed d7) subtree) [] now d7) (\<lambda>(_, d8).
        Inr (mutation_result (refreshed d8 n) None True, d8)))))))"

definition user_edit_node ::
  "stdlib \<Rightarrow> string \<Rightarrow> uuid \<Rightarrow> string \<Rightarrow> string option \<Rightarrow> int \<Rightarrow> user_edit \<Rightarrow> time \<Rightarrow> db \<Rightarrow> (user_graph_mutation_result \<times> db) result" where
  "user_edit_node L pid i actor request_id expected_version e now d =
     rbind (get_project_node d pid i False) (\<lambda>n.
     rguard (nd_graph_state n \<in> {MERGED, DELETED, ARCHIVED, EXCLUDED}) (GraphMutationValidationError ''edit the available canonical Node instead'')
    (rguard (nd_version n \<noteq> expected_version) (NodeVersionConflict (nd_id n) expected_version (nd_version n))
    (let category = or_str (ue_category e) (nd_category n) in
     rguard (edit_title e n = []) (GraphMutationValidationError ''title must not be blank'')
    (case edit_type e n of
       None \<Rightarrow> Inl (GraphMutationValidationError ''unsupported Node type'')
     | Some t \<Rightarrow>
         rbind (add_assertion (ue_evidence_assertion e) (current_revision_evidence_specs d n)) (\<lambda>specs.
         rguard (specs = []) (GraphMutationValidationError ''an edit requires retained Evidence or a user assertion'')
        (if edit_title e n = nd_title n \<and> edit_content e n = nd_content n \<and> t = nd_node_type n \<and> category = nd_category n
            \<and> edit_due e n = nd_due_date n \<and> ue_evidence_assertion e = None \<and> ue_new_parent e = None
         then Inr (mutation_result n None False, d)
         else apply_edit L pid actor request_id e n t category specs now d))))))"

section \<open>Creating a node\<close>

record user_creation =
  uk_node_type :: string
  uk_category :: string
  uk_title :: string
  uk_content :: string
  uk_due_date :: "string option"
  uk_evidence_assertion :: string
  uk_external_meeting_id :: "string option"

definition user_node_row :: "stdlib \<Rightarrow> string \<Rightarrow> string \<Rightarrow> user_creation \<Rightarrow> node_type \<Rightarrow> uuid \<Rightarrow> uuid \<Rightarrow> time \<Rightarrow> node" where
  "user_node_row L pid actor c t item i now =
     \<lparr>nd_id = i, nd_source_candidate_id = None, nd_project_id = pid, nd_source_meeting_id = or_str (uk_external_meeting_id c) ''USER_CREATED'',
      nd_source_item_id = ''user-'' @ uuid_str L item, nd_node_type = t, nd_category = uk_category c, nd_title = strip (uk_title c),
      nd_content = uk_content c, nd_parent_id = None, nd_graph_state = (if t = DECISION then ACTIVE else UNATTACHED),
      nd_merged_into_node_id = None, nd_analysis_status = AS_ANALYZED, nd_analysis_input_hash = None, nd_current_analysis_run_id = None,
      nd_current_revision_id = None, nd_origin_type = ''USER_CREATED'', nd_last_actor_type = ''USER'', nd_consistency_status = ''NORMAL'',
      nd_deleted_at = None, nd_deleted_by = None, nd_due_date = uk_due_date c, nd_version = 1, nd_initial_reviewed_by = None,
      nd_initial_reviewed_at = None, nd_confirmed_by = Some actor, nd_confirmed_at = Some now, nd_created_at = now, nd_updated_at = now\<rparr>"

definition create_user_node ::
  "stdlib \<Rightarrow> string \<Rightarrow> string \<Rightarrow> string option \<Rightarrow> user_creation \<Rightarrow> time \<Rightarrow> db \<Rightarrow> (user_graph_mutation_result \<times> db) result" where
  "create_user_node L pid actor request_id c now d =
     (case node_type_of (uk_node_type c) of
        None \<Rightarrow> Inl (GraphMutationValidationError ''unsupported Node type'')
      | Some t \<Rightarrow>
          (let (item, d0) = uuid4 d; (i, d1) = uuid4 d0;
               n = user_node_row L pid actor c t item i now;
               d2 = d1\<lparr>db_nodes := db_nodes d1 @ [n]\<rparr>
           in rbind (user_assertion_evidence (uk_evidence_assertion c)) (\<lambda>spec.
              rbind (create_node_revision L n (user_revision_args (nd_title n) (nd_content n) t (nd_category n) (nd_due_date n) actor [spec] True) now d2) (\<lambda>(_, d3).
              let d4 = user_event pid (refreshed d3 n) actor request_id ''USER_CREATE_NODE'' (JObj []) [] now d3
              in rbind (stage_project_graph_changed pid [refreshed d4 n] [] now d4) (\<lambda>(_, d5).
                 Inr (mutation_result (refreshed d5 n) None True, d5))))))"

section \<open>Deleting a node\<close>

definition end_relations_of :: "string \<Rightarrow> uuid list \<Rightarrow> time \<Rightarrow> db \<Rightarrow> db" where
  "end_relations_of pid ids now d = d\<lparr>db_relations := update_where (\<lambda>r. rl_project_id r = pid
     \<and> (rl_from_node_id r \<in> set ids \<or> rl_to_node_id r \<in> set ids) \<and> rl_status r = REL_CONFIRMED \<and> rl_valid_to r = None)
     (end_relation now) (db_relations d)\<rparr>"

definition merged_sources :: "db \<Rightarrow> string \<Rightarrow> uuid \<Rightarrow> node list" where
  "merged_sources d pid i = sort_key nd_id (filter (\<lambda>n. nd_project_id n = pid \<and> nd_graph_state n = MERGED
     \<and> nd_merged_into_node_id n = Some i \<and> nd_deleted_at n = None) (db_nodes d))"

definition entomb :: "string \<Rightarrow> time \<Rightarrow> node \<Rightarrow> node" where
  "entomb actor now n = n\<lparr>nd_graph_state := DELETED, nd_deleted_at := Some now, nd_deleted_by := Some actor, nd_last_actor_type := ''USER''\<rparr>"

definition delete_merged_source :: "stdlib \<Rightarrow> string \<Rightarrow> string \<Rightarrow> string option \<Rightarrow> uuid \<Rightarrow> time \<Rightarrow> node \<Rightarrow> db \<Rightarrow> db result" where
  "delete_merged_source L pid actor request_id root now s d =
     rbind (carry_revision L actor (nd_category s) now s d) (\<lambda>d1.
       let d2 = mark_node_embedding_stale (nd_id s)
                  (set_node (nd_id s) (\<lambda>m. (entomb actor now m)\<lparr>nd_parent_id := None, nd_merged_into_node_id := None\<rparr>) d1);
           s' = refreshed d2 s
       in Inr (user_event pid s' actor request_id ''USER_DELETE_MERGED''
            (JObj [(''nodeId'', JStr (UuidTxt (nd_id s))), (''graphState'', jstr ''MERGED''), (''version'', JInt (nd_version s' - 1))])
            [(''representativeNodeId'', JStr (UuidTxt root))] now d2))"

fun delete_merged_sources :: "stdlib \<Rightarrow> string \<Rightarrow> string \<Rightarrow> string option \<Rightarrow> uuid \<Rightarrow> time \<Rightarrow> node list \<Rightarrow> db \<Rightarrow> db result" where
  "delete_merged_sources L pid actor request_id root now [] d = Inr d"
| "delete_merged_sources L pid actor request_id root now (s # ss) d =
     rbind (delete_merged_source L pid actor request_id root now s d) (delete_merged_sources L pid actor request_id root now ss)"

definition delete_before :: "node \<Rightarrow> json" where
  "delete_before n = JObj [(''nodeId'', JStr (UuidTxt (nd_id n))), (''graphState'', jstr (graph_state_value (nd_graph_state n))),
     (''version'', JInt (nd_version n))]"

definition announce_user_delete :: "stdlib \<Rightarrow> string \<Rightarrow> node \<Rightarrow> node list \<Rightarrow> time \<Rightarrow> db \<Rightarrow> db result" where
  "announce_user_delete L pid n sources now d =
     rbind (one_or_none (filter (\<lambda>c. mc_project_id c = pid \<and> mc_meeting_id c = Some (nd_source_meeting_id n)) (db_commands d))) (\<lambda>command.
       case command of
         None \<Rightarrow> rbind (stage_project_graph_changed pid [] (map (refreshed d) (n # sources)) now d) (\<lambda>(_, d1). Inr d1)
       | Some c \<Rightarrow> rbind (stage_project_graph_changed_v3 L c None ''MEETING_ANALYSIS'' now d) (\<lambda>(_, d1). Inr d1))"

definition user_delete_node ::
  "stdlib \<Rightarrow> string \<Rightarrow> uuid \<Rightarrow> string \<Rightarrow> string option \<Rightarrow> int \<Rightarrow> time \<Rightarrow> db \<Rightarrow> (user_graph_mutation_result \<times> db) result" where
  "user_delete_node L pid i actor request_id expected_version now d =
     rbind (get_project_node d pid i True) (\<lambda>n.
     if nd_graph_state n = DELETED then Inr (mutation_result n None False, d)
     else
     rguard (nd_version n \<noteq> expected_version) (NodeVersionConflict (nd_id n) expected_version (nd_version n))
    (rguard (nd_graph_state n = MERGED) (GraphMutationValidationError ''MERGED_NODE_DELETE_REQUIRES_UNMERGE'')
    (rguard (\<not> (nd_graph_state n = ACTIVE \<or> nd_graph_state n = UNATTACHED))
       (GraphMutationValidationError ''only ACTIVE or UNATTACHED Nodes can be deleted'')
    (rbind (structural_descendants_for_delete d pid (nd_id n)) (\<lambda>children.
     rguard (children \<noteq> []) (NodeHasChildrenError ''NODE_HAS_CHILDREN'')
    (let sources = merged_sources d pid (nd_id n);
         d1 = end_relations_of pid (nd_id n # map nd_id sources) now d
     in rbind (delete_merged_sources L pid actor request_id (nd_id n) now sources d1) (\<lambda>d2.
        rbind (carry_revision L actor (nd_category n) now (refreshed d2 n) d2) (\<lambda>d3.
        let d4 = mark_node_embedding_stale (nd_id n) (set_node (nd_id n) (entomb actor now) d3);
            d5 = user_event pid (refreshed d4 n) actor request_id ''USER_DELETE_NODE'' (delete_before n) [] now d4
        in rbind (announce_user_delete L pid (refreshed d5 n) sources now d5) (\<lambda>d6.
           Inr (mutation_result (refreshed d6 n) None True, d6))))))))))"

section \<open>Merging by hand\<close>

definition user_merge_args :: "string \<Rightarrow> string \<Rightarrow> string option \<Rightarrow> json \<Rightarrow> merge_args" where
  "user_merge_args actor reason_code reason_text evaluation = \<lparr>ma_actor_type = ''USER'', ma_actor_id = Some actor, ma_generation_run_id = None,
     ma_reason_code = reason_code, ma_reason_text = reason_text, ma_evaluation = evaluation\<rparr>"

definition user_confirmed :: json where
  "user_confirmed = JObj [(''identityBasis'', JObj [(''userConfirmed'', JBool True)]),
     (''conflictsChecked'', JObj [(''userConfirmed'', JObj [(''result'', jstr ''PASS'')])])]"

definition user_merge_nodes ::
  "string \<Rightarrow> uuid \<Rightarrow> uuid \<Rightarrow> int \<Rightarrow> int \<Rightarrow> string \<Rightarrow> string \<Rightarrow> time \<Rightarrow> db \<Rightarrow> (user_graph_mutation_result \<times> db) result" where
  "user_merge_nodes pid source_id target_id source_expected target_expected actor reason now d =
     rguard (source_id = target_id) (GraphMutationValidationError ''a Node cannot merge into itself'')
    (case (find (\<lambda>n. nd_id n = source_id \<and> nd_project_id n = pid) (db_nodes d), find (\<lambda>n. nd_id n = target_id \<and> nd_project_id n = pid) (db_nodes d)) of
       (Some source, Some target) \<Rightarrow>
         rguard (nd_version source \<noteq> source_expected) (NodeVersionConflict source_id source_expected (nd_version source))
        (rguard (nd_version target \<noteq> target_expected) (NodeVersionConflict target_id target_expected (nd_version target))
        (rbind (apply_logical_merge pid source target (user_merge_args actor ''USER_CONFIRMED_IDENTITY''
                  (if strip reason = [] then None else Some (strip reason)) user_confirmed) now d) (\<lambda>(operation, d1).
         rbind (resolve_canonical_node d1 pid target_id None) (\<lambda>canonical.
         rbind (stage_project_graph_changed pid [refreshed d1 source, canonical] [] now d1) (\<lambda>(_, d2).
           Inr (mutation_result (refreshed d2 source) (Some (mo_id operation)) True, d2))))))
     | _ \<Rightarrow> Inl (GraphMutationValidationError ''merge Nodes are missing or cross project ownership''))"

definition remerge_operation :: "stdlib \<Rightarrow> string \<Rightarrow> uuid \<Rightarrow> string \<Rightarrow> time \<Rightarrow> db \<Rightarrow> (user_graph_mutation_result \<times> db) result" where
  "remerge_operation L pid op_id actor now d =
     rbind (one_or_none (filter (\<lambda>m. mo_id m = op_id \<and> mo_project_id m = pid) (db_merge_operations d))) (\<lambda>found.
       case found of
         None \<Rightarrow> Inl (GraphMutationValidationError ''merge operation not found'')
       | Some previous \<Rightarrow>
           if mo_status previous = APPLIED
           then rbind (get_project_node d pid (mo_source_node_id previous) False) (\<lambda>source.
                  Inr (mutation_result source (Some (mo_id previous)) False, d))
           else rbind (get_project_node d pid (mo_source_node_id previous) False) (\<lambda>source.
                rbind (resolve_canonical_node d pid (mo_target_node_id previous) (Some (nd_node_type source))) (\<lambda>target.
                rbind (apply_logical_merge pid source target (user_merge_args actor ''USER_REMERGE''
                         (Some (''remerge of '' @ uuid_str L (mo_id previous))) (mo_evaluation previous)) now d) (\<lambda>(operation, d1).
                rbind (stage_project_graph_changed pid [refreshed d1 source, refreshed d1 target] [] now d1) (\<lambda>(_, d2).
                  Inr (mutation_result (refreshed d2 source) (Some (mo_id operation)) True, d2))))))"

section \<open>The subtree is the set of reachable descendants\<close>

definition child_edges :: "(graph_state \<Rightarrow> bool) \<Rightarrow> db \<Rightarrow> string \<Rightarrow> (uuid \<times> uuid) set" where
  "child_edges live d pid = {(p, c). \<exists>n \<in> set (db_nodes d). nd_id n = c \<and> nd_project_id n = pid \<and> nd_parent_id n = Some p
     \<and> live (nd_graph_state n) \<and> nd_deleted_at n = None}"

lemma child_rows_ids: "nd_id ` set (child_rows live d pid frontier) = child_edges live d pid `` set frontier"
  by (auto simp: child_rows_def child_edges_def split: option.splits)

lemma child_edges_parent:
  assumes "nodes_unique d" "(p, c) \<in> child_edges live d pid" "(q, c) \<in> child_edges live d pid"
  shows "p = q"
proof -
  from assms(2,3) obtain n m where "n \<in> set (db_nodes d)" "nd_id n = c" "nd_parent_id n = Some p"
    "m \<in> set (db_nodes d)" "nd_id m = c" "nd_parent_id m = Some q" by (auto simp: child_edges_def)
  then show ?thesis using assms(1) distinct_key_inj [of nd_id "db_nodes d" n m] by auto
qed

text \<open>The invariant of the loop: what was visited is reachable, every edge out of a finished node has been followed, and every visited node
  other than the root was found through a finished node.\<close>

definition subtree_inv :: "(uuid \<times> uuid) set \<Rightarrow> uuid \<Rightarrow> uuid list \<Rightarrow> uuid list \<Rightarrow> bool" where
  "subtree_inv E root visited frontier \<longleftrightarrow> root \<in> set visited \<and> set visited \<subseteq> E\<^sup>* `` {root} \<and> set frontier \<subseteq> set visited
     \<and> E `` (set visited - set frontier) \<subseteq> set visited \<and> set visited - {root} \<subseteq> E `` (set visited - set frontier)"

lemma subtree_step:
  assumes "subtree_inv (child_edges live d pid) root visited frontier"
    and "visit_children m (child_rows live d pid frontier) visited = Inr visited'"
  shows "subtree_inv (child_edges live d pid) root visited' (map nd_id (child_rows live d pid frontier))"
proof -
  let ?E = "child_edges live d pid" and ?C = "nd_id ` set (child_rows live d pid frontier)"
  have C: "?C = ?E `` set frontier" by (rule child_rows_ids)
  from visit_children_set [OF assms(2)] have v: "set visited' = ?C \<union> set visited" "?C \<inter> set visited = {}" by auto
  have inv: "root \<in> set visited" "set visited \<subseteq> ?E\<^sup>* `` {root}" "set frontier \<subseteq> set visited"
    "?E `` (set visited - set frontier) \<subseteq> set visited" "set visited - {root} \<subseteq> ?E `` (set visited - set frontier)"
    using assms(1) by (auto simp: subtree_inv_def)
  have "?C \<subseteq> ?E\<^sup>* `` {root}" unfolding C using inv(2,3) by (blast intro: rtrancl.rtrancl_into_rtrancl)
  moreover have "?E `` set visited \<subseteq> ?C \<union> set visited" unfolding C using inv(4) by blast
  moreover have "set visited' - ?C = set visited" using v by blast
  moreover have "set visited' - {root} \<subseteq> ?E `` set visited" unfolding v(1) C using inv(3,5) by blast
  ultimately show ?thesis using inv(1,2) v(1) by (auto simp: subtree_inv_def)
qed

lemma subtree_loop_exact:
  assumes "subtree_loop live m d pid visited frontier acc = Inr ns" "subtree_inv (child_edges live d pid) root visited frontier"
  shows "\<exists>more. ns = acc @ more \<and> set (map nd_id more) \<union> set visited = (child_edges live d pid)\<^sup>* `` {root}
    \<and> set (map nd_id more) \<inter> set visited = {} \<and> distinct (map nd_id more) \<and> set more \<subseteq> set (db_nodes d)"
  using assms
proof (induction live m d pid visited frontier acc arbitrary: ns rule: subtree_loop.induct)
  case (1 live m d pid visited frontier acc)
  let ?E = "child_edges live d pid" and ?C = "child_rows live d pid frontier"
  show ?case
  proof (cases "frontier = []")
    case True
    with "1.prems"(1) have ns: "ns = acc" by (simp add: subtree_loop.simps)
    have "?E `` set visited \<subseteq> set visited" "root \<in> set visited" "set visited \<subseteq> ?E\<^sup>* `` {root}"
      using "1.prems"(2) True by (simp_all add: subtree_inv_def)
    moreover from this(1,2) have "?E\<^sup>* `` {root} \<subseteq> set visited" using Image_closed_trancl by blast
    ultimately show ?thesis using ns by auto
  next
    case False
    with "1.prems"(1) obtain visited' where v: "visit_children m ?C visited = Inr visited'"
      and rec: "subtree_loop live m d pid visited' (map nd_id ?C) (acc @ ?C) = Inr ns"
      by (auto simp: subtree_loop.simps [of live m d pid visited frontier] split: sum.splits)
    from "1.IH" [OF False v rec subtree_step [OF "1.prems"(2) v]] obtain more where
      more: "ns = (acc @ ?C) @ more" "set (map nd_id more) \<union> set visited' = ?E\<^sup>* `` {root}" "set (map nd_id more) \<inter> set visited' = {}"
        "distinct (map nd_id more)" "set more \<subseteq> set (db_nodes d)" by blast
    from visit_children_set [OF v] have s: "set visited' = nd_id ` set ?C \<union> set visited" "nd_id ` set ?C \<inter> set visited = {}" "distinct (map nd_id ?C)"
      by auto
    have "set ?C \<subseteq> set (db_nodes d)" by (auto simp: child_rows_def)
    with more s show ?thesis by (intro exI [of _ "?C @ more"]) auto
  qed
qed

lemma visit_children_fresh:
  "distinct (map nd_id cs) \<Longrightarrow> nd_id ` set cs \<inter> set visited = {} \<Longrightarrow> \<exists>v. visit_children m cs visited = Inr v"
  by (induction cs arbitrary: visited) auto

lemma subtree_loop_total:
  assumes "nodes_unique d" "(root, root) \<notin> (child_edges live d pid)\<^sup>+" "subtree_inv (child_edges live d pid) root visited frontier"
  shows "\<exists>ns. subtree_loop live m d pid visited frontier acc = Inr ns"
  using assms
proof (induction live m d pid visited frontier acc rule: subtree_loop.induct)
  case (1 live m d pid visited frontier acc)
  let ?E = "child_edges live d pid" and ?C = "child_rows live d pid frontier"
  show ?case
  proof (cases "frontier = []")
    case True
    then show ?thesis by (simp add: subtree_loop.simps)
  next
    case False
    have "distinct (map nd_id ?C)"
      using "1.prems"(1) by (simp add: child_rows_def distinct_map inj_on_def)
    moreover have "nd_id ` set ?C \<inter> set visited = {}"
    proof (rule ccontr)
      assume "nd_id ` set ?C \<inter> set visited \<noteq> {}"
      then obtain c p where c: "c \<in> set visited" "p \<in> set frontier" "(p, c) \<in> ?E" by (auto simp: child_rows_ids)
      have inv: "set visited \<subseteq> ?E\<^sup>* `` {root}" "set frontier \<subseteq> set visited" "set visited - {root} \<subseteq> ?E `` (set visited - set frontier)"
        using "1.prems"(3) by (auto simp: subtree_inv_def)
      show False
      proof (cases "c = root")
        case True
        with c inv have "(root, p) \<in> ?E\<^sup>*" "(p, root) \<in> ?E" by auto
        with "1.prems"(2) show False by (meson rtrancl_into_trancl1)
      next
        case False
        with c(1) inv(3) obtain q where "q \<in> set visited - set frontier" "(q, c) \<in> ?E" by blast
        with child_edges_parent [OF "1.prems"(1) c(3)] c(2) show False by auto
      qed
    qed
    ultimately obtain visited' where v: "visit_children m ?C visited = Inr visited'" using visit_children_fresh by blast
    from "1.IH" [OF False v "1.prems"(1,2) subtree_step [OF "1.prems"(3) v]] v False show ?thesis
      by (simp add: subtree_loop.simps [of live m d pid visited frontier])
  qed
qed

lemma subtree_start: "subtree_inv E root [root] [root]"
  by (auto simp: subtree_inv_def)


text \<open>C11. The subtree of a category change is exactly the set of active descendants. The loop returns the node itself first and then every
  node that is reachable from it over parent links of active nodes of the project, each once; and it raises the cycle error only
  when the node is its own descendant.\<close>

theorem active_subtree_exact:
  assumes "nodes_unique d"
  shows "(active_subtree d pid root = Inr ns \<longrightarrow> hd ns = root \<and> distinct (map nd_id ns)
      \<and> set (map nd_id ns) = (child_edges (\<lambda>s. s = ACTIVE) d pid)\<^sup>* `` {nd_id root} \<and> set (tl ns) \<subseteq> set (db_nodes d))
    \<and> ((nd_id root, nd_id root) \<notin> (child_edges (\<lambda>s. s = ACTIVE) d pid)\<^sup>+ \<longrightarrow> (\<exists>ns. active_subtree d pid root = Inr ns))"
proof (intro conjI impI)
  assume "active_subtree d pid root = Inr ns"
  from subtree_loop_exact [OF this [unfolded active_subtree_def] subtree_start] obtain more where
    more: "ns = root # more" "set (map nd_id more) \<union> {nd_id root} = (child_edges (\<lambda>s. s = ACTIVE) d pid)\<^sup>* `` {nd_id root}"
      "nd_id root \<notin> set (map nd_id more)" "distinct (map nd_id more)" "set more \<subseteq> set (db_nodes d)" by auto
  then show "hd ns = root" "distinct (map nd_id ns)" "set (tl ns) \<subseteq> set (db_nodes d)" by auto
  show "set (map nd_id ns) = (child_edges (\<lambda>s. s = ACTIVE) d pid)\<^sup>* `` {nd_id root}" using more(1,2) by simp
next
  assume "(nd_id root, nd_id root) \<notin> (child_edges (\<lambda>s. s = ACTIVE) d pid)\<^sup>+"
  then show "\<exists>ns. active_subtree d pid root = Inr ns"
    using subtree_loop_total [OF assms _ subtree_start] unfolding active_subtree_def by blast
qed

lemma no_descendants:
  assumes "structural_descendants_for_delete d pid i = Inr []"
  shows "\<not> (\<exists>n \<in> set (db_nodes d). nd_project_id n = pid \<and> nd_parent_id n = Some i \<and> (nd_graph_state n = ACTIVE \<or> nd_graph_state n = UNATTACHED)
    \<and> nd_deleted_at n = None)"
proof
  let ?E = "child_edges (\<lambda>s. s = ACTIVE \<or> s = UNATTACHED) d pid"
  assume "\<exists>n \<in> set (db_nodes d). nd_project_id n = pid \<and> nd_parent_id n = Some i \<and> (nd_graph_state n = ACTIVE \<or> nd_graph_state n = UNATTACHED)
    \<and> nd_deleted_at n = None"
  then obtain c where c: "(i, c) \<in> ?E" by (auto simp: child_edges_def)
  from subtree_loop_exact [OF assms [unfolded structural_descendants_for_delete_def] subtree_start] have "?E\<^sup>* `` {i} = {i}" by auto
  with c have "c = i" by blast
  with c have "i \<in> nd_id ` set (child_rows (\<lambda>s. s = ACTIVE \<or> s = UNATTACHED) d pid [i])"
    by (auto simp: child_rows_ids)
  moreover have "\<exists>v. visit_children ''delete subtree contains a cycle'' (child_rows (\<lambda>s. s = ACTIVE \<or> s = UNATTACHED) d pid [i]) [i] = Inr v"
    using assms unfolding structural_descendants_for_delete_def
    by (simp add: subtree_loop.simps [of _ _ _ _ "[i]" "[i]"] split: sum.splits)
  then obtain v where "visit_children ''delete subtree contains a cycle'' (child_rows (\<lambda>s. s = ACTIVE \<or> s = UNATTACHED) d pid [i]) [i] = Inr v" by blast
  from visit_children_set [OF this] have "nd_id ` set (child_rows (\<lambda>s. s = ACTIVE \<or> s = UNATTACHED) d pid [i]) \<inter> {i} = {}" by simp
  ultimately show False by blast
qed

section \<open>What the steps of an edit leave alone\<close>

definition graph_side :: "db \<Rightarrow> db \<Rightarrow> bool" where
  "graph_side d d' \<longleftrightarrow> db_relations d' = db_relations d \<and> db_graph_states d' = db_graph_states d \<and> db_commands d' = db_commands d
     \<and> db_merge_operations d' = db_merge_operations d \<and> db_generation_runs d' = db_generation_runs d"

lemma graph_side_refl [simp]: "graph_side d d"
  by (simp add: graph_side_def)

lemma graph_side_trans: "graph_side d d1 \<Longrightarrow> graph_side d1 d2 \<Longrightarrow> graph_side d d2"
  by (simp add: graph_side_def)

lemma side_frame_graph_side: "side_frame d d' \<Longrightarrow> graph_side d d'"
  by (simp add: side_frame_def graph_side_def)

lemma user_event_frame: "db_nodes (user_event pid n actor rq ct before detail now d) = db_nodes d"
    "graph_side d (user_event pid n actor rq ct before detail now d)"
  by (simp_all add: user_event_def Let_def graph_side_def stage_outbox_merge_operations)

lemma mark_stale_frame: "db_nodes (mark_node_embedding_stale i d) = db_nodes d" "graph_side d (mark_node_embedding_stale i d)"
  by (simp_all add: mark_node_embedding_stale_def graph_side_def)

lemma set_node_side: "graph_side d (set_node i f d)"
  by (simp add: graph_side_def)

text \<open>A carried revision changes the row of its node only, and neither its place nor its state.\<close>

lemma carry_revision_ok:
  assumes "carry_revision L actor category now n d = Inr d'"
  shows "graph_side d d' \<and> (nodes_unique d \<longrightarrow> nodes_unique d')
    \<and> (\<forall>j. j \<noteq> nd_id n \<longrightarrow> node_by_id d' j = node_by_id d j)
    \<and> (\<forall>m. node_by_id d (nd_id n) = Some m \<longrightarrow> (\<exists>m'. node_by_id d' (nd_id n) = Some m' \<and> nd_category m' = category
         \<and> nd_parent_id m' = nd_parent_id m \<and> nd_graph_state m' = nd_graph_state m \<and> nd_merged_into_node_id m' = nd_merged_into_node_id m
         \<and> nd_deleted_at m' = nd_deleted_at m \<and> nd_project_id m' = nd_project_id m
         \<and> nd_version m' = nd_version n + (if nd_current_revision_id n = None then 0 else 1)))"
proof -
  from assms obtain r where c: "create_node_revision L n (user_revision_args (nd_title n) (nd_content n) (nd_node_type n) category (nd_due_date n) actor
      (current_revision_evidence_specs d n) (current_revision_evidence_specs d n \<noteq> [])) now d = Inr (r, d')"
    by (auto simp: carry_revision_def Let_def result_simps)
  show ?thesis using create_node_revision_frame [OF c] by (auto simp: user_revision_args_def dest: side_frame_graph_side)
qed

lemma delete_merged_source_ok:
  assumes "delete_merged_source L pid actor rq root now s d = Inr d'"
  shows "graph_side d d' \<and> (nodes_unique d \<longrightarrow> nodes_unique d') \<and> (\<forall>j. j \<noteq> nd_id s \<longrightarrow> node_by_id d' j = node_by_id d j)
    \<and> (\<forall>m. node_by_id d (nd_id s) = Some m \<longrightarrow> (\<exists>m'. node_by_id d' (nd_id s) = Some m' \<and> nd_graph_state m' = DELETED
         \<and> nd_deleted_at m' = Some now \<and> nd_merged_into_node_id m' = None \<and> nd_parent_id m' = None \<and> nd_project_id m' = nd_project_id m))"
proof -
  let ?f = "\<lambda>m. (entomb actor now m)\<lparr>nd_parent_id := None, nd_merged_into_node_id := None\<rparr>"
  from assms obtain d1 n' before detail where c: "carry_revision L actor (nd_category s) now s d = Inr d1"
    and d': "d' = user_event pid n' actor rq ''USER_DELETE_MERGED'' before detail now (mark_node_embedding_stale (nd_id s) (set_node (nd_id s) ?f d1))"
    by (auto simp: delete_merged_source_def Let_def result_simps)
  have side: "graph_side d1 d'"
    unfolding d' by (rule graph_side_trans [OF set_node_side graph_side_trans [OF mark_stale_frame(2) user_event_frame(2)]])
  have nodes: "db_nodes d' = db_nodes (set_node (nd_id s) ?f d1)" unfolding d' by (simp only: user_event_frame(1) mark_stale_frame(1))
  have n: "node_by_id d' j = (if j = nd_id s then map_option ?f (node_by_id d1 j) else node_by_id d1 j)" for j
    using node_by_id_set_node [of ?f "nd_id s" d1 j] node_by_id_cong [OF nodes] by (auto simp: entomb_def)
  have "nodes_unique d' = nodes_unique d1" using nodes nodes_unique_set_node [of ?f "nd_id s" d1] by (simp add: entomb_def)
  with carry_revision_ok [OF c] side n show ?thesis by (fastforce simp: entomb_def intro: graph_side_trans)
qed

definition tombstone :: "time \<Rightarrow> node \<Rightarrow> bool" where
  "tombstone now m \<longleftrightarrow> nd_graph_state m = DELETED \<and> nd_deleted_at m = Some now"

lemma delete_merged_sources_ok:
  assumes "delete_merged_sources L pid actor rq root now ss d = Inr d'" "distinct (map nd_id ss)"
  shows "graph_side d d' \<and> (nodes_unique d \<longrightarrow> nodes_unique d') \<and> (\<forall>j. j \<notin> nd_id ` set ss \<longrightarrow> node_by_id d' j = node_by_id d j)
    \<and> (\<forall>j \<in> nd_id ` set ss. \<forall>m. node_by_id d j = Some m \<longrightarrow> (\<exists>m'. node_by_id d' j = Some m' \<and> tombstone now m' \<and> nd_project_id m' = nd_project_id m))"
  using assms
proof (induction ss arbitrary: d)
  case (Cons s ss)
  from Cons.prems(1) obtain d1 where s: "delete_merged_source L pid actor rq root now s d = Inr d1"
    and ss: "delete_merged_sources L pid actor rq root now ss d1 = Inr d'" by (auto simp: result_simps)
  note a = delete_merged_source_ok [OF s]
  from Cons.IH [OF ss] Cons.prems(2) have b: "graph_side d1 d'" "nodes_unique d1 \<longrightarrow> nodes_unique d'"
    "\<forall>j. j \<notin> nd_id ` set ss \<longrightarrow> node_by_id d' j = node_by_id d1 j"
    "\<forall>j \<in> nd_id ` set ss. \<forall>m. node_by_id d1 j = Some m \<longrightarrow> (\<exists>m'. node_by_id d' j = Some m' \<and> tombstone now m' \<and> nd_project_id m' = nd_project_id m)"
    by simp_all
  have ns: "nd_id s \<notin> nd_id ` set ss" using Cons.prems(2) by simp
  have "\<exists>m'. node_by_id d' j = Some m' \<and> tombstone now m' \<and> nd_project_id m' = nd_project_id m"
    if "j \<in> nd_id ` set (s # ss)" "node_by_id d j = Some m" for j m
  proof (cases "j = nd_id s")
    case True
    with that(2) a obtain m1 where "node_by_id d1 (nd_id s) = Some m1" "tombstone now m1" "nd_project_id m1 = nd_project_id m"
      by (auto simp: tombstone_def)
    with b(3) ns True show ?thesis by auto
  next
    case False
    with that a have "node_by_id d1 j = Some m" by simp
    moreover have "j \<in> nd_id ` set ss" using that(1) False by auto
    ultimately show ?thesis using b(4) by blast
  qed
  moreover have "node_by_id d' j = node_by_id d j" if "j \<notin> nd_id ` set (s # ss)" for j using that a b(3) by simp
  ultimately show ?case using a b(1,2) graph_side_trans by blast
qed simp


lemma stage_project_graph_changed_frame:
  assumes "stage_project_graph_changed pid ups dels now d = Inr (x, d')" "graph_states_unique d"
  shows "db_nodes d' = db_nodes d \<and> db_relations d' = db_relations d \<and> db_generation_runs d' = db_generation_runs d
    \<and> graph_version_of d' = (graph_version_of d)(pid := graph_version_of d pid + 1)"
proof -
  obtain v d1 where b: "bump_graph_version pid now d = (v, d1)" by fastforce
  with assms(1) obtain j where "d' = snd (stage_v1 ''PROJECT_GRAPH_CHANGED'' ''project_graph'' (Txt pid) pid j now d1)"
    by (auto simp: stage_project_graph_changed_def Let_def split_beta result_simps)
  then have s: "db_nodes d' = db_nodes d1" "db_relations d' = db_relations d1" "db_graph_states d' = db_graph_states d1"
    "db_generation_runs d' = db_generation_runs d1" by (simp_all add: stage_v1_def)
  have "graph_version_of d' = graph_version_of d1" using s(3) by (intro ext) (simp add: graph_version_of_def)
  with s bump_graph_version_ok [OF assms(2) b] bump_graph_version_tables [of pid now d] bump_graph_version_db [of pid now d] b show ?thesis by simp
qed

lemma announce_user_delete_ok:
  assumes "announce_user_delete L pid n ss now d = Inr d'" "graph_states_unique d"
  shows "db_nodes d' = db_nodes d \<and> db_relations d' = db_relations d \<and> graph_version_of d' = (graph_version_of d)(pid := graph_version_of d pid + 1)"
proof -
  from assms(1) consider x where "stage_project_graph_changed pid [] (map (refreshed d) (n # ss)) now d = Inr (x, d')"
    | c e a v where "stage_project_graph_changed_v3 L c None ''MEETING_ANALYSIS'' now d = Inr ((e, a, v), d')" "mc_project_id c = pid"
    by (auto simp: announce_user_delete_def result_simps filter_eq_Cons_iff split: option.splits)
  then show ?thesis
  proof cases
    case 1
    then show ?thesis using stage_project_graph_changed_frame assms(2) by blast
  next
    case (2 c e a v)
    from stage_project_graph_changed_v3_ok [OF 2(1)] 2(2) obtain d1 where b: "bump_graph_version pid now d = (v, d1)"
      and s: "db_graph_states d' = db_graph_states d1" "db_nodes d' = db_nodes d" "db_relations d' = db_relations d" by auto
    have "graph_version_of d' = graph_version_of d1" using s(1) by (intro ext) (simp add: graph_version_of_def)
    with bump_graph_version_ok [OF assms(2) b] s show ?thesis by simp
  qed
qed

lemma user_delete_steps:
  assumes "user_delete_node L pid i actor rq v now d = Inr (res, d')" "ug_changed res"
  obtains n d2 d3 d4 n' where "get_project_node d pid i True = Inr n" "nd_graph_state n = ACTIVE \<or> nd_graph_state n = UNATTACHED" "nd_version n = v"
    "structural_descendants_for_delete d pid i = Inr []"
    "delete_merged_sources L pid actor rq i now (merged_sources d pid i) (end_relations_of pid (i # map nd_id (merged_sources d pid i)) now d) = Inr d2"
    "carry_revision L actor (nd_category n) now (refreshed d2 n) d2 = Inr d3"
    "d4 = user_event pid n' actor rq ''USER_DELETE_NODE'' (delete_before n) [] now (mark_node_embedding_stale i (set_node i (entomb actor now) d3))"
    "announce_user_delete L pid (refreshed d4 n) (merged_sources d pid i) now d4 = Inr d'"
proof -
  note result = that
  from assms(1) obtain n where n: "get_project_node d pid i True = Inr n" by (auto simp: user_delete_node_def result_simps)
  have i: "nd_id n = i" using get_project_node_in [OF n] by simp
  have nd: "nd_graph_state n \<noteq> DELETED" using assms n by (auto simp: user_delete_node_def mutation_result_def)
  let ?d4 = "\<lambda>d3. user_event pid (refreshed (mark_node_embedding_stale i (set_node i (entomb actor now) d3)) n) actor rq ''USER_DELETE_NODE''
      (delete_before n) [] now (mark_node_embedding_stale i (set_node i (entomb actor now) d3))"
  from assms(1) n i nd obtain d2 d3 where f: "nd_graph_state n = ACTIVE \<or> nd_graph_state n = UNATTACHED" "nd_version n = v"
    "structural_descendants_for_delete d pid i = Inr []"
    "delete_merged_sources L pid actor rq i now (merged_sources d pid i) (end_relations_of pid (i # map nd_id (merged_sources d pid i)) now d) = Inr d2"
    "carry_revision L actor (nd_category n) now (refreshed d2 n) d2 = Inr d3"
    "announce_user_delete L pid (refreshed (?d4 d3) n) (merged_sources d pid i) now (?d4 d3) = Inr d'"
    by (auto simp: user_delete_node_def result_simps Let_def)
  from result [OF n f(1-5) refl f(6)] show thesis .
qed


lemma merged_sources_distinct: "nodes_unique d \<Longrightarrow> distinct (map nd_id (merged_sources d pid i))"
  by (simp add: merged_sources_def distinct_map inj_on_def)

lemma merged_sources_in: "s \<in> set (merged_sources d pid i) \<Longrightarrow> s \<in> set (db_nodes d) \<and> nd_graph_state s = MERGED \<and> nd_merged_into_node_id s = Some i"
  by (simp add: merged_sources_def)

definition untouched_relations :: "string \<Rightarrow> uuid set \<Rightarrow> db \<Rightarrow> bool" where
  "untouched_relations pid gone d \<longleftrightarrow> \<not> (\<exists>r \<in> set (db_relations d). rl_project_id r = pid \<and> rl_status r = REL_CONFIRMED \<and> rl_valid_to r = None
     \<and> (rl_from_node_id r \<in> gone \<or> rl_to_node_id r \<in> gone))"

lemma end_relations_untouched: "untouched_relations pid (set ids) (end_relations_of pid ids now d)"
proof -
  let ?p = "\<lambda>r. rl_project_id r = pid \<and> (rl_from_node_id r \<in> set ids \<or> rl_to_node_id r \<in> set ids) \<and> rl_status r = REL_CONFIRMED \<and> rl_valid_to r = None"
  have "\<not> ?p r" if "r \<in> set (update_where ?p (end_relation now) (db_relations d))" for r
    using that by (rule in_update_whereE) (simp_all add: end_relation_def)
  then show ?thesis by (auto simp: untouched_relations_def end_relations_of_def)
qed

definition deleted_with :: "db \<Rightarrow> string \<Rightarrow> uuid \<Rightarrow> uuid set" where
  "deleted_with d pid i = insert i (nd_id ` set (merged_sources d pid i))"

lemma user_delete_nodes:
  assumes "nodes_unique d" "graph_states_unique d" "user_delete_node L pid i actor rq v now d = Inr (res, d')" "ug_changed res"
  shows "(\<forall>j \<in> deleted_with d pid i. \<exists>m. node_by_id d' j = Some m \<and> tombstone now m) \<and> nodes_unique d'
    \<and> (\<forall>j. j \<notin> deleted_with d pid i \<longrightarrow> node_by_id d' j = node_by_id d j)
    \<and> untouched_relations pid (deleted_with d pid i) d'
    \<and> graph_version_of d' = (graph_version_of d)(pid := graph_version_of d pid + 1)"
  using assms(3,4)
proof (cases rule: user_delete_steps)
  case (1 n d2 d3 d4 n')
  let ?ss = "merged_sources d pid i" and ?d1 = "end_relations_of pid (i # map nd_id (merged_sources d pid i)) now d"
  have n: "n \<in> set (db_nodes d)" "nd_id n = i" using get_project_node_in [OF 1(1)] by simp_all
  have notin: "i \<notin> nd_id ` set ?ss"
  proof
    assume "i \<in> nd_id ` set ?ss"
    then obtain s where "s \<in> set ?ss" "nd_id s = i" by auto
    with merged_sources_in [of s d pid i] n distinct_key_inj [of nd_id "db_nodes d" s n] assms(1) have "s = n" "nd_graph_state s = MERGED" by auto
    with 1(2) show False by auto
  qed
  have d1: "db_nodes ?d1 = db_nodes d" "graph_version_of ?d1 = graph_version_of d" "graph_states_unique ?d1 = graph_states_unique d"
    by (simp_all add: end_relations_of_def graph_version_of_def fun_eq_iff)
  note a = delete_merged_sources_ok [OF 1(5) merged_sources_distinct [OF assms(1)]]
  note by1 = node_by_id_cong [OF d1(1)]
  have ni: "node_by_id d i = Some n" using n assms(1) by (simp add: node_by_id_Some)
  have d2i: "node_by_id d2 i = Some n" using a notin ni by1 by simp
  then have ref: "refreshed d2 n = n" using n(2) by (simp add: refreshed_def)
  note b = carry_revision_ok [OF 1(6) [unfolded ref]]
  have n4: "node_by_id d4 j = (if i = j then map_option (entomb actor now) (node_by_id d3 j) else node_by_id d3 j)" for j
  proof -
    have "db_nodes d4 = db_nodes (set_node i (entomb actor now) d3)" unfolding 1(7) by (simp only: user_event_frame(1) mark_stale_frame(1))
    from node_by_id_cong [OF this] have "node_by_id d4 j = node_by_id (set_node i (entomb actor now) d3) j" by simp
    also have "\<dots> = (if i = j then map_option (entomb actor now) (node_by_id d3 j) else node_by_id d3 j)"
      by (rule node_by_id_set_node) (simp add: entomb_def)
    finally show ?thesis .
  qed
  have u4: "nodes_unique d4 = nodes_unique d3"
    unfolding 1(7) user_event_frame(1) mark_stale_frame(1) by (rule nodes_unique_set_node) (simp add: entomb_def)
  have side: "graph_side ?d1 d4"
  proof -
    have "graph_side d3 d4" unfolding 1(7) by (rule graph_side_trans [OF set_node_side graph_side_trans [OF mark_stale_frame(2) user_event_frame(2)]])
    with a b graph_side_trans show ?thesis by blast
  qed
  then have gs: "graph_states_unique d4" "graph_version_of d4 = graph_version_of d"
    using assms(2) d1(2,3) by (simp_all add: graph_side_def graph_version_of_def fun_eq_iff)
  note c = announce_user_delete_ok [OF 1(8) gs(1)]
  have nodes: "node_by_id d' = node_by_id d4" using c node_by_id_cong by blast
  have u: "nodes_unique d'" using c u4 a b assms(1) d1(1) by simp
  have gone: "\<exists>m. node_by_id d' j = Some m \<and> tombstone now m" if "j \<in> deleted_with d pid i" for j
  proof (cases "j = i")
    case True
    with b d2i n(2) n4 nodes show ?thesis by (auto simp: tombstone_def entomb_def)
  next
    case False
    with that obtain s where s: "s \<in> set ?ss" "nd_id s = j" by (auto simp: deleted_with_def)
    then have "node_by_id ?d1 j = Some s" using merged_sources_in [OF s(1)] assms(1) by (simp add: by1 node_by_id_Some)
    with a s obtain m where "node_by_id d2 j = Some m" "tombstone now m" by blast
    with b n(2) False n4 nodes show ?thesis by auto
  qed
  have keep: "node_by_id d' j = node_by_id d j" if "j \<notin> deleted_with d pid i" for j
    using that a b n(2) n4 nodes by1 by (auto simp: deleted_with_def)
  have "untouched_relations pid (deleted_with d pid i) ?d1"
    using end_relations_untouched [of pid "i # map nd_id ?ss" now d] by (simp add: deleted_with_def)
  moreover have "db_relations d' = db_relations ?d1" using c side by (simp add: graph_side_def)
  ultimately have "untouched_relations pid (deleted_with d pid i) d'" by (simp add: untouched_relations_def)
  with gone keep u c gs(2) show ?thesis by simp
qed

text \<open>C10. A user delete removes exactly the node and what was merged into it. When it succeeds, the node and its direct merge sources carry a
  tombstone, every other node is untouched, no ACTIVE or UNATTACHED node has the deleted one as its parent (a merged node may keep it) and no confirmed relation touches a
  deleted node, and the graph version of the project, and of no other project, grows by one.\<close>

theorem user_delete_correct:
  assumes "nodes_unique d" "graph_states_unique d" "user_delete_node L pid i actor rq v now d = Inr (res, d')" "ug_changed res"
  shows "(\<forall>j \<in> deleted_with d pid i. \<exists>m. node_by_id d' j = Some m \<and> tombstone now m)
    \<and> (\<forall>j. j \<notin> deleted_with d pid i \<longrightarrow> node_by_id d' j = node_by_id d j)
    \<and> \<not> (\<exists>n \<in> set (db_nodes d'). nd_project_id n = pid \<and> nd_parent_id n = Some i \<and> (nd_graph_state n = ACTIVE \<or> nd_graph_state n = UNATTACHED)
          \<and> nd_deleted_at n = None)
    \<and> untouched_relations pid (deleted_with d pid i) d'
    \<and> graph_version_of d' = (graph_version_of d)(pid := graph_version_of d pid + 1)"
proof -
  note e = user_delete_nodes [OF assms]
  have "False" if m: "m \<in> set (db_nodes d')" "nd_project_id m = pid" "nd_parent_id m = Some i" "nd_graph_state m = ACTIVE \<or> nd_graph_state m = UNATTACHED"
      "nd_deleted_at m = None" for m
  proof -
    have row: "node_by_id d' (nd_id m) = Some m" using e m(1) by (simp add: node_by_id_Some)
    show False
    proof (cases "nd_id m \<in> deleted_with d pid i")
      case True
      with e row m(5) show False by (auto simp: tombstone_def)
    next
      case False
      with e row have "m \<in> set (db_nodes d)" using node_by_idD [of d "nd_id m" m] by simp
      moreover have "structural_descendants_for_delete d pid i = Inr []" using assms(3,4) by (rule user_delete_steps)
      ultimately show False using no_descendants m(2-5) by blast
    qed
  qed
  with e show ?thesis by blast
qed

lemma get_project_node_live: "get_project_node d pid i False = Inr n \<Longrightarrow> nd_deleted_at n = None \<and> nd_project_id n = pid \<and> nd_id n = i"
proof -
  assume "get_project_node d pid i False = Inr n"
  then have "filter (\<lambda>n. nd_id n = i \<and> nd_project_id n = pid \<and> (False \<or> nd_deleted_at n = None)) (db_nodes d) = [n]"
    by (auto simp: get_project_node_def result_simps split: option.splits if_splits)
  then have "n \<in> set (filter (\<lambda>n. nd_id n = i \<and> nd_project_id n = pid \<and> (False \<or> nd_deleted_at n = None)) (db_nodes d))" by simp
  then show ?thesis by simp
qed

lemma live_project_node:
  assumes "nodes_unique d" "node_by_id d i = Some n" "nd_project_id n = pid" "nd_deleted_at n = None"
  shows "get_project_node d pid i False = Inr n"
proof -
  have "n \<in> set (db_nodes d)" "nd_id n = i" using assms(1,2) by (simp_all add: node_by_id_Some)
  then have "filter (\<lambda>x. nd_id x = i) (db_nodes d) = [n]" using filter_key_distinct [OF assms(1), of n] by simp
  then have "filter (\<lambda>x. nd_id x = i \<and> nd_project_id x = pid \<and> (False \<or> nd_deleted_at x = None)) (db_nodes d) = [n]"
    using filter_filter [of "\<lambda>x. nd_project_id x = pid \<and> nd_deleted_at x = None" "\<lambda>x. nd_id x = i" "db_nodes d"] assms(3,4)
    by (simp add: conj_commute conj_left_commute)
  then show ?thesis by (simp add: get_project_node_def)
qed

lemma any_project_node: "nodes_unique d \<Longrightarrow> node_by_id d i = Some n \<Longrightarrow> node_in_any_project d i = Inr (Some n)"
  using filter_key_distinct [of nd_id "db_nodes d" n] by (auto simp: node_in_any_project_def node_by_id_Some)

text \<open>C12. A user delete breaks longer merge chains. A node that was merged into a node that was itself merged into the deleted one is not deleted with
  it, and from then on it has no representative: resolving it, which led to the deleted node before, raises an integrity error.\<close>

theorem user_delete_strands_chain:
  assumes "nodes_unique d" "graph_states_unique d" "user_delete_node L pid i actor rq v now d = Inr (res, d')" "ug_changed res"
    and "resolve_canonical_node d pid a None = Inr r" "nd_id r = i"
    and "node_by_id d a = Some ra" "nd_merged_into_node_id ra = Some b" "b \<in> nd_id ` set (merged_sources d pid i)"
  shows "node_by_id d' a = Some ra \<and> resolve_canonical_node d' pid a None = Inl (GraphIntegrityError ''merge chain crosses project boundary'')"
proof -
  note e = user_delete_nodes [OF assms(1-4)]
  obtain k where hops: "MAX_CANONICAL_HOPS = Suc k" by (cases MAX_CANONICAL_HOPS) (simp_all add: MAX_CANONICAL_HOPS_def)
  from assms(5) obtain n where n: "get_project_node d pid a False = Inr n" and loop: "resolve_loop (Suc k) d pid (nd_node_type n) {} n = Inr r"
    by (auto simp: resolve_canonical_node_def hops result_simps simp del: resolve_loop.simps)
  have na: "n = ra" using get_project_node_in [OF n] assms(1,7) distinct_key_inj [of nd_id "db_nodes d" n ra] by (simp add: node_by_id_Some)
  have live: "nd_deleted_at ra = None" "nd_project_id ra = pid" "nd_id ra = a" using get_project_node_live [OF n] by (simp_all add: na)
  have merged: "nd_graph_state ra = MERGED" using loop na assms(8) by (auto split: if_splits)
  obtain n0 where n0: "get_project_node d pid i True = Inr n0" "nd_graph_state n0 = ACTIVE \<or> nd_graph_state n0 = UNATTACHED"
    using assms(3,4) by (rule user_delete_steps) blast
  have root: "x \<in> set (db_nodes d) \<Longrightarrow> nd_id x = i \<Longrightarrow> nd_graph_state x \<noteq> MERGED" for x
    using n0 get_project_node_in [OF n0(1)] assms(1) distinct_key_inj [of nd_id "db_nodes d" x n0] by auto
  from assms(9) obtain s where s: "s \<in> set (merged_sources d pid i)" "nd_id s = b" by auto
  have "b \<noteq> i" using root [of s] merged_sources_in [OF s(1)] s(2) by auto
  have "ra \<in> set (db_nodes d)" using assms(7) node_by_idD by blast
  have "ra \<notin> set (merged_sources d pid i)" using merged_sources_in [of ra] assms(8) \<open>b \<noteq> i\<close> by auto
  moreover have "x = ra" if "x \<in> set (merged_sources d pid i)" "nd_id x = a" for x
    using that merged_sources_in [OF that(1)] distinct_key_inj [OF assms(1), of x ra] \<open>ra \<in> set (db_nodes d)\<close> live(3) by simp
  moreover have "a \<noteq> i" using root [of ra] merged live(3) \<open>ra \<in> set (db_nodes d)\<close> by blast
  ultimately have "a \<notin> deleted_with d pid i" unfolding deleted_with_def by blast
  with e assms(7) have row: "node_by_id d' a = Some ra" by simp
  moreover from e assms(9) obtain m where m: "node_by_id d' b = Some m" "nd_deleted_at m \<noteq> None" by (fastforce simp: deleted_with_def tombstone_def)
  ultimately have "get_project_node d' pid a False = Inr ra" "node_in_any_project d' b = Inr (Some m)"
    using e live live_project_node any_project_node by blast+
  moreover have "filter (\<lambda>n. nd_id n = b \<and> nd_project_id n = pid \<and> nd_deleted_at n = None) (db_nodes d') = []"
  proof -
    have "x = m" if "x \<in> set (db_nodes d')" "nd_id x = b" for x
      using that m(1) e distinct_key_inj [of nd_id "db_nodes d'" x m] by (simp add: node_by_id_Some)
    with m(2) show ?thesis by (auto simp: filter_empty_conv)
  qed
  ultimately have "resolve_canonical_node d' pid a None = Inl (GraphIntegrityError ''merge chain crosses project boundary'')"
    using merged assms(8) by (simp add: resolve_canonical_node_def hops)
  with row show ?thesis by simp
qed


section \<open>The properties at a concrete graph\<close>

text \<open>Three nodes, the third merged into the second and the second merged into the first.\<close>

definition sample_merged :: "uuid \<Rightarrow> uuid \<Rightarrow> node" where
  "sample_merged i j = (sample_node i ''7'')\<lparr>nd_graph_state := MERGED, nd_merged_into_node_id := Some j\<rparr>"

definition sample_chain :: db where
  "sample_chain = sample_db [sample_node 10 ''7'', sample_merged 11 10, sample_merged 12 11]"

lemma sample_chain_ok: "nodes_unique sample_chain" "graph_states_unique sample_chain"
  by (simp_all add: sample_chain_def sample_merged_def sample_node_def sample_db_def empty_db_def)

lemmas sample_chain_defs = sample_chain_def sample_merged_def sample_node_def sample_db_def empty_db_def

lemma sample_chain_rows:
  "get_project_node sample_chain ''7'' 10 True = Inr (sample_node 10 ''7'')" "merged_sources sample_chain ''7'' 10 = [sample_merged 11 10]"
  "structural_descendants_for_delete sample_chain ''7'' (nd_id (sample_node 10 ''7'')) = Inr []"
  "merged_sources sample_chain ''7'' (nd_id (sample_node 10 ''7'')) = [sample_merged 11 10]"
  by (simp_all add: get_project_node_def merged_sources_def structural_descendants_for_delete_def subtree_loop.simps child_rows_def sample_chain_defs)

lemma sample_chain_delete:
  "\<exists>res d'. user_delete_node sample_stdlib ''7'' 10 ''u'' None 1 9 sample_chain = Inr (res, d') \<and> ug_changed res"
proof -
  have "strip ''t'' = ''t''" by code_simp
  moreover have "nd_id (sample_node 10 ''7'') = 10" by (simp add: sample_node_def)
  ultimately show ?thesis
  unfolding user_delete_node_def sample_chain_rows rbind.simps Let_def
  by (simp add: sample_chain_rows Let_def end_relations_of_def delete_merged_source_def carry_revision_def
      current_revision_evidence_specs_def create_node_revision_def user_revision_args_def refreshed_def node_by_id_def set_node_def
      mark_node_embedding_stale_def announce_user_delete_def stage_project_graph_changed_def user_event_def stage_outbox_def uuid4_def
      sample_chain_defs entomb_def deleted_node_snapshot_def bump_graph_version_def stage_v1_def mutation_result_def split_beta)
qed


lemma sample_chain_ids: "nd_id ` set (merged_sources sample_chain ''7'' 10) = {11}"
  by (simp add: sample_chain_rows sample_merged_def sample_node_def)

theorem user_delete_correct_witness:
  "\<exists>res d'. user_delete_node sample_stdlib ''7'' 10 ''u'' None 1 9 sample_chain = Inr (res, d')
     \<and> (\<exists>m. node_by_id d' 11 = Some m \<and> tombstone 9 m) \<and> node_by_id d' 12 = Some (sample_merged 12 11) \<and> graph_version_of d' ''7'' = Suc 0"
proof -
  from sample_chain_delete obtain res d' where r: "user_delete_node sample_stdlib ''7'' 10 ''u'' None 1 9 sample_chain = Inr (res, d')" "ug_changed res"
    by blast
  have "node_by_id sample_chain 12 = Some (sample_merged 12 11)" "graph_version_of sample_chain ''7'' = 0"
    by (simp_all add: node_by_id_def graph_version_of_def sample_chain_defs)
  with user_delete_correct [OF sample_chain_ok r] r sample_chain_ids show ?thesis by (auto simp: deleted_with_def)
qed

theorem user_delete_strands_chain_witness:
  "\<exists>res d' r. user_delete_node sample_stdlib ''7'' 10 ''u'' None 1 9 sample_chain = Inr (res, d')
     \<and> resolve_canonical_node sample_chain ''7'' 12 None = Inr r \<and> nd_id r = 10
     \<and> resolve_canonical_node d' ''7'' 12 None = Inl (GraphIntegrityError ''merge chain crosses project boundary'')"
proof -
  from sample_chain_delete obtain res d' where r: "user_delete_node sample_stdlib ''7'' 10 ''u'' None 1 9 sample_chain = Inr (res, d')" "ug_changed res"
    by blast
  have c: "resolve_canonical_node sample_chain ''7'' 12 None = Inr (sample_node 10 ''7'')" "nd_id (sample_node 10 ''7'') = 10"
    by (simp_all add: resolve_canonical_node_def get_project_node_def MAX_CANONICAL_HOPS_def canonical_state_def sample_chain_defs eval_nat_numeral)
  have a: "node_by_id sample_chain 12 = Some (sample_merged 12 11)" "nd_merged_into_node_id (sample_merged 12 11) = Some 11"
    by (simp_all add: node_by_id_def sample_chain_defs)
  have "11 \<in> nd_id ` set (merged_sources sample_chain ''7'' 10)" by (simp only: sample_chain_ids) simp
  from user_delete_strands_chain [OF sample_chain_ok r c a this] r c show ?thesis by blast
qed

definition sample_family :: db where
  "sample_family = sample_db [sample_node 10 ''7'', (sample_node 13 ''7'')\<lparr>nd_parent_id := Some 10\<rparr>]"

theorem active_subtree_exact_witness:
  "\<exists>ns. active_subtree sample_family ''7'' (sample_node 10 ''7'') = Inr ns
     \<and> set (map nd_id ns) = (child_edges (\<lambda>s. s = ACTIVE) sample_family ''7'')\<^sup>* `` {10} \<and> 13 \<in> set (map nd_id ns)"
proof -
  obtain ns where ns: "active_subtree sample_family ''7'' (sample_node 10 ''7'') = Inr ns" "13 \<in> set (map nd_id ns)"
    by (simp add: active_subtree_def subtree_loop.simps child_rows_def sample_family_def sample_node_def sample_db_def)
  have "nodes_unique sample_family" by (simp add: sample_family_def sample_node_def sample_db_def)
  from active_subtree_exact [OF this, of "''7''" "sample_node 10 ''7''" ns] ns show ?thesis by (auto simp: sample_node_def)
qed

end
