(* ===== verification/Graph_Plan.thy ===== *)
theory Graph_Plan
  imports Generation_Run User_Graph
begin

text \<open>
  The planning half of \<open>pipeline/automatic_graph.py\<close>: the candidates of a meeting, their retrieval, the recommendation of the
  B model, the gates in front of an automatic merge and the Decision-first plan. Planning reads the database and calls the two ports;
  it writes nothing but the stage of its run. The reads of one planning run see one database, apart from these stages; publication
  (theory \<open>Graph_Publish\<close>) checks everything again and is stated for an arbitrary plan and database.
\<close>

section \<open>Data\<close>

record auto_merge_policy =
  ap_min_similarity :: "py_float option"
  ap_min_margin :: "py_float option"

record retrieval_settings =
  rs_decision_top_k :: int
  rs_node_top_k :: int
  rs_min_similarity :: "py_float option"
  rs_embedding_model :: string
  rs_embedding_version :: string
  rs_embedding_dim :: int
  rs_config_version :: string

record candidate_snapshot =
  cs_candidate_id :: uuid
  cs_source_item_id :: string
  cs_project_id :: string
  cs_external_meeting_id :: string
  cs_node_id :: uuid
  cs_node_type :: node_type
  cs_category :: string
  cs_title :: string
  cs_content :: string
  cs_due_date :: "string option"
  cs_suggested_parent_candidate_id :: "uuid option"
  cs_evidence :: "evidence_spec list"

record retrieval_snapshot =
  sn_target_node_id :: uuid
  sn_target_node_version :: int
  sn_rank :: int
  sn_similarity :: py_float
  sn_node_type :: node_type
  sn_category :: string
  sn_title :: string
  sn_content :: string
  sn_graph_state :: graph_state
  sn_parent_id :: "uuid option"
  sn_due_date :: "string option"

record b_model_failure =
  bf_code :: string
  bf_message :: string

record graph_plan_item =
  gp_source :: candidate_snapshot
  gp_embedding :: "py_float list option"
  gp_retrieval :: "retrieval_snapshot list"
  gp_decision :: "b_model_decision option"
  gp_requested_action :: recommendation_type
  gp_applied_action :: recommendation_type
  gp_target_node_id :: "uuid option"
  gp_target_node_version :: "int option"
  gp_relation_type :: "relation_type option"
  gp_parent_node_id :: "uuid option"
  gp_excluded :: bool
  gp_warnings :: "json list"
  gp_merge_gate_reason :: "string option"
  gp_b_model_failure :: "b_model_failure option"
  gp_skip_reason :: "string option"
  gp_retrieval_failed :: bool
  gp_retrieval_failure_message :: "string option"

record graph_mutation_plan =
  pl_generation_run_id :: uuid
  pl_project_id :: string
  pl_external_meeting_id :: string
  pl_source_request_id :: uuid
  pl_items :: "graph_plan_item list"
  pl_warnings :: "json list"
  pl_provider_model :: string

record parent_resolution =
  pr_canonical_id :: "uuid option"
  pr_gate_reason :: "string option"

abbreviation juuid :: "uuid \<Rightarrow> json" where
  "juuid u \<equiv> JStr (UuidTxt u)"

section \<open>The candidates of the meeting\<close>

definition due_date_of :: "stdlib \<Rightarrow> candidate \<Rightarrow> string option" where
  "due_date_of L c = (let v = jget (cd_raw_item c) ''dueDate'' in if v = JNull \<or> v = jstr [] then None else Some (str_of L v))"

definition automatic_node_id :: "graph_env \<Rightarrow> stdlib \<Rightarrow> uuid \<Rightarrow> uuid" where
  "automatic_node_id E L i = ge_uuid5 E (''automatic-node:'' @ uuid_str L i)"

definition candidate_warning :: "string \<Rightarrow> uuid \<Rightarrow> json" where
  "candidate_warning code i = JObj [(''code'', jstr code), (''candidateId'', juuid i)]"

definition snapshot_of :: "graph_env \<Rightarrow> stdlib \<Rightarrow> candidate \<Rightarrow> node_type \<Rightarrow> evidence_spec list \<Rightarrow> candidate_snapshot" where
  "snapshot_of E L c t evidence = \<lparr>cs_candidate_id = cd_id c, cs_source_item_id = cd_source_item_id c, cs_project_id = cd_project_id c,
     cs_external_meeting_id = cd_external_meeting_id c, cs_node_id = automatic_node_id E L (cd_id c), cs_node_type = t,
     cs_category = or_str (cd_suggested_category c) [], cs_title = strip (cd_suggested_title c), cs_content = cd_suggested_content c,
     cs_due_date = due_date_of L c, cs_suggested_parent_candidate_id = cd_suggested_parent_candidate_id c, cs_evidence = evidence\<rparr>"

fun candidate_snapshots ::
  "graph_env \<Rightarrow> stdlib \<Rightarrow> db \<Rightarrow> candidate list \<Rightarrow> candidate_snapshot list \<Rightarrow> json list \<Rightarrow> (candidate_snapshot list \<times> json list) result" where
  "candidate_snapshots E L d [] snapshots warnings = Inr (snapshots, warnings)"
| "candidate_snapshots E L d (c # cs) snapshots warnings =
     (case node_type_of (cd_suggested_node_type c) of
        None \<Rightarrow> candidate_snapshots E L d cs snapshots (warnings @ [candidate_warning ''INVALID_CANDIDATE_SHAPE'' (cd_id c)])
      | Some t \<Rightarrow>
          if or_str (cd_suggested_category c) [] \<notin> set (db_categories d) \<or> strip (cd_suggested_title c) = []
          then candidate_snapshots E L d cs snapshots (warnings @ [candidate_warning ''INVALID_CANDIDATE_SHAPE'' (cd_id c)])
          else rbind (validated_candidate_evidence L d c) (\<lambda>(evidence, problems).
                 if evidence = []
                 then candidate_snapshots E L d cs snapshots
                        (warnings @ problems @ [candidate_warning ''CANDIDATE_EXCLUDED_NO_VALID_EVIDENCE'' (cd_id c)])
                 else candidate_snapshots E L d cs (snapshots @ [snapshot_of E L c t evidence]) (warnings @ problems)))"

definition latest_request :: "db \<Rightarrow> string \<Rightarrow> string \<Rightarrow> pipeline_request option" where
  "latest_request d pid mid =
     (case rev (sort_key (\<lambda>q. (rq_created_at q, rq_id q)) (filter (\<lambda>q. rq_project_id q = pid \<and> rq_external_meeting_id q = mid) (db_requests d))) of
        [] \<Rightarrow> None | q # _ \<Rightarrow> Some q)"

definition source_request_and_candidates ::
  "graph_env \<Rightarrow> stdlib \<Rightarrow> string \<Rightarrow> string \<Rightarrow> uuid list \<Rightarrow> db \<Rightarrow> (uuid \<times> candidate_snapshot list \<times> json list) result" where
  "source_request_and_candidates E L pid mid ids d =
     (if ids = []
      then (case latest_request d pid mid of
              None \<Rightarrow> Inl (GraphIntegrityError ''automatic graph run has no source Request'')
            | Some q \<Rightarrow> Inr (rq_id q, [], []))
      else
        (let rows = sort_key (\<lambda>c. (cd_created_at c, cd_source_item_id c))
               (filter (\<lambda>c. cd_id c \<in> set ids \<and> cd_project_id c = pid \<and> cd_external_meeting_id c = mid) (db_candidates d))
         in rguard (length rows \<noteq> length (remdups ids))
              (GraphIntegrityError ''candidate set is missing or crosses a project/meeting boundary'')
           (case remdups (map cd_request_id rows) of
              [q] \<Rightarrow> rbind (candidate_snapshots E L d rows [] []) (\<lambda>(snapshots, warnings). Inr (q, snapshots, warnings))
            | _ \<Rightarrow> Inl (GraphIntegrityError ''automatic graph candidates must belong to one Request''))))"

section \<open>Retrieval\<close>

definition embedding_text :: "stdlib \<Rightarrow> candidate_snapshot \<Rightarrow> string" where
  "embedding_text L s = build_embedding_text_from_parts L (cs_node_type s) (cs_title s) (cs_content s)
     (map (\<lambda>e. TimedEvidencePair (sp_start_ms e) (Some (or_str (sp_source_segment_id e) [])) (sp_quoted_text e)) (cs_evidence s)) None"

definition retrieval_options :: "retrieval_settings \<Rightarrow> candidate_snapshot \<Rightarrow> py_float list \<Rightarrow> search_options" where
  "retrieval_options R s v = \<lparr>so_project_id = cs_project_id s, so_source_node_id = cs_node_id s, so_embedding = v,
     so_embedding_model = rs_embedding_model R, so_embedding_version = rs_embedding_version R, so_embedding_dimension = rs_embedding_dim R,
     so_top_k = 0, so_min_similarity = rs_min_similarity R, so_require_category = None, so_require_node_type = None, so_graph_states = []\<rparr>"

text \<open>\<open>sorted(allowed_parent_types(node_type))\<close>.\<close>

definition parent_types :: "node_type \<Rightarrow> node_type list" where
  "parent_types t = filter (\<lambda>p. node_type_value p \<in> set (allowed_parent_types (node_type_value t))) [ACTION, DECISION, ISSUE]"

fun link_rows :: "graph_env \<Rightarrow> retrieval_settings \<Rightarrow> search_options \<Rightarrow> string \<Rightarrow> node_type list \<Rightarrow> db \<Rightarrow> py_exception + retrieved_node list" where
  "link_rows E R opts category [] d = Inr []"
| "link_rows E R opts category (t # ts) d =
     (case search_link_candidates E opts category t (rs_node_top_k R) d of
        Inl exc \<Rightarrow> Inl exc
      | Inr rows \<Rightarrow> (case link_rows E R opts category ts d of Inl exc \<Rightarrow> Inl exc | Inr others \<Rightarrow> Inr (rows @ others)))"

fun retrieval_snapshots :: "string \<Rightarrow> db \<Rightarrow> int \<Rightarrow> retrieved_node list \<Rightarrow> py_exception + retrieval_snapshot list" where
  "retrieval_snapshots pid d rank [] = Inr []"
| "retrieval_snapshots pid d rank (row # rows) =
     (case find (\<lambda>n. nd_id n = rt_target_node_id row \<and> nd_project_id n = pid) (db_nodes d) of
        None \<Rightarrow> Inl (raised ''GraphIntegrityError'' ''Retrieval returned a missing or cross-project Node'')
      | Some n \<Rightarrow>
          (case retrieval_snapshots pid d (rank + 1) rows of
             Inl exc \<Rightarrow> Inl exc
           | Inr others \<Rightarrow> Inr (\<lparr>sn_target_node_id = nd_id n, sn_target_node_version = rt_target_node_version row, sn_rank = rank,
                sn_similarity = rt_similarity row, sn_node_type = nd_node_type n, sn_category = nd_category n, sn_title = nd_title n,
                sn_content = nd_content n, sn_graph_state = nd_graph_state n, sn_parent_id = nd_parent_id n, sn_due_date = nd_due_date n\<rparr> # others)))"

definition retrieve :: "graph_env \<Rightarrow> retrieval_settings \<Rightarrow> candidate_snapshot \<Rightarrow> py_float list \<Rightarrow> db \<Rightarrow> py_exception + retrieval_snapshot list" where
  "retrieve E R s v d =
     (let opts = retrieval_options R s v in
      case search_merge_candidates E opts (cs_category s) (cs_node_type s)
             (if cs_node_type s = DECISION then rs_decision_top_k R else rs_node_top_k R) d of
        Inl exc \<Rightarrow> Inl exc
      | Inr merge_rows \<Rightarrow>
          (case link_rows E R opts (cs_category s) (parent_types (cs_node_type s)) d of
             Inl exc \<Rightarrow> Inl exc
           | Inr parent_rows \<Rightarrow>
               retrieval_snapshots (cs_project_id s) d 1 (merge_rows
                 @ take (nat (rs_node_top_k R)) (sort_key (\<lambda>row. (- rt_similarity row, rt_target_node_id row)) parent_rows))))"

section \<open>What the B model sees\<close>

definition evidence_json :: "evidence_spec \<Rightarrow> json" where
  "evidence_json e = JObj [(''segmentId'', jopt jstr (sp_source_segment_id e)), (''quote'', jstr (sp_quoted_text e)),
     (''startMs'', jopt JInt (sp_start_ms e)), (''endMs'', jopt JInt (sp_end_ms e))]"

definition source_payload :: "candidate_snapshot \<Rightarrow> json" where
  "source_payload s = JObj [(''nodeId'', juuid (cs_node_id s)), (''nodeVersion'', JInt 1), (''nodeType'', jstr (node_type_value (cs_node_type s))),
     (''category'', jstr (cs_category s)), (''title'', jstr (cs_title s)), (''content'', jstr (cs_content s)),
     (''dueDate'', jopt jstr (cs_due_date s)), (''evidence'', JList (map evidence_json (cs_evidence s)))]"

definition snapshot_payload :: "graph_env \<Rightarrow> retrieval_snapshot \<Rightarrow> json" where
  "snapshot_payload E row = JObj [(''nodeId'', juuid (sn_target_node_id row)), (''nodeVersion'', JInt (sn_target_node_version row)),
     (''nodeType'', jstr (node_type_value (sn_node_type row))), (''category'', jstr (sn_category row)), (''title'', jstr (sn_title row)),
     (''content'', jstr (sn_content row)), (''graphState'', jstr (graph_state_value (sn_graph_state row))), (''rank'', JInt (sn_rank row)),
     (''similarity'', JFloat (ge_float_repr E (sn_similarity row)))]"

definition planned_parent_payload :: "candidate_snapshot \<Rightarrow> json" where
  "planned_parent_payload s = JObj [(''nodeId'', juuid (cs_node_id s)), (''nodeVersion'', JInt 1), (''nodeType'', jstr (node_type_value (cs_node_type s))),
     (''category'', jstr (cs_category s)), (''title'', jstr (cs_title s)), (''content'', jstr (cs_content s)), (''graphState'', jstr ''PLANNED''),
     (''sameMeetingSuggestedParent'', JBool True), (''parentHintOrigin'', jstr ''A_MODEL_CANDIDATE_REFERENCE'')]"

definition retrieval_payload :: "graph_env \<Rightarrow> retrieval_snapshot list \<Rightarrow> graph_plan_item option \<Rightarrow> json list" where
  "retrieval_payload E retrieval parent = map (snapshot_payload E) retrieval
     @ (case parent of None \<Rightarrow> [] | Some p \<Rightarrow> if gp_excluded p then [] else [planned_parent_payload (gp_source p)])"

section \<open>The parents of an Action\<close>

definition resolve_existing_parent_canonical_id ::
  "db \<Rightarrow> string \<Rightarrow> string \<Rightarrow> uuid option \<Rightarrow> string \<Rightarrow> string \<Rightarrow> parent_resolution result" where
  "resolve_existing_parent_canonical_id d pid category parent missing_reason invalid_reason =
     (case parent of
        None \<Rightarrow> Inr \<lparr>pr_canonical_id = None, pr_gate_reason = Some missing_reason\<rparr>
      | Some p \<Rightarrow>
          (case resolve_canonical_node d pid p (Some DECISION) of
             Inl (GraphIntegrityError _) \<Rightarrow> Inr \<lparr>pr_canonical_id = None, pr_gate_reason = Some invalid_reason\<rparr>
           | Inl (GraphMutationValidationError _) \<Rightarrow> Inr \<lparr>pr_canonical_id = None, pr_gate_reason = Some invalid_reason\<rparr>
           | Inl e \<Rightarrow> Inl e
           | Inr canonical \<Rightarrow>
               if nd_graph_state canonical \<noteq> ACTIVE \<or> nd_category canonical \<noteq> category
               then Inr \<lparr>pr_canonical_id = None, pr_gate_reason = Some invalid_reason\<rparr>
               else Inr \<lparr>pr_canonical_id = Some (nd_id canonical), pr_gate_reason = None\<rparr>))"

definition resolve_planned_parent_canonical_id :: "db \<Rightarrow> string \<Rightarrow> string \<Rightarrow> graph_plan_item option \<Rightarrow> parent_resolution result" where
  "resolve_planned_parent_canonical_id d pid category parent =
     (case parent of
        None \<Rightarrow> Inr \<lparr>pr_canonical_id = None, pr_gate_reason = Some ''MERGE_ACTION_INTENDED_PARENT_MISSING''\<rparr>
      | Some p \<Rightarrow>
          if gp_excluded p \<or> cs_project_id (gp_source p) \<noteq> pid \<or> cs_node_type (gp_source p) \<noteq> DECISION \<or> cs_category (gp_source p) \<noteq> category
          then Inr \<lparr>pr_canonical_id = None, pr_gate_reason = Some ''MERGE_ACTION_INTENDED_PARENT_INVALID''\<rparr>
          else if gp_applied_action p = MERGE
          then resolve_existing_parent_canonical_id d pid category (gp_target_node_id p)
                 ''MERGE_ACTION_INTENDED_PARENT_MISSING'' ''MERGE_ACTION_INTENDED_PARENT_INVALID''
          else Inr \<lparr>pr_canonical_id = Some (cs_node_id (gp_source p)), pr_gate_reason = None\<rparr>)"

definition action_parent_gate :: "parent_resolution \<Rightarrow> parent_resolution \<Rightarrow> string option" where
  "action_parent_gate intended target =
     (if pr_gate_reason intended \<noteq> None then pr_gate_reason intended
      else if pr_gate_reason target \<noteq> None then pr_gate_reason target
      else if pr_canonical_id intended \<noteq> pr_canonical_id target then Some ''MERGE_ACTION_PARENT_CONFLICT'' else None)"

section \<open>The gates of a merge\<close>

text \<open>\<open>str.upper()\<close> on code points below 256 (the sharp s becomes SS; the two characters whose upper case lies outside stay).\<close>

definition upper_char :: "char \<Rightarrow> string" where
  "upper_char c = (let n = (of_char c :: nat) in
     if n = 223 then ''SS'' else if (97 \<le> n \<and> n \<le> 122) \<or> (224 \<le> n \<and> n \<le> 254 \<and> n \<noteq> 247) then [char_of (n - 32)] else [c])"

definition identity_keys :: "node_type \<Rightarrow> string list" where
  "identity_keys t = [''same_subject'', ''same_outcome_or_task'', ''same_scope'', ''same_time_or_scope'']
     @ (if t = ACTION then [''same_owner_if_required''] else [])"

fun conflict_rows :: "json \<Rightarrow> json list option" where
  "conflict_rows (JObj kvs) = (if kvs = [] then None else Some (map snd kvs))"
| "conflict_rows (JList xs) = (if xs = [] then None else Some xs)"
| "conflict_rows _ = None"

definition no_conflict :: "stdlib \<Rightarrow> json \<Rightarrow> bool" where
  "no_conflict L v = (let result = (case v of JObj kvs \<Rightarrow> jget v ''result'' | _ \<Rightarrow> v)
     in concat (map upper_char (str_of L result)) \<in> set [''NO_CONFLICT'', ''MATCH'', ''PASS'', ''SAME'', ''NONE''])"

definition identity_gate ::
  "stdlib \<Rightarrow> candidate_snapshot \<Rightarrow> retrieval_snapshot \<Rightarrow> b_model_decision \<Rightarrow> auto_merge_policy \<Rightarrow> parent_resolution \<Rightarrow> parent_resolution \<Rightarrow> string option" where
  "identity_gate L s t b policy intended target_parent =
     (case (ap_min_similarity policy, ap_min_margin policy) of
        (Some min_similarity, Some _) \<Rightarrow>
          if sn_rank t \<noteq> 1 then Some ''MERGE_TARGET_NOT_RETRIEVAL_TOP1''
          else if sn_similarity t < min_similarity then Some ''MERGE_BELOW_ABSOLUTE_THRESHOLD''
          else (case jget (bd_metadata b) ''identityBasis'' of
             JObj identity \<Rightarrow>
               if \<exists>key \<in> set (identity_keys (cs_node_type s)). jget (JObj identity) key \<noteq> JBool True then Some ''MERGE_IDENTITY_NOT_PROVEN''
               else (case conflict_rows (jget (bd_metadata b) ''conflictsChecked'') of
                  None \<Rightarrow> Some ''MERGE_CONFLICT_CHECK_MISSING''
                | Some rows \<Rightarrow>
                    if \<exists>v \<in> set rows. \<not> no_conflict L v then Some ''MERGE_STRUCTURED_CONFLICT''
                    else if cs_node_type s = ACTION
                    then (if truthy (cs_due_date s) \<and> truthy (sn_due_date t) \<and> cs_due_date s \<noteq> sn_due_date t
                          then Some ''MERGE_ACTION_DUE_DATE_CONFLICT'' else action_parent_gate intended target_parent)
                    else None)
           | _ \<Rightarrow> Some ''MERGE_IDENTITY_BASIS_MISSING'')
      | _ \<Rightarrow> Some ''MERGE_POLICY_UNCALIBRATED'')"

definition merge_scores :: "candidate_snapshot \<Rightarrow> retrieval_snapshot list \<Rightarrow> uuid \<Rightarrow> py_float list" where
  "merge_scores s retrieval target = map sn_similarity (filter (\<lambda>row. sn_node_type row = cs_node_type s \<and> sn_target_node_id row \<noteq> target) retrieval)"

definition margin_too_small :: "graph_env \<Rightarrow> py_float list \<Rightarrow> retrieval_snapshot \<Rightarrow> py_float \<Rightarrow> bool" where
  "margin_too_small E others t min_margin \<longleftrightarrow> others \<noteq> [] \<and> ge_float_sub E (sn_similarity t) (Max (set others)) < min_margin"

text \<open>The reason why a recommended merge is refused, and the parent that the item keeps for an Action.\<close>

definition merge_gate ::
  "graph_env \<Rightarrow> stdlib \<Rightarrow> string \<Rightarrow> auto_merge_policy \<Rightarrow> candidate_snapshot \<Rightarrow> retrieval_snapshot list \<Rightarrow> b_model_decision \<Rightarrow> graph_plan_item option
    \<Rightarrow> db \<Rightarrow> (string option \<times> uuid option) result" where
  "merge_gate E L pid policy s retrieval b parent d =
     (case (ap_min_similarity policy, ap_min_margin policy) of
        (Some _, Some min_margin) \<Rightarrow>
          (case find (\<lambda>row. Some (sn_target_node_id row) = bd_target_node_id b) retrieval of
             None \<Rightarrow> Inr (Some ''MERGE_TARGET_NOT_VALID_RETRIEVAL'', None)
           | Some t \<Rightarrow>
               if sn_node_type t \<noteq> cs_node_type s then Inr (Some ''MERGE_TARGET_NOT_VALID_RETRIEVAL'', None)
               else if sn_category t \<noteq> cs_category s then Inr (Some ''MERGE_CATEGORY_MISMATCH'', None)
               else if sn_graph_state t \<noteq> ACTIVE then Inr (Some ''MERGE_TARGET_NOT_ACTIVE'', None)
               else if margin_too_small E (merge_scores s retrieval (sn_target_node_id t)) t min_margin then Inr (Some ''MERGE_MARGIN_TOO_SMALL'', None)
               else if cs_node_type s = ACTION
               then rbind (resolve_planned_parent_canonical_id d pid (cs_category s) parent) (\<lambda>intended.
                    rbind (resolve_existing_parent_canonical_id d pid (cs_category s) (sn_parent_id t)
                             ''MERGE_ACTION_TARGET_PARENT_MISSING'' ''MERGE_ACTION_TARGET_PARENT_INVALID'') (\<lambda>target_parent.
                      Inr (identity_gate L s t b policy intended target_parent, pr_canonical_id intended)))
               else Inr (identity_gate L s t b policy \<lparr>pr_canonical_id = None, pr_gate_reason = None\<rparr> \<lparr>pr_canonical_id = None, pr_gate_reason = None\<rparr>, None))
      | _ \<Rightarrow> Inr (Some ''MERGE_POLICY_UNCALIBRATED'', None))"

section \<open>Links\<close>

definition link_parents :: "node_type \<Rightarrow> node_type set" where
  "link_parents t = (case t of ACTION \<Rightarrow> {DECISION} | ISSUE \<Rightarrow> {DECISION, ACTION} | DECISION \<Rightarrow> {})"

definition validate_link_target ::
  "candidate_snapshot \<Rightarrow> b_model_decision \<Rightarrow> retrieval_snapshot list \<Rightarrow> graph_plan_item option \<Rightarrow> (uuid \<times> int) option" where
  "validate_link_target s b retrieval parent =
     (case bd_target_node_id b of
        None \<Rightarrow> None
      | Some target \<Rightarrow>
          (case find (\<lambda>row. sn_target_node_id row = target) retrieval of
             Some row \<Rightarrow>
               if bd_relation_type b = Some ATTACHED_TO
                  \<and> (sn_graph_state row \<noteq> ACTIVE \<or> sn_node_type row \<notin> link_parents (cs_node_type s) \<or> sn_category row \<noteq> cs_category s)
               then None else Some (sn_target_node_id row, sn_target_node_version row)
           | None \<Rightarrow>
               (case parent of
                  None \<Rightarrow> None
                | Some p \<Rightarrow>
                    if cs_node_id (gp_source p) = target \<and> bd_relation_type b = Some ATTACHED_TO
                       \<and> cs_node_type (gp_source p) \<in> link_parents (cs_node_type s) \<and> cs_category (gp_source p) = cs_category s
                    then Some (target, 1) else None)))"

section \<open>One item of the plan\<close>

definition new_item :: "candidate_snapshot \<Rightarrow> graph_plan_item" where
  "new_item s = \<lparr>gp_source = s, gp_embedding = None, gp_retrieval = [], gp_decision = None, gp_requested_action = CREATE_NEW,
     gp_applied_action = CREATE_NEW, gp_target_node_id = None, gp_target_node_version = None, gp_relation_type = None,
     gp_parent_node_id = None, gp_excluded = False, gp_warnings = [], gp_merge_gate_reason = None, gp_b_model_failure = None,
     gp_skip_reason = None, gp_retrieval_failed = False, gp_retrieval_failure_message = None\<rparr>"

definition item_warned :: "json \<Rightarrow> graph_plan_item \<Rightarrow> graph_plan_item" where
  "item_warned w it = it\<lparr>gp_warnings := gp_warnings it @ [w]\<rparr>"

definition retrieval_stage_failed :: "graph_env \<Rightarrow> py_exception \<Rightarrow> graph_plan_item \<Rightarrow> graph_plan_item" where
  "retrieval_stage_failed E exc it =
     (let detail = snd (describe_b_model_failure E exc)
      in item_warned (JObj [(''code'', jstr ''EMBEDDING_OR_RETRIEVAL_FAILED_CREATE_NEW''), (''candidateId'', juuid (cs_candidate_id (gp_source it))),
            (''errorType'', jstr (ex_type exc)), (''failureMessage'', jstr detail)])
          (it\<lparr>gp_retrieval_failed := True, gp_skip_reason := Some ''RETRIEVAL_FAILED'', gp_retrieval_failure_message := Some detail\<rparr>))"

definition b_model_failed :: "graph_env \<Rightarrow> py_exception \<Rightarrow> graph_plan_item \<Rightarrow> graph_plan_item" where
  "b_model_failed E exc it =
     (case describe_b_model_failure E exc of (code, message) \<Rightarrow>
        item_warned (JObj [(''code'', jstr ''B_MODEL_FAILED_CREATE_NEW''), (''candidateId'', juuid (cs_candidate_id (gp_source it))),
            (''errorType'', jstr (ex_type exc)), (''failureCode'', jstr code), (''failureMessage'', jstr message)])
          (it\<lparr>gp_b_model_failure := Some \<lparr>bf_code = code, bf_message = message\<rparr>\<rparr>))"

definition merge_refused_warning :: "string \<Rightarrow> uuid \<Rightarrow> json" where
  "merge_refused_warning reason i = JObj [(''code'', jstr reason), (''candidateId'', juuid i), (''requestedAction'', jstr ''MERGE''),
     (''appliedAction'', jstr ''CREATE_NEW'')]"

definition plan_link :: "b_model_decision \<Rightarrow> graph_plan_item option \<Rightarrow> graph_plan_item \<Rightarrow> graph_plan_item" where
  "plan_link b parent it =
     (case validate_link_target (gp_source it) b (gp_retrieval it) parent of
        None \<Rightarrow> item_warned (candidate_warning ''INVALID_LINK_RECOMMENDATION_CREATE_NEW'' (cs_candidate_id (gp_source it)))
                  (it\<lparr>gp_applied_action := CREATE_NEW\<rparr>)
      | Some (target, version) \<Rightarrow>
          it\<lparr>gp_applied_action := LINK, gp_target_node_id := Some target, gp_target_node_version := Some version,
             gp_relation_type := bd_relation_type b,
             gp_parent_node_id := (if bd_relation_type b = Some ATTACHED_TO then Some target else gp_parent_node_id it)\<rparr>)"

definition plan_merge ::
  "graph_env \<Rightarrow> stdlib \<Rightarrow> string \<Rightarrow> auto_merge_policy \<Rightarrow> b_model_decision \<Rightarrow> graph_plan_item option \<Rightarrow> db \<Rightarrow> graph_plan_item \<Rightarrow> graph_plan_item result" where
  "plan_merge E L pid policy b parent d it =
     rbind (merge_gate E L pid policy (gp_source it) (gp_retrieval it) b parent d) (\<lambda>(reason, intended).
       let it1 = it\<lparr>gp_merge_gate_reason := reason, gp_parent_node_id := intended\<rparr>
       in case reason of
            None \<Rightarrow> Inr (it1\<lparr>gp_applied_action := MERGE, gp_target_node_id := bd_target_node_id b,
                      gp_target_node_version := map_option sn_target_node_version
                        (find (\<lambda>row. Some (sn_target_node_id row) = bd_target_node_id b) (gp_retrieval it))\<rparr>)
          | Some r \<Rightarrow> Inr (item_warned (merge_refused_warning r (cs_candidate_id (gp_source it))) (it1\<lparr>gp_applied_action := CREATE_NEW\<rparr>)))"

definition plan_decision ::
  "graph_env \<Rightarrow> stdlib \<Rightarrow> string \<Rightarrow> auto_merge_policy \<Rightarrow> b_model_decision \<Rightarrow> graph_plan_item option \<Rightarrow> db \<Rightarrow> graph_plan_item \<Rightarrow> graph_plan_item result" where
  "plan_decision E L pid policy b parent d it =
     (case bd_recommendation b of
        LINK \<Rightarrow> Inr (plan_link b parent it)
      | MERGE \<Rightarrow> plan_merge E L pid policy b parent d it
      | CREATE_NEW \<Rightarrow> Inr (it\<lparr>gp_applied_action := CREATE_NEW\<rparr>))"

definition recommended :: "graph_env \<Rightarrow> graph_plan_item \<Rightarrow> graph_plan_item option \<Rightarrow> py_exception + b_model_decision" where
  "recommended E it parent =
     (case ge_recommend E (source_payload (gp_source it)) (retrieval_payload E (gp_retrieval it) parent) of
        Inl exc \<Rightarrow> Inl exc | Inr raw \<Rightarrow> model_validate E raw)"

definition embedded :: "graph_env \<Rightarrow> stdlib \<Rightarrow> retrieval_settings \<Rightarrow> candidate_snapshot \<Rightarrow> py_exception + py_float list" where
  "embedded E L R s =
     (case ge_embed E (embedding_text L s) (rs_embedding_model R) (rs_embedding_dim R) of
        Inl exc \<Rightarrow> Inl exc | Inr raw \<Rightarrow> validate_embedding raw (rs_embedding_dim R))"

definition plan_item ::
  "graph_env \<Rightarrow> stdlib \<Rightarrow> retrieval_settings \<Rightarrow> auto_merge_policy \<Rightarrow> string \<Rightarrow> graph_plan_item option \<Rightarrow> db \<Rightarrow> candidate_snapshot \<Rightarrow> graph_plan_item result" where
  "plan_item E L R policy pid parent d s =
     (case embedded E L R s of
        Inl exc \<Rightarrow> Inr (retrieval_stage_failed E exc (new_item s))
      | Inr v \<Rightarrow>
          (case retrieve E R s v d of
             Inl exc \<Rightarrow> Inr (retrieval_stage_failed E exc ((new_item s)\<lparr>gp_embedding := Some v\<rparr>))
           | Inr rows \<Rightarrow>
               (let it = (new_item s)\<lparr>gp_embedding := Some v, gp_retrieval := rows\<rparr> in
                if retrieval_payload E rows parent = []
                then Inr (item_warned (candidate_warning ''NO_RETRIEVAL_CANDIDATES_CREATE_NEW'' (cs_candidate_id s))
                       (it\<lparr>gp_skip_reason := Some ''NO_RETRIEVAL_CANDIDATES''\<rparr>))
                else case recommended E it parent of
                       Inl exc \<Rightarrow> Inr (b_model_failed E exc it)
                     | Inr b \<Rightarrow> plan_decision E L pid policy b parent d
                                 (it\<lparr>gp_decision := Some b, gp_requested_action := bd_recommendation b\<rparr>))))"

section \<open>The plan\<close>

definition plan_order :: "candidate_snapshot list \<Rightarrow> candidate_snapshot list" where
  "plan_order cs = sort_key (\<lambda>s. (if cs_node_type s = DECISION then 0 else 1 :: nat, cs_source_item_id s, cs_candidate_id s)) cs"

definition phase_of :: "candidate_snapshot \<Rightarrow> generation_status" where
  "phase_of s = (if cs_node_type s = DECISION then GEN_DECISION_ANALYZING else GEN_DEPENDENT_ANALYZING)"

definition planned_parent :: "graph_plan_item list \<Rightarrow> candidate_snapshot \<Rightarrow> graph_plan_item option" where
  "planned_parent items s = (case cs_suggested_parent_candidate_id s of
     None \<Rightarrow> None | Some p \<Rightarrow> find (\<lambda>it. cs_candidate_id (gp_source it) = p) (rev items))"

text \<open>The stages are transactions of their own: when planning fails, the database keeps those that were committed. The first
  component is the outcome, the second one the database that is left.\<close>

fun plan_loop ::
  "graph_env \<Rightarrow> stdlib \<Rightarrow> retrieval_settings \<Rightarrow> auto_merge_policy \<Rightarrow> string \<Rightarrow> uuid \<Rightarrow> time \<Rightarrow> candidate_snapshot list
    \<Rightarrow> generation_status option \<Rightarrow> graph_plan_item list \<Rightarrow> db \<Rightarrow> graph_plan_item list result \<times> db" where
  "plan_loop E L R policy pid run now [] phase items d = (Inr items, d)"
| "plan_loop E L R policy pid run now (s # ss) phase items d =
     (case (if phase = Some (phase_of s) then Inr d else set_run_stage pid run (phase_of s) now d) of
        Inl e \<Rightarrow> (Inl e, d)
      | Inr d1 \<Rightarrow>
          (case plan_item E L R policy pid (planned_parent items s) d1 s of
             Inl e \<Rightarrow> (Inl e, d1)
           | Inr it \<Rightarrow> plan_loop E L R policy pid run now ss (Some (phase_of s)) (items @ [it]) d1))"

definition build_graph_mutation_plan ::
  "graph_env \<Rightarrow> stdlib \<Rightarrow> retrieval_settings \<Rightarrow> auto_merge_policy \<Rightarrow> uuid \<Rightarrow> string \<Rightarrow> string \<Rightarrow> uuid \<Rightarrow> candidate_snapshot list \<Rightarrow> time \<Rightarrow> db
    \<Rightarrow> graph_mutation_plan result \<times> db" where
  "build_graph_mutation_plan E L R policy run pid mid request candidates now d =
     (if strip (ge_provider_model E) = [] then (Inl (ValueError ''b_model_client.provider_model must be a non-empty provider model id''), d)
      else case plan_loop E L R policy pid run now (plan_order candidates) None [] d of
             (Inl e, d1) \<Rightarrow> (Inl e, d1)
           | (Inr items, d1) \<Rightarrow>
               (Inr \<lparr>pl_generation_run_id = run, pl_project_id = pid, pl_external_meeting_id = mid, pl_source_request_id = request,
                  pl_items = items, pl_warnings = concat (map gp_warnings items), pl_provider_model = strip (ge_provider_model E)\<rparr>, d1))"

section \<open>Lemmas on the resolution of parents\<close>

text \<open>With unique node keys a resolution only fails with the two exceptions that the planner catches.\<close>

definition caught :: "py_error \<Rightarrow> bool" where
  "caught e \<longleftrightarrow> (\<exists>m. e = GraphIntegrityError m) \<or> (\<exists>m. e = GraphMutationValidationError m)"

lemma resolve_loop_caught: "nodes_unique d \<Longrightarrow> resolve_loop k d pid t vis cur = Inl e \<Longrightarrow> caught e"
proof (induction k arbitrary: vis cur)
  case (Suc k)
  have s: "one_or_none (filter (\<lambda>n. nd_id n = j \<and> nd_project_id n = pid \<and> nd_deleted_at n = None) (db_nodes d)) =
      Inr (case node_by_id d j of Some n \<Rightarrow> if nd_project_id n = pid \<and> nd_deleted_at n = None then Some n else None | None \<Rightarrow> None)" for j
    by (rule select_node [OF Suc.prems(1), of j "\<lambda>n. nd_project_id n = pid \<and> nd_deleted_at n = None"])
  from Suc.prems(2) show ?case
    using Suc.IH [OF Suc.prems(1)] by (auto simp: s caught_def node_in_any_project_eq [OF Suc.prems(1)] split: if_splits option.splits)
qed (auto simp: caught_def)

lemma resolve_caught: "nodes_unique d \<Longrightarrow> resolve_canonical_node d pid i t = Inl e \<Longrightarrow> caught e"
  using select_node [of d i "\<lambda>n. nd_project_id n = pid \<and> (False \<or> nd_deleted_at n = None)"]
  by (auto simp: resolve_canonical_node_def rbind_Inl_iff get_project_node_def node_in_any_project_eq resolve_loop_caught
      caught_def split: option.splits if_splits dest: resolve_loop_caught)

lemma node_in_any_project_cong: "db_nodes d = db_nodes d' \<Longrightarrow> node_in_any_project d = node_in_any_project d'"
  by (intro ext) (simp add: node_in_any_project_def)

lemma resolve_loop_cong: "db_nodes d = db_nodes d' \<Longrightarrow> resolve_loop k d pid t vis = resolve_loop k d' pid t vis"
proof (induction k arbitrary: vis)
  case (Suc k)
  show ?case
    by (intro ext) (simp add: Suc.IH [OF Suc.prems] Suc.prems node_in_any_project_cong [OF Suc.prems] cong: option.case_cong)
qed (intro ext, simp)

lemma resolve_canonical_cong: "db_nodes d = db_nodes d' \<Longrightarrow> resolve_canonical_node d = resolve_canonical_node d'"
  by (intro ext) (simp add: resolve_canonical_node_def get_project_node_def node_in_any_project_cong [of d d'] resolve_loop_cong [of d d'] cong: option.case_cong)

lemma resolve_parent_total: "nodes_unique d \<Longrightarrow> \<exists>pr. resolve_existing_parent_canonical_id d pid cat parent m i = Inr pr"
  by (auto simp: resolve_existing_parent_canonical_id_def caught_def split: option.split sum.split dest!: resolve_caught)

lemma resolve_parent_ok:
  assumes "resolve_existing_parent_canonical_id d pid cat parent m i = Inr pr" "pr_gate_reason pr = None"
  obtains p c where "parent = Some p" "resolve_canonical_node d pid p (Some DECISION) = Inr c" "nd_graph_state c = ACTIVE"
    "nd_category c = cat" "pr_canonical_id pr = Some (nd_id c)"
  using assms by (auto simp: resolve_existing_parent_canonical_id_def split: option.splits sum.splits py_error.splits if_splits)

section \<open>What an automatic merge has passed\<close>

text \<open>The specification of an automatic merge: a calibrated policy, the best ranked retrieval row, which has the type and the
  category of the source and is ACTIVE, far enough above the threshold and the next row of that type, an identity that the model
  affirms in every respect, a check of the conflicts that found none and, for an Action, no two different due dates.\<close>

definition merge_proven ::
  "graph_env \<Rightarrow> stdlib \<Rightarrow> auto_merge_policy \<Rightarrow> candidate_snapshot \<Rightarrow> retrieval_snapshot list \<Rightarrow> b_model_decision \<Rightarrow> retrieval_snapshot \<Rightarrow> bool" where
  "merge_proven E L policy s rows b t \<longleftrightarrow>
     (\<exists>ms mm. ap_min_similarity policy = Some ms \<and> ap_min_margin policy = Some mm \<and> ms \<le> sn_similarity t
        \<and> \<not> margin_too_small E (merge_scores s rows (sn_target_node_id t)) t mm)
   \<and> t \<in> set rows \<and> sn_rank t = 1 \<and> sn_node_type t = cs_node_type s \<and> sn_category t = cs_category s \<and> sn_graph_state t = ACTIVE
   \<and> bd_recommendation b = MERGE \<and> bd_target_node_id b = Some (sn_target_node_id t)
   \<and> (\<forall>key \<in> set (identity_keys (cs_node_type s)). jget (jget (bd_metadata b) ''identityBasis'') key = JBool True)
   \<and> (\<exists>checks. conflict_rows (jget (bd_metadata b) ''conflictsChecked'') = Some checks \<and> (\<forall>v \<in> set checks. no_conflict L v))
   \<and> \<not> (cs_node_type s = ACTION \<and> truthy (cs_due_date s) \<and> truthy (sn_due_date t) \<and> cs_due_date s \<noteq> sn_due_date t)"

text \<open>The parent that a candidate was meant for is the node \<open>i\<close>: the Decision item of the plan that the candidate names will be the
  node \<open>i\<close> or, when that item is itself merged, the target of its merge resolves to the ACTIVE Decision \<open>i\<close>.\<close>

definition meant_for :: "db \<Rightarrow> string \<Rightarrow> candidate_snapshot \<Rightarrow> graph_plan_item option \<Rightarrow> uuid \<Rightarrow> bool" where
  "meant_for d pid s parent i \<longleftrightarrow>
     (\<exists>p. parent = Some p \<and> \<not> gp_excluded p \<and> cs_project_id (gp_source p) = pid \<and> cs_node_type (gp_source p) = DECISION
        \<and> cs_category (gp_source p) = cs_category s
        \<and> (if gp_applied_action p = MERGE
            then \<exists>q c. gp_target_node_id p = Some q \<and> resolve_canonical_node d pid q (Some DECISION) = Inr c \<and> nd_graph_state c = ACTIVE
              \<and> nd_category c = cs_category s \<and> nd_id c = i
            else cs_node_id (gp_source p) = i))"

text \<open>The structural side of a merge of Actions: the parent of the target and the one that was meant are the same ACTIVE Decision of
  the category.\<close>

definition same_parent :: "db \<Rightarrow> string \<Rightarrow> candidate_snapshot \<Rightarrow> retrieval_snapshot \<Rightarrow> graph_plan_item option \<Rightarrow> uuid option \<Rightarrow> bool" where
  "same_parent d pid s t parent intended \<longleftrightarrow>
     (\<exists>p c. sn_parent_id t = Some p \<and> resolve_canonical_node d pid p (Some DECISION) = Inr c \<and> nd_graph_state c = ACTIVE
        \<and> nd_category c = cs_category s \<and> intended = Some (nd_id c) \<and> meant_for d pid s parent (nd_id c))"

lemma identity_gate_passed:
  assumes "identity_gate L s t b policy intended target = None"
  shows "sn_rank t = 1" "\<exists>ms. ap_min_similarity policy = Some ms \<and> ms \<le> sn_similarity t"
    "\<forall>key \<in> set (identity_keys (cs_node_type s)). jget (jget (bd_metadata b) ''identityBasis'') key = JBool True"
    "\<exists>checks. conflict_rows (jget (bd_metadata b) ''conflictsChecked'') = Some checks \<and> (\<forall>v \<in> set checks. no_conflict L v)"
    "cs_node_type s = ACTION \<Longrightarrow> action_parent_gate intended target = None"
    "\<not> (cs_node_type s = ACTION \<and> truthy (cs_due_date s) \<and> truthy (sn_due_date t) \<and> cs_due_date s \<noteq> sn_due_date t)"
  using assms by (auto simp: identity_gate_def split: option.splits if_splits json.splits)

lemma action_parent_gate_passed: "action_parent_gate intended target = None \<longleftrightarrow>
    pr_gate_reason intended = None \<and> pr_gate_reason target = None \<and> pr_canonical_id intended = pr_canonical_id target"
  by (auto simp: action_parent_gate_def)

lemma planned_parent_meant:
  assumes "resolve_planned_parent_canonical_id d pid (cs_category s) parent = Inr pr" "pr_gate_reason pr = None" "pr_canonical_id pr = Some i"
  shows "meant_for d pid s parent i"
proof -
  from assms(1,2) obtain p where p: "parent = Some p" "\<not> gp_excluded p" "cs_project_id (gp_source p) = pid" "cs_node_type (gp_source p) = DECISION"
      "cs_category (gp_source p) = cs_category s"
    and pr: "(if gp_applied_action p = MERGE
        then resolve_existing_parent_canonical_id d pid (cs_category s) (gp_target_node_id p)
               ''MERGE_ACTION_INTENDED_PARENT_MISSING'' ''MERGE_ACTION_INTENDED_PARENT_INVALID''
        else Inr \<lparr>pr_canonical_id = Some (cs_node_id (gp_source p)), pr_gate_reason = None\<rparr>) = Inr pr"
    by (auto simp: resolve_planned_parent_canonical_id_def split: option.splits if_splits)
  show ?thesis
  proof (cases "gp_applied_action p = MERGE")
    case True
    with pr have "resolve_existing_parent_canonical_id d pid (cs_category s) (gp_target_node_id p)
        ''MERGE_ACTION_INTENDED_PARENT_MISSING'' ''MERGE_ACTION_INTENDED_PARENT_INVALID'' = Inr pr" by simp
    from resolve_parent_ok [OF this assms(2)] p True assms(3) show ?thesis by (fastforce simp: meant_for_def)
  next
    case False
    with pr p assms(3) show ?thesis by (auto simp: meant_for_def)
  qed
qed

lemma merge_gate_passed:
  assumes "merge_gate E L pid policy s rows b parent d = Inr (None, intended)" "bd_recommendation b = MERGE"
  obtains t where "find (\<lambda>row. Some (sn_target_node_id row) = bd_target_node_id b) rows = Some t" "merge_proven E L policy s rows b t"
    "cs_node_type s = ACTION \<Longrightarrow> same_parent d pid s t parent intended"
proof -
  note result = that
  let ?none = "\<lparr>pr_canonical_id = None, pr_gate_reason = None\<rparr>"
  from assms(1) obtain ms mm t where t: "ap_min_similarity policy = Some ms" "ap_min_margin policy = Some mm"
      "find (\<lambda>row. Some (sn_target_node_id row) = bd_target_node_id b) rows = Some t" "sn_node_type t = cs_node_type s"
      "sn_category t = cs_category s" "sn_graph_state t = ACTIVE" "\<not> margin_too_small E (merge_scores s rows (sn_target_node_id t)) t mm"
    and rest: "(if cs_node_type s = ACTION
               then rbind (resolve_planned_parent_canonical_id d pid (cs_category s) parent) (\<lambda>intended.
                    rbind (resolve_existing_parent_canonical_id d pid (cs_category s) (sn_parent_id t)
                             ''MERGE_ACTION_TARGET_PARENT_MISSING'' ''MERGE_ACTION_TARGET_PARENT_INVALID'') (\<lambda>target_parent.
                      Inr (identity_gate L s t b policy intended target_parent, pr_canonical_id intended)))
               else Inr (identity_gate L s t b policy ?none ?none, None)) = Inr (None, intended)"
    by (auto simp: merge_gate_def split: option.splits if_splits)
  from t(3) have row: "t \<in> set rows" "bd_target_node_id b = Some (sn_target_node_id t)" by (auto dest: find_SomeD)
  obtain i tp where gate: "identity_gate L s t b policy i tp = None"
    and action: "cs_node_type s = ACTION \<Longrightarrow> pr_canonical_id i = intended \<and> resolve_planned_parent_canonical_id d pid (cs_category s) parent = Inr i
                           \<and> resolve_existing_parent_canonical_id d pid (cs_category s) (sn_parent_id t)
                             ''MERGE_ACTION_TARGET_PARENT_MISSING'' ''MERGE_ACTION_TARGET_PARENT_INVALID'' = Inr tp"
    using rest by (auto simp: rbind_Inr_iff split: if_splits)
  note passed = identity_gate_passed [OF gate]
  have "merge_proven E L policy s rows b t"
    using passed(1-4,6) t row assms(2) by (auto simp: merge_proven_def)
  moreover have "same_parent d pid s t parent intended" if a: "cs_node_type s = ACTION"
  proof -
    from passed(5) [OF a] have g: "pr_gate_reason tp = None" "pr_canonical_id i = pr_canonical_id tp" "pr_gate_reason i = None" by (simp_all add: action_parent_gate_passed)
    from action [OF a] g(1) obtain p c where "sn_parent_id t = Some p" "resolve_canonical_node d pid p (Some DECISION) = Inr c"
      "nd_graph_state c = ACTIVE" "nd_category c = cs_category s" "pr_canonical_id tp = Some (nd_id c)"
      by (blast elim: resolve_parent_ok)
    with g(2,3) action [OF a] show ?thesis by (fastforce simp: same_parent_def intro: planned_parent_meant)
  qed
  ultimately show thesis using result t(3) by blast
qed

section \<open>One item\<close>

text \<open>Every candidate has exactly one recorded outcome of the B model: a decision, a failure with its code, or a named reason why
  it was not called; without a decision nothing but a new node is made.\<close>

definition accounted :: "graph_plan_item \<Rightarrow> bool" where
  "accounted it \<longleftrightarrow>
     (gp_decision it \<noteq> None \<and> gp_b_model_failure it = None \<and> gp_skip_reason it = None
      \<or> gp_decision it = None \<and> gp_b_model_failure it \<noteq> None \<and> gp_skip_reason it = None \<and> gp_applied_action it = CREATE_NEW
      \<or> gp_decision it = None \<and> gp_b_model_failure it = None \<and> gp_applied_action it = CREATE_NEW
        \<and> (if gp_retrieval_failed it then gp_skip_reason it = Some ''RETRIEVAL_FAILED'' else gp_skip_reason it = Some ''NO_RETRIEVAL_CANDIDATES''))
   \<and> (gp_applied_action it = CREATE_NEW \<longrightarrow> gp_target_node_id it = None)
   \<and> (gp_applied_action it \<noteq> CREATE_NEW \<longrightarrow> (\<exists>b. gp_decision it = Some b \<and> bd_recommendation b = gp_applied_action it \<and> gp_target_node_id it = bd_target_node_id b))"

lemma find_link_row: "find (\<lambda>row. sn_target_node_id row = target) rows = Some row \<Longrightarrow> sn_target_node_id row = target"
  by (auto dest: find_SomeD)

lemma validate_link_target_id: "validate_link_target s b rows parent = Some (target, v) \<Longrightarrow> bd_target_node_id b = Some target"
  by (auto simp: validate_link_target_def split: option.splits if_splits dest: find_link_row)

lemma plan_link_ok:
  assumes "gp_decision it = Some b" "bd_recommendation b = LINK" "gp_b_model_failure it = None" "gp_skip_reason it = None" "gp_target_node_id it = None"
  shows "accounted (plan_link b parent it) \<and> gp_source (plan_link b parent it) = gp_source it \<and> gp_applied_action (plan_link b parent it) \<noteq> MERGE"
proof (cases "validate_link_target (gp_source it) b (gp_retrieval it) parent")
  case None
  then show ?thesis using assms by (simp add: plan_link_def item_warned_def accounted_def)
next
  case (Some r)
  then obtain target v where "validate_link_target (gp_source it) b (gp_retrieval it) parent = Some (target, v)" by (cases r) simp
  with validate_link_target_id [OF this] assms show ?thesis by (simp add: plan_link_def accounted_def)
qed

definition merge_checked :: "graph_env \<Rightarrow> stdlib \<Rightarrow> auto_merge_policy \<Rightarrow> string \<Rightarrow> graph_plan_item option \<Rightarrow> db \<Rightarrow> graph_plan_item \<Rightarrow> bool" where
  "merge_checked E L policy pid parent d it \<longleftrightarrow>
     (\<exists>b t. gp_decision it = Some b \<and> merge_proven E L policy (gp_source it) (gp_retrieval it) b t
        \<and> gp_target_node_id it = Some (sn_target_node_id t) \<and> gp_target_node_version it = Some (sn_target_node_version t)
        \<and> (cs_node_type (gp_source it) = ACTION \<longrightarrow> same_parent d pid (gp_source it) t parent (gp_parent_node_id it)))"

lemma plan_merge_ok:
  assumes "plan_merge E L pid policy b parent d it = Inr it'" "gp_decision it = Some b" "bd_recommendation b = MERGE"
    "gp_b_model_failure it = None" "gp_skip_reason it = None" "gp_target_node_id it = None"
  shows "accounted it' \<and> gp_source it' = gp_source it \<and> gp_retrieval it' = gp_retrieval it
    \<and> (gp_applied_action it' = MERGE \<longrightarrow> merge_checked E L policy pid parent d it')"
proof -
  obtain reason intended where g: "merge_gate E L pid policy (gp_source it) (gp_retrieval it) b parent d = Inr (reason, intended)"
    using assms(1) by (auto simp: plan_merge_def rbind_Inr_iff)
  show ?thesis
  proof (cases reason)
    case None
    obtain t where t: "find (\<lambda>row. Some (sn_target_node_id row) = bd_target_node_id b) (gp_retrieval it) = Some t"
      "merge_proven E L policy (gp_source it) (gp_retrieval it) b t"
      "cs_node_type (gp_source it) = ACTION \<Longrightarrow> same_parent d pid (gp_source it) t parent intended"
      using merge_gate_passed [of E L pid policy "gp_source it" "gp_retrieval it" b parent d intended] g None assms(3) by blast
    then have "bd_target_node_id b = Some (sn_target_node_id t)" by (simp add: merge_proven_def)
    with t(1) g None assms have it': "it' = it\<lparr>gp_merge_gate_reason := None, gp_parent_node_id := intended, gp_applied_action := MERGE,
        gp_target_node_id := bd_target_node_id b, gp_target_node_version := Some (sn_target_node_version t)\<rparr>"
      by (auto simp: plan_merge_def)
    then have "merge_checked E L policy pid parent d it'" unfolding merge_checked_def
      using t(2,3) assms(2) \<open>bd_target_node_id b = _\<close> by (intro exI [of _ b] exI [of _ t]) simp
    moreover have "accounted it'" using it' assms(2-5) by (simp add: accounted_def)
    ultimately show ?thesis by (simp add: it')
  next
    case (Some r)
    with g assms show ?thesis by (auto simp: plan_merge_def accounted_def item_warned_def)
  qed
qed

lemma model_validate_shape: "model_validate E raw = Inr b \<Longrightarrow> validate_combination b = None"
  by (auto simp: model_validate_def split: sum.splits option.splits)

lemma plan_item_ok:
  assumes "plan_item E L R policy pid parent d s = Inr it"
  shows "gp_source it = s \<and> accounted it \<and> (gp_applied_action it = MERGE \<longrightarrow>
     merge_checked E L policy pid parent d it \<and> (\<exists>v. retrieve E R s v d = Inr (gp_retrieval it)))"
proof -
  note defs = plan_item_def retrieval_stage_failed_def b_model_failed_def item_warned_def new_item_def accounted_def
  consider "gp_decision it = None" | v rows b where "retrieve E R s v d = Inr rows"
    "plan_decision E L pid policy b parent d ((new_item s)\<lparr>gp_embedding := Some v, gp_retrieval := rows, gp_decision := Some b,
        gp_requested_action := bd_recommendation b\<rparr>) = Inr it"
    using assms by (auto simp: defs Let_def split: sum.splits if_splits prod.splits)
  then show ?thesis
  proof cases
    case 1
    have "gp_decision it = Some b" if "plan_decision E L pid policy b parent d it0 = Inr it" "gp_decision it0 = Some b" for b it0
      using that by (auto simp: plan_decision_def plan_link_def plan_merge_def item_warned_def rbind_Inr_iff Let_def
          split: recommendation_type.splits option.splits prod.splits)
    with 1 assms show ?thesis by (fastforce simp: defs Let_def split: sum.splits if_splits prod.splits)
  next
    case (2 v rows b)
    let ?it = "(new_item s)\<lparr>gp_embedding := Some v, gp_retrieval := rows, gp_decision := Some b, gp_requested_action := bd_recommendation b\<rparr>"
    have fields: "gp_source ?it = s" "gp_decision ?it = Some b" "gp_b_model_failure ?it = None" "gp_skip_reason ?it = None"
      "gp_target_node_id ?it = None" "gp_retrieval ?it = rows" by (simp_all add: new_item_def)
    show ?thesis
    proof (cases "bd_recommendation b")
      case CREATE_NEW
      with 2 show ?thesis by (auto simp: plan_decision_def new_item_def accounted_def)
    next
      case LINK
      with 2 plan_link_ok [OF fields(2) LINK fields(3-5), of parent] fields(1) show ?thesis by (auto simp: plan_decision_def)
    next
      case MERGE
      with 2(2) have "plan_merge E L pid policy b parent d ?it = Inr it" by (simp add: plan_decision_def)
      from plan_merge_ok [OF this fields(2) MERGE fields(3-5)] 2(1) fields show ?thesis by auto
    qed
  qed
qed

section \<open>The plan as a whole\<close>

text \<open>The rows of the graph that a stage of the run leaves alone.\<close>

definition plan_frame :: "db \<Rightarrow> db \<Rightarrow> bool" where
  "plan_frame d d' \<longleftrightarrow> d' = d\<lparr>db_generation_runs := db_generation_runs d'\<rparr>"

lemma plan_frame_refl [simp]: "plan_frame d d"
  by (simp add: plan_frame_def)

lemma plan_frame_trans: "plan_frame d d1 \<Longrightarrow> plan_frame d1 d2 \<Longrightarrow> plan_frame d d2"
  unfolding plan_frame_def by (metis (no_types, lifting) db.surjective db.update_convs(22))

lemma plan_frame_nodes: "plan_frame d d' \<Longrightarrow> db_nodes d' = db_nodes d"
  unfolding plan_frame_def by (metis db.select_convs(1) db.surjective db.update_convs(22))

text \<open>The run is there and not published.\<close>

definition live_run :: "db \<Rightarrow> string \<Rightarrow> uuid \<Rightarrow> bool" where
  "live_run d pid i \<longleftrightarrow> (\<exists>r. filter (\<lambda>r. gr_id r = i \<and> gr_project_id r = pid) (db_generation_runs d) = [r] \<and> \<not> published r)"

lemma filter_set_run:
  assumes "\<And>r. gr_id (f r) = gr_id r \<and> gr_project_id (f r) = gr_project_id r"
    "filter (\<lambda>r. gr_id r = i \<and> gr_project_id r = pid) (db_generation_runs d) = [r]"
  shows "filter (\<lambda>r. gr_id r = i \<and> gr_project_id r = pid) (db_generation_runs (set_run i f d)) = [f r]"
proof -
  have "filter (\<lambda>r. gr_id r = i \<and> gr_project_id r = pid) (update_where (\<lambda>r. gr_id r = i) f rs) =
      map f (filter (\<lambda>r. gr_id r = i \<and> gr_project_id r = pid) rs)" for rs
    by (induction rs) (auto simp: assms(1))
  with assms(2) show ?thesis by (simp add: set_run_def)
qed

lemma set_run_stage_ok:
  assumes "live_run d pid i" "s \<notin> set PUBLISHED_STATES"
  obtains d' where "set_run_stage pid i s now d = Inr d'" "live_run d' pid i" "plan_frame d d'"
proof -
  from assms(1) obtain r where r: "filter (\<lambda>r. gr_id r = i \<and> gr_project_id r = pid) (db_generation_runs d) = [r]" "\<not> published r"
    by (auto simp: live_run_def)
  let ?d = "set_run i (\<lambda>r. r\<lparr>gr_status := s, gr_updated_at := now\<rparr>) d"
  have "set_run_stage pid i s now d = Inr ?d" using r by (simp add: set_run_stage_def select_run_def rguard_def)
  moreover have "live_run ?d pid i" unfolding live_run_def using assms(2)
    by (intro exI [of _ "r\<lparr>gr_status := s, gr_updated_at := now\<rparr>"] conjI filter_set_run [OF _ r(1)]) simp_all
  moreover have "plan_frame d ?d" by (simp add: plan_frame_def set_run_def)
  ultimately show thesis using that by blast
qed

lemma plan_item_total: "nodes_unique d \<Longrightarrow> \<exists>it. plan_item E L R policy pid parent d s = Inr it"
proof -
  assume u: "nodes_unique d"
  have planned: "\<exists>pr. resolve_planned_parent_canonical_id d pid c p = Inr pr" for c p
    using resolve_parent_total [OF u] by (auto simp: resolve_planned_parent_canonical_id_def split: option.split)
  have gate: "\<exists>x. merge_gate E L pid policy s' rows b parent d = Inr x" for s' rows b
  proof (cases "merge_gate E L pid policy s' rows b parent d")
    case (Inl e)
    then have "resolve_planned_parent_canonical_id d pid (cs_category s') parent = Inl e
      \<or> (\<exists>t::retrieval_snapshot. resolve_existing_parent_canonical_id d pid (cs_category s') (sn_parent_id t)
          ''MERGE_ACTION_TARGET_PARENT_MISSING'' ''MERGE_ACTION_TARGET_PARENT_INVALID'' = Inl e)"
      by (auto simp: merge_gate_def rbind_Inl_iff split: option.splits if_splits)
    with planned resolve_parent_total [OF u] show ?thesis by (metis sum.distinct(1))
  qed simp
  have "\<exists>it. plan_decision E L pid policy b parent d it0 = Inr it" for b it0
    using gate [of "gp_source it0" "gp_retrieval it0" b]
    by (auto simp: plan_decision_def plan_merge_def Let_def split: recommendation_type.split option.split)
  then show ?thesis by (auto simp: plan_item_def Let_def split: sum.split)
qed

lemma plan_loop_ok:
  assumes "plan_loop E L R policy pid run now ss phase items d = (Inr out, d')" "live_run d pid run"
  shows "plan_frame d d' \<and> live_run d' pid run \<and> (\<exists>new. out = items @ new \<and> map gp_source new = ss
    \<and> (\<forall>before it after. new = before @ it # after \<longrightarrow> (\<exists>d1. plan_frame d d1
          \<and> plan_item E L R policy pid (planned_parent (items @ before) (gp_source it)) d1 (gp_source it) = Inr it)))"
  using assms
proof (induction ss arbitrary: phase items d)
  case (Cons s ss)
  have unpublished: "phase_of s \<notin> set PUBLISHED_STATES" by (simp add: phase_of_def PUBLISHED_STATES_def)
  obtain d1 where stage: "(if phase = Some (phase_of s) then Inr d else set_run_stage pid run (phase_of s) now d) = Inr d1"
      "live_run d1 pid run" "plan_frame d d1"
    using set_run_stage_ok [OF Cons.prems(2) unpublished] Cons.prems(2) plan_frame_refl by metis
  from Cons.prems(1) stage(1) obtain it where it: "plan_item E L R policy pid (planned_parent items s) d1 s = Inr it"
      "plan_loop E L R policy pid run now ss (Some (phase_of s)) (items @ [it]) d1 = (Inr out, d')"
    by (auto split: sum.splits)
  from Cons.IH [OF it(2) stage(2)] obtain new where rest: "plan_frame d1 d'" "live_run d' pid run" "out = (items @ [it]) @ new" "map gp_source new = ss"
      "\<forall>before x after. new = before @ x # after \<longrightarrow> (\<exists>d2. plan_frame d1 d2
          \<and> plan_item E L R policy pid (planned_parent ((items @ [it]) @ before) (gp_source x)) d2 (gp_source x) = Inr x)"
    by (elim conjE exE) (rule that)
  have s: "gp_source it = s" using plan_item_ok [OF it(1)] by simp
  have "\<exists>d2. plan_frame d d2 \<and> plan_item E L R policy pid (planned_parent (items @ before) (gp_source x)) d2 (gp_source x) = Inr x"
    if x: "it # new = before @ x # after" for before x after
  proof (cases before)
    case Nil
    with x have "x = it" "items @ before = items" by simp_all
    with it(1) s stage(3) show ?thesis by (intro exI [of _ d1]) simp
  next
    case (Cons y ys)
    with x have y: "y = it" "new = ys @ x # after" by simp_all
    from rest(5) [rule_format, OF y(2)] obtain d2 where "plan_frame d1 d2"
      "plan_item E L R policy pid (planned_parent ((items @ [it]) @ ys) (gp_source x)) d2 (gp_source x) = Inr x" by blast
    with plan_frame_trans [OF stage(3)] Cons y(1) show ?thesis by (intro exI [of _ d2]) simp
  qed
  note each = this
  have "out = items @ (it # new)" "map gp_source (it # new) = s # ss" using rest(3,4) s by simp_all
  then show ?case using each rest(2) plan_frame_trans [OF stage(3) rest(1)] by (intro conjI exI [of _ "it # new"] allI impI)
qed simp

lemma plan_loop_total:
  assumes "nodes_unique d" "live_run d pid run"
  shows "\<exists>out d'. plan_loop E L R policy pid run now ss phase items d = (Inr out, d')"
  using assms
proof (induction ss arbitrary: phase items d)
  case (Cons s ss)
  have unpublished: "phase_of s \<notin> set PUBLISHED_STATES" by (simp add: phase_of_def PUBLISHED_STATES_def)
  obtain d1 where stage: "(if phase = Some (phase_of s) then Inr d else set_run_stage pid run (phase_of s) now d) = Inr d1"
      "live_run d1 pid run" "plan_frame d d1"
    using set_run_stage_ok [OF Cons.prems(2) unpublished] Cons.prems(2) plan_frame_refl by metis
  have u: "nodes_unique d1" using Cons.prems(1) plan_frame_nodes [OF stage(3)] by simp
  obtain it where "plan_item E L R policy pid (planned_parent items s) d1 s = Inr it" using plan_item_total [OF u] by blast
  then show ?case using Cons.IH [OF u stage(2)] stage(1) by simp
qed simp


lemma retrieval_snapshots_rows:
  "retrieval_snapshots pid d k rows = Inr out \<Longrightarrow> t \<in> set out \<Longrightarrow>
   \<exists>n. n \<in> set (db_nodes d) \<and> nd_id n = sn_target_node_id t \<and> nd_project_id n = pid \<and> nd_node_type n = sn_node_type t
     \<and> nd_category n = sn_category t \<and> nd_graph_state n = sn_graph_state t \<and> nd_parent_id n = sn_parent_id t \<and> nd_due_date n = sn_due_date t"
proof (induction rows arbitrary: k out)
  case (Cons row rows)
  from Cons.prems obtain n others where n: "find (\<lambda>n. nd_id n = rt_target_node_id row \<and> nd_project_id n = pid) (db_nodes d) = Some n"
      "retrieval_snapshots pid d (k + 1) rows = Inr others"
    and out: "t \<in> set others \<or> (sn_target_node_id t = nd_id n \<and> sn_node_type t = nd_node_type n \<and> sn_category t = nd_category n
        \<and> sn_graph_state t = nd_graph_state n \<and> sn_parent_id t = nd_parent_id n \<and> sn_due_date t = nd_due_date n)"
    by (auto split: option.splits sum.splits)
  have "n \<in> set (db_nodes d)" "nd_project_id n = pid" using find_SomeD [OF n(1)] by simp_all
  with out Cons.IH [OF n(2)] show ?case by metis
qed simp

lemma retrieve_rows: "retrieve E R s v d = Inr rows \<Longrightarrow> t \<in> set rows \<Longrightarrow>
   \<exists>n. n \<in> set (db_nodes d) \<and> nd_id n = sn_target_node_id t \<and> nd_project_id n = cs_project_id s \<and> nd_node_type n = sn_node_type t
     \<and> nd_category n = sn_category t \<and> nd_graph_state n = sn_graph_state t \<and> nd_parent_id n = sn_parent_id t \<and> nd_due_date n = sn_due_date t"
  by (auto simp: retrieve_def Let_def split: sum.splits dest: retrieval_snapshots_rows)

text \<open>C3. No merge without proof. An item that the plan merges has a decision that names the best ranked retrieval row; that row
  and the policy satisfy every gate (similarity, margin, identity, conflicts and, for an Action, the due dates); the row shows an ACTIVE
  node of the project with the type and the category of the source. An Action is only merged when the parent of the target resolves to
  an ACTIVE Decision of its category and the Decision it was meant for, an item that stands before it in the plan, is or resolves to the
  same node; that node is the parent that the item records.\<close>

theorem planned_merge_proven:
  assumes "nodes_unique d" "live_run d pid run"
    "build_graph_mutation_plan E L R policy run pid mid request candidates now d = (Inr plan, d')"
    "pl_items plan = before @ it # after" "gp_applied_action it = MERGE"
  shows "\<exists>b t n. gp_decision it = Some b \<and> merge_proven E L policy (gp_source it) (gp_retrieval it) b t
    \<and> gp_target_node_id it = Some (sn_target_node_id t) \<and> gp_target_node_version it = Some (sn_target_node_version t)
    \<and> node_by_id d (sn_target_node_id t) = Some n \<and> nd_project_id n = cs_project_id (gp_source it) \<and> nd_graph_state n = ACTIVE
    \<and> nd_node_type n = cs_node_type (gp_source it) \<and> nd_category n = cs_category (gp_source it) \<and> nd_due_date n = sn_due_date t
    \<and> (cs_node_type (gp_source it) = ACTION \<longrightarrow> (\<exists>p c. nd_parent_id n = Some p \<and> resolve_canonical_node d pid p (Some DECISION) = Inr c
          \<and> nd_graph_state c = ACTIVE \<and> nd_category c = cs_category (gp_source it) \<and> gp_parent_node_id it = Some (nd_id c)
          \<and> meant_for d pid (gp_source it) (planned_parent before (gp_source it)) (nd_id c)))"
proof -
  let ?s = "gp_source it"
  from assms(3) obtain items where loop: "plan_loop E L R policy pid run now (plan_order candidates) None [] d = (Inr items, d')" "pl_items plan = items"
    by (auto simp: build_graph_mutation_plan_def split: if_splits prod.splits sum.splits)
  from plan_loop_ok [OF loop(1) assms(2)] loop(2) assms(4) obtain d1 where d1: "plan_frame d d1"
      "plan_item E L R policy pid (planned_parent before ?s) d1 ?s = Inr it" by auto
  note nodes = plan_frame_nodes [OF d1(1)]
  from plan_item_ok [OF d1(2)] assms(5) obtain v where checked: "merge_checked E L policy pid (planned_parent before ?s) d1 it"
      and rows: "retrieve E R ?s v d1 = Inr (gp_retrieval it)" by blast
  from checked obtain b t where bt: "gp_decision it = Some b" "merge_proven E L policy ?s (gp_retrieval it) b t"
      "gp_target_node_id it = Some (sn_target_node_id t)" "gp_target_node_version it = Some (sn_target_node_version t)"
      "cs_node_type ?s = ACTION \<longrightarrow> same_parent d1 pid ?s t (planned_parent before ?s) (gp_parent_node_id it)" by (auto simp: merge_checked_def)
  from bt(2) have row: "t \<in> set (gp_retrieval it)" "sn_node_type t = cs_node_type ?s" "sn_category t = cs_category ?s"
      "sn_graph_state t = ACTIVE" by (simp_all add: merge_proven_def)
  from retrieve_rows [OF rows row(1)] nodes row(2-4) obtain n where n: "n \<in> set (db_nodes d)" "nd_id n = sn_target_node_id t"
      "nd_project_id n = cs_project_id ?s" "nd_node_type n = cs_node_type ?s" "nd_category n = cs_category ?s"
      "nd_graph_state n = ACTIVE" "nd_parent_id n = sn_parent_id t" "nd_due_date n = sn_due_date t" by auto
  have "node_by_id d (sn_target_node_id t) = Some n" using node_by_id_Some [OF assms(1)] n(1,2) by simp
  moreover have "cs_node_type ?s = ACTION \<longrightarrow> (\<exists>p c. nd_parent_id n = Some p \<and> resolve_canonical_node d pid p (Some DECISION) = Inr c
          \<and> nd_graph_state c = ACTIVE \<and> nd_category c = cs_category ?s \<and> gp_parent_node_id it = Some (nd_id c)
          \<and> meant_for d pid ?s (planned_parent before ?s) (nd_id c))"
    using bt(5) n(7) unfolding same_parent_def meant_for_def resolve_canonical_cong [OF nodes] by auto
  ultimately show ?thesis using bt(1-4) n(3-6,8) by blast
qed

section \<open>A run at concrete values\<close>

text \<open>One ACTIVE Decision with an embedding, an environment whose model finds the new Decision in it again, a calibrated policy, and
  two candidates of the meeting.\<close>

definition sample_match :: b_model_decision where
  "sample_match = \<lparr>bd_recommendation = MERGE, bd_target_node_id = Some 10, bd_relation_type = None, bd_suggested_title = ''t'',
     bd_suggested_content = ''c'', bd_reason = ''r'', bd_metadata = JObj [(''identityBasis'', JObj [(''same_subject'', JBool True),
       (''same_outcome_or_task'', JBool True), (''same_scope'', JBool True), (''same_time_or_scope'', JBool True)]),
       (''conflictsChecked'', JList [jstr ''MATCH''])]\<rparr>"

definition sample_env :: graph_env where
  "sample_env = \<lparr>ge_embed = (\<lambda>_ _ _. Inr [Finite 1]), ge_recommend = (\<lambda>_ _. Inr JNull), ge_provider_model = ''m'',
     ge_model_fields = (\<lambda>_. Inr sample_match), ge_model_error = raised ''ValidationError'', ge_distance = (\<lambda>_ _. 0), ge_float_sub = (\<lambda>a b. a - b),
     ge_float_repr = (\<lambda>_. ''1.0''), ge_re_sub = (\<lambda>_ _ s. s), ge_uuid5 = length\<rparr>"

definition sample_retrieval :: retrieval_settings where
  "sample_retrieval = \<lparr>rs_decision_top_k = 3, rs_node_top_k = 3, rs_min_similarity = None, rs_embedding_model = ''e'', rs_embedding_version = ''v1'',
     rs_embedding_dim = 1, rs_config_version = ''r1''\<rparr>"

definition sample_policy :: auto_merge_policy where
  "sample_policy = \<lparr>ap_min_similarity = Some 1, ap_min_margin = Some 1\<rparr>"

definition sample_source :: "uuid \<Rightarrow> node_type \<Rightarrow> candidate_snapshot" where
  "sample_source i t = \<lparr>cs_candidate_id = i, cs_source_item_id = ''i'', cs_project_id = ''7'', cs_external_meeting_id = ''m'', cs_node_id = i + 100,
     cs_node_type = t, cs_category = ''PLAN'', cs_title = ''t'', cs_content = ''c'', cs_due_date = None, cs_suggested_parent_candidate_id = None,
     cs_evidence = [sample_spec]\<rparr>"

definition sample_run :: "generation_status \<Rightarrow> generation_run" where
  "sample_run s = (new_run \<lparr>ri_project_id = ''7'', ri_external_meeting_id = ''m'', ri_recording_hash = ''h'', ri_pipeline_version = ''p''\<rparr> None 5 1)
     \<lparr>gr_status := s\<rparr>"

definition sample_plan_db :: db where
  "sample_plan_db = (sample_db [sample_node 10 ''7''])\<lparr>db_generation_runs := [sample_run GEN_EXTRACTING],
     db_embeddings := [\<lparr>em_node_id = 10, em_embedding_version = ''v1'', em_embedding_model = ''e'', em_dimension = 1, em_embedded_text_hash = None,
       em_embedding = Some [1], em_status = EMB_READY, em_embedded_at = None\<rparr>]\<rparr>"

definition sample_planning :: "graph_mutation_plan result \<times> db" where
  "sample_planning = build_graph_mutation_plan sample_env sample_stdlib sample_retrieval sample_policy 5 ''7'' ''m'' 8
     [sample_source 2 ACTION, sample_source 1 DECISION] 9 sample_plan_db"

lemma sample_plan_db_ok: "nodes_unique sample_plan_db" "live_run sample_plan_db ''7'' 5" "strip (ge_provider_model sample_env) \<noteq> []"
  by (simp_all add: sample_plan_db_def sample_db_def live_run_def sample_run_def new_run_def PUBLISHED_STATES_def) code_simp

lemma sample_planning_actions:
  "(case fst sample_planning of Inr plan \<Rightarrow> map (\<lambda>it. (gp_applied_action it, gp_target_node_id it)) (pl_items plan) | Inl _ \<Rightarrow> [])
     = [(MERGE, Some 10), (CREATE_NEW, None)]"
  by code_simp


theorem planned_merge_proven_witness:
  "\<exists>plan d' it b t. sample_planning = (Inr plan, d') \<and> it \<in> set (pl_items plan) \<and> gp_decision it = Some b
     \<and> merge_proven sample_env sample_stdlib sample_policy (gp_source it) (gp_retrieval it) b t \<and> node_by_id sample_plan_db (sn_target_node_id t) \<noteq> None"
proof -
  obtain r d' where p: "sample_planning = (r, d')" by (cases sample_planning)
  from sample_planning_actions have "case r of Inr plan \<Rightarrow> map (\<lambda>it. (gp_applied_action it, gp_target_node_id it)) (pl_items plan)
      = [(MERGE, Some 10), (CREATE_NEW, None)] | Inl _ \<Rightarrow> False"
    unfolding p by (cases r) simp_all
  then obtain plan where plan: "r = Inr plan" "map (\<lambda>it. (gp_applied_action it, gp_target_node_id it)) (pl_items plan) = [(MERGE, Some 10), (CREATE_NEW, None)]"
    by (cases r) auto
  then obtain it rest where it: "pl_items plan = [] @ it # rest" "gp_applied_action it = MERGE" by (cases "pl_items plan") auto
  then have "it \<in> set (pl_items plan)" by simp
  with planned_merge_proven [OF sample_plan_db_ok(1,2) p [unfolded sample_planning_def plan(1)] it] p plan(1)
  show ?thesis by blast
qed

end
