(* ===== verification/Graph_Publish.thy ===== *)
theory Graph_Publish
  imports Graph_Plan
begin

text \<open>
  The publishing half of \<open>pipeline/automatic_graph.py\<close>: one transaction that inserts the planned nodes, merges the Decisions,
  links, merges the dependent nodes group by group, records the analysis and announces the new graph, and the orchestration around it.
  The node objects of the session are rows: the two dictionaries of the code are the lists of the identifiers they hold, and an
  attribute is read from the row as it is then. The items of the plan are updated in place by the code; here each phase returns them.
\<close>

section \<open>Relations\<close>

definition relation_pair :: "uuid \<Rightarrow> uuid \<Rightarrow> relation_type \<Rightarrow> uuid \<times> uuid" where
  "relation_pair a b t = (if t = RELATED_TO \<and> b < a then (b, a) else (a, b))"

definition create_or_reactivate_relation ::
  "string \<Rightarrow> uuid \<Rightarrow> uuid \<Rightarrow> relation_type \<Rightarrow> uuid \<Rightarrow> time \<Rightarrow> db \<Rightarrow> (uuid \<times> db) result" where
  "create_or_reactivate_relation pid source target t run now d =
     (case relation_pair source target t of (a, b) \<Rightarrow>
        rbind (one_or_none (filter (\<lambda>r. rl_project_id r = pid \<and> rl_from_node_id r = a \<and> rl_to_node_id r = b \<and> rl_relation_type r = t) (db_relations d)))
          (\<lambda>existing.
           case existing of
             Some r \<Rightarrow> Inr (rl_id r, d\<lparr>db_relations := update_where (\<lambda>x. rl_id x = rl_id r)
                 (\<lambda>x. x\<lparr>rl_status := REL_CONFIRMED, rl_actor_type := ''SYSTEM'', rl_valid_to := None\<rparr>) (db_relations d)\<rparr>)
           | None \<Rightarrow>
               rguard (a = b) IntegrityError
               (let (i, d1) = uuid4 d
                in Inr (i, d1\<lparr>db_relations := db_relations d1 @ [\<lparr>rl_id = i, rl_project_id = pid, rl_from_node_id = a, rl_to_node_id = b,
                     rl_relation_type = t, rl_status = REL_CONFIRMED, rl_actor_type = ''SYSTEM'', rl_generation_run_id = Some run,
                     rl_valid_from = now, rl_valid_to = None\<rparr>]\<rparr>))))"

section \<open>The trace of the analysis\<close>

definition analysis_input_hash :: "stdlib \<Rightarrow> retrieval_settings \<Rightarrow> graph_plan_item \<Rightarrow> string" where
  "analysis_input_hash L R it = canonical_hash L (JList [jstr ''automatic-analysis-v1'', jstr (embedding_text L (gp_source it)),
     jstr (rs_config_version R), jstr (rs_embedding_model R), jstr (rs_embedding_version R)])"

record b_model_trace =
  bt_status :: string
  bt_skip_reason :: "string option"
  bt_failure_code :: "string option"
  bt_failure_message :: "string option"

definition b_model_trace_state :: "graph_plan_item \<Rightarrow> b_model_trace" where
  "b_model_trace_state it =
     (if gp_decision it \<noteq> None then \<lparr>bt_status = ''SUCCEEDED'', bt_skip_reason = None, bt_failure_code = None, bt_failure_message = None\<rparr>
      else case gp_b_model_failure it of
             Some f \<Rightarrow> \<lparr>bt_status = ''FAILED'', bt_skip_reason = None, bt_failure_code = Some (bf_code f), bt_failure_message = Some (bf_message f)\<rparr>
           | None \<Rightarrow> \<lparr>bt_status = ''SKIPPED'', bt_skip_reason = Some (or_str (gp_skip_reason it) ''UNKNOWN_SKIP_REASON''),
                      bt_failure_code = None, bt_failure_message = None\<rparr>)"

definition run_failure_columns :: "graph_plan_item \<Rightarrow> string option \<times> string option" where
  "run_failure_columns it =
     (case gp_b_model_failure it of
        Some f \<Rightarrow> (Some (bf_code f), Some (bf_message f))
      | None \<Rightarrow> if gp_retrieval_failed it then (Some ''RETRIEVAL_FAILED'', gp_retrieval_failure_message it) else (None, None))"

definition trace_run :: "stdlib \<Rightarrow> retrieval_settings \<Rightarrow> graph_plan_item \<Rightarrow> uuid \<Rightarrow> time \<Rightarrow> node_analysis_run" where
  "trace_run L R it i now =
     (let b = b_model_trace_state it in
      \<lparr>ar_id = i, ar_source_node_id = cs_node_id (gp_source it), ar_source_node_version = 1, ar_analysis_input_hash = analysis_input_hash L R it,
       ar_analysis_input_hash_version = ''automatic-analysis-v1'', ar_retrieval_config_version = rs_config_version R,
       ar_embedding_model = Some (rs_embedding_model R), ar_embedding_version = Some (rs_embedding_version R),
       ar_retrieval_status = (if gp_retrieval_failed it then ''FAILED'' else ''COMPLETED''),
       ar_retrieval_result_count = Some (int (length (gp_retrieval it))),
       ar_retrieval_completed_at = (if gp_retrieval_failed it then None else Some now), ar_b_model_status = bt_status b,
       ar_b_model_skip_reason = bt_skip_reason b, ar_b_model_failure_code = bt_failure_code b, ar_b_model_failure_message = bt_failure_message b,
       ar_b_model_completed_at = Some now, ar_attempt = 1, ar_status = RUN_COMPLETED, ar_requested_by = ''AUTOMATIC_PIPELINE'',
       ar_failure_code = fst (run_failure_columns it), ar_failure_message = snd (run_failure_columns it), ar_started_at = Some now,
       ar_completed_at = Some now, ar_updated_at = now\<rparr>)"

fun add_retrieval_results :: "uuid \<Rightarrow> time \<Rightarrow> retrieval_snapshot list \<Rightarrow> db \<Rightarrow> db" where
  "add_retrieval_results run now [] d = d"
| "add_retrieval_results run now (row # rows) d =
     (let (i, d1) = uuid4 d
      in add_retrieval_results run now rows (d1\<lparr>db_retrieval_results := db_retrieval_results d1 @ [\<lparr>rr_id = i, rr_analysis_run_id = run,
           rr_target_node_id = sn_target_node_id row, rr_target_node_version = sn_target_node_version row, rr_rank = sn_rank row,
           rr_similarity = sn_similarity row, rr_created_at = now\<rparr>]\<rparr>))"

fun obj_entries :: "json \<Rightarrow> (string \<times> json) list" where
  "obj_entries (JObj kvs) = kvs"
| "obj_entries _ = []"

definition decision_metadata :: "string \<Rightarrow> graph_plan_item \<Rightarrow> b_model_decision \<Rightarrow> json" where
  "decision_metadata label it b =
     (let added = [(''requestedRecommendation'', jstr (recommendation_value (bd_recommendation b))),
        (''requestedTargetNodeId'', jopt juuid (bd_target_node_id b)), (''appliedRecommendation'', jstr (recommendation_value (gp_applied_action it))),
        (''mergeGateReason'', jopt jstr (gp_merge_gate_reason it)), (''pipelineLabel'', jstr label)]
      in JObj (filter (\<lambda>(k, _). k \<notin> fst ` set added) (obj_entries (bd_metadata b)) @ added))"

definition decision_result :: "string \<Rightarrow> string \<Rightarrow> string \<Rightarrow> graph_plan_item \<Rightarrow> b_model_decision \<Rightarrow> uuid \<Rightarrow> uuid \<Rightarrow> time \<Rightarrow> b_model_result" where
  "decision_result pid model label it b run i now =
     (let target = (if bd_recommendation b = CREATE_NEW then None else gp_target_node_id it) in
      \<lparr>bm_id = i, bm_project_id = pid, bm_analysis_run_id = run, bm_source_node_id = cs_node_id (gp_source it), bm_source_node_version = 1,
       bm_recommendation = (if target = None then CREATE_NEW else bd_recommendation b), bm_target_node_id = target,
       bm_target_node_version = (if target = None then None else gp_target_node_version it),
       bm_relation_type = (if target \<noteq> None \<and> bd_recommendation b = LINK then bd_relation_type b else None),
       bm_suggested_title = strip (bd_suggested_title b), bm_suggested_content = bd_suggested_content b, bm_reason = strip (bd_reason b),
       bm_model = model, bm_model_version = ''automatic-v1'', bm_metadata_json = decision_metadata label it b,
       bm_validation_status = ''VALIDATED'', bm_created_at = now\<rparr>)"

text \<open>The unique constraints of \<open>RetrievalResult\<close> and its checks on the rank and the version.\<close>

definition ck_retrieval_rows :: "retrieval_snapshot list \<Rightarrow> bool" where
  "ck_retrieval_rows rows \<longleftrightarrow> distinct (map sn_target_node_id rows) \<and> distinct (map sn_rank rows)
     \<and> (\<forall>row \<in> set rows. 1 \<le> sn_rank row \<and> 1 \<le> sn_target_node_version row)"

definition persist_analysis_trace ::
  "stdlib \<Rightarrow> retrieval_settings \<Rightarrow> string \<Rightarrow> string \<Rightarrow> string \<Rightarrow> graph_plan_item \<Rightarrow> time \<Rightarrow> db \<Rightarrow> db result" where
  "persist_analysis_trace L R pid model label it now d =
     rguard (\<not> ck_retrieval_rows (gp_retrieval it)) IntegrityError
     (let (run, d0) = uuid4 d;
          d1 = add_retrieval_results run now (gp_retrieval it) (d0\<lparr>db_analysis_runs := db_analysis_runs d0 @ [trace_run L R it run now]\<rparr>);
          d2 = (case gp_decision it of
                  None \<Rightarrow> d1
                | Some b \<Rightarrow> (let (i, e) = uuid4 d1 in e\<lparr>db_b_model_results := db_b_model_results e @ [decision_result pid model label it b run i now]\<rparr>))
      in Inr (set_node (cs_node_id (gp_source it)) (\<lambda>n. n\<lparr>nd_current_analysis_run_id := Some run,
             nd_analysis_input_hash := Some (analysis_input_hash L R it), nd_analysis_status := AS_ANALYZED\<rparr>) d2))"

section \<open>Merging one planned node\<close>

definition downgrade_merge :: "string \<Rightarrow> graph_plan_item \<Rightarrow> graph_plan_item" where
  "downgrade_merge reason it = it\<lparr>gp_applied_action := CREATE_NEW, gp_merge_gate_reason := Some reason, gp_target_node_id := None,
     gp_target_node_version := None, gp_parent_node_id := None\<rparr>"

definition resolve_action_parent_for_apply :: "db \<Rightarrow> string \<Rightarrow> string \<Rightarrow> uuid option \<Rightarrow> string \<Rightarrow> string \<Rightarrow> parent_resolution result" where
  "resolve_action_parent_for_apply d pid category parent missing_reason invalid_reason =
     resolve_existing_parent_canonical_id d pid category parent missing_reason invalid_reason"

fun deduplicate_evidence_specs :: "stdlib \<Rightarrow> string \<Rightarrow> string list \<Rightarrow> evidence_spec list \<Rightarrow> evidence_spec list" where
  "deduplicate_evidence_specs L pid seen [] = []"
| "deduplicate_evidence_specs L pid seen (s # ss) =
     (if evidence_hash L pid s \<in> set seen then deduplicate_evidence_specs L pid seen ss
      else s # deduplicate_evidence_specs L pid (evidence_hash L pid s # seen) ss)"

text \<open>The columns of the operation that record why the merge was taken; a confidence is kept as the number the model gave.\<close>

definition auto_evaluation :: "graph_env \<Rightarrow> graph_plan_item \<Rightarrow> b_model_decision \<Rightarrow> retrieval_snapshot \<Rightarrow> json" where
  "auto_evaluation E it b row = JObj [(''identityBasis'', jget (bd_metadata b) ''identityBasis''),
     (''conflictsChecked'', jget (bd_metadata b) ''conflictsChecked''),
     (''modelConfidence'', (case jget (bd_metadata b) ''confidence'' of JInt i \<Rightarrow> JInt i | JFloat r \<Rightarrow> JFloat r | JBool x \<Rightarrow> JBool x | _ \<Rightarrow> JNull)),
     (''retrievalRank'', JInt (sn_rank row)), (''retrievalScore'', JFloat (ge_float_repr E (sn_similarity row))),
     (''secondRetrievalScore'', (case gp_retrieval it of _ # second # _ \<Rightarrow> JFloat (ge_float_repr E (sn_similarity second)) | _ \<Rightarrow> JNull))]"

definition system_revision_args :: "string \<Rightarrow> string \<Rightarrow> node_type \<Rightarrow> string \<Rightarrow> string option \<Rightarrow> uuid \<Rightarrow> evidence_spec list \<Rightarrow> revision_args" where
  "system_revision_args title content t category due run specs = \<lparr>ra_title = title, ra_content = content, ra_node_type = t, ra_category = category,
     ra_due_date = due, ra_created_by_type = ''SYSTEM'', ra_created_by_id = Some ''AUTOMATIC_PIPELINE'', ra_generation_run_id = Some run,
     ra_evidence_specs = specs, ra_requires_evidence = True, ra_legacy_imported = False\<rparr>"

text \<open>The target takes in the evidence of the source; what a user wrote stays as it is.\<close>

definition absorb_evidence :: "stdlib \<Rightarrow> graph_mutation_plan \<Rightarrow> b_model_decision \<Rightarrow> node \<Rightarrow> node \<Rightarrow> time \<Rightarrow> db \<Rightarrow> db result" where
  "absorb_evidence L plan b source canonical now d =
     (let protected = (nd_last_actor_type canonical = ''USER'');
          specs = deduplicate_evidence_specs L (pl_project_id plan) []
                    (current_revision_evidence_specs d canonical @ current_revision_evidence_specs d source);
          args = system_revision_args (if protected then nd_title canonical else strip (bd_suggested_title b))
                   (if protected then nd_content canonical else bd_suggested_content b) (nd_node_type canonical) (nd_category canonical)
                   (nd_due_date canonical) (pl_generation_run_id plan) specs
      in rbind (create_node_revision L canonical args now d) (\<lambda>(_, d1).
           let d2 = (if protected then set_node (nd_id canonical) (\<lambda>n. n\<lparr>nd_last_actor_type := ''USER''\<rparr>) d1 else d1)
           in Inr (set_node (nd_id source) (\<lambda>n. n\<lparr>nd_parent_id := None\<rparr>) (mark_node_embedding_stale (nd_id canonical) d2))))"

definition apply_planned_logical_merge ::
  "graph_env \<Rightarrow> stdlib \<Rightarrow> graph_mutation_plan \<Rightarrow> graph_plan_item \<Rightarrow> node \<Rightarrow> uuid \<Rightarrow> time \<Rightarrow> db \<Rightarrow> (uuid \<times> db) result" where
  "apply_planned_logical_merge E L plan it source target now d =
     (case gp_decision it of
        None \<Rightarrow> Inl AssertionError
      | Some b \<Rightarrow>
          rguard (nd_graph_state source \<noteq> UNATTACHED \<or> nd_parent_id source \<noteq> None)
            (GraphIntegrityError ''automatic merge source must be an UNATTACHED leaf'')
         (rguard (\<exists>n \<in> set (db_nodes d). nd_project_id n = pl_project_id plan \<and> nd_parent_id n = Some (nd_id source) \<and> nd_deleted_at n = None)
            (GraphIntegrityError ''automatic merge source must not have children'')
         (rbind (resolve_canonical_node d (pl_project_id plan) target (Some (nd_node_type source))) (\<lambda>canonical.
          rguard (nd_graph_state canonical \<noteq> ACTIVE \<or> nd_category canonical \<noteq> nd_category source)
            (GraphMutationValidationError ''automatic merge target must be ACTIVE with the same category'')
         (rguard (strip (bd_suggested_title b) = []) (GraphMutationValidationError ''automatic merge title must not be blank'')
         (rbind (absorb_evidence L plan b source canonical now d) (\<lambda>d1.
          case find (\<lambda>row. sn_target_node_id row = target) (gp_retrieval it) of
            None \<Rightarrow> Inl StopIteration
          | Some row \<Rightarrow>
              rbind (apply_logical_merge (pl_project_id plan) (refreshed d1 source) (refreshed d1 canonical)
                \<lparr>ma_actor_type = ''SYSTEM'', ma_actor_id = Some ''AUTOMATIC_PIPELINE'', ma_generation_run_id = Some (pl_generation_run_id plan),
                  ma_reason_code = ''AUTO_IDENTITY_MATCH'', ma_reason_text = Some (bd_reason b), ma_evaluation = auto_evaluation E it b row\<rparr> now d1)
               (\<lambda>(operation, d2). Inr (mo_id operation, d2)))))))))"

definition target_version_valid_for_apply :: "db \<Rightarrow> graph_mutation_plan \<Rightarrow> node \<Rightarrow> int option \<Rightarrow> bool" where
  "target_version_valid_for_apply d plan target expected =
     (case expected of
        None \<Rightarrow> True
      | Some v \<Rightarrow>
          if nd_version target = v then True
          else if nd_version target < v then False
          else case nd_current_revision_id target of
                 None \<Rightarrow> False
               | Some rid \<Rightarrow>
                   (case revision_by_id d rid of
                      None \<Rightarrow> False
                    | Some r \<Rightarrow> rv_generation_run_id r = Some (pl_generation_run_id plan) \<and> rv_created_by_type r = ''SYSTEM''
                                 \<and> rv_created_by_id r = Some ''AUTOMATIC_PIPELINE''))"

text \<open>\<open>nodes_by_planned_id.get(i) or locked_targets.get(i)\<close>.\<close>

definition session_node :: "uuid list \<Rightarrow> uuid list \<Rightarrow> db \<Rightarrow> uuid \<Rightarrow> node option" where
  "session_node planned locked d i = (if i \<in> set planned \<or> i \<in> set locked then node_by_id d i else None)"

text \<open>The check of the parents of an Action, \<open>None\<close> when the merge may go on.\<close>

definition action_gate_at_apply :: "db \<Rightarrow> graph_mutation_plan \<Rightarrow> graph_plan_item \<Rightarrow> node \<Rightarrow> node \<Rightarrow> string option result" where
  "action_gate_at_apply d plan it source canonical =
     (if nd_node_type source \<noteq> ACTION then Inr None
      else rbind (resolve_action_parent_for_apply d (pl_project_id plan) (nd_category source) (gp_parent_node_id it)
                    ''MERGE_ACTION_INTENDED_PARENT_MISSING'' ''MERGE_ACTION_INTENDED_PARENT_INVALID'') (\<lambda>intended.
           rbind (resolve_action_parent_for_apply d (pl_project_id plan) (nd_category canonical) (nd_parent_id canonical)
                    ''MERGE_ACTION_TARGET_PARENT_MISSING'' ''MERGE_ACTION_TARGET_PARENT_INVALID'') (\<lambda>target_parent.
             Inr (action_parent_gate intended target_parent))))"

datatype merge_outcome = NotApplied | Refused string | Applied uuid db

definition apply_planned_merge ::
  "graph_env \<Rightarrow> stdlib \<Rightarrow> graph_mutation_plan \<Rightarrow> uuid list \<Rightarrow> uuid list \<Rightarrow> time \<Rightarrow> graph_plan_item \<Rightarrow> db \<Rightarrow> merge_outcome result" where
  "apply_planned_merge E L plan planned locked now it d =
     (case (gp_applied_action it, gp_target_node_id it) of
        (MERGE, Some t) \<Rightarrow>
          (case node_by_id d (cs_node_id (gp_source it)) of
             None \<Rightarrow> Inl KeyError
           | Some source \<Rightarrow>
               (case session_node planned locked d t of
                  None \<Rightarrow> Inr (Refused ''MERGE_TARGET_MISSING_CREATE_NEW'')
                | Some target \<Rightarrow>
                    if \<not> target_version_valid_for_apply d plan target (gp_target_node_version it)
                    then Inr (Refused ''MERGE_TARGET_VERSION_CHANGED_CREATE_NEW'')
                    else rbind (resolve_canonical_node d (pl_project_id plan) (nd_id target) (Some (nd_node_type source))) (\<lambda>canonical.
                      if nd_graph_state canonical \<noteq> ACTIVE \<or> nd_category canonical \<noteq> nd_category source
                      then Inr (Refused ''MERGE_TARGET_NOT_ACTIVE_SAME_CATEGORY_CREATE_NEW'')
                      else rbind (action_gate_at_apply d plan it source canonical) (\<lambda>gate.
                        case gate of
                          Some reason \<Rightarrow> Inr (Refused reason)
                        | None \<Rightarrow> rbind (apply_planned_logical_merge E L plan it source (nd_id target) now d) (\<lambda>(operation, d1).
                            Inr (Applied operation d1))))))
      | _ \<Rightarrow> Inr NotApplied)"

section \<open>The phases of the publication\<close>

text \<open>What the loops of the transaction carry along: the database, the warnings and the identifiers of what was made.\<close>

record publication =
  pb_db :: db
  pb_warnings :: "json list"
  pb_relation_ids :: "uuid list"
  pb_merge_operation_ids :: "uuid list"

definition planned_node :: "graph_mutation_plan \<Rightarrow> candidate_snapshot \<Rightarrow> time \<Rightarrow> node" where
  "planned_node plan s now = \<lparr>nd_id = cs_node_id s, nd_source_candidate_id = Some (cs_candidate_id s), nd_project_id = pl_project_id plan,
     nd_source_meeting_id = pl_external_meeting_id plan, nd_source_item_id = cs_source_item_id s, nd_node_type = cs_node_type s,
     nd_category = cs_category s, nd_title = cs_title s, nd_content = cs_content s, nd_parent_id = None, nd_graph_state = UNATTACHED,
     nd_merged_into_node_id = None, nd_analysis_status = AS_PENDING, nd_analysis_input_hash = None, nd_current_analysis_run_id = None,
     nd_current_revision_id = None, nd_origin_type = ''LLM_GENERATED'', nd_last_actor_type = ''SYSTEM'', nd_consistency_status = ''NORMAL'',
     nd_deleted_at = None, nd_deleted_by = None, nd_due_date = cs_due_date s, nd_version = 1, nd_initial_reviewed_by = None,
     nd_initial_reviewed_at = None, nd_confirmed_by = None, nd_confirmed_at = None, nd_created_at = now, nd_updated_at = now\<rparr>"

definition planned_embedding :: "stdlib \<Rightarrow> retrieval_settings \<Rightarrow> candidate_snapshot \<Rightarrow> py_float list \<Rightarrow> time \<Rightarrow> node_embedding" where
  "planned_embedding L R s v now = \<lparr>em_node_id = cs_node_id s, em_embedding_version = rs_embedding_version R, em_embedding_model = rs_embedding_model R,
     em_dimension = rs_embedding_dim R, em_embedded_text_hash = Some (sha256_hexdigest L (embedding_text L s)), em_embedding = Some v,
     em_status = EMB_READY, em_embedded_at = Some now\<rparr>"

text \<open>The primary key and the unique source candidate of the table \<open>node\<close> are checked when a row is inserted.\<close>

definition insert_planned_node :: "stdlib \<Rightarrow> retrieval_settings \<Rightarrow> graph_mutation_plan \<Rightarrow> graph_plan_item \<Rightarrow> time \<Rightarrow> db \<Rightarrow> db result" where
  "insert_planned_node L R plan it now d =
     (let s = gp_source it; n = planned_node plan s now in
      rguard (\<exists>x \<in> set (db_nodes d). nd_id x = cs_node_id s \<or> nd_source_candidate_id x = Some (cs_candidate_id s)) IntegrityError
      (rbind (create_node_revision L n (system_revision_args (cs_title s) (cs_content s) (cs_node_type s) (cs_category s) (cs_due_date s)
                (pl_generation_run_id plan) (cs_evidence s)) now (d\<lparr>db_nodes := db_nodes d @ [n]\<rparr>)) (\<lambda>(_, d1).
         Inr (case gp_embedding it of None \<Rightarrow> d1 | Some v \<Rightarrow> d1\<lparr>db_embeddings := db_embeddings d1 @ [planned_embedding L R s v now]\<rparr>))))"

fun insert_planned_nodes :: "stdlib \<Rightarrow> retrieval_settings \<Rightarrow> graph_mutation_plan \<Rightarrow> graph_plan_item list \<Rightarrow> time \<Rightarrow> db \<Rightarrow> db result" where
  "insert_planned_nodes L R plan [] now d = Inr d"
| "insert_planned_nodes L R plan (it # its) now d = rbind (insert_planned_node L R plan it now d) (insert_planned_nodes L R plan its now)"

definition refuse_merge :: "string \<Rightarrow> graph_plan_item \<Rightarrow> publication \<Rightarrow> publication" where
  "refuse_merge reason it p = p\<lparr>pb_warnings := pb_warnings p @ [merge_refused_warning reason (cs_candidate_id (gp_source it))]\<rparr>"

definition activate :: "uuid \<Rightarrow> publication \<Rightarrow> publication" where
  "activate i p = p\<lparr>pb_db := set_node i (\<lambda>n. n\<lparr>nd_graph_state := ACTIVE\<rparr>) (pb_db p)\<rparr>"

definition publish_decision ::
  "graph_env \<Rightarrow> stdlib \<Rightarrow> graph_mutation_plan \<Rightarrow> uuid list \<Rightarrow> uuid list \<Rightarrow> time \<Rightarrow> graph_plan_item \<Rightarrow> publication \<Rightarrow> (graph_plan_item \<times> publication) result" where
  "publish_decision E L plan planned locked now it p =
     (if cs_node_type (gp_source it) \<noteq> DECISION then Inr (it, p)
      else rbind (apply_planned_merge E L plan planned locked now it (pb_db p)) (\<lambda>outcome.
        case outcome of
          Applied operation d \<Rightarrow> Inr (it, p\<lparr>pb_db := d, pb_merge_operation_ids := pb_merge_operation_ids p @ [operation]\<rparr>)
        | Refused reason \<Rightarrow> Inr (downgrade_merge reason it, activate (cs_node_id (gp_source it)) (refuse_merge reason it p))
        | NotApplied \<Rightarrow> Inr (it, if gp_applied_action it = MERGE then p else activate (cs_node_id (gp_source it)) p)))"

definition drop_link :: "graph_plan_item \<Rightarrow> graph_plan_item" where
  "drop_link it = it\<lparr>gp_applied_action := CREATE_NEW, gp_target_node_id := None, gp_target_node_version := None, gp_relation_type := None,
     gp_parent_node_id := None\<rparr>"

definition warn :: "string \<Rightarrow> graph_plan_item \<Rightarrow> publication \<Rightarrow> publication" where
  "warn code it p = p\<lparr>pb_warnings := pb_warnings p @ [candidate_warning code (cs_candidate_id (gp_source it))]\<rparr>"

definition linked_publication :: "uuid \<Rightarrow> db \<Rightarrow> publication \<Rightarrow> publication" where
  "linked_publication relation d p = p\<lparr>pb_db := d, pb_relation_ids := pb_relation_ids p @ [relation]\<rparr>"

definition valid_link_parent :: "node \<Rightarrow> node \<Rightarrow> bool" where
  "valid_link_parent source canonical \<longleftrightarrow> nd_graph_state canonical = ACTIVE \<and> nd_node_type canonical \<in> link_parents (nd_node_type source)
     \<and> nd_category canonical = nd_category source \<and> nd_id canonical \<noteq> nd_id source"

definition publish_link ::
  "graph_mutation_plan \<Rightarrow> uuid list \<Rightarrow> uuid list \<Rightarrow> time \<Rightarrow> graph_plan_item \<Rightarrow> publication \<Rightarrow> (graph_plan_item \<times> publication) result" where
  "publish_link plan planned locked now it p =
     (case (gp_applied_action it, gp_target_node_id it) of
        (LINK, Some t) \<Rightarrow>
          (case node_by_id (pb_db p) (cs_node_id (gp_source it)) of
             None \<Rightarrow> Inl KeyError
           | Some source \<Rightarrow>
               (case session_node planned locked (pb_db p) t of
                  None \<Rightarrow> Inr (drop_link it, warn ''LINK_TARGET_MISSING_AT_APPLY'' it p)
                | Some target \<Rightarrow>
                    if gp_target_node_version it \<noteq> None \<and> t \<notin> set planned \<and> Some (nd_version target) \<noteq> gp_target_node_version it
                    then Inr (drop_link it, warn ''LINK_TARGET_VERSION_CHANGED_CREATE_NEW'' it p)
                    else rbind (resolve_canonical_node (pb_db p) (pl_project_id plan) (nd_id target) None) (\<lambda>canonical.
                      if gp_relation_type it = Some ATTACHED_TO
                      then (if \<not> valid_link_parent source canonical
                            then Inr (it\<lparr>gp_applied_action := CREATE_NEW\<rparr>, warn ''PARENT_INVALID_AT_APPLY_UNATTACHED'' it p)
                            else rbind (create_or_reactivate_relation (pl_project_id plan) (nd_id source) (nd_id target) ATTACHED_TO
                                          (pl_generation_run_id plan) now (pb_db p)) (\<lambda>(relation, d).
                              Inr (it, linked_publication relation (set_node (nd_id source)
                                    (\<lambda>n. n\<lparr>nd_parent_id := Some (nd_id canonical), nd_graph_state := ACTIVE\<rparr>) d) p)))
                      else rbind (create_or_reactivate_relation (pl_project_id plan) (nd_id source) (nd_id target)
                                    (case gp_relation_type it of Some r \<Rightarrow> r | None \<Rightarrow> RELATED_TO) (pl_generation_run_id plan) now (pb_db p))
                            (\<lambda>(relation, d).
                              Inr (it, linked_publication relation (if nd_node_type source = DECISION
                                    then set_node (nd_id source) (\<lambda>n. n\<lparr>nd_graph_state := ACTIVE\<rparr>) d else d) p)))))
      | _ \<Rightarrow> Inr (it, p))"

text \<open>A loop over the items of the plan that may change the item and the publication.\<close>

fun over_items ::
  "(graph_plan_item \<Rightarrow> publication \<Rightarrow> (graph_plan_item \<times> publication) result) \<Rightarrow> graph_plan_item list \<Rightarrow> publication
    \<Rightarrow> (graph_plan_item list \<times> publication) result" where
  "over_items step [] p = Inr ([], p)"
| "over_items step (it # its) p =
     rbind (step it p) (\<lambda>(it1, p1). rbind (over_items step its p1) (\<lambda>(its1, p2). Inr (it1 # its1, p2)))"

section \<open>Dependent merges\<close>

definition merge_item_order_key :: "graph_plan_item \<Rightarrow> int \<times> string \<times> string \<times> uuid" where
  "merge_item_order_key it =
     (let s = gp_source it;
          keys = map (\<lambda>e. (case sp_start_ms e of Some t \<Rightarrow> t | None \<Rightarrow> 2 ^ 63 - 1, or_str (sp_source_segment_id e) [])) (cs_evidence s);
          first = (if keys = [] then (2 ^ 63 - 1, []) else Min (set keys))
      in (fst first, snd first, cs_source_item_id s, cs_node_id s))"

definition dependent_merges :: "graph_plan_item list \<Rightarrow> graph_plan_item list" where
  "dependent_merges items = sort_key merge_item_order_key
     (filter (\<lambda>it. cs_node_type (gp_source it) \<noteq> DECISION \<and> gp_applied_action it = MERGE \<and> gp_target_node_id it \<noteq> None) items)"

definition replace_item :: "graph_plan_item \<Rightarrow> graph_plan_item list \<Rightarrow> graph_plan_item list" where
  "replace_item it items = update_where (\<lambda>x. cs_node_id (gp_source x) = cs_node_id (gp_source it)) (\<lambda>_. it) items"

text \<open>A group is its canonical target with its members, an item and the target it asked for.\<close>

type_synonym merge_group = "uuid \<times> (graph_plan_item \<times> uuid) list"

fun add_member :: "uuid \<Rightarrow> graph_plan_item \<times> uuid \<Rightarrow> merge_group list \<Rightarrow> merge_group list" where
  "add_member c m [] = [(c, [m])]"
| "add_member c m ((c', ms) # gs) = (if c' = c then (c', ms @ [m]) # gs else (c', ms) # add_member c m gs)"

datatype member_verdict = Joins uuid uuid | AlreadyMerged | Downgraded string

definition member_verdict_of ::
  "graph_mutation_plan \<Rightarrow> uuid list \<Rightarrow> uuid list \<Rightarrow> db \<Rightarrow> graph_plan_item \<Rightarrow> member_verdict result" where
  "member_verdict_of plan planned locked d it =
     (case node_by_id d (cs_node_id (gp_source it)) of
        None \<Rightarrow> Inl KeyError
      | Some source \<Rightarrow>
          (case session_node planned locked d (the (gp_target_node_id it)) of
             None \<Rightarrow> Inr (Downgraded ''MERGE_TARGET_MISSING_CREATE_NEW'')
           | Some target \<Rightarrow>
               (case resolve_canonical_node d (pl_project_id plan) (nd_id target) (Some (nd_node_type source)) of
                  Inl (GraphIntegrityError _) \<Rightarrow> Inr (Downgraded ''MERGE_TARGET_NOT_VALID_RETRIEVAL'')
                | Inl (GraphMutationValidationError _) \<Rightarrow> Inr (Downgraded ''MERGE_TARGET_NOT_VALID_RETRIEVAL'')
                | Inl e \<Rightarrow> Inl e
                | Inr canonical \<Rightarrow>
                    if nd_graph_state source = MERGED
                    then rbind (resolve_canonical_node d (pl_project_id plan) (nd_id source) (Some (nd_node_type source))) (\<lambda>source_target.
                      if nd_id source_target = nd_id canonical then Inr AlreadyMerged
                      else Inl (GraphIntegrityError ''partially merged source points to another canonical target''))
                    else if \<not> target_version_valid_for_apply d plan canonical (gp_target_node_version it)
                    then Inr (Downgraded ''MERGE_TARGET_VERSION_CHANGED_CREATE_NEW'')
                    else if nd_id source = nd_id canonical then Inr (Downgraded ''MERGE_TARGET_NOT_VALID_RETRIEVAL'')
                    else Inr (Joins (nd_id canonical) (nd_id target)))))"

fun prepare_dependent_merge_groups ::
  "graph_mutation_plan \<Rightarrow> uuid list \<Rightarrow> uuid list \<Rightarrow> graph_plan_item list \<Rightarrow> merge_group list \<Rightarrow> graph_plan_item list \<Rightarrow> publication
    \<Rightarrow> (merge_group list \<times> graph_plan_item list \<times> publication) result" where
  "prepare_dependent_merge_groups plan planned locked [] groups items p = Inr (sort_key fst groups, items, p)"
| "prepare_dependent_merge_groups plan planned locked (it # its) groups items p =
     rbind (member_verdict_of plan planned locked (pb_db p) it) (\<lambda>verdict.
       case verdict of
         Joins canonical target \<Rightarrow>
           prepare_dependent_merge_groups plan planned locked its (add_member canonical (it, target) groups) items p
       | AlreadyMerged \<Rightarrow> prepare_dependent_merge_groups plan planned locked its groups items p
       | Downgraded reason \<Rightarrow>
           prepare_dependent_merge_groups plan planned locked its groups (replace_item (downgrade_merge reason it) items) (refuse_merge reason it p))"

fun accept_members ::
  "graph_mutation_plan \<Rightarrow> node \<Rightarrow> parent_resolution \<Rightarrow> (graph_plan_item \<times> uuid) list \<Rightarrow> graph_plan_item list \<Rightarrow> publication
    \<Rightarrow> ((graph_plan_item \<times> uuid) list \<times> graph_plan_item list \<times> publication) result" where
  "accept_members plan canonical target_parent [] items p = Inr ([], items, p)"
| "accept_members plan canonical target_parent ((it, target) # ms) items p =
     rbind (if nd_node_type canonical \<noteq> ACTION then Inr None
            else rbind (resolve_action_parent_for_apply (pb_db p) (pl_project_id plan)
                          (case node_by_id (pb_db p) (cs_node_id (gp_source it)) of Some source \<Rightarrow> nd_category source | None \<Rightarrow> []) (gp_parent_node_id it)
                          ''MERGE_ACTION_INTENDED_PARENT_MISSING'' ''MERGE_ACTION_INTENDED_PARENT_INVALID'') (\<lambda>intended.
                   Inr (action_parent_gate intended target_parent))) (\<lambda>gate.
       case gate of
         Some reason \<Rightarrow> accept_members plan canonical target_parent ms (replace_item (downgrade_merge reason it) items) (refuse_merge reason it p)
       | None \<Rightarrow> rbind (accept_members plan canonical target_parent ms items p) (\<lambda>(accepted, rest). Inr ((it, target) # accepted, rest)))"

fun merge_members ::
  "graph_env \<Rightarrow> stdlib \<Rightarrow> graph_mutation_plan \<Rightarrow> time \<Rightarrow> (graph_plan_item \<times> uuid) list \<Rightarrow> publication \<Rightarrow> publication result" where
  "merge_members E L plan now [] p = Inr p"
| "merge_members E L plan now ((it, target) # ms) p =
     (case node_by_id (pb_db p) (cs_node_id (gp_source it)) of
        None \<Rightarrow> Inl KeyError
      | Some source \<Rightarrow>
          rbind (apply_planned_logical_merge E L plan it source target now (pb_db p)) (\<lambda>(operation, d).
            merge_members E L plan now ms (p\<lparr>pb_db := d, pb_merge_operation_ids := pb_merge_operation_ids p @ [operation]\<rparr>)))"

fun apply_merge_groups ::
  "graph_env \<Rightarrow> stdlib \<Rightarrow> graph_mutation_plan \<Rightarrow> time \<Rightarrow> merge_group list \<Rightarrow> graph_plan_item list \<Rightarrow> publication \<Rightarrow> (graph_plan_item list \<times> publication) result" where
  "apply_merge_groups E L plan now [] items p = Inr (items, p)"
| "apply_merge_groups E L plan now ((c, ms) # gs) items p =
     (case node_by_id (pb_db p) c of
        None \<Rightarrow> Inl KeyError
      | Some canonical \<Rightarrow>
          rbind (if nd_node_type canonical = ACTION
                 then resolve_action_parent_for_apply (pb_db p) (pl_project_id plan) (nd_category canonical) (nd_parent_id canonical)
                        ''MERGE_ACTION_TARGET_PARENT_MISSING'' ''MERGE_ACTION_TARGET_PARENT_INVALID''
                 else Inr \<lparr>pr_canonical_id = None, pr_gate_reason = None\<rparr>) (\<lambda>target_parent.
          rbind (accept_members plan canonical target_parent (sort_key (merge_item_order_key \<circ> fst) ms) items p) (\<lambda>(accepted, items1, p1).
          rbind (merge_members E L plan now accepted p1) (\<lambda>p2. apply_merge_groups E L plan now gs items1 p2))))"

definition apply_dependent_merge_groups ::
  "graph_env \<Rightarrow> stdlib \<Rightarrow> graph_mutation_plan \<Rightarrow> uuid list \<Rightarrow> uuid list \<Rightarrow> time \<Rightarrow> graph_plan_item list \<Rightarrow> publication
    \<Rightarrow> (graph_plan_item list \<times> publication) result" where
  "apply_dependent_merge_groups E L plan planned locked now items p =
     rbind (prepare_dependent_merge_groups plan planned locked (dependent_merges items) [] items p) (\<lambda>(groups, items1, p1).
       apply_merge_groups E L plan now groups items1 p1)"

section \<open>The end of the publication\<close>

text \<open>The trace of every item, and its candidate is settled.\<close>

definition settle_candidate :: "string \<Rightarrow> uuid \<Rightarrow> uuid \<Rightarrow> time \<Rightarrow> db \<Rightarrow> db result" where
  "settle_candidate pid candidate node now d =
     rbind (exactly_one (filter (\<lambda>c. cd_id c = candidate \<and> cd_project_id c = pid) (db_candidates d))) (\<lambda>c.
       Inr (d\<lparr>db_candidates := update_where (\<lambda>x. cd_id x = candidate) (\<lambda>x. x\<lparr>cd_initial_review_node_id := Some node,
          cd_confirmed_node_id := Some node, cd_review_status := ''APPROVED'', cd_reviewed_by := Some ''AUTOMATIC_PIPELINE'',
          cd_reviewed_at := Some now, cd_version := cd_version x + 1\<rparr>) (db_candidates d)\<rparr>))"

fun trace_items ::
  "stdlib \<Rightarrow> retrieval_settings \<Rightarrow> string \<Rightarrow> graph_mutation_plan \<Rightarrow> graph_plan_item list \<Rightarrow> time \<Rightarrow> db \<Rightarrow> db result" where
  "trace_items L R label plan [] now d = Inr d"
| "trace_items L R label plan (it # its) now d =
     rbind (persist_analysis_trace L R (pl_project_id plan) (pl_provider_model plan) label it now d) (\<lambda>d1.
     rbind (settle_candidate (pl_project_id plan) (cs_candidate_id (gp_source it)) (cs_node_id (gp_source it)) now d1) (\<lambda>d2.
       trace_items L R label plan its now d2))"

record automatic_graph_result =
  ag_generation_run_id :: uuid
  ag_status :: generation_status
  ag_created_node_ids :: "uuid list"
  ag_merge_operation_ids :: "uuid list"
  ag_relation_ids :: "uuid list"
  ag_warnings :: "json list"
  ag_replayed :: bool

fun generation_status_value :: "generation_status \<Rightarrow> string" where
  "generation_status_value GEN_RECEIVED = ''RECEIVED''"
| "generation_status_value GEN_EXTRACTING = ''EXTRACTING''"
| "generation_status_value GEN_DECISION_ANALYZING = ''DECISION_ANALYZING''"
| "generation_status_value GEN_DEPENDENT_ANALYZING = ''DEPENDENT_ANALYZING''"
| "generation_status_value GEN_VALIDATING = ''VALIDATING''"
| "generation_status_value GEN_APPLYING = ''APPLYING''"
| "generation_status_value GEN_COMPLETED = ''COMPLETED''"
| "generation_status_value GEN_COMPLETED_WITH_WARNINGS = ''COMPLETED_WITH_WARNINGS''"
| "generation_status_value GEN_FAILED = ''FAILED''"

definition publication_summary :: "uuid list \<Rightarrow> publication \<Rightarrow> (string \<times> json) list" where
  "publication_summary created p = [(''createdNodeIds'', JList (map juuid created)),
     (''mergeOperationIds'', JList (map juuid (pb_merge_operation_ids p))), (''relationIds'', JList (map juuid (pb_relation_ids p))),
     (''createdCount'', JInt (int (length created))), (''mergedCount'', JInt (int (length (pb_merge_operation_ids p)))),
     (''relationCount'', JInt (int (length (pb_relation_ids p)))),
     (''unattachedCount'', JInt (int (length (filter (\<lambda>i. map_option nd_graph_state (node_by_id (pb_db p) i) = Some UNATTACHED) created)))),
     (''warningCount'', JInt (int (length (pb_warnings p))))]"

definition published_run :: "generation_status \<Rightarrow> uuid \<Rightarrow> json list \<Rightarrow> json \<Rightarrow> time \<Rightarrow> generation_run \<Rightarrow> generation_run" where
  "published_run status request warnings summary now r = r\<lparr>gr_status := status, gr_source_request_id := Some request,
     gr_warnings := (if warnings = [] then None else Some warnings), gr_result_summary := Some summary, gr_completed_at := Some now, gr_updated_at := now\<rparr>"

definition complete_request :: "uuid \<Rightarrow> json list \<Rightarrow> time \<Rightarrow> db \<Rightarrow> db" where
  "complete_request i warnings now d = d\<lparr>db_requests := update_where (\<lambda>q. rq_id q = i) (\<lambda>q. q\<lparr>rq_status := ''COMPLETED'', rq_completed_at := Some now,
     rq_warnings := Some ((case rq_warnings q of None \<Rightarrow> [] | Some ws \<Rightarrow> ws) @ map (\<lambda>w. jget w ''code'') warnings)\<rparr>) (db_requests d)\<rparr>"

definition complete_meeting :: "uuid \<Rightarrow> time \<Rightarrow> db \<Rightarrow> db" where
  "complete_meeting i now d = d\<lparr>db_meetings := update_where (\<lambda>m. mt_id m = i) (\<lambda>m. m\<lparr>mt_status := ''COMPLETED'', mt_updated_at := now\<rparr>) (db_meetings d)\<rparr>"

text \<open>The announcement: the legacy events with the readiness of the graph, or the snapshot event of the command.\<close>

definition announce_graph ::
  "stdlib \<Rightarrow> graph_mutation_plan \<Rightarrow> generation_status \<Rightarrow> (string \<times> json) list \<Rightarrow> json list \<Rightarrow> uuid list \<Rightarrow> time \<Rightarrow> db \<Rightarrow> (nat \<times> db) result" where
  "announce_graph L plan status summary warnings touched now d =
     rbind (product_command d (pl_project_id plan) (pl_external_meeting_id plan)) (\<lambda>command.
       case command of
         None \<Rightarrow>
           (let (_, d1) = stage_outbox ''GRAPH_GENERATION_COMPLETED'' ''generation_run'' (UuidTxt (pl_generation_run_id plan)) (pl_project_id plan)
                  ''auto-graph-v1'' (JObj ([(''generationRunId'', juuid (pl_generation_run_id plan)), (''projectId'', jstr (pl_project_id plan)),
                     (''externalMeetingId'', jstr (pl_external_meeting_id plan)), (''status'', jstr (generation_status_value status))]
                     @ summary @ [(''warnings'', JList warnings)])) now d
            in rbind (stage_project_graph_changed (pl_project_id plan) (map (\<lambda>i. the (node_by_id d1 i)) touched) [] now d1) (\<lambda>((_, v), d2).
               rbind (mark_graph_ready (pl_project_id plan) (pl_external_meeting_id plan) v now d2) (\<lambda>d3. Inr (v, d3))))
       | Some c \<Rightarrow> rbind (stage_project_graph_changed_v3 L c None ''MEETING_ANALYSIS'' now d) (\<lambda>((_, _, v), d1). Inr (v, d1)))"

definition finish_publication ::
  "stdlib \<Rightarrow> graph_mutation_plan \<Rightarrow> uuid list \<Rightarrow> uuid list \<Rightarrow> publication \<Rightarrow> time \<Rightarrow> (automatic_graph_result \<times> db) result" where
  "finish_publication L plan created locked p now =
     rbind (exactly_one (filter (\<lambda>q. rq_id q = pl_source_request_id plan \<and> rq_project_id q = pl_project_id plan) (db_requests (pb_db p)))) (\<lambda>request.
     rbind (exactly_one (filter (\<lambda>m. mt_project_id m = pl_project_id plan \<and> mt_external_meeting_id m = pl_external_meeting_id plan) (db_meetings (pb_db p))))
       (\<lambda>meeting.
        let status = (if pb_warnings p = [] then GEN_COMPLETED else GEN_COMPLETED_WITH_WARNINGS);
            summary = publication_summary created p;
            d1 = complete_meeting (mt_id meeting) now (complete_request (rq_id request) (pb_warnings p) now (pb_db p))
        in rbind (announce_graph L plan status summary (pb_warnings p) (remdups (created @ locked)) now d1) (\<lambda>(v, d2).
             Inr (\<lparr>ag_generation_run_id = pl_generation_run_id plan, ag_status = status, ag_created_node_ids = created,
                    ag_merge_operation_ids = pb_merge_operation_ids p, ag_relation_ids = pb_relation_ids p, ag_warnings = pb_warnings p,
                    ag_replayed = False\<rparr>,
                  set_run (pl_generation_run_id plan) (published_run status (rq_id request) (pb_warnings p)
                    (JObj (summary @ [(''graphVersion'', JInt (int v))])) now) d2))))"

section \<open>The publication\<close>

fun stored_uuids :: "json list \<Rightarrow> uuid list result" where
  "stored_uuids [] = Inr []"
| "stored_uuids (JStr (UuidTxt u) # vs) = rbind (stored_uuids vs) (\<lambda>us. Inr (u # us))"
| "stored_uuids (_ # vs) = Inl (ValueError ''badly formed hexadecimal UUID string'')"

definition summary_uuids :: "generation_run \<Rightarrow> string \<Rightarrow> uuid list result" where
  "summary_uuids r key = (case gr_result_summary r of
     None \<Rightarrow> Inr [] | Some s \<Rightarrow> (case jget s key of JList vs \<Rightarrow> stored_uuids vs | _ \<Rightarrow> Inr []))"

definition replay_publication :: "generation_run \<Rightarrow> automatic_graph_result result" where
  "replay_publication r =
     rbind (summary_uuids r ''createdNodeIds'') (\<lambda>created.
     rbind (summary_uuids r ''mergeOperationIds'') (\<lambda>merges.
     rbind (summary_uuids r ''relationIds'') (\<lambda>relations.
       Inr \<lparr>ag_generation_run_id = gr_id r, ag_status = gr_status r, ag_created_node_ids = created, ag_merge_operation_ids = merges,
            ag_relation_ids = relations, ag_warnings = (case gr_warnings r of None \<Rightarrow> [] | Some ws \<Rightarrow> ws), ag_replayed = True\<rparr>)))"

definition existing_target_ids :: "graph_plan_item list \<Rightarrow> uuid list" where
  "existing_target_ids items = sort (remdups (concat (map (\<lambda>it. case gp_target_node_id it of
     None \<Rightarrow> [] | Some t \<Rightarrow> if t \<in> (\<lambda>other. cs_node_id (gp_source other)) ` set items then [] else [t]) items)))"

definition publish_graph ::
  "graph_env \<Rightarrow> stdlib \<Rightarrow> retrieval_settings \<Rightarrow> graph_mutation_plan \<Rightarrow> uuid list \<Rightarrow> time \<Rightarrow> db \<Rightarrow> (graph_plan_item list \<times> publication) result" where
  "publish_graph E L R plan locked now d =
     (let planned = map (\<lambda>it. cs_node_id (gp_source it)) (pl_items plan) in
      rbind (insert_planned_nodes L R plan (pl_items plan) now d) (\<lambda>d1.
      rbind (over_items (publish_decision E L plan planned locked now) (pl_items plan)
               \<lparr>pb_db = d1, pb_warnings = pl_warnings plan, pb_relation_ids = [], pb_merge_operation_ids = []\<rparr>) (\<lambda>(items1, p1).
      rbind (over_items (publish_link plan planned locked now) items1 p1) (\<lambda>(items2, p2).
        apply_dependent_merge_groups E L plan planned locked now items2 p2))))"

definition apply_graph_mutation_plan ::
  "graph_env \<Rightarrow> stdlib \<Rightarrow> retrieval_settings \<Rightarrow> string \<Rightarrow> graph_mutation_plan \<Rightarrow> time \<Rightarrow> db \<Rightarrow> (automatic_graph_result \<times> db) result" where
  "apply_graph_mutation_plan E L R label plan now d =
     rbind (select_run d (pl_project_id plan) (pl_generation_run_id plan)) (\<lambda>r.
     if published r then rbind (replay_publication r) (\<lambda>res. Inr (res, d))
     else rguard (gr_status r \<noteq> GEN_VALIDATING) (GenerationRunStateError ''GenerationRun is not applicable'')
    (let d0 = set_run (gr_id r) (\<lambda>r. r\<lparr>gr_status := GEN_APPLYING, gr_updated_at := now\<rparr>) d;
         wanted = existing_target_ids (pl_items plan);
         locked = filter (\<lambda>i. case node_by_id d0 i of None \<Rightarrow> False | Some n \<Rightarrow> nd_project_id n = pl_project_id plan \<and> nd_deleted_at n = None) wanted
     in rguard (length locked \<noteq> length wanted) (GraphIntegrityError ''an existing target disappeared or crossed project ownership'')
       (rbind (publish_graph E L R plan locked now d0) (\<lambda>(items, p).
        rbind (trace_items L R label plan items now (pb_db p)) (\<lambda>d1.
          finish_publication L plan (map (\<lambda>it. cs_node_id (gp_source it)) (pl_items plan)) locked (p\<lparr>pb_db := d1\<rparr>) now)))))"

section \<open>Orchestration\<close>

definition record_sources :: "string \<Rightarrow> uuid \<Rightarrow> uuid \<Rightarrow> json list \<Rightarrow> db \<Rightarrow> db result" where
  "record_sources pid run request warnings d =
     rbind (select_run d pid run) (\<lambda>r.
       Inr (set_run run (\<lambda>r. r\<lparr>gr_source_request_id := Some request, gr_warnings := (if warnings = [] then None else Some warnings)\<rparr>) d))"

definition run_automatic_graph ::
  "graph_env \<Rightarrow> stdlib \<Rightarrow> retrieval_settings \<Rightarrow> auto_merge_policy \<Rightarrow> string \<Rightarrow> uuid \<Rightarrow> string \<Rightarrow> string \<Rightarrow> uuid list \<Rightarrow> time \<Rightarrow> db
    \<Rightarrow> automatic_graph_result result \<times> db" where
  "run_automatic_graph E L R policy label run pid mid ids now d =
     (case source_request_and_candidates E L pid mid ids d of
        Inl e \<Rightarrow> (Inl e, d)
      | Inr (request, candidates, problems) \<Rightarrow>
          (case record_sources pid run request problems d of
             Inl e \<Rightarrow> (Inl e, d)
           | Inr d1 \<Rightarrow>
               (case build_graph_mutation_plan E L R policy run pid mid request candidates now d1 of
                  (Inl e, d2) \<Rightarrow> (Inl e, d2)
                | (Inr plan, d2) \<Rightarrow>
                    (case set_run_stage pid run GEN_VALIDATING now d2 of
                       Inl e \<Rightarrow> (Inl e, d2)
                     | Inr d3 \<Rightarrow>
                         (case apply_graph_mutation_plan E L R label (plan\<lparr>pl_warnings := problems @ pl_warnings plan\<rparr>) now d3 of
                            Inl e \<Rightarrow> (Inl e, d3)
                          | Inr (res, d4) \<Rightarrow> (Inr res, d4))))))"

text \<open>The ports of the orchestration: the candidate generation (\<open>run_meeting\<close> of \<open>chain.py\<close>), the meeting summary, and the
  name and the text of an exception. The first two run their own transactions, so they return the database they leave.\<close>

record proposal =
  pp_status :: string
  pp_outcome :: string
  pp_candidate_ids :: "uuid list"
  pp_warnings :: "string list"
  pp_detail :: "(string \<times> json) list"

record meeting_ports =
  mp_meeting_runner :: "db \<Rightarrow> proposal result \<times> db"
  mp_summary :: "(db \<Rightarrow> unit result \<times> db) option"
  mp_exception :: "py_error \<Rightarrow> py_exception"

definition ident_of :: "stdlib \<Rightarrow> json \<Rightarrow> ident_value" where
  "ident_of L v = (case v of JBool b \<Rightarrow> IdBool b | JInt i \<Rightarrow> IdInt i | _ \<Rightarrow> IdStr (str_of L v))"

definition meeting_field :: "stdlib \<Rightarrow> json \<Rightarrow> string \<Rightarrow> string result" where
  "meeting_field L input key = (case map_of (obj_entries input) key of None \<Rightarrow> Inl KeyError | Some v \<Rightarrow> canonical_storage_identifier (ident_of L v))"

definition with_summary :: "meeting_ports \<Rightarrow> proposal \<Rightarrow> db \<Rightarrow> proposal result \<times> db" where
  "with_summary M answer d = (case mp_summary M of
     None \<Rightarrow> (Inr answer, d)
   | Some summarize \<Rightarrow> (case summarize d of (Inl e, d1) \<Rightarrow> (Inl e, d1) | (Inr _, d1) \<Rightarrow> (Inr answer, d1)))"

definition graph_answer :: "proposal \<Rightarrow> automatic_graph_result \<Rightarrow> proposal" where
  "graph_answer pp res = pp\<lparr>pp_status := ''COMPLETED'', pp_outcome := generation_status_value (ag_status res),
     pp_warnings := map (\<lambda>w. case jget w ''code'' of JStr (Txt c) \<Rightarrow> c | _ \<Rightarrow> ''WARNING'') (ag_warnings res),
     pp_detail := filter (\<lambda>(k, _). k \<notin> {''generationRunId'', ''createdNodeIds'', ''mergeOperationIds''}) (pp_detail pp)
       @ [(''generationRunId'', juuid (ag_generation_run_id res)), (''createdNodeIds'', JList (map juuid (ag_created_node_ids res))),
          (''mergeOperationIds'', JList (map juuid (ag_merge_operation_ids res)))]\<rparr>"

definition meeting_body ::
  "graph_env \<Rightarrow> stdlib \<Rightarrow> retrieval_settings \<Rightarrow> auto_merge_policy \<Rightarrow> string \<Rightarrow> meeting_ports \<Rightarrow> generation_claim \<Rightarrow> string \<Rightarrow> string \<Rightarrow> time \<Rightarrow> db
    \<Rightarrow> proposal result \<times> db" where
  "meeting_body E L R policy label M claim pid mid now d =
     (case mp_meeting_runner M d of
        (Inl e, d1) \<Rightarrow> (Inl e, d1)
      | (Inr pp, d1) \<Rightarrow>
          if gl_replayed claim
          then with_summary M (pp\<lparr>pp_status := ''COMPLETED'', pp_outcome := ''AUTOMATIC_GRAPH_REPLAYED''\<rparr>) d1
          else if pp_status pp = ''FAILED''
          then (Inl (GenerationRunStateError ''candidate generation failed before automatic graph planning''), d1)
          else case run_automatic_graph E L R policy label (gr_id (gl_run claim)) pid mid (pp_candidate_ids pp) now d1 of
                 (Inl e, d2) \<Rightarrow> (Inl e, d2)
               | (Inr res, d2) \<Rightarrow> with_summary M (graph_answer pp res) d2)"

definition run_automatic_meeting ::
  "graph_env \<Rightarrow> stdlib \<Rightarrow> retrieval_settings \<Rightarrow> auto_merge_policy \<Rightarrow> string \<Rightarrow> meeting_ports \<Rightarrow> string \<Rightarrow> bool \<Rightarrow> json \<Rightarrow> string option \<Rightarrow> time
    \<Rightarrow> db list \<Rightarrow> db \<Rightarrow> proposal result \<times> db" where
  "run_automatic_meeting E L R policy label M version force_retry input request_id now winners d =
     (case rbind (meeting_field L input ''projectId'') (\<lambda>pid.
           rbind (meeting_field L input ''externalMeetingId'') (\<lambda>mid.
           rbind (recording_hash L input) (\<lambda>h.
           rbind (claim_generation_run \<lparr>ri_project_id = pid, ri_external_meeting_id = mid, ri_recording_hash = h, ri_pipeline_version = version\<rparr>
                    request_id force_retry now winners d) (\<lambda>(claim, d1). Inr (pid, mid, claim, d1))))) of
        Inl e \<Rightarrow> (Inl e, last (d # winners))
      | Inr (pid, mid, claim, d1) \<Rightarrow>
          if \<not> gl_claimed claim \<and> \<not> gl_replayed claim
          then (Inl (GenerationRunStateError ''the same automatic generation input is already processing''), d1)
          else case meeting_body E L R policy label M claim pid mid now d1 of
                 (Inr answer, d2) \<Rightarrow> (Inr answer, d2)
               | (Inl e, d2) \<Rightarrow>
                   (case mark_generation_failed E pid (gr_id (gl_run claim)) ''AUTOMATIC_GRAPH_FAILED'' (mp_exception M e) now d2 of
                      Inl e2 \<Rightarrow> (Inl e2, d2)
                    | Inr d3 \<Rightarrow> (Inl e, d3)))"

end
