(* ===== verification/Node_Updates.thy ===== *)
theory Node_Updates
  imports Node_Deletes
begin

text \<open>
  \<open>meeting_analysis/node_updates.py\<close>: the content updates of canonical nodes requested by Java, one
  node (schema version 1) or a batch of titles (schema version 2). Both handlers use the inbox of
  commands, the project lock and the staging of a graph change in the way the delete handler does.
  \<open>now\<close> is the clock; \<open>seen\<close> is the database that a session opened after a rollback sees.
\<close>

section \<open>Commands, results and plans\<close>

record node_content_update_command =
  uc_command_id :: uuid
  uc_requested_at :: time
  uc_requested_at_iso :: string
  uc_project_id :: string
  uc_node_id :: uuid
  uc_expected_node_version :: int
  uc_title :: "string option"
  uc_content :: "string option"
  uc_requested_by_member_id :: string

record node_content_update_result =
  ur_command_id :: uuid
  ur_status :: command_status
  ur_node_id :: uuid
  ur_node_version :: "int option"
  ur_graph_version :: "nat option"
  ur_changed :: bool
  ur_failure_code :: "string option"
  ur_event_id :: "uuid option"
  ur_artifact_id :: "uuid option"
  ur_replayed :: bool

record batch_update_item =
  bi_node_id :: uuid
  bi_expected_node_version :: int
  bi_title :: string

record node_content_batch_update_command =
  bc_command_id :: uuid
  bc_requested_at :: time
  bc_requested_at_iso :: string
  bc_project_id :: string
  bc_nodes :: "batch_update_item list"
  bc_requested_by_member_id :: string

record node_content_batch_update_result =
  br_command_id :: uuid
  br_status :: command_status
  br_node_versions :: "(uuid \<times> int) list"
  br_graph_version :: "nat option"
  br_changed :: bool
  br_failure_code :: "string option"
  br_failed_node_id :: "uuid option"
  br_event_id :: "uuid option"
  br_artifact_id :: "uuid option"
  br_replayed :: bool

record batch_node_plan =
  bp_item :: batch_update_item
  bp_node :: node
  bp_next_title :: string
  bp_current_revision :: node_revision
  bp_evidence_specs :: "evidence_spec list"
  bp_old_embedding_hash :: "string option"

definition plan_changed :: "batch_node_plan \<Rightarrow> bool" where
  "plan_changed p \<longleftrightarrow> bp_next_title p \<noteq> nd_title (bp_node p)"

definition update_payload_hash :: "stdlib \<Rightarrow> node_content_update_command \<Rightarrow> string" where
  "update_payload_hash L c = canonical_hash L (JObj
     [(''commandSchemaVersion'', JInt 1),
      (''commandId'', JStr (UuidTxt (uc_command_id c))),
      (''commandType'', jstr ''NODE_CONTENT_UPDATE_REQUESTED''),
      (''requestedAt'', jstr (uc_requested_at_iso c)),
      (''projectId'', jstr (uc_project_id c)),
      (''payload'', JObj
        [(''nodeId'', JStr (UuidTxt (uc_node_id c))),
         (''expectedNodeVersion'', JInt (uc_expected_node_version c)),
         (''title'', jopt jstr (uc_title c)),
         (''content'', jopt jstr (uc_content c)),
         (''requestedByMemberId'', jstr (uc_requested_by_member_id c))])])"

definition batch_payload_hash :: "stdlib \<Rightarrow> node_content_batch_update_command \<Rightarrow> string" where
  "batch_payload_hash L c = canonical_hash L (JObj
     [(''commandSchemaVersion'', JInt 2),
      (''commandId'', JStr (UuidTxt (bc_command_id c))),
      (''commandType'', jstr ''NODE_CONTENT_UPDATE_REQUESTED''),
      (''requestedAt'', jstr (bc_requested_at_iso c)),
      (''projectId'', jstr (bc_project_id c)),
      (''payload'', JObj
        [(''nodes'', JList (map (\<lambda>i. JObj
            [(''nodeId'', JStr (UuidTxt (bi_node_id i))),
             (''expectedNodeVersion'', JInt (bi_expected_node_version i)),
             (''title'', jstr (bi_title i))]) (bc_nodes c))),
         (''requestedByMemberId'', jstr (bc_requested_by_member_id c))])])"

text \<open>The inbox row of both commands: a single update names its node and version, a batch does not.\<close>

definition update_inbox_row ::
  "uuid \<Rightarrow> node_content_update_command \<Rightarrow> string \<Rightarrow> command_status \<Rightarrow> meeting_analysis_command" where
  "update_inbox_row i c payload_hash status =
     \<lparr>mc_id = i, mc_command_id = uc_command_id c, mc_command_type = NODE_CONTENT_UPDATE_REQUESTED,
      mc_project_id = uc_project_id c, mc_meeting_id = None, mc_room_name = None,
      mc_generate_summary = None, mc_generate_nodes = None, mc_target_node_id = Some (uc_node_id c),
      mc_expected_node_version = Some (uc_expected_node_version c), mc_expected_graph_version = None,
      mc_requested_by_member_id = Some (uc_requested_by_member_id c), mc_requested_at = uc_requested_at c,
      mc_status = status, mc_payload_hash = payload_hash, mc_failure_code = None, mc_failure_message = None\<rparr>"

definition batch_inbox_row ::
  "uuid \<Rightarrow> node_content_batch_update_command \<Rightarrow> string \<Rightarrow> command_status \<Rightarrow> meeting_analysis_command" where
  "batch_inbox_row i c payload_hash status =
     \<lparr>mc_id = i, mc_command_id = bc_command_id c, mc_command_type = NODE_CONTENT_UPDATE_REQUESTED,
      mc_project_id = bc_project_id c, mc_meeting_id = None, mc_room_name = None,
      mc_generate_summary = None, mc_generate_nodes = None, mc_target_node_id = None,
      mc_expected_node_version = None, mc_expected_graph_version = None,
      mc_requested_by_member_id = Some (bc_requested_by_member_id c), mc_requested_at = bc_requested_at c,
      mc_status = status, mc_payload_hash = payload_hash, mc_failure_code = None, mc_failure_message = None\<rparr>"

section \<open>Recorded outcomes\<close>

text \<open>\<open>payload_json.get("nodes", [])\<close> of a snapshot, and the JSON values the replay reads from it.\<close>

definition snapshot_rows :: "json \<Rightarrow> json list" where
  "snapshot_rows p = (case jget p ''nodes'' of JList rows \<Rightarrow> rows | _ \<Rightarrow> [])"

fun as_int :: "json \<Rightarrow> int option" where
  "as_int (JInt i) = Some i"
| "as_int _ = None"

fun as_uuid :: "json \<Rightarrow> uuid option" where
  "as_uuid (JStr (UuidTxt u)) = Some u"
| "as_uuid _ = None"

definition command_artifacts :: "db \<Rightarrow> string \<Rightarrow> uuid \<Rightarrow> graph_snapshot_artifact list" where
  "command_artifacts d pid cid = filter (\<lambda>a. sa_project_id a = pid \<and> sa_command_id a = cid) (db_artifacts d)"

definition existing_update_result ::
  "db \<Rightarrow> node_content_update_command \<Rightarrow> meeting_analysis_command \<Rightarrow> node_content_update_result result" where
  "existing_update_result d c row =
     rbind (one_or_none (command_artifacts d (uc_project_id c) (uc_command_id c))) (\<lambda>artifact.
       let event = find (\<lambda>e. jget (ob_payload e) ''commandId'' = JStr (UuidTxt (uc_command_id c)))
             (filter (\<lambda>e. ob_project_id e = uc_project_id c \<and> ob_event_type e = ''PROJECT_GRAPH_CHANGED''
                \<and> ob_schema_version e = ''3'' \<and> ob_aggregate_id e = Txt (uc_project_id c)) (db_outbox d));
           snapshot_node = (case artifact of None \<Rightarrow> None
             | Some a \<Rightarrow> find (\<lambda>i. jget i ''nodeId'' = JStr (UuidTxt (uc_node_id c))) (snapshot_rows (sa_payload_json a)));
           node_version = (case snapshot_node of
               Some i \<Rightarrow> as_int (jget i ''nodeVersion'')
             | None \<Rightarrow> if mc_status row = CMD_COMPLETED then mc_expected_node_version row else None)
       in Inr \<lparr>ur_command_id = uc_command_id c, ur_status = mc_status row, ur_node_id = uc_node_id c,
               ur_node_version = node_version, ur_graph_version = map_option sa_graph_version artifact,
               ur_changed = (artifact \<noteq> None), ur_failure_code = mc_failure_code row,
               ur_event_id = map_option ob_id event, ur_artifact_id = map_option sa_id artifact,
               ur_replayed = True\<rparr>)"

fun collect_versions :: "(json \<Rightarrow> json option) \<Rightarrow> batch_update_item list \<Rightarrow> (uuid \<times> int) list result" where
  "collect_versions versions [] = Inr []"
| "collect_versions versions (i # is) =
     (case Option.bind (versions (JStr (UuidTxt (bi_node_id i)))) as_int of
        None \<Rightarrow> Inl (RuntimeError ''completed batch snapshot is missing a requested Node version'')
      | Some v \<Rightarrow> rbind (collect_versions versions is) (\<lambda>vs. Inr ((bi_node_id i, v) # vs)))"

definition snapshot_versions :: "json \<Rightarrow> json \<Rightarrow> json option" where
  "snapshot_versions p = map_of (rev (map (\<lambda>i. (jget i ''nodeId'', jget i ''nodeVersion'')) (snapshot_rows p)))"

definition existing_batch_result ::
  "db \<Rightarrow> node_content_batch_update_command \<Rightarrow> meeting_analysis_command \<Rightarrow> node_content_batch_update_result result" where
  "existing_batch_result d c row =
     rbind (one_or_none (command_artifacts d (bc_project_id c) (bc_command_id c))) (\<lambda>artifact.
       let event = command_event d (bc_command_id c) (bc_project_id c)
             (if artifact \<noteq> None then ''PROJECT_GRAPH_CHANGED'' else ''NODE_CONTENT_UPDATE_REJECTED'')
       in rbind (case artifact of None \<Rightarrow> Inr []
               | Some a \<Rightarrow> collect_versions (snapshot_versions (sa_payload_json a)) (bc_nodes c)) (\<lambda>versions.
          Inr \<lparr>br_command_id = bc_command_id c, br_status = mc_status row, br_node_versions = versions,
               br_graph_version = map_option sa_graph_version artifact, br_changed = (artifact \<noteq> None),
               br_failure_code = mc_failure_code row,
               br_failed_node_id = Option.bind event (\<lambda>e. as_uuid (jget (jget (ob_payload e) ''payload'') ''failedNodeId'')),
               br_event_id = map_option ob_id event, br_artifact_id = map_option sa_id artifact,
               br_replayed = True\<rparr>))"

section \<open>Failures\<close>

definition fail_command :: "string \<Rightarrow> string \<Rightarrow> meeting_analysis_command \<Rightarrow> meeting_analysis_command" where
  "fail_command code message r = r\<lparr>mc_status := CMD_FAILED, mc_failure_code := Some code,
     mc_failure_message := Some (take 2000 message)\<rparr>"

definition complete_command :: "meeting_analysis_command \<Rightarrow> meeting_analysis_command" where
  "complete_command r = r\<lparr>mc_status := CMD_COMPLETED, mc_failure_code := None, mc_failure_message := None\<rparr>"

definition release_if :: "bool \<Rightarrow> string \<Rightarrow> db \<Rightarrow> db result" where
  "release_if materialized pid d = (if materialized then release_unmutated_graph_state pid d else Inr d)"

definition failed_update :: "node_content_update_command \<Rightarrow> string \<Rightarrow> node_content_update_result" where
  "failed_update c code = \<lparr>ur_command_id = uc_command_id c, ur_status = CMD_FAILED, ur_node_id = uc_node_id c,
     ur_node_version = None, ur_graph_version = None, ur_changed = False, ur_failure_code = Some code,
     ur_event_id = None, ur_artifact_id = None, ur_replayed = False\<rparr>"

definition record_failure ::
  "node_content_update_command \<Rightarrow> string \<Rightarrow> string \<Rightarrow> bool \<Rightarrow> db \<Rightarrow> (node_content_update_result \<times> db) result" where
  "record_failure c code message materialized d =
     rbind (release_if materialized (uc_project_id c) (set_command (uc_command_id c) (fail_command code message) d))
       (\<lambda>d1. Inr (failed_update c code, d1))"

definition persist_terminal_failure ::
  "stdlib \<Rightarrow> node_content_update_command \<Rightarrow> string \<Rightarrow> string \<Rightarrow> db \<Rightarrow> (node_content_update_result \<times> db) result" where
  "persist_terminal_failure L c code message d =
     (let h = update_payload_hash L c in
      rbind (one_or_none (command_rows d (uc_command_id c))) (\<lambda>existing.
        case existing of
          Some row \<Rightarrow>
            rguard (command_conflict NODE_CONTENT_UPDATE_REQUESTED h row) CommandPayloadConflictError
            (rbind (existing_update_result d c row) (\<lambda>r. Inr (r, d)))
        | None \<Rightarrow>
            (let (row, d1) = add_command (\<lambda>i. fail_command code message (update_inbox_row i c h CMD_FAILED)) d
             in Inr (failed_update c code, d1))))"

definition failed_batch ::
  "node_content_batch_update_command \<Rightarrow> string \<Rightarrow> uuid option \<Rightarrow> uuid \<Rightarrow> node_content_batch_update_result" where
  "failed_batch c code failed event = \<lparr>br_command_id = bc_command_id c, br_status = CMD_FAILED,
     br_node_versions = [], br_graph_version = None, br_changed = False, br_failure_code = Some code,
     br_failed_node_id = failed, br_event_id = Some event, br_artifact_id = None, br_replayed = False\<rparr>"

definition reject_batch ::
  "meeting_analysis_command \<Rightarrow> node_content_batch_update_command \<Rightarrow> string \<Rightarrow> string \<Rightarrow> uuid option \<Rightarrow> bool \<Rightarrow> time
    \<Rightarrow> db \<Rightarrow> (node_content_batch_update_result \<times> db) result" where
  "reject_batch row c reason_code message failed materialized now d =
     (let d1 = set_command (bc_command_id c) (fail_command reason_code message) d
      in rbind (stage_node_content_update_rejected_v3 (fail_command reason_code message row) reason_code
                  (map_option UuidTxt failed) now d1) (\<lambda>(e, d2).
         rbind (release_if materialized (bc_project_id c) d2) (\<lambda>d3.
         Inr (failed_batch c reason_code failed (ob_id e), d3))))"

definition persist_batch_terminal_failure ::
  "stdlib \<Rightarrow> node_content_batch_update_command \<Rightarrow> string \<Rightarrow> string \<Rightarrow> time \<Rightarrow> db
    \<Rightarrow> (node_content_batch_update_result \<times> db) result" where
  "persist_batch_terminal_failure L c code message now d =
     (let h = batch_payload_hash L c in
      rbind (one_or_none (command_rows d (bc_command_id c))) (\<lambda>existing.
        case existing of
          Some row \<Rightarrow>
            rguard (command_conflict NODE_CONTENT_UPDATE_REQUESTED h row) CommandPayloadConflictError
            (rbind (existing_batch_result d c row) (\<lambda>r. Inr (r, d)))
        | None \<Rightarrow>
            (let (row, d1) = add_command (\<lambda>i. fail_command code message (batch_inbox_row i c h CMD_FAILED)) d
             in rbind (stage_node_content_update_rejected_v3 row code None now d1) (\<lambda>(e, d2).
                Inr (failed_batch c code None (ob_id e), d2)))))"

section \<open>Editing a node\<close>

definition current_embedding_hash :: "stdlib \<Rightarrow> db \<Rightarrow> node \<Rightarrow> string option result" where
  "current_embedding_hash L d n =
     (case load_current_revision_embedding_input L d n of
        Inr x \<Rightarrow> Inr (Some (ei_text_hash x))
      | Inl (CurrentRevisionEmbeddingError _) \<Rightarrow> Inr None
      | Inl e \<Rightarrow> Inl e)"

text \<open>The run that an edit supersedes, and the analysis columns of the node.\<close>

definition supersede_run :: "time \<Rightarrow> uuid \<Rightarrow> db \<Rightarrow> db" where
  "supersede_run now i d = d\<lparr>db_analysis_runs := update_where
     (\<lambda>r. ar_id r = i \<and> (ar_status r = RUN_PENDING \<or> ar_status r = RUN_RUNNING \<or> ar_status r = RUN_COMPLETED))
     (\<lambda>r. r\<lparr>ar_status := RUN_SUPERSEDED, ar_completed_at := Some now, ar_updated_at := now\<rparr>) (db_analysis_runs d)\<rparr>"

definition invalidate_analysis :: "time \<Rightarrow> node \<Rightarrow> db \<Rightarrow> db result" where
  "invalidate_analysis now n d =
     rbind (case nd_current_analysis_run_id n of None \<Rightarrow> Inr None
            | Some i \<Rightarrow> one_or_none (filter (\<lambda>r. ar_id r = i \<and> ar_source_node_id r = nd_id n) (db_analysis_runs d)))
       (\<lambda>run. Inr (set_node (nd_id n) (\<lambda>m. m\<lparr>nd_analysis_status := AS_STALE, nd_analysis_input_hash := None\<rparr>)
          (case run of None \<Rightarrow> d | Some r \<Rightarrow> supersede_run now (ar_id r) d)))"

definition edit_view :: "node \<Rightarrow> json" where
  "edit_view n = JObj [(''nodeId'', JStr (UuidTxt (nd_id n))), (''title'', jstr (nd_title n)),
     (''content'', jstr (nd_content n)), (''nodeType'', jstr (node_type_value (nd_node_type n))),
     (''category'', jstr (nd_category n)), (''graphState'', jstr (graph_state_value (nd_graph_state n))),
     (''version'', JInt (nd_version n))]"

definition edit_args :: "node \<Rightarrow> string \<Rightarrow> string \<Rightarrow> string \<Rightarrow> node_revision \<Rightarrow> evidence_spec list \<Rightarrow> revision_args" where
  "edit_args n member title content current specs =
     \<lparr>ra_title = title, ra_content = content, ra_node_type = nd_node_type n,
      ra_category = nd_category n, ra_due_date = nd_due_date n, ra_created_by_type = ''USER'',
      ra_created_by_id = Some member, ra_generation_run_id = None, ra_evidence_specs = specs,
      ra_requires_evidence = rv_requires_evidence current, ra_legacy_imported = rv_legacy_imported current\<rparr>"

definition edit_event :: "string \<Rightarrow> uuid \<Rightarrow> string \<Rightarrow> node \<Rightarrow> node \<Rightarrow> bool \<Rightarrow> graph_change_event" where
  "edit_event pid cid member n n1 invalidated =
     \<lparr>gc_project_id = pid, gc_request_id = Some (UuidTxt cid), gc_node_id = Some (nd_id n),
      gc_item_id = Some (nd_source_item_id n), gc_change_type = ''USER_EDIT_NODE'',
      gc_actor_type = ''USER'', gc_before = edit_view n, gc_after = edit_view n1,
      gc_detail = JObj [(''actorId'', jstr member), (''commandId'', JStr (UuidTxt cid)),
        (''sourceType'', jstr ''NODE_CONTENT_UPDATE''), (''analysisInvalidated'', JBool invalidated)]\<rparr>"

text \<open>One edit: the revision, the embeddings, the analysis when the meaning changed, and the change
  event; both handlers run these steps in this order. The result is the row after the edit.\<close>

definition edit_node ::
  "stdlib \<Rightarrow> string \<Rightarrow> uuid \<Rightarrow> string \<Rightarrow> node \<Rightarrow> string \<Rightarrow> string \<Rightarrow> node_revision \<Rightarrow> evidence_spec list \<Rightarrow> string option
    \<Rightarrow> time \<Rightarrow> db \<Rightarrow> (node \<times> db) result" where
  "edit_node L pid cid member n title content current specs old_hash now d =
     rbind (create_node_revision L n (edit_args n member title content current specs) now d) (\<lambda>(r, d1).
       case node_by_id d1 (nd_id n) of
         None \<Rightarrow> Inl KeyError
       | Some n1 \<Rightarrow>
           rbind (current_embedding_hash L d1 n1) (\<lambda>new_hash.
           rbind (reconcile_embedding_status_after_revision L n1 d1) (\<lambda>(_, d2).
           rbind (if old_hash \<noteq> new_hash then invalidate_analysis now n1 d2 else Inr d2) (\<lambda>d3.
           Inr (n1, d3\<lparr>db_change_events := db_change_events d3 @ [edit_event pid cid member n n1 (old_hash \<noteq> new_hash)]\<rparr>)))))"

text \<open>The checks of a node before it is edited, in the order of the code.\<close>

definition edit_rejection :: "node \<Rightarrow> int \<Rightarrow> (string \<times> string) option" where
  "edit_rejection n expected =
     (if nd_deleted_at n \<noteq> None \<or> nd_graph_state n = DELETED \<or> nd_graph_state n = ARCHIVED \<or> nd_graph_state n = EXCLUDED
      then Some (''NODE_NOT_EDITABLE'', ''deleted, archived, or excluded Nodes are not editable'')
      else if nd_graph_state n = MERGED \<or> nd_merged_into_node_id n \<noteq> None
      then Some (''MERGED_SOURCE_NOT_EDITABLE'', ''edit the canonical merge target instead'')
      else if \<not> (nd_graph_state n = ACTIVE \<or> nd_graph_state n = UNATTACHED)
      then Some (''NODE_NOT_EDITABLE'', ''only ACTIVE or UNATTACHED canonical Nodes are editable'')
      else if nd_version n \<noteq> expected
      then Some (''NODE_VERSION_CONFLICT'', ''expected Node version does not match current version'')
      else None)"

definition current_revision_row :: "db \<Rightarrow> node \<Rightarrow> node_revision option" where
  "current_revision_row d n = Option.bind (nd_current_revision_id n) (revision_by_id d)"

section \<open>The single update\<close>

definition project_node_rows :: "db \<Rightarrow> string \<Rightarrow> uuid \<Rightarrow> node list" where
  "project_node_rows d pid i = filter (\<lambda>n. nd_id n = i \<and> nd_project_id n = pid) (db_nodes d)"

text \<open>The title and content a command asks for.\<close>

definition next_title :: "node_content_update_command \<Rightarrow> node \<Rightarrow> string" where
  "next_title c n = (case uc_title c of Some t \<Rightarrow> strip t | None \<Rightarrow> nd_title n)"

definition next_content :: "node_content_update_command \<Rightarrow> node \<Rightarrow> string" where
  "next_content c n = (case uc_content c of Some t \<Rightarrow> t | None \<Rightarrow> nd_content n)"

definition accept_update ::
  "stdlib \<Rightarrow> meeting_analysis_command \<Rightarrow> node_content_update_command \<Rightarrow> node \<Rightarrow> node_revision \<Rightarrow> string option \<Rightarrow> time \<Rightarrow> db
    \<Rightarrow> (node_content_update_result \<times> db) result" where
  "accept_update L row c n current old_hash now d =
     rbind (edit_node L (uc_project_id c) (uc_command_id c) (uc_requested_by_member_id c) n (next_title c n)
            (next_content c n) current (current_revision_evidence_specs d n) old_hash now d) (\<lambda>(n1, d1).
     rbind (stage_project_graph_changed_v3 L row None ''NODE_CONTENT_UPDATE'' now d1) (\<lambda>((e, a, v), d2).
     Inr (\<lparr>ur_command_id = uc_command_id c, ur_status = CMD_COMPLETED, ur_node_id = nd_id n,
           ur_node_version = Some (nd_version n1), ur_graph_version = Some v, ur_changed = True,
           ur_failure_code = None, ur_event_id = Some (ob_id e), ur_artifact_id = Some (sa_id a),
           ur_replayed = False\<rparr>, set_command (uc_command_id c) complete_command d2)))"

definition update_node ::
  "stdlib \<Rightarrow> meeting_analysis_command \<Rightarrow> node_content_update_command \<Rightarrow> bool \<Rightarrow> node \<Rightarrow> time \<Rightarrow> db
    \<Rightarrow> (node_content_update_result \<times> db) result" where
  "update_node L row c materialized n now d =
     (if next_title c n = nd_title n \<and> next_content c n = nd_content n
      then rbind (release_if materialized (uc_project_id c)
                (set_command (uc_command_id c) (\<lambda>r. r\<lparr>mc_status := CMD_COMPLETED\<rparr>) d)) (\<lambda>d1.
              Inr (\<lparr>ur_command_id = uc_command_id c, ur_status = CMD_COMPLETED, ur_node_id = nd_id n,
                    ur_node_version = Some (nd_version n), ur_graph_version = None, ur_changed = False,
                    ur_failure_code = None, ur_event_id = None, ur_artifact_id = None, ur_replayed = False\<rparr>, d1))
      else case current_revision_row d n of
           None \<Rightarrow> record_failure c ''INVALID_CURRENT_REVISION'' ''Node has no valid current Revision'' materialized d
         | Some current \<Rightarrow>
             rbind (current_embedding_hash L d n) (\<lambda>old_hash.
             if rv_requires_evidence current \<and> current_revision_evidence_specs d n = []
             then record_failure c ''INVALID_CURRENT_REVISION'' ''current Revision has no required Evidence'' materialized d
             else accept_update L row c n current old_hash now d))"

definition decide_update ::
  "stdlib \<Rightarrow> meeting_analysis_command \<Rightarrow> node_content_update_command \<Rightarrow> bool \<Rightarrow> time \<Rightarrow> db
    \<Rightarrow> (node_content_update_result \<times> db) result" where
  "decide_update L row c materialized now d =
     rbind (one_or_none (project_node_rows d (uc_project_id c) (uc_node_id c))) (\<lambda>node.
       case node of
         None \<Rightarrow> record_failure c ''NODE_NOT_FOUND'' ''Node is missing or belongs to another project'' materialized d
       | Some n \<Rightarrow>
           (case edit_rejection n (uc_expected_node_version c) of
              Some (code, message) \<Rightarrow> record_failure c code message materialized d
            | None \<Rightarrow> update_node L row c materialized n now d))"

text \<open>The first transaction of \<open>process_node_content_update\<close>, and the whole handler.\<close>

definition update_attempt ::
  "stdlib \<Rightarrow> node_content_update_command \<Rightarrow> time \<Rightarrow> db \<Rightarrow> (node_content_update_result \<times> db) result" where
  "update_attempt L c now d =
     (let h = update_payload_hash L c in
      rbind (one_or_none (command_rows d (uc_command_id c))) (\<lambda>existing.
        case existing of
          Some row \<Rightarrow>
            rguard (command_conflict NODE_CONTENT_UPDATE_REQUESTED h row) CommandPayloadConflictError
            (if mc_status row = CMD_COMPLETED \<or> mc_status row = CMD_FAILED
             then rbind (existing_update_result d c row) (\<lambda>r. Inr (r, d))
             else Inl (RuntimeError ''Node update command is already processing''))
        | None \<Rightarrow>
            (let (row, d1) = add_command (\<lambda>i. update_inbox_row i c h CMD_PROCESSING) d in
             rbind (lock_project_graph_state (uc_project_id c) now d1) (\<lambda>((_, materialized), d2).
             decide_update L row c materialized now d2))))"

definition process_node_content_update ::
  "stdlib \<Rightarrow> node_content_update_command \<Rightarrow> time \<Rightarrow> db \<Rightarrow> db \<Rightarrow> (node_content_update_result \<times> db) result" where
  "process_node_content_update L c now d seen =
     (case update_attempt L c now d of
        Inl (GraphSnapshotTooLargeError m) \<Rightarrow> persist_terminal_failure L c ''GRAPH_SNAPSHOT_TOO_LARGE'' m seen
      | Inl IntegrityError \<Rightarrow>
          rbind (one_or_none (command_rows seen (uc_command_id c))) (\<lambda>concurrent.
            if concurrent \<noteq> None then update_attempt L c now seen else Inl IntegrityError)
      | r \<Rightarrow> r)"

section \<open>The batch update\<close>

definition locked_batch_nodes :: "db \<Rightarrow> node_content_batch_update_command \<Rightarrow> node list" where
  "locked_batch_nodes d c = sort_key nd_id (filter (\<lambda>n. nd_id n \<in> set (map bi_node_id (bc_nodes c))
     \<and> nd_project_id n = bc_project_id c) (db_nodes d))"

fun batch_preflight ::
  "stdlib \<Rightarrow> db \<Rightarrow> node list \<Rightarrow> batch_update_item list \<Rightarrow> batch_node_plan list
    \<Rightarrow> (batch_node_plan list \<times> (string \<times> string \<times> uuid) option) result" where
  "batch_preflight L d locked [] plans = Inr (plans, None)"
| "batch_preflight L d locked (item # items) plans =
     (case find (\<lambda>n. nd_id n = bi_node_id item) locked of
        None \<Rightarrow> Inr (plans, Some (''NODE_NOT_FOUND'', ''Node is missing or belongs to another project'', bi_node_id item))
      | Some n \<Rightarrow>
         (case edit_rejection n (bi_expected_node_version item) of
            Some (code, message) \<Rightarrow> Inr (plans, Some (code, message, bi_node_id item))
          | None \<Rightarrow>
             (case current_revision_row d n of
                None \<Rightarrow> Inr (plans, Some (''INVALID_CURRENT_REVISION'', ''Node has no valid current Revision'', bi_node_id item))
              | Some current \<Rightarrow>
                  let specs = current_revision_evidence_specs d n in
                  if rv_requires_evidence current \<and> specs = []
                  then Inr (plans, Some (''INVALID_CURRENT_REVISION'', ''current Revision has no required Evidence'', bi_node_id item))
                  else rbind (current_embedding_hash L d n) (\<lambda>old_hash.
                    batch_preflight L d locked items (plans @ [\<lparr>bp_item = item, bp_node = n,
                      bp_next_title = strip (bi_title item), bp_current_revision = current,
                      bp_evidence_specs = specs, bp_old_embedding_hash = old_hash\<rparr>])))))"

definition apply_batch_node_mutation ::
  "stdlib \<Rightarrow> node_content_batch_update_command \<Rightarrow> batch_node_plan \<Rightarrow> time \<Rightarrow> db \<Rightarrow> (node \<times> db) result" where
  "apply_batch_node_mutation L c p now d =
     (case node_by_id d (nd_id (bp_node p)) of
        None \<Rightarrow> Inl KeyError
      | Some n \<Rightarrow> edit_node L (bc_project_id c) (bc_command_id c) (bc_requested_by_member_id c) n (bp_next_title p)
          (nd_content n) (bp_current_revision p) (bp_evidence_specs p) (bp_old_embedding_hash p) now d)"

fun apply_batch :: "stdlib \<Rightarrow> node_content_batch_update_command \<Rightarrow> batch_node_plan list \<Rightarrow> time \<Rightarrow> db \<Rightarrow> db result" where
  "apply_batch L c [] now d = Inr d"
| "apply_batch L c (p # ps) now d = rbind (apply_batch_node_mutation L c p now d) (\<lambda>(_, d1). apply_batch L c ps now d1)"

definition accept_batch ::
  "stdlib \<Rightarrow> meeting_analysis_command \<Rightarrow> node_content_batch_update_command \<Rightarrow> batch_node_plan list \<Rightarrow> time \<Rightarrow> db
    \<Rightarrow> (node_content_batch_update_result \<times> db) result" where
  "accept_batch L row c plans now d =
     rbind (apply_batch L c plans now d) (\<lambda>d1.
     rbind (stage_project_graph_changed_v3 L row None ''NODE_CONTENT_UPDATE'' now d1) (\<lambda>((e, a, v), d2).
     let d3 = set_command (bc_command_id c) complete_command d2
     in Inr (\<lparr>br_command_id = bc_command_id c, br_status = CMD_COMPLETED,
              br_node_versions = List.map_filter (\<lambda>p. map_option (\<lambda>n. (nd_id n, nd_version n))
                 (node_by_id d3 (nd_id (bp_node p)))) plans,
              br_graph_version = Some v, br_changed = True, br_failure_code = None, br_failed_node_id = None,
              br_event_id = Some (ob_id e), br_artifact_id = Some (sa_id a), br_replayed = False\<rparr>, d3)))"

definition decide_batch ::
  "stdlib \<Rightarrow> meeting_analysis_command \<Rightarrow> node_content_batch_update_command \<Rightarrow> bool \<Rightarrow> time \<Rightarrow> db
    \<Rightarrow> (node_content_batch_update_result \<times> db) result" where
  "decide_batch L row c materialized now d =
     rbind (batch_preflight L d (locked_batch_nodes d c) (bc_nodes c) []) (\<lambda>(plans, rejection).
       case rejection of
         Some (code, message, failed) \<Rightarrow> reject_batch row c code message (Some failed) materialized now d
       | None \<Rightarrow>
           (case find (\<lambda>p. \<not> plan_changed p) plans of
              Some p \<Rightarrow> reject_batch row c ''NO_CHANGE'' ''requested Node title is already current''
                          (Some (bi_node_id (bp_item p))) materialized now d
            | None \<Rightarrow> accept_batch L row c plans now d))"

definition batch_attempt ::
  "stdlib \<Rightarrow> node_content_batch_update_command \<Rightarrow> time \<Rightarrow> db \<Rightarrow> (node_content_batch_update_result \<times> db) result" where
  "batch_attempt L c now d =
     (let h = batch_payload_hash L c in
      rbind (one_or_none (command_rows d (bc_command_id c))) (\<lambda>existing.
        case existing of
          Some row \<Rightarrow>
            rguard (command_conflict NODE_CONTENT_UPDATE_REQUESTED h row) CommandPayloadConflictError
            (if mc_status row = CMD_COMPLETED \<or> mc_status row = CMD_FAILED
             then rbind (existing_batch_result d c row) (\<lambda>r. Inr (r, d))
             else Inl (RuntimeError ''Node batch update command is already processing''))
        | None \<Rightarrow>
            (let (row, d1) = add_command (\<lambda>i. batch_inbox_row i c h CMD_PROCESSING) d in
             rbind (lock_project_graph_state (bc_project_id c) now d1) (\<lambda>((_, materialized), d2).
             decide_batch L row c materialized now d2))))"

definition process_node_content_batch_update ::
  "stdlib \<Rightarrow> node_content_batch_update_command \<Rightarrow> time \<Rightarrow> db \<Rightarrow> db \<Rightarrow> (node_content_batch_update_result \<times> db) result" where
  "process_node_content_batch_update L c now d seen =
     (case batch_attempt L c now d of
        Inl (GraphSnapshotTooLargeError m) \<Rightarrow> persist_batch_terminal_failure L c ''GRAPH_SNAPSHOT_TOO_LARGE'' m now seen
      | Inl IntegrityError \<Rightarrow>
          rbind (one_or_none (command_rows seen (bc_command_id c))) (\<lambda>concurrent.
            if concurrent \<noteq> None then batch_attempt L c now seen else Inl IntegrityError)
      | r \<Rightarrow> r)"

section \<open>Lemmas on an edit\<close>

text \<open>Entering a handler: the inbox row is written and the project is locked; no other table the
  handler reads has changed.\<close>

definition entered :: "db \<Rightarrow> meeting_analysis_command \<Rightarrow> db \<Rightarrow> bool" where
  "entered d row d2 \<longleftrightarrow> db_nodes d2 = db_nodes d \<and> db_commands d2 = db_commands d @ [row]
     \<and> db_artifacts d2 = db_artifacts d \<and> db_outbox d2 = db_outbox d \<and> db_change_events d2 = db_change_events d
     \<and> db_relations d2 = db_relations d \<and> db_revisions d2 = db_revisions d \<and> db_revision_evidence d2 = db_revision_evidence d
     \<and> db_evidence d2 = db_evidence d \<and> db_embeddings d2 = db_embeddings d \<and> db_analysis_runs d2 = db_analysis_runs d
     \<and> graph_states_unique d2 \<and> graph_version_of d2 = graph_version_of d"

lemma enter_command:
  assumes "graph_states_unique d"
  obtains d1 m d2 where "add_command f d = (f (db_next_uuid d), d1)"
    "lock_project_graph_state pid now d1 = Inr ((graph_version_of d pid, m), d2)" "entered d (f (db_next_uuid d)) d2"
proof -
  define d1 where "d1 = d\<lparr>db_next_uuid := Suc (db_next_uuid d), db_commands := db_commands d @ [f (db_next_uuid d)]\<rparr>"
  have add: "add_command f d = (f (db_next_uuid d), d1)"
    by (simp add: add_command_def uuid4_def d1_def)
  have u1: "graph_states_unique d1" and gv1: "graph_version_of d1 = graph_version_of d"
    using assms by (simp_all add: d1_def graph_version_of_def fun_eq_iff)
  obtain v m d2 where lk: "lock_project_graph_state pid now d1 = Inr ((v, m), d2)"
    using lock_project_graph_state_ok [OF u1] by blast
  note fr = lock_frame [OF u1 lk]
  have "db_revisions d2 = db_revisions d1 \<and> db_revision_evidence d2 = db_revision_evidence d1
      \<and> db_evidence d2 = db_evidence d1 \<and> db_embeddings d2 = db_embeddings d1 \<and> db_analysis_runs d2 = db_analysis_runs d1"
    using lk u1 by (auto simp: lock_project_graph_state_def locked_graph_state_find split: option.splits)
  with fr gv1 have "entered d (f (db_next_uuid d)) d2" "v = graph_version_of d pid"
    by (simp_all add: entered_def d1_def)
  with add lk show thesis by (intro that) simp_all
qed

text \<open>The row of an edited node, from the row it had.\<close>

definition edited :: "string \<Rightarrow> string \<Rightarrow> node \<Rightarrow> node \<Rightarrow> bool" where
  "edited title content n n' \<longleftrightarrow> nd_id n' = nd_id n \<and> nd_project_id n' = nd_project_id n
     \<and> nd_title n' = title \<and> nd_content n' = content
     \<and> nd_version n' = nd_version n + (if nd_current_revision_id n = None then 0 else 1)
     \<and> nd_node_type n' = nd_node_type n \<and> nd_category n' = nd_category n \<and> nd_due_date n' = nd_due_date n
     \<and> nd_parent_id n' = nd_parent_id n \<and> nd_graph_state n' = nd_graph_state n
     \<and> nd_merged_into_node_id n' = nd_merged_into_node_id n \<and> nd_deleted_at n' = nd_deleted_at n
     \<and> nd_source_meeting_id n' = nd_source_meeting_id n \<and> nd_last_actor_type n' = ''USER''"

definition edit_change :: "string \<Rightarrow> uuid \<Rightarrow> uuid \<Rightarrow> graph_change_event \<Rightarrow> bool" where
  "edit_change pid cid i g \<longleftrightarrow> gc_project_id g = pid \<and> gc_request_id g = Some (UuidTxt cid)
     \<and> gc_node_id g = Some i \<and> gc_change_type g = ''USER_EDIT_NODE''"

lemma reconcile_frame:
  "reconcile_embedding_status_after_revision L n d = Inr (x, d') \<Longrightarrow> d' = d\<lparr>db_embeddings := db_embeddings d'\<rparr>"
  by (cases "load_current_revision_embedding_input L d n")
    (auto simp: reconcile_embedding_status_after_revision_def Let_def mark_node_embedding_stale_def
      split: if_splits py_error.splits)

definition mark_stale_analysis :: "node \<Rightarrow> node" where
  "mark_stale_analysis m = m\<lparr>nd_analysis_status := AS_STALE, nd_analysis_input_hash := None\<rparr>"

lemma invalidate_analysis_frame:
  assumes "invalidate_analysis now n d = Inr d'"
  shows "d' = set_node (nd_id n) mark_stale_analysis (d\<lparr>db_analysis_runs := db_analysis_runs d'\<rparr>)"
proof -
  have f: "(\<lambda>m. m\<lparr>nd_analysis_status := AS_STALE, nd_analysis_input_hash := None\<rparr>) = mark_stale_analysis"
    by (simp add: fun_eq_iff mark_stale_analysis_def)
  define q where "q = (case nd_current_analysis_run_id n of None \<Rightarrow> Inr None
     | Some i \<Rightarrow> one_or_none (filter (\<lambda>r. ar_id r = i \<and> ar_source_node_id r = nd_id n) (db_analysis_runs d)))"
  have i: "invalidate_analysis now n d = rbind q (\<lambda>run. Inr (set_node (nd_id n) mark_stale_analysis
      (case run of None \<Rightarrow> d | Some r \<Rightarrow> supersede_run now (ar_id r) d)))"
    by (simp add: invalidate_analysis_def f q_def)
  with assms obtain run where "q = Inr run" by (cases q) auto
  with assms i have "d' = set_node (nd_id n) mark_stale_analysis
      (case run of None \<Rightarrow> d | Some r \<Rightarrow> supersede_run now (ar_id r) d)" by simp
  then show ?thesis by (cases run) (simp_all add: supersede_run_def set_node_def)
qed

text \<open>The steps of an edit that succeeds.\<close>

lemma edit_node_steps:
  assumes "edit_node L pid cid member n title content current specs old now d = Inr (n1, d')"
  obtains r d1 new res d2 d3 where
    "create_node_revision L n (edit_args n member title content current specs) now d = Inr (r, d1)"
    "node_by_id d1 (nd_id n) = Some n1" "current_embedding_hash L d1 n1 = Inr new"
    "reconcile_embedding_status_after_revision L n1 d1 = Inr (res, d2)"
    "(if old \<noteq> new then invalidate_analysis now n1 d2 else Inr d2) = Inr d3"
    "d' = d3\<lparr>db_change_events := db_change_events d3 @ [edit_event pid cid member n n1 (old \<noteq> new)]\<rparr>"
proof (cases "create_node_revision L n (edit_args n member title content current specs) now d")
  case (Inr x)
  obtain r d1 where x: "x = (r, d1)" by fastforce
  from Inr x assms obtain m where m: "node_by_id d1 (nd_id n) = Some m"
    by (cases "node_by_id d1 (nd_id n)") (auto simp: edit_node_def)
  from Inr x m assms obtain new where new: "current_embedding_hash L d1 m = Inr new"
    by (cases "current_embedding_hash L d1 m") (auto simp: edit_node_def)
  from Inr x m new assms obtain res d2 where rec: "reconcile_embedding_status_after_revision L m d1 = Inr (res, d2)"
    by (cases "reconcile_embedding_status_after_revision L m d1") (auto simp: edit_node_def)
  from Inr x m new rec assms obtain d3 where
    inv: "(if old \<noteq> new then invalidate_analysis now m d2 else Inr d2) = Inr d3"
    by (cases "if old \<noteq> new then invalidate_analysis now m d2 else Inr d2") (auto simp: edit_node_def)
  from Inr x m new rec inv assms have "m = n1
      \<and> d3\<lparr>db_change_events := db_change_events d3 @ [edit_event pid cid member n m (old \<noteq> new)]\<rparr> = d'"
    by (simp add: edit_node_def) blast
  with Inr x m new rec inv that show thesis by blast
qed (use assms in \<open>simp add: edit_node_def\<close>)

lemma edit_node_ok:
  assumes "nodes_unique d" "node_by_id d (nd_id n) = Some n"
    and "edit_node L pid cid member n title content current specs old now d = Inr (n1, d')"
  shows "\<exists>n' g. node_by_id d' (nd_id n) = Some n' \<and> edited (strip title) content n n' \<and> nd_version n' = nd_version n1
    \<and> (\<forall>j. j \<noteq> nd_id n \<longrightarrow> node_by_id d' j = node_by_id d j) \<and> nodes_unique d'
    \<and> db_change_events d' = db_change_events d @ [g] \<and> edit_change pid cid (nd_id n) g
    \<and> side_frame d (d'\<lparr>db_change_events := db_change_events d\<rparr>)"
proof -
  let ?a = "edit_args n member title content current specs"
  obtain r d1 new res d2 d3 where
    cr: "create_node_revision L n ?a now d = Inr (r, d1)" and n1: "node_by_id d1 (nd_id n) = Some n1"
    and rec: "reconcile_embedding_status_after_revision L n1 d1 = Inr (res, d2)"
    and inv: "(if old \<noteq> new then invalidate_analysis now n1 d2 else Inr d2) = Inr d3"
    and d': "d' = d3\<lparr>db_change_events := db_change_events d3 @ [edit_event pid cid member n n1 (old \<noteq> new)]\<rparr>"
    using assms(3) by (rule edit_node_steps)
  define g where "g = edit_event pid cid member n n1 (old \<noteq> new)"
  have g: "edit_change pid cid (nd_id n) g" by (simp add: g_def edit_change_def edit_event_def)
  note d' = d' [folded g_def]
  note fr = create_node_revision_frame [OF cr]
  let ?f = "\<lambda>m. m\<lparr>nd_title := strip (ra_title ?a), nd_content := ra_content ?a, nd_node_type := ra_node_type ?a,
       nd_category := ra_category ?a, nd_due_date := ra_due_date ?a, nd_version := rv_version r,
       nd_current_revision_id := Some (rv_id r), nd_last_actor_type := ra_created_by_type ?a, nd_updated_at := now\<rparr>"
  have n1': "n1 = ?f n" using fr [of "nd_id n"] n1 assms(2) by simp
  then have id1: "nd_id n1 = nd_id n" by simp
  define h where "h = (if old \<noteq> new then mark_stale_analysis else (\<lambda>m. m))"
  have h: "nd_id (h m) = nd_id m" for m by (simp add: h_def mark_stale_analysis_def)
  obtain es where d2: "d2 = d1\<lparr>db_embeddings := es\<rparr>" using reconcile_frame [OF rec] by metis
  obtain rs where d3: "d3 = set_node (nd_id n) h (d1\<lparr>db_embeddings := es, db_analysis_runs := rs\<rparr>)"
  proof (cases "old = new")
    case True
    then have "d3 = d2" "h = (\<lambda>m. m)" using inv by (simp_all add: h_def)
    then have "d3 = set_node (nd_id n) h (d1\<lparr>db_embeddings := es, db_analysis_runs := db_analysis_runs d1\<rparr>)"
      by (simp add: d2 set_node_def update_where_def)
    then show ?thesis by (rule that)
  next
    case False
    then have i: "invalidate_analysis now n1 d2 = Inr d3" and "h = mark_stale_analysis" using inv by (simp_all add: h_def)
    with invalidate_analysis_frame [OF i] have
      "d3 = set_node (nd_id n) h (d1\<lparr>db_embeddings := es, db_analysis_runs := db_analysis_runs d3\<rparr>)"
      by (simp add: d2 id1)
    then show ?thesis by (rule that)
  qed
  have look: "node_by_id d' j = (if j = nd_id n then map_option h (node_by_id d1 j) else node_by_id d1 j)" for j
  proof -
    have "node_by_id d' j = node_by_id (set_node (nd_id n) h (d1\<lparr>db_embeddings := es, db_analysis_runs := rs\<rparr>)) j"
      by (simp add: d' d3 node_by_id_def)
    also have "\<dots> = (if j = nd_id n then map_option h (node_by_id d1 j) else node_by_id d1 j)"
      by (subst node_by_id_set_node [OF h]) (auto simp: node_by_id_def)
    finally show ?thesis .
  qed
  have "node_by_id d' (nd_id n) = Some (h n1)" using look n1 by simp
  moreover have "edited (strip title) content n (h n1)" "nd_version (h n1) = nd_version n1"
    using fr [of 0] by (simp_all add: edited_def n1' edit_args_def h_def mark_stale_analysis_def)
  moreover have "\<forall>j. j \<noteq> nd_id n \<longrightarrow> node_by_id d' j = node_by_id d j" using look fr by auto
  moreover have "nodes_unique d'" using fr [of 0] assms(1) h by (simp add: d' d3)
  moreover have "side_frame d d1" using fr [of 0] by simp
  then have "db_change_events d' = db_change_events d @ [g]" "side_frame d (d'\<lparr>db_change_events := db_change_events d\<rparr>)"
    by (simp_all add: side_frame_def d' d3 set_node_def)
  ultimately show ?thesis using g by blast
qed

lemma dropWhile_hd: "xs = [] \<or> \<not> P (hd xs) \<Longrightarrow> dropWhile P xs = xs"
  by (cases xs) auto

lemma strip_strip [simp]: "strip (strip s) = strip s"
proof -
  let ?P = is_space
  define ys where "ys = dropWhile ?P s"
  define zs where "zs = dropWhile ?P (rev ys)"
  have s: "strip s = rev zs" by (simp add: strip_def ys_def zs_def)
  have z: "zs = [] \<or> \<not> ?P (hd zs)" using hd_dropWhile [of ?P "rev ys"] by (auto simp: zs_def)
  have y: "ys = [] \<or> \<not> ?P (hd ys)" using hd_dropWhile [of ?P s] by (auto simp: ys_def)
  have "rev zs = [] \<or> \<not> ?P (hd (rev zs))"
  proof (cases "zs = []")
    case False
    obtain pre where "rev ys = pre @ zs" by (metis takeWhile_dropWhile_id zs_def)
    then have "ys = rev zs @ rev pre" by (metis rev_append rev_rev_ident)
    with False have "hd ys = hd (rev zs)" "ys \<noteq> []" by simp_all
    with y show ?thesis by simp
  qed simp
  then have "dropWhile ?P (rev zs) = rev zs" by (rule dropWhile_hd)
  moreover have "dropWhile ?P zs = zs" using z by (rule dropWhile_hd)
  ultimately have "strip (rev zs) = rev zs" by (simp add: strip_def)
  then show ?thesis by (simp only: s)
qed

section \<open>Lemmas on a batch\<close>

lemma apply_batch_ok:
  "apply_batch L c ps now d = Inr d' \<Longrightarrow> nodes_unique d \<Longrightarrow> distinct (map (\<lambda>p. nd_id (bp_node p)) ps) \<Longrightarrow>
   (\<forall>p \<in> set ps. \<exists>n n'. node_by_id d (nd_id (bp_node p)) = Some n \<and> node_by_id d' (nd_id (bp_node p)) = Some n'
      \<and> edited (strip (bp_next_title p)) (nd_content n) n n')
   \<and> (\<forall>j. j \<notin> (\<lambda>p. nd_id (bp_node p)) ` set ps \<longrightarrow> node_by_id d' j = node_by_id d j) \<and> nodes_unique d'
   \<and> (\<exists>gs. db_change_events d' = db_change_events d @ gs
        \<and> list_all2 (\<lambda>p. edit_change (bc_project_id c) (bc_command_id c) (nd_id (bp_node p))) ps gs)
   \<and> side_frame d (d'\<lparr>db_change_events := db_change_events d\<rparr>)"
proof (induction ps arbitrary: d)
  case Nil
  then show ?case by (auto simp: side_frame_def)
next
  case (Cons p ps)
  let ?id = "\<lambda>p. nd_id (bp_node p)"
  from Cons.prems(1) obtain m d1 where d1: "apply_batch_node_mutation L c p now d = Inr (m, d1)" "apply_batch L c ps now d1 = Inr d'"
    by (auto simp: rbind_Inr_iff)
  from d1(1) obtain n where n: "node_by_id d (?id p) = Some n" and
    ed: "edit_node L (bc_project_id c) (bc_command_id c) (bc_requested_by_member_id c) n (bp_next_title p)
          (nd_content n) (bp_current_revision p) (bp_evidence_specs p) (bp_old_embedding_hash p) now d = Inr (m, d1)"
    by (auto simp: apply_batch_node_mutation_def split: option.splits)
  have nid: "nd_id n = ?id p" using n by (auto dest: node_by_idD)
  then have "node_by_id d (nd_id n) = Some n" using n by simp
  from edit_node_ok [OF Cons.prems(2) this ed, unfolded nid] obtain n' g where
    e: "node_by_id d1 (?id p) = Some n'" "edited (strip (bp_next_title p)) (nd_content n) n n'" "nodes_unique d1"
      "\<And>j. j \<noteq> ?id p \<Longrightarrow> node_by_id d1 j = node_by_id d j"
      "db_change_events d1 = db_change_events d @ [g]" "edit_change (bc_project_id c) (bc_command_id c) (?id p) g"
      "side_frame d (d1\<lparr>db_change_events := db_change_events d\<rparr>)" by blast
  have "distinct (map ?id ps)" and new: "?id p \<notin> ?id ` set ps" using Cons.prems(3) by auto
  note IH = Cons.IH [OF d1(2) e(3) this(1)]
  from IH obtain gs where gs: "db_change_events d' = db_change_events d1 @ gs"
    "list_all2 (\<lambda>p. edit_change (bc_project_id c) (bc_command_id c) (?id p)) ps gs" by blast
  have "node_by_id d' (?id p) = Some n'" using IH e(1) new by auto
  moreover have "\<exists>n n'. node_by_id d (?id q) = Some n \<and> node_by_id d' (?id q) = Some n'
      \<and> edited (strip (bp_next_title q)) (nd_content n) n n'" if "q \<in> set ps" for q
  proof -
    have "?id q \<noteq> ?id p" using that new by (metis imageI)
    then have "node_by_id d1 (?id q) = node_by_id d (?id q)" by (rule e(4))
    with IH that show ?thesis by metis
  qed
  moreover have "side_frame d (d'\<lparr>db_change_events := db_change_events d\<rparr>)"
    using IH e(7) by (simp add: side_frame_def)
  moreover have "\<exists>gs. db_change_events d' = db_change_events d @ gs
        \<and> list_all2 (\<lambda>p. edit_change (bc_project_id c) (bc_command_id c) (?id p)) (p # ps) gs"
    using gs e(5,6) by (intro exI [of _ "g # gs"]) simp
  ultimately show ?case using IH n e(2,4) by auto
qed

text \<open>Why an item of a batch is refused: the first check that fails.\<close>

definition item_problem :: "db \<Rightarrow> string \<Rightarrow> batch_update_item \<Rightarrow> string option" where
  "item_problem d pid item =
     (case node_by_id d (bi_node_id item) of
        None \<Rightarrow> Some ''NODE_NOT_FOUND''
      | Some n \<Rightarrow>
          if nd_project_id n \<noteq> pid then Some ''NODE_NOT_FOUND''
          else (case edit_rejection n (bi_expected_node_version item) of
             Some (code, _) \<Rightarrow> Some code
           | None \<Rightarrow>
               (case current_revision_row d n of
                  None \<Rightarrow> Some ''INVALID_CURRENT_REVISION''
                | Some r \<Rightarrow> if rv_requires_evidence r \<and> current_revision_evidence_specs d n = []
                    then Some ''INVALID_CURRENT_REVISION'' else None)))"

definition planned :: "db \<Rightarrow> string \<Rightarrow> batch_node_plan \<Rightarrow> bool" where
  "planned d pid p \<longleftrightarrow> node_by_id d (bi_node_id (bp_item p)) = Some (bp_node p)
     \<and> item_problem d pid (bp_item p) = None \<and> bp_next_title p = strip (bi_title (bp_item p))"

lemma locked_lookup:
  assumes "nodes_unique d" "i \<in> set (map bi_node_id (bc_nodes c))"
  shows "find (\<lambda>n. nd_id n = i) (locked_batch_nodes d c) =
    (case node_by_id d i of None \<Rightarrow> None | Some n \<Rightarrow> if nd_project_id n = bc_project_id c then Some n else None)"
proof -
  have u: "distinct (map nd_id (locked_batch_nodes d c))"
    using assms(1) by (auto simp: locked_batch_nodes_def distinct_map inj_on_def)
  have iff: "find (\<lambda>n. nd_id n = i) (locked_batch_nodes d c) = Some n \<longleftrightarrow>
      node_by_id d i = Some n \<and> nd_project_id n = bc_project_id c" for n
    using assms(2) unfolding find_key_Some_iff [OF u] node_by_id_Some [OF assms(1)] by (auto simp: locked_batch_nodes_def)
  show ?thesis
  proof (cases "find (\<lambda>n. nd_id n = i) (locked_batch_nodes d c)")
    case None
    then have "\<not> (node_by_id d i = Some n \<and> nd_project_id n = bc_project_id c)" for n using iff [of n] by simp
    with None show ?thesis by (cases "node_by_id d i") auto
  next
    case (Some n)
    with iff [of n] show ?thesis by simp
  qed
qed

lemma batch_preflight_ok:
  assumes "nodes_unique d"
  shows "batch_preflight L d (locked_batch_nodes d c) items plans = Inr (plans', rej) \<Longrightarrow> set items \<subseteq> set (bc_nodes c) \<Longrightarrow>
   \<exists>new. plans' = plans @ new \<and> (\<forall>p \<in> set new. planned d (bc_project_id c) p)
     \<and> (case rej of None \<Rightarrow> map bp_item new = items
        | Some (code, _, i) \<Rightarrow> \<exists>item post. items = map bp_item new @ item # post \<and> i = bi_node_id item
            \<and> item_problem d (bc_project_id c) item = Some code)"
proof (induction items arbitrary: plans)
  case Nil
  then show ?case by auto
next
  case (Cons item items)
  have mem: "bi_node_id item \<in> set (map bi_node_id (bc_nodes c))" using Cons.prems(2) by auto
  note look = locked_lookup [OF assms mem]
  show ?case
  proof (cases "item_problem d (bc_project_id c) item")
    case (Some code)
    then have "plans' = plans \<and> (\<exists>msg. rej = Some (code, msg, bi_node_id item))"
      using Cons.prems(1) by (auto simp: look item_problem_def Let_def split: option.splits if_splits)
    with Some show ?thesis by (intro exI [of _ "[]"]) auto
  next
    case None
    then obtain n r where n: "node_by_id d (bi_node_id item) = Some n" "nd_project_id n = bc_project_id c"
        "edit_rejection n (bi_expected_node_version item) = None" "current_revision_row d n = Some r"
        "\<not> (rv_requires_evidence r \<and> current_revision_evidence_specs d n = [])"
      by (auto simp: item_problem_def split: option.splits if_splits)
    from Cons.prems(1) n obtain h p where
      p: "p = \<lparr>bp_item = item, bp_node = n, bp_next_title = strip (bi_title item), bp_current_revision = r,
           bp_evidence_specs = current_revision_evidence_specs d n, bp_old_embedding_hash = h\<rparr>"
      and rest: "batch_preflight L d (locked_batch_nodes d c) items (plans @ [p]) = Inr (plans', rej)"
      by (auto simp: look Let_def rbind_Inr_iff)
    have "planned d (bc_project_id c) p" using n None by (simp add: planned_def p)
    moreover from Cons.IH [OF rest] Cons.prems(2) obtain new where "plans' = (plans @ [p]) @ new"
        "\<forall>p \<in> set new. planned d (bc_project_id c) p"
        "case rej of None \<Rightarrow> map bp_item new = items
        | Some (code, _, i) \<Rightarrow> \<exists>item post. items = map bp_item new @ item # post \<and> i = bi_node_id item
            \<and> item_problem d (bc_project_id c) item = Some code" by auto
    ultimately show ?thesis
      by (intro exI [of _ "p # new"]) (auto simp: p split: option.splits)
  qed
qed


lemma release_if_frame:
  assumes "graph_states_unique d" "release_if m pid d = Inr d'"
  shows "db_nodes d' = db_nodes d \<and> db_relations d' = db_relations d \<and> db_revisions d' = db_revisions d
    \<and> db_artifacts d' = db_artifacts d \<and> db_change_events d' = db_change_events d \<and> db_outbox d' = db_outbox d
    \<and> db_commands d' = db_commands d \<and> graph_version_of d' = graph_version_of d \<and> graph_states_unique d'"
proof (cases m)
  case True
  with assms(2) have r: "release_unmutated_graph_state pid d = Inr d'" by (simp add: release_if_def)
  then have "db_revisions d' = db_revisions d"
    by (cases "locked_graph_state d pid") (auto simp: release_unmutated_graph_state_def split: option.splits if_splits)
  with release_frame [OF r] release_unmutated_graph_state_ok [OF assms(1), of pid] r show ?thesis by auto
qed (use assms in \<open>simp add: release_if_def\<close>)

lemma fail_command_id [simp]: "mc_command_id (fail_command code msg r) = mc_command_id r"
  "mc_project_id (fail_command code msg r) = mc_project_id r" "mc_status (fail_command code msg r) = CMD_FAILED"
  "mc_command_type (fail_command code msg r) = mc_command_type r" "mc_payload_hash (fail_command code msg r) = mc_payload_hash r"
  "mc_failure_code (fail_command code msg r) = Some code"
  by (simp_all add: fail_command_def)

lemma complete_command_id [simp]: "mc_command_id (complete_command r) = mc_command_id r"
  "mc_project_id (complete_command r) = mc_project_id r" "mc_status (complete_command r) = CMD_COMPLETED"
  "mc_command_type (complete_command r) = mc_command_type r" "mc_payload_hash (complete_command r) = mc_payload_hash r"
  "mc_failure_code (complete_command r) = None"
  by (simp_all add: complete_command_def)

text \<open>The event of a refused batch.\<close>

definition rejection_event :: "uuid \<Rightarrow> string \<Rightarrow> string \<Rightarrow> uuid option \<Rightarrow> outbox_event \<Rightarrow> bool" where
  "rejection_event cid pid code failed e \<longleftrightarrow> ob_event_type e = ''NODE_CONTENT_UPDATE_REJECTED'' \<and> ob_project_id e = pid
     \<and> ob_schema_version e = ''3'' \<and> jget (ob_payload e) ''commandId'' = JStr (UuidTxt cid)
     \<and> jget (jget (ob_payload e) ''payload'') ''reasonCode'' = jstr code
     \<and> as_uuid (jget (jget (ob_payload e) ''payload'') ''failedNodeId'') = failed"

lemma stage_rejected_ok:
  assumes "stage_node_content_update_rejected_v3 row code (map_option UuidTxt failed) now d = Inr (e, d')"
  shows "rejection_event (mc_command_id row) (mc_project_id row) code failed e \<and> db_outbox d' = db_outbox d @ [e]
    \<and> db_nodes d' = db_nodes d \<and> db_relations d' = db_relations d \<and> db_revisions d' = db_revisions d
    \<and> db_artifacts d' = db_artifacts d \<and> db_change_events d' = db_change_events d
    \<and> db_commands d' = db_commands d \<and> db_graph_states d' = db_graph_states d"
proof -
  define ev where "ev = stage_v3 ''NODE_CONTENT_UPDATE_REJECTED'' row
        (JObj [(''sourceType'', jstr ''NODE_CONTENT_UPDATE''), (''reasonCode'', jstr code),
               (''failedNodeId'', jopt JStr (map_option UuidTxt failed))])
        ''project_graph'' (Txt (mc_project_id row)) now d"
  have "(e, d') = ev"
    using assms unfolding stage_node_content_update_rejected_v3_def ev_def [symmetric] by (simp add: rguard_Inr_iff)
  then have e: "e = fst ev" "d' = snd ev" by (metis fst_conv, metis snd_conv)
  have "as_uuid (jopt JStr (map_option UuidTxt failed)) = failed"
    by (cases failed) (simp_all add: jopt_def)
  then show ?thesis by (simp add: e ev_def stage_v3_def rejection_event_def)
qed

lemma reject_batch_ok:
  assumes "graph_states_unique d" "reject_batch row c code msg failed m now d = Inr (r, d')"
    and "mc_project_id row = bc_project_id c" "mc_command_id row = bc_command_id c"
  shows "db_nodes d' = db_nodes d \<and> db_relations d' = db_relations d \<and> db_revisions d' = db_revisions d
    \<and> db_artifacts d' = db_artifacts d \<and> db_change_events d' = db_change_events d
    \<and> graph_version_of d' = graph_version_of d
    \<and> (\<exists>e. db_outbox d' = db_outbox d @ [e] \<and> rejection_event (bc_command_id c) (bc_project_id c) code failed e
         \<and> r = failed_batch c code failed (ob_id e))
    \<and> db_commands d' = update_where (\<lambda>r. mc_command_id r = bc_command_id c) (fail_command code msg) (db_commands d)"
proof -
  let ?d1 = "set_command (bc_command_id c) (fail_command code msg) d"
  from assms(2) obtain e d2 where
    st: "stage_node_content_update_rejected_v3 (fail_command code msg row) code (map_option UuidTxt failed) now ?d1 = Inr (e, d2)"
    and rl: "release_if m (bc_project_id c) d2 = Inr d'" and r: "r = failed_batch c code failed (ob_id e)"
    by (auto simp: reject_batch_def rbind_Inr_iff)
  note so = stage_rejected_ok [OF st]
  have u: "graph_states_unique d2" "graph_version_of d2 = graph_version_of d"
    using so assms(1) by (simp_all add: graph_version_of_def fun_eq_iff)
  show ?thesis
    using release_if_frame [OF u(1) rl] so u(2) r assms(3,4) by (simp add: set_command_def)
qed

section \<open>What a replay reads from a snapshot\<close>

lemma snapshot_rows_build:
  "snapshot_rows (build_full_graph_snapshot d pid mid cid v t) = map snapshot_node_row (snapshot_nodes d pid)"
  by (simp add: snapshot_rows_def build_full_graph_snapshot_def Let_def)

lemma snapshot_row_keys:
  "jget (snapshot_node_row n) ''nodeId'' = JStr (UuidTxt (nd_id n))" "jget (snapshot_node_row n) ''nodeVersion'' = JInt (nd_version n)"
  by (simp_all add: snapshot_node_row_def)

lemma snapshot_nodes_unique: "nodes_unique d \<Longrightarrow> distinct (map nd_id (snapshot_nodes d pid))"
  by (auto simp: snapshot_nodes_def distinct_map inj_on_def)

text \<open>A live node of the project is read back from the snapshot with its version.\<close>

definition snapshot_live :: "string \<Rightarrow> node \<Rightarrow> bool" where
  "snapshot_live pid n \<longleftrightarrow> nd_project_id n = pid \<and> snapshot_state (nd_graph_state n) \<and> nd_deleted_at n = None"

lemma snapshot_versions_build:
  assumes "nodes_unique d" "node_by_id d i = Some n" "snapshot_live pid n"
  shows "snapshot_versions (build_full_graph_snapshot d pid mid cid v t) (JStr (UuidTxt i)) = Some (JInt (nd_version n))"
proof -
  let ?kv = "\<lambda>n. (JStr (UuidTxt (nd_id n)), JInt (nd_version n))"
  have sv: "snapshot_versions (build_full_graph_snapshot d pid mid cid v t) = map_of (rev (map ?kv (snapshot_nodes d pid)))"
    by (simp add: snapshot_versions_def snapshot_rows_build snapshot_row_keys comp_def rev_map)
  have "map fst (map ?kv (snapshot_nodes d pid)) = map (\<lambda>i. JStr (UuidTxt i)) (map nd_id (snapshot_nodes d pid))" by simp
  then have "distinct (map fst (rev (map ?kv (snapshot_nodes d pid))))"
    using snapshot_nodes_unique [OF assms(1)] by (simp add: rev_map [symmetric] distinct_map inj_on_def)
  moreover have "n \<in> set (snapshot_nodes d pid)" "nd_id n = i"
    using assms(2,3) by (auto simp: snapshot_nodes_def snapshot_live_def dest: node_by_idD)
  then have "?kv n \<in> set (rev (map ?kv (snapshot_nodes d pid)))" by force
  ultimately show ?thesis using \<open>nd_id n = i\<close> unfolding sv by (metis map_of_is_SomeI)
qed

lemma collect_versions_ok:
  "(\<And>i. i \<in> set items \<Longrightarrow> vs (JStr (UuidTxt (bi_node_id i))) = Some (JInt (f (bi_node_id i)))) \<Longrightarrow>
   collect_versions vs items = Inr (map (\<lambda>i. (bi_node_id i, f (bi_node_id i))) items)"
  by (induction items) auto

section \<open>An accepted batch\<close>

lemma accept_batch_ok:
  assumes "nodes_unique d" "graph_states_unique d" "accept_batch L row c plans now d = Inr (r, d')"
    and "distinct (map (\<lambda>p. nd_id (bp_node p)) plans)" "mc_project_id row = bc_project_id c" "mc_command_id row = bc_command_id c"
  shows "(\<forall>p \<in> set plans. \<exists>n n'. node_by_id d (nd_id (bp_node p)) = Some n \<and> node_by_id d' (nd_id (bp_node p)) = Some n'
        \<and> edited (strip (bp_next_title p)) (nd_content n) n n')
    \<and> (\<forall>j. j \<notin> (\<lambda>p. nd_id (bp_node p)) ` set plans \<longrightarrow> node_by_id d' j = node_by_id d j) \<and> nodes_unique d'
    \<and> graph_version_of d' = (graph_version_of d)(bc_project_id c := graph_version_of d (bc_project_id c) + 1)
    \<and> br_status r = CMD_COMPLETED \<and> br_graph_version r = Some (graph_version_of d (bc_project_id c) + 1)
    \<and> br_node_versions r = map (\<lambda>p. (nd_id (bp_node p), nd_version (the (node_by_id d' (nd_id (bp_node p)))))) plans
    \<and> (\<exists>a e. db_artifacts d' = db_artifacts d @ [a] \<and> db_outbox d' = db_outbox d @ [e]
        \<and> br_artifact_id r = Some (sa_id a) \<and> br_event_id r = Some (ob_id e) \<and> br_graph_version r = Some (sa_graph_version a)
        \<and> sa_command_id a = bc_command_id c \<and> sa_project_id a = bc_project_id c
        \<and> ob_event_type e = ''PROJECT_GRAPH_CHANGED'' \<and> ob_project_id e = bc_project_id c \<and> ob_schema_version e = ''3''
        \<and> jget (ob_payload e) ''commandId'' = JStr (UuidTxt (bc_command_id c))
        \<and> (\<exists>d1 mid v. db_nodes d1 = db_nodes d' \<and> sa_payload_json a =
              build_full_graph_snapshot d1 (bc_project_id c) mid (bc_command_id c) v now))
    \<and> db_commands d' = update_where (\<lambda>r. mc_command_id r = bc_command_id c) complete_command (db_commands d)"
proof -
  let ?pid = "bc_project_id c" and ?id = "\<lambda>p. nd_id (bp_node p)"
  from assms(3) obtain d1 e a v d2 where ap: "apply_batch L c plans now d = Inr d1"
    and st: "stage_project_graph_changed_v3 L row None ''NODE_CONTENT_UPDATE'' now d1 = Inr ((e, a, v), d2)"
    and d': "d' = set_command (bc_command_id c) complete_command d2"
    and r: "br_status r = CMD_COMPLETED" "br_graph_version r = Some v" "br_artifact_id r = Some (sa_id a)"
      "br_event_id r = Some (ob_id e)"
      "br_node_versions r = List.map_filter (\<lambda>p. map_option (\<lambda>n. (nd_id n, nd_version n)) (node_by_id d' (?id p))) plans"
    by (auto simp: accept_batch_def rbind_Inr_iff Let_def)
  note ab = apply_batch_ok [OF ap assms(1,4)]
  have side: "db_graph_states d1 = db_graph_states d" "db_artifacts d1 = db_artifacts d" "db_outbox d1 = db_outbox d"
      "db_commands d1 = db_commands d"
    using ab by (simp_all add: side_frame_def)
  note sg = stage_project_graph_changed_v3_ok [OF st]
  have nodes: "db_nodes d' = db_nodes d1" using sg by (simp add: d')
  then have look: "node_by_id d' j = node_by_id d1 j" for j by (simp add: node_by_id_def)
  obtain d3 where b: "bump_graph_version ?pid now d1 = (v, d3)" "db_graph_states d' = db_graph_states d3"
    and snap: "sa_payload_json a = build_full_graph_snapshot d3 ?pid (mc_meeting_id row) (bc_command_id c) v now"
    using sg assms(5,6) by (auto simp: d')
  have n3: "db_nodes d3 = db_nodes d'" using bump_graph_version_db [of ?pid now d1] b(1) nodes by simp
  have "graph_states_unique d1" "graph_version_of d1 = graph_version_of d"
    using assms(2) side(1) by (simp_all add: graph_version_of_def fun_eq_iff)
  from bump_graph_version_ok [OF this(1) b(1)] this(2)
  have gv: "v = graph_version_of d ?pid + 1" "graph_version_of d' = (graph_version_of d)(?pid := v)"
    using b(2) by (simp_all add: graph_version_of_def fun_eq_iff)
  have vs: "br_node_versions r = map (\<lambda>p. (?id p, nd_version (the (node_by_id d' (?id p))))) plans"
  proof -
    have "\<exists>n'. node_by_id d' (?id p) = Some n' \<and> nd_id n' = ?id p" if "p \<in> set plans" for p
      using ab that look by (metis node_by_idD)
    then show ?thesis unfolding r(5)
      by (induction plans) (force simp: map_filter_simps)+
  qed
  have ev: "\<exists>a e. db_artifacts d' = db_artifacts d @ [a] \<and> db_outbox d' = db_outbox d @ [e]
        \<and> br_artifact_id r = Some (sa_id a) \<and> br_event_id r = Some (ob_id e) \<and> br_graph_version r = Some (sa_graph_version a)
        \<and> sa_command_id a = bc_command_id c \<and> sa_project_id a = bc_project_id c
        \<and> ob_event_type e = ''PROJECT_GRAPH_CHANGED'' \<and> ob_project_id e = bc_project_id c \<and> ob_schema_version e = ''3''
        \<and> jget (ob_payload e) ''commandId'' = JStr (UuidTxt (bc_command_id c))
        \<and> (\<exists>d1 mid v. db_nodes d1 = db_nodes d' \<and> sa_payload_json a =
              build_full_graph_snapshot d1 (bc_project_id c) mid (bc_command_id c) v now)"
    using sg r side assms(5,6) n3 snap by (intro exI [of _ a] exI [of _ e]) (auto simp: d')
  have "db_commands d' = update_where (\<lambda>r. mc_command_id r = bc_command_id c) complete_command (db_commands d)"
    using sg side(4) by (simp add: d' set_command_def)
  moreover have "nodes_unique d'" using ab nodes by simp
  ultimately show ?thesis using ab look gv vs ev r by simp
qed

section \<open>The batch handler on a command it has not seen\<close>

definition fresh_batch :: "node_content_batch_update_command \<Rightarrow> db \<Rightarrow> bool" where
  "fresh_batch c d \<longleftrightarrow> nodes_unique d \<and> graph_states_unique d \<and> command_rows d (bc_command_id c) = []
     \<and> command_artifacts d (bc_project_id c) (bc_command_id c) = [] \<and> distinct (map bi_node_id (bc_nodes c))"

definition batch_row :: "stdlib \<Rightarrow> node_content_batch_update_command \<Rightarrow> db \<Rightarrow> meeting_analysis_command" where
  "batch_row L c d = batch_inbox_row (db_next_uuid d) c (batch_payload_hash L c) CMD_PROCESSING"

lemma batch_row_fields [simp]:
  "mc_project_id (batch_row L c d) = bc_project_id c" "mc_command_id (batch_row L c d) = bc_command_id c"
  "mc_command_type (batch_row L c d) = NODE_CONTENT_UPDATE_REQUESTED"
  "mc_payload_hash (batch_row L c d) = batch_payload_hash L c"
  by (simp_all add: batch_row_def batch_inbox_row_def)

lemma batch_attempt_fresh:
  assumes "graph_states_unique d" "command_rows d (bc_command_id c) = []"
  obtains m d2 where "entered d (batch_row L c d) d2"
    "batch_attempt L c now d = decide_batch L (batch_row L c d) c m now d2"
proof -
  let ?f = "\<lambda>i. batch_inbox_row i c (batch_payload_hash L c) CMD_PROCESSING"
  obtain d1 m d2 where "add_command ?f d = (?f (db_next_uuid d), d1)"
    "lock_project_graph_state (bc_project_id c) now d1 = Inr ((graph_version_of d (bc_project_id c), m), d2)"
    "entered d (?f (db_next_uuid d)) d2" by (rule enter_command [OF assms(1)])
  with assms(2) show thesis by (intro that [of d2 m]) (simp_all add: batch_attempt_def batch_row_def)
qed

lemma item_problem_cong:
  assumes "entered d row d2"
  shows "item_problem d2 = item_problem d"
proof -
  have e: "db_nodes d2 = db_nodes d" "db_revisions d2 = db_revisions d" "db_revision_evidence d2 = db_revision_evidence d"
    "db_evidence d2 = db_evidence d" using assms by (simp_all add: entered_def)
  have r: "revision_by_id d2 = revision_by_id d" by (intro ext) (simp add: revision_by_id_def e)
  have "node_by_id d2 = node_by_id d" using e(1) by (rule node_by_id_cong)
  moreover have "current_revision_row d2 = current_revision_row d" by (intro ext) (simp add: current_revision_row_def r)
  moreover have "current_revision_evidence_specs d2 = current_revision_evidence_specs d"
    by (intro ext, unfold current_revision_evidence_specs_def e, rule refl)
  ultimately show ?thesis by (intro ext) (simp only: item_problem_def)
qed

text \<open>The two ways a fresh batch can end.\<close>

lemma batch_outcome:
  assumes "fresh_batch c d" "batch_attempt L c now d = Inr (r, d')"
  obtains
    d2 plans where "entered d (batch_row L c d) d2" "accept_batch L (batch_row L c d) c plans now d2 = Inr (r, d')"
      "map bp_item plans = bc_nodes c" "\<forall>p \<in> set plans. planned d (bc_project_id c) p \<and> plan_changed p"
  | m d2 code msg item where "entered d (batch_row L c d) d2" "item \<in> set (bc_nodes c)"
      "reject_batch (batch_row L c d) c code msg (Some (bi_node_id item)) m now d2 = Inr (r, d')"
      "item_problem d (bc_project_id c) item = Some code \<or> code = ''NO_CHANGE'' \<and> item_problem d (bc_project_id c) item = None
         \<and> (\<exists>n. node_by_id d (bi_node_id item) = Some n \<and> nd_title n = strip (bi_title item))"
proof -
  have fr: "nodes_unique d" "graph_states_unique d" "command_rows d (bc_command_id c) = []"
    using assms(1) by (simp_all add: fresh_batch_def)
  obtain m d2 where en: "entered d (batch_row L c d) d2"
    and run: "batch_attempt L c now d = decide_batch L (batch_row L c d) c m now d2"
    by (rule batch_attempt_fresh [OF fr(2,3)])
  have nodes: "node_by_id d2 = node_by_id d" "nodes_unique d2"
    using en fr(1) by (auto simp: entered_def intro: node_by_id_cong)
  have pl: "planned d2 = planned d" by (intro ext) (simp add: planned_def nodes item_problem_cong [OF en])
  from run assms(2) obtain plans rej where
    pf: "batch_preflight L d2 (locked_batch_nodes d2 c) (bc_nodes c) [] = Inr (plans, rej)"
    by (cases "batch_preflight L d2 (locked_batch_nodes d2 c) (bc_nodes c) []") (auto simp: decide_batch_def)
  from batch_preflight_ok [OF nodes(2) pf, unfolded pl item_problem_cong [OF en]] have ok: "\<forall>p \<in> set plans. planned d (bc_project_id c) p"
    "case rej of None \<Rightarrow> map bp_item plans = bc_nodes c
        | Some (code, _, i) \<Rightarrow> \<exists>item post. bc_nodes c = map bp_item plans @ item # post \<and> i = bi_node_id item
            \<and> item_problem d (bc_project_id c) item = Some code"
    by auto
  show thesis
  proof (cases rej)
    case (Some x)
    then obtain code msg i where x: "rej = Some (code, msg, i)" by (cases x) auto
    with ok(2) obtain item post where "bc_nodes c = map bp_item plans @ item # post" "i = bi_node_id item"
        "item_problem d (bc_project_id c) item = Some code" by auto
    moreover from this(1) have "item \<in> set (bc_nodes c)" by simp
    moreover have "reject_batch (batch_row L c d) c code msg (Some i) m now d2 = Inr (r, d')"
      using run assms(2) pf x by (simp add: decide_batch_def)
    ultimately show thesis using en that(2) by blast
  next
    case None
    then have items: "map bp_item plans = bc_nodes c" using ok(2) by simp
    show thesis
    proof (cases "find (\<lambda>p. \<not> plan_changed p) plans")
      case none: None
      then have "\<forall>p \<in> set plans. planned d (bc_project_id c) p \<and> plan_changed p" using ok(1) by (auto simp: find_None_iff)
      moreover have "accept_batch L (batch_row L c d) c plans now d2 = Inr (r, d')"
        using run assms(2) pf None none by (simp add: decide_batch_def)
      ultimately show thesis using en items that(1) by blast
    next
      case (Some p)
      then have p: "p \<in> set plans" "\<not> plan_changed p" by (auto dest: find_SomeD)
      then have "bp_item p \<in> set (bc_nodes c)" "planned d (bc_project_id c) p" using items ok(1) by (metis imageI set_map, simp)
      moreover have "reject_batch (batch_row L c d) c ''NO_CHANGE'' ''requested Node title is already current''
          (Some (bi_node_id (bp_item p))) m now d2 = Inr (r, d')"
        using run assms(2) pf None Some by (simp add: decide_batch_def)
      ultimately show thesis using en p(2) that(2) [of d2 "bp_item p"] by (auto simp: planned_def plan_changed_def)
    qed
  qed
qed

lemma planned_ids:
  assumes "\<forall>p \<in> set plans. planned d pid p"
  shows "map (\<lambda>p. nd_id (bp_node p)) plans = map bi_node_id (map bp_item plans)"
  using assms by (auto simp: planned_def dest: node_by_idD)

lemma item_problem_None:
  assumes "item_problem d pid item = None" "node_by_id d (bi_node_id item) = Some n"
  shows "nd_project_id n = pid \<and> nd_version n = bi_expected_node_version item \<and> nd_deleted_at n = None
    \<and> (nd_graph_state n = ACTIVE \<or> nd_graph_state n = UNATTACHED) \<and> nd_merged_into_node_id n = None
    \<and> nd_current_revision_id n \<noteq> None"
  using assms by (auto simp: item_problem_def edit_rejection_def current_revision_row_def bind_eq_Some_conv split: option.splits if_splits)

text \<open>The two ways a batch can end. Applied: every item named a live canonical node of the project at the expected version and got its
  title and one more version, and no other node changed. Refused: nothing of the graph changed, and one event names the reason.\<close>

definition batch_applied :: "node_content_batch_update_command \<Rightarrow> db \<Rightarrow> node_content_batch_update_result \<Rightarrow> db \<Rightarrow> bool" where
  "batch_applied c d r d' \<longleftrightarrow> br_status r = CMD_COMPLETED
      \<and> (\<forall>item \<in> set (bc_nodes c). item_problem d (bc_project_id c) item = None
         \<and> (\<exists>n n'. node_by_id d (bi_node_id item) = Some n \<and> node_by_id d' (bi_node_id item) = Some n'
             \<and> edited (strip (bi_title item)) (nd_content n) n n' \<and> nd_version n' = bi_expected_node_version item + 1))
      \<and> (\<forall>j. j \<notin> bi_node_id ` set (bc_nodes c) \<longrightarrow> node_by_id d' j = node_by_id d j)
      \<and> graph_version_of d' = (graph_version_of d)(bc_project_id c := graph_version_of d (bc_project_id c) + 1)"

definition batch_refused ::
  "node_content_batch_update_command \<Rightarrow> string \<Rightarrow> uuid option \<Rightarrow> db \<Rightarrow> node_content_batch_update_result \<Rightarrow> db \<Rightarrow> bool" where
  "batch_refused c code failed d r d' \<longleftrightarrow> br_status r = CMD_FAILED \<and> db_nodes d' = db_nodes d \<and> db_revisions d' = db_revisions d
      \<and> db_artifacts d' = db_artifacts d \<and> graph_version_of d' = graph_version_of d
      \<and> br_failure_code r = Some code \<and> br_failed_node_id r = failed
      \<and> (\<exists>e. db_outbox d' = db_outbox d @ [e] \<and> rejection_event (bc_command_id c) (bc_project_id c) code failed e)"

lemma batch_attempt_atomic:
  assumes "fresh_batch c d" "batch_attempt L c now d = Inr (r, d')"
  shows "batch_applied c d r d' \<or> (\<exists>code. \<exists>item \<in> set (bc_nodes c). batch_refused c code (Some (bi_node_id item)) d r d'
      \<and> (item_problem d (bc_project_id c) item = Some code
         \<or> code = ''NO_CHANGE'' \<and> (\<exists>n. node_by_id d (bi_node_id item) = Some n \<and> nd_title n = strip (bi_title item))))"
  using assms
proof (cases rule: batch_outcome)
  case (1 d2 plans)
  have fr: "nodes_unique d" "distinct (map bi_node_id (bc_nodes c))" using assms(1) by (simp_all add: fresh_batch_def)
  have nodes: "node_by_id d2 = node_by_id d" "nodes_unique d2" "graph_states_unique d2" "graph_version_of d2 = graph_version_of d"
    using 1(1) fr(1) by (auto simp: entered_def intro: node_by_id_cong)
  have pl: "\<forall>p \<in> set plans. planned d (bc_project_id c) p" using 1(4) by simp
  note ids = planned_ids [OF pl, unfolded 1(3)]
  note ab = accept_batch_ok [OF nodes(2,3) 1(2) _ batch_row_fields(1,2), unfolded ids, OF fr(2), unfolded nodes(1,4)]
  have idset: "(\<lambda>p. nd_id (bp_node p)) ` set plans = bi_node_id ` set (bc_nodes c)" using ids by (metis set_map)
  have "item_problem d (bc_project_id c) item = None
       \<and> (\<exists>n n'. node_by_id d (bi_node_id item) = Some n \<and> node_by_id d' (bi_node_id item) = Some n'
             \<and> edited (strip (bi_title item)) (nd_content n) n n' \<and> nd_version n' = bi_expected_node_version item + 1)"
    if "item \<in> set (bc_nodes c)" for item
  proof -
    from that 1(3) obtain p where p: "p \<in> set plans" "item = bp_item p" by (metis imageE set_map)
    then have pp: "node_by_id d (bi_node_id item) = Some (bp_node p)" "item_problem d (bc_project_id c) item = None"
        "bp_next_title p = strip (bi_title item)" "nd_id (bp_node p) = bi_node_id item"
      using pl by (auto simp: planned_def dest: node_by_idD)
    with ab p(1) obtain n' where "node_by_id d' (bi_node_id item) = Some n'"
        "edited (strip (bi_title item)) (nd_content (bp_node p)) (bp_node p) n'" by fastforce
    with pp item_problem_None [OF pp(2,1)] show ?thesis by (auto simp: edited_def)
  qed
  with ab idset have "batch_applied c d r d'" by (simp add: batch_applied_def)
  then show ?thesis ..
next
  case (2 m d2 code msg item)
  from reject_batch_ok [OF _ 2(3)] 2(1) obtain e where
    "db_outbox d' = db_outbox d @ [e]" "rejection_event (bc_command_id c) (bc_project_id c) code (Some (bi_node_id item)) e"
    "r = failed_batch c code (Some (bi_node_id item)) (ob_id e)" "db_nodes d' = db_nodes d" "db_revisions d' = db_revisions d"
    "db_artifacts d' = db_artifacts d" "graph_version_of d' = graph_version_of d"
    by (auto simp: entered_def)
  then have "batch_refused c code (Some (bi_node_id item)) d r d'" by (simp add: batch_refused_def failed_batch_def)
  with 2(2,4) show ?thesis by auto
qed

lemma persist_batch_refuses:
  assumes "fresh_batch c d" "persist_batch_terminal_failure L c code msg now d = Inr (r, d')"
  shows "batch_refused c code None d r d'"
proof -
  let ?row = "fail_command code msg (batch_inbox_row (db_next_uuid d) c (batch_payload_hash L c) CMD_FAILED)"
  let ?d1 = "d\<lparr>db_next_uuid := Suc (db_next_uuid d), db_commands := db_commands d @ [?row]\<rparr>"
  have "command_rows d (bc_command_id c) = []" using assms(1) by (simp add: fresh_batch_def)
  with assms(2) obtain e where st: "stage_node_content_update_rejected_v3 ?row code (map_option UuidTxt None) now ?d1 = Inr (e, d')"
    and r: "r = failed_batch c code None (ob_id e)"
    by (auto simp: persist_batch_terminal_failure_def add_command_def uuid4_def Let_def rbind_Inr_iff)
  have row: "mc_command_id ?row = bc_command_id c" "mc_project_id ?row = bc_project_id c" by (simp_all add: batch_inbox_row_def)
  note staged = stage_rejected_ok [OF st, unfolded row]
  moreover have "graph_version_of d' = graph_version_of d" using staged by (simp add: graph_version_of_def fun_eq_iff)
  ultimately show ?thesis by (simp add: batch_refused_def r failed_batch_def)
qed

text \<open>C7. A batch of titles is applied completely or not at all, however the handler ends. Either every item names a live canonical
  node of the project at the expected version, and then every one of them, and no other node, gets
  its new title and one more version, and the graph version rises by exactly one however many nodes the batch
  has; or no node, revision or snapshot changes, the version stays and there is exactly one rejection event. That event names
  an item of the batch and the check that this item fails; only when the snapshot of the changed graph is too large, so that the
  first transaction was rolled back, it names no item and the reason GRAPH_SNAPSHOT_TOO_LARGE.\<close>

theorem batch_update_atomic:
  assumes "fresh_batch c d" "process_node_content_batch_update L c now d d = Inr (r, d')"
  shows "batch_applied c d r d'
    \<or> (\<exists>code. \<exists>item \<in> set (bc_nodes c). batch_refused c code (Some (bi_node_id item)) d r d'
         \<and> (item_problem d (bc_project_id c) item = Some code
            \<or> code = ''NO_CHANGE'' \<and> (\<exists>n. node_by_id d (bi_node_id item) = Some n \<and> nd_title n = strip (bi_title item))))
    \<or> (\<exists>m. batch_attempt L c now d = Inl (GraphSnapshotTooLargeError m) \<and> batch_refused c ''GRAPH_SNAPSHOT_TOO_LARGE'' None d r d')"
proof (cases "batch_attempt L c now d")
  case (Inr x)
  with assms(2) have "batch_attempt L c now d = Inr (r, d')" by (simp add: process_node_content_batch_update_def)
  from batch_attempt_atomic [OF assms(1) this] show ?thesis by (elim disjE) (simp_all only: simp_thms)
next
  case (Inl e)
  have "one_or_none (command_rows d (bc_command_id c)) = Inr None" using assms(1) by (simp add: fresh_batch_def)
  with assms(2) Inl have "\<exists>m. e = GraphSnapshotTooLargeError m
      \<and> persist_batch_terminal_failure L c ''GRAPH_SNAPSHOT_TOO_LARGE'' m now d = Inr (r, d')"
    by (cases e) (simp_all add: process_node_content_batch_update_def)
  then obtain m where m: "e = GraphSnapshotTooLargeError m"
      "persist_batch_terminal_failure L c ''GRAPH_SNAPSHOT_TOO_LARGE'' m now d = Inr (r, d')" by (elim exE conjE)
  from persist_batch_refuses [OF assms(1) m(2)] Inl m(1) show ?thesis by (intro disjI2 exI [of _ m] conjI) simp_all
qed

section \<open>Redelivery of a batch\<close>

definition settled_batch :: "stdlib \<Rightarrow> node_content_batch_update_command \<Rightarrow> db \<Rightarrow> bool" where
  "settled_batch L c d \<longleftrightarrow> (\<exists>row r. command_rows d (bc_command_id c) = [row]
     \<and> \<not> command_conflict NODE_CONTENT_UPDATE_REQUESTED (batch_payload_hash L c) row
     \<and> (mc_status row = CMD_COMPLETED \<or> mc_status row = CMD_FAILED)
     \<and> existing_batch_result d c row = Inr r)"

lemma settled_batch_replays: "settled_batch L c d \<Longrightarrow> \<exists>r. batch_attempt L c now d = Inr (r, d)"
  by (auto simp: settled_batch_def batch_attempt_def Let_def)

text \<open>The answer read back after an accepted batch is the answer that was given.\<close>

lemma accepted_batch_answer:
  assumes "fresh_batch c d" "entered d (batch_row L c d) d2" "accept_batch L (batch_row L c d) c plans now d2 = Inr (r, d')"
    and "map bp_item plans = bc_nodes c" "\<forall>p \<in> set plans. planned d (bc_project_id c) p"
  obtains row where "command_rows d' (bc_command_id c) = [row]" "mc_status row = CMD_COMPLETED"
    "\<not> command_conflict NODE_CONTENT_UPDATE_REQUESTED (batch_payload_hash L c) row"
    "\<exists>r2. existing_batch_result d' c row = Inr r2 \<and> br_replayed r2 \<and> br_status r2 = CMD_COMPLETED
       \<and> br_node_versions r2 = br_node_versions r \<and> br_graph_version r2 = br_graph_version r
       \<and> br_artifact_id r2 = br_artifact_id r"
proof -
  have fr: "nodes_unique d" "command_rows d (bc_command_id c) = []" "distinct (map bi_node_id (bc_nodes c))"
    "command_artifacts d (bc_project_id c) (bc_command_id c) = []"
    using assms(1) by (simp_all add: fresh_batch_def)
  have nodes: "node_by_id d2 = node_by_id d" "nodes_unique d2" "graph_states_unique d2"
    "db_commands d2 = db_commands d @ [batch_row L c d]" "db_artifacts d2 = db_artifacts d"
    using assms(2) fr(1) by (auto simp: entered_def intro: node_by_id_cong)
  note ids = planned_ids [OF assms(5), unfolded assms(4)]
  note ab = accept_batch_ok [OF nodes(2,3) assms(3) _ batch_row_fields(1,2), unfolded ids, OF fr(3), unfolded nodes(1)]
  have "filter (\<lambda>r. mc_command_id r = bc_command_id c) (db_commands d2) = [batch_row L c d]"
    using fr(2) by (simp add: nodes(4) command_rows_def)
  then have row: "command_rows d' (bc_command_id c) = [complete_command (batch_row L c d)]"
    using ab by (simp add: command_rows_def filter_command_update)
  from ab obtain a d1 mid v where a: "db_artifacts d' = db_artifacts d2 @ [a]" "sa_command_id a = bc_command_id c"
      "sa_project_id a = bc_project_id c" "br_artifact_id r = Some (sa_id a)" "br_graph_version r = Some (sa_graph_version a)"
      "db_nodes d1 = db_nodes d'"
      "sa_payload_json a = build_full_graph_snapshot d1 (bc_project_id c) mid (bc_command_id c) v now" by blast
  have art: "command_artifacts d' (bc_project_id c) (bc_command_id c) = [a]"
    using a(1-3) fr(4) nodes(5) by (simp add: command_artifacts_def)
  have u': "nodes_unique d1" using ab a(6) by simp
  have look: "node_by_id d1 = node_by_id d'" using a(6) by (rule node_by_id_cong)
  have "snapshot_versions (sa_payload_json a) (JStr (UuidTxt (bi_node_id i))) =
      Some (JInt (nd_version (the (node_by_id d' (bi_node_id i)))))" if "i \<in> set (bc_nodes c)" for i
  proof -
    from that assms(4) obtain p where p: "p \<in> set plans" "i = bp_item p" by (metis imageE set_map)
    then have pp: "node_by_id d (bi_node_id i) = Some (bp_node p)" "item_problem d (bc_project_id c) i = None"
        "nd_id (bp_node p) = bi_node_id i"
      using assms(5) by (auto simp: planned_def dest: node_by_idD)
    with ab p(1) obtain n' title where n': "node_by_id d' (bi_node_id i) = Some n'"
        "edited title (nd_content (bp_node p)) (bp_node p) n'" by fastforce
    with item_problem_None [OF pp(2,1)] have "snapshot_live (bc_project_id c) n'"
      by (auto simp: edited_def snapshot_live_def snapshot_state_def)
    with n'(1) show ?thesis using snapshot_versions_build [OF u'] look by (simp add: a(7))
  qed
  note cv = collect_versions_ok [of "bc_nodes c" _ "\<lambda>i. nd_version (the (node_by_id d' i))", OF this]
  define g where "g = (\<lambda>i. (i, nd_version (the (node_by_id d' i))))"
  have "br_node_versions r = map g (map (\<lambda>p. nd_id (bp_node p)) plans)" using ab by (simp add: g_def)
  also have "\<dots> = map g (map bi_node_id (bc_nodes c))" by (simp only: ids)
  also have "\<dots> = map (\<lambda>i. (bi_node_id i, nd_version (the (node_by_id d' (bi_node_id i))))) (bc_nodes c)" by (simp add: g_def)
  finally have "collect_versions (snapshot_versions (sa_payload_json a)) (bc_nodes c) = Inr (br_node_versions r)"
    using cv by simp
  then show thesis
    using row art a(4,5) by (intro that [OF row]) (simp_all add: command_conflict_def existing_batch_result_def Let_def)
qed

lemma batch_attempt_settles:
  assumes "fresh_batch c d" "batch_attempt L c now d = Inr (r, d')"
  shows "settled_batch L c d'"
  using assms
proof (cases rule: batch_outcome)
  case (1 d2 plans)
  then have "\<forall>p \<in> set plans. planned d (bc_project_id c) p" by simp
  from accepted_batch_answer [OF assms(1) 1(1-3) this] show ?thesis unfolding settled_batch_def by metis
next
  case (2 m d2 code msg item)
  have d2: "db_commands d2 = db_commands d @ [batch_row L c d]" "db_artifacts d2 = db_artifacts d" "graph_states_unique d2"
    using 2(1) by (simp_all add: entered_def)
  have fr: "command_rows d (bc_command_id c) = []" "command_artifacts d (bc_project_id c) (bc_command_id c) = []"
    using assms(1) by (simp_all add: fresh_batch_def)
  have "filter (\<lambda>r. mc_command_id r = bc_command_id c) (db_commands d2) = [batch_row L c d]"
    using fr(1) by (simp add: d2(1) command_rows_def)
  with reject_batch_ok [OF d2(3) 2(3)] have "command_rows d' (bc_command_id c) = [fail_command code msg (batch_row L c d)]"
    "command_artifacts d' (bc_project_id c) (bc_command_id c) = []"
    using fr(2) d2(2) by (simp_all add: command_rows_def filter_command_update command_artifacts_def)
  then show ?thesis by (simp add: settled_batch_def command_conflict_def existing_batch_result_def Let_def)
qed

lemma persist_batch_settles:
  assumes "fresh_batch c d" "persist_batch_terminal_failure L c code msg now d = Inr (r, d')"
  shows "settled_batch L c d'"
proof -
  let ?row = "fail_command code msg (batch_inbox_row (db_next_uuid d) c (batch_payload_hash L c) CMD_FAILED)"
  let ?d1 = "d\<lparr>db_next_uuid := Suc (db_next_uuid d), db_commands := db_commands d @ [?row]\<rparr>"
  have fr: "command_rows d (bc_command_id c) = []" "command_artifacts d (bc_project_id c) (bc_command_id c) = []"
    using assms(1) by (simp_all add: fresh_batch_def)
  from assms(2) fr(1) obtain e where
    "stage_node_content_update_rejected_v3 ?row code (map_option UuidTxt None) now ?d1 = Inr (e, d')"
    by (auto simp: persist_batch_terminal_failure_def add_command_def uuid4_def Let_def rbind_Inr_iff)
  from stage_rejected_ok [OF this] have "command_rows d' (bc_command_id c) = [?row]"
    "command_artifacts d' (bc_project_id c) (bc_command_id c) = []"
    using fr by (simp_all add: command_rows_def command_artifacts_def batch_inbox_row_def)
  then show ?thesis
    by (simp add: settled_batch_def command_conflict_def batch_inbox_row_def existing_batch_result_def Let_def)
qed

interpretation node_batch_inbox:
  idempotent_inbox "\<lambda>c d. process_node_content_batch_update L c now d d" fresh_batch "settled_batch L"
proof (unfold_locales, goal_cases)
  case (1 c d r d')
  show ?case
  proof (cases "batch_attempt L c now d")
    case (Inr x)
    with 1 batch_attempt_settles [of c d L now r d'] show ?thesis by (auto simp: process_node_content_batch_update_def)
  next
    case (Inl e)
    have "one_or_none (command_rows d (bc_command_id c)) = Inr None"
      using 1(1) by (simp add: fresh_batch_def)
    with 1 Inl persist_batch_settles [of c d L _ _ now r d'] show ?thesis
      by (cases e) (auto simp: process_node_content_batch_update_def)
  qed
next
  case (2 c d)
  then show ?case using settled_batch_replays [of L c d now] by (auto simp: process_node_content_batch_update_def)
qed

text \<open>C9. Redelivering a batch is harmless and tells the truth. After the delivery that completed a batch, any
  further delivery leaves the database as it is and answers with the node versions, the graph version
  and the snapshot of that delivery, although the versions are read back from the stored snapshot;
  and any number of deliveries has the effect of the first one.\<close>

theorem batch_update_replay:
  assumes "fresh_batch c d" "batch_attempt L c now d = Inr (r, d')"
  shows "(br_status r = CMD_COMPLETED \<longrightarrow> (\<exists>r2. batch_attempt L c now2 d' = Inr (r2, d') \<and> br_replayed r2
      \<and> br_status r2 = CMD_COMPLETED \<and> br_node_versions r2 = br_node_versions r
      \<and> br_graph_version r2 = br_graph_version r \<and> br_artifact_id r2 = br_artifact_id r))
    \<and> deliveries (\<lambda>d. process_node_content_batch_update L c now d d) (Suc n) d = Inr d'"
proof
  have "process_node_content_batch_update L c now d d = Inr (r, d')"
    using assms(2) by (simp add: process_node_content_batch_update_def)
  with assms(1) show "deliveries (\<lambda>d. process_node_content_batch_update L c now d d) (Suc n) d = Inr d'"
    by (rule node_batch_inbox.exactly_once)
  show "br_status r = CMD_COMPLETED \<longrightarrow> (\<exists>r2. batch_attempt L c now2 d' = Inr (r2, d') \<and> br_replayed r2
      \<and> br_status r2 = CMD_COMPLETED \<and> br_node_versions r2 = br_node_versions r
      \<and> br_graph_version r2 = br_graph_version r \<and> br_artifact_id r2 = br_artifact_id r)"
    using assms
  proof (cases rule: batch_outcome)
    case (1 d2 plans)
    then have "\<forall>p \<in> set plans. planned d (bc_project_id c) p" by simp
    from accepted_batch_answer [OF assms(1) 1(1-3) this] obtain row r2 where
      "command_rows d' (bc_command_id c) = [row]" "mc_status row = CMD_COMPLETED"
      "\<not> command_conflict NODE_CONTENT_UPDATE_REQUESTED (batch_payload_hash L c) row"
      "existing_batch_result d' c row = Inr r2" "br_replayed r2" "br_status r2 = CMD_COMPLETED"
      "br_node_versions r2 = br_node_versions r" "br_graph_version r2 = br_graph_version r"
      "br_artifact_id r2 = br_artifact_id r" by metis
    then show ?thesis by (simp add: batch_attempt_def)
  next
    case (2 m d2 code msg item)
    from reject_batch_ok [OF _ 2(3)] 2(1) have "br_status r = CMD_FAILED"
      by (auto simp: entered_def failed_batch_def)
    then show ?thesis by simp
  qed
qed

section \<open>The single update\<close>

definition fresh_update :: "node_content_update_command \<Rightarrow> db \<Rightarrow> bool" where
  "fresh_update c d \<longleftrightarrow> nodes_unique d \<and> graph_states_unique d \<and> command_rows d (uc_command_id c) = []
     \<and> command_artifacts d (uc_project_id c) (uc_command_id c) = []"

definition update_row :: "stdlib \<Rightarrow> node_content_update_command \<Rightarrow> db \<Rightarrow> meeting_analysis_command" where
  "update_row L c d = update_inbox_row (db_next_uuid d) c (update_payload_hash L c) CMD_PROCESSING"

lemma update_row_fields [simp]:
  "mc_project_id (update_row L c d) = uc_project_id c" "mc_command_id (update_row L c d) = uc_command_id c"
  "mc_command_type (update_row L c d) = NODE_CONTENT_UPDATE_REQUESTED"
  "mc_payload_hash (update_row L c d) = update_payload_hash L c"
  by (simp_all add: update_row_def update_inbox_row_def)

text \<open>The outcomes that change no node.\<close>

definition quiet :: "uuid \<Rightarrow> (meeting_analysis_command \<Rightarrow> meeting_analysis_command) \<Rightarrow> db \<Rightarrow> db \<Rightarrow> bool" where
  "quiet cid f d d' \<longleftrightarrow> db_nodes d' = db_nodes d \<and> db_revisions d' = db_revisions d \<and> db_artifacts d' = db_artifacts d
     \<and> db_outbox d' = db_outbox d \<and> db_change_events d' = db_change_events d \<and> db_relations d' = db_relations d
     \<and> graph_version_of d' = graph_version_of d
     \<and> db_commands d' = update_where (\<lambda>r. mc_command_id r = cid) f (db_commands d)"

lemma release_quiet:
  assumes "graph_states_unique d" "release_if m pid (set_command cid f d) = Inr d'"
  shows "quiet cid f d d'"
proof -
  have u: "graph_states_unique (set_command cid f d)" "graph_version_of (set_command cid f d) = graph_version_of d"
    using assms(1) by (simp_all add: graph_version_of_def fun_eq_iff)
  from release_if_frame [OF u(1) assms(2)] u(2) show ?thesis by (simp add: quiet_def) (simp add: set_command_def)
qed

lemma accept_update_ok:
  assumes "nodes_unique d" "graph_states_unique d" "node_by_id d (nd_id n) = Some n"
    and "accept_update L row c n current old now d = Inr (r, d')"
    and "mc_project_id row = uc_project_id c" "mc_command_id row = uc_command_id c"
  shows "(\<exists>n'. node_by_id d' (nd_id n) = Some n' \<and> edited (strip (next_title c n)) (next_content c n) n n'
        \<and> ur_node_version r = Some (nd_version n'))
    \<and> (\<forall>j. j \<noteq> nd_id n \<longrightarrow> node_by_id d' j = node_by_id d j) \<and> nodes_unique d'
    \<and> graph_version_of d' = (graph_version_of d)(uc_project_id c := graph_version_of d (uc_project_id c) + 1)
    \<and> ur_status r = CMD_COMPLETED \<and> ur_changed r \<and> ur_graph_version r = Some (graph_version_of d (uc_project_id c) + 1)
    \<and> (\<exists>a d1 mid v. db_artifacts d' = db_artifacts d @ [a] \<and> ur_artifact_id r = Some (sa_id a)
        \<and> ur_graph_version r = Some (sa_graph_version a)
        \<and> sa_command_id a = uc_command_id c \<and> sa_project_id a = uc_project_id c \<and> db_nodes d1 = db_nodes d'
        \<and> sa_payload_json a = build_full_graph_snapshot d1 (uc_project_id c) mid (uc_command_id c) v now)
    \<and> db_commands d' = update_where (\<lambda>r. mc_command_id r = uc_command_id c) complete_command (db_commands d)"
proof -
  let ?pid = "uc_project_id c"
  from assms(4) obtain n1 d1 e a v d2 where
    ed: "edit_node L ?pid (uc_command_id c) (uc_requested_by_member_id c) n (next_title c n)
            (next_content c n) current (current_revision_evidence_specs d n) old now d = Inr (n1, d1)"
    and st: "stage_project_graph_changed_v3 L row None ''NODE_CONTENT_UPDATE'' now d1 = Inr ((e, a, v), d2)"
    and d': "d' = set_command (uc_command_id c) complete_command d2"
    and r: "ur_status r = CMD_COMPLETED" "ur_changed r" "ur_graph_version r = Some v" "ur_artifact_id r = Some (sa_id a)"
      "ur_node_version r = Some (nd_version n1)"
    by (auto simp: accept_update_def rbind_Inr_iff)
  from edit_node_ok [OF assms(1,3) ed] obtain n' where
    e: "node_by_id d1 (nd_id n) = Some n'" "edited (strip (next_title c n)) (next_content c n) n n'" "nd_version n' = nd_version n1"
      "\<forall>j. j \<noteq> nd_id n \<longrightarrow> node_by_id d1 j = node_by_id d j" "nodes_unique d1"
      "side_frame d (d1\<lparr>db_change_events := db_change_events d\<rparr>)" by blast
  have side: "db_graph_states d1 = db_graph_states d" "db_artifacts d1 = db_artifacts d" "db_commands d1 = db_commands d"
    using e(6) by (simp_all add: side_frame_def)
  note sg = stage_project_graph_changed_v3_ok [OF st]
  have nodes: "db_nodes d' = db_nodes d1" using sg by (simp add: d')
  then have look: "node_by_id d' = node_by_id d1" by (rule node_by_id_cong)
  obtain d3 where b: "bump_graph_version ?pid now d1 = (v, d3)" "db_graph_states d' = db_graph_states d3"
    and snap: "sa_payload_json a = build_full_graph_snapshot d3 ?pid (mc_meeting_id row) (uc_command_id c) v now"
    using sg assms(5,6) by (auto simp: d')
  have n3: "db_nodes d3 = db_nodes d'" using bump_graph_version_db [of ?pid now d1] b(1) nodes by simp
  have "graph_states_unique d1" "graph_version_of d1 = graph_version_of d"
    using assms(2) side(1) by (simp_all add: graph_version_of_def fun_eq_iff)
  from bump_graph_version_ok [OF this(1) b(1)] this(2)
  have gv: "v = graph_version_of d ?pid + 1" "graph_version_of d' = (graph_version_of d)(?pid := v)"
    using b(2) by (simp_all add: graph_version_of_def fun_eq_iff)
  have "\<exists>a d1 mid v. db_artifacts d' = db_artifacts d @ [a] \<and> ur_artifact_id r = Some (sa_id a)
        \<and> ur_graph_version r = Some (sa_graph_version a)
        \<and> sa_command_id a = uc_command_id c \<and> sa_project_id a = ?pid \<and> db_nodes d1 = db_nodes d'
        \<and> sa_payload_json a = build_full_graph_snapshot d1 ?pid mid (uc_command_id c) v now"
    using sg side(2) assms(5,6) n3 snap r by (intro exI [of _ a] exI [of _ d3]) (auto simp: d')
  moreover have "db_commands d' = update_where (\<lambda>r. mc_command_id r = uc_command_id c) complete_command (db_commands d)"
    using sg side(3) by (simp add: d' set_command_def)
  ultimately show ?thesis using e gv r nodes by (simp add: look)
qed

text \<open>The ways a fresh update can end.\<close>

definition editable :: "db \<Rightarrow> node_content_update_command \<Rightarrow> node \<Rightarrow> bool" where
  "editable d c n \<longleftrightarrow> node_by_id d (uc_node_id c) = Some n \<and> nd_project_id n = uc_project_id c
     \<and> edit_rejection n (uc_expected_node_version c) = None"

lemma update_outcome:
  assumes "fresh_update c d" "update_attempt L c now d = Inr (r, d')"
  obtains
    d2 n current old where "entered d (update_row L c d) d2" "editable d c n" "nd_current_revision_id n \<noteq> None"
      "accept_update L (update_row L c d) c n current old now d2 = Inr (r, d')"
      "\<not> (next_title c n = nd_title n \<and> next_content c n = nd_content n)"
  | d2 n where "entered d (update_row L c d) d2" "editable d c n" "quiet (uc_command_id c) (\<lambda>r. r\<lparr>mc_status := CMD_COMPLETED\<rparr>) d2 d'"
      "ur_status r = CMD_COMPLETED" "\<not> ur_changed r" "next_title c n = nd_title n" "next_content c n = nd_content n"
  | d2 code msg where "entered d (update_row L c d) d2" "quiet (uc_command_id c) (fail_command code msg) d2 d'"
      "ur_status r = CMD_FAILED" "\<not> ur_changed r" "ur_failure_code r = Some code"
proof -
  note outcome = that
  let ?f = "\<lambda>i. update_inbox_row i c (update_payload_hash L c) CMD_PROCESSING"
  have fr: "nodes_unique d" "graph_states_unique d" "command_rows d (uc_command_id c) = []"
    using assms(1) by (simp_all add: fresh_update_def)
  obtain d1 m d2 where add: "add_command ?f d = (?f (db_next_uuid d), d1)"
    and lk: "lock_project_graph_state (uc_project_id c) now d1 = Inr ((graph_version_of d (uc_project_id c), m), d2)"
    and en: "entered d (?f (db_next_uuid d)) d2" by (rule enter_command [OF fr(2)])
  note en = en [folded update_row_def]
  have run: "decide_update L (update_row L c d) c m now d2 = Inr (r, d')"
    using assms(2) fr(3) add lk by (simp add: update_attempt_def update_row_def)
  have d2: "nodes_unique d2" "graph_states_unique d2" "node_by_id d2 = node_by_id d"
    using en fr(1) by (auto simp: entered_def intro: node_by_id_cong)
  have fail: thesis if "record_failure c code msg m d2 = Inr (r, d')" for code msg
  proof -
    from that have rl: "release_if m (uc_project_id c) (set_command (uc_command_id c) (fail_command code msg) d2) = Inr d'"
      and r: "r = failed_update c code" by (auto simp: record_failure_def rbind_Inr_iff)
    from outcome(3) [OF en release_quiet [OF d2(2) rl]] r show thesis by (simp add: failed_update_def)
  qed
  have rows: "project_node_rows d2 (uc_project_id c) (uc_node_id c) =
      (case node_by_id d (uc_node_id c) of None \<Rightarrow> [] | Some n \<Rightarrow> if nd_project_id n = uc_project_id c then [n] else [])"
    using filter_key_singleton [OF d2(1), of "uc_node_id c" "\<lambda>n. nd_project_id n = uc_project_id c"]
    by (simp add: project_node_rows_def d2(3) [symmetric] node_by_id_def)
  show thesis
  proof (cases "\<exists>n. editable d c n")
    case False
    then obtain code msg where "record_failure c code msg m d2 = Inr (r, d')"
      using run by (auto simp: decide_update_def rows editable_def split: option.splits if_splits)
    then show thesis by (rule fail)
  next
    case True
    then obtain n where ed: "editable d c n" by blast
    then have un: "update_node L (update_row L c d) c m n now d2 = Inr (r, d')"
      using run by (simp add: decide_update_def rows editable_def)
    show thesis
    proof (cases "next_title c n = nd_title n \<and> next_content c n = nd_content n")
      case True
      with un obtain d3 where
        "release_if m (uc_project_id c) (set_command (uc_command_id c) (\<lambda>r. r\<lparr>mc_status := CMD_COMPLETED\<rparr>) d2) = Inr d3"
        "d3 = d'" "ur_status r = CMD_COMPLETED" "\<not> ur_changed r"
        by (auto simp: update_node_def Let_def rbind_Inr_iff)
      with True release_quiet [OF d2(2)] en ed outcome(2) show thesis by blast
    next
      case False
      show thesis
      proof (cases "current_revision_row d2 n")
        case None
        with un False have "record_failure c ''INVALID_CURRENT_REVISION'' ''Node has no valid current Revision'' m d2 = Inr (r, d')"
          by (simp add: update_node_def Let_def)
        then show thesis by (rule fail)
      next
        case (Some current)
        then have cur: "nd_current_revision_id n \<noteq> None" by (auto simp: current_revision_row_def bind_eq_Some_conv)
        from un False Some consider
          "record_failure c ''INVALID_CURRENT_REVISION'' ''current Revision has no required Evidence'' m d2 = Inr (r, d')"
          | old where "accept_update L (update_row L c d) c n current old now d2 = Inr (r, d')"
          by (auto simp: update_node_def Let_def rbind_Inr_iff split: if_splits)
        then show thesis
          using fail outcome(1) en ed cur False by cases blast+
      qed
    qed
  qed
qed

text \<open>C8. A content update changes one node or nothing. A change is applied only to a live canonical node of the
  project at the expected version: it gets the requested title and content (what is not requested
  stays) and exactly one more version, no other node changes and the graph version rises by one. An
  update that asks for what the node already has, and a refused one, change no node and no version and
  stage no event.\<close>

theorem node_update_correct:
  assumes "fresh_update c d" "update_attempt L c now d = Inr (r, d')"
  shows "if ur_changed r
    then (\<exists>n n'. node_by_id d (uc_node_id c) = Some n \<and> nd_project_id n = uc_project_id c
        \<and> (nd_graph_state n = ACTIVE \<or> nd_graph_state n = UNATTACHED) \<and> nd_deleted_at n = None
        \<and> nd_version n = uc_expected_node_version c
        \<and> node_by_id d' (uc_node_id c) = Some n' \<and> edited (strip (next_title c n)) (next_content c n) n n'
        \<and> nd_version n' = uc_expected_node_version c + 1 \<and> ur_node_version r = Some (nd_version n'))
      \<and> (\<forall>j. j \<noteq> uc_node_id c \<longrightarrow> node_by_id d' j = node_by_id d j) \<and> ur_status r = CMD_COMPLETED
      \<and> graph_version_of d' = (graph_version_of d)(uc_project_id c := graph_version_of d (uc_project_id c) + 1)
    else db_nodes d' = db_nodes d \<and> db_revisions d' = db_revisions d \<and> db_artifacts d' = db_artifacts d
      \<and> db_outbox d' = db_outbox d \<and> graph_version_of d' = graph_version_of d
      \<and> (ur_status r = CMD_FAILED \<or> ur_status r = CMD_COMPLETED \<and> (\<exists>n. node_by_id d (uc_node_id c) = Some n
           \<and> next_title c n = nd_title n \<and> next_content c n = nd_content n))"
  using assms
proof (cases rule: update_outcome)
  case (1 d2 n current old)
  have fr: "nodes_unique d" using assms(1) by (simp add: fresh_update_def)
  have nodes: "node_by_id d2 = node_by_id d" "nodes_unique d2" "graph_states_unique d2" "graph_version_of d2 = graph_version_of d"
    using 1(1) fr by (auto simp: entered_def intro: node_by_id_cong)
  have n: "nd_id n = uc_node_id c" "node_by_id d (uc_node_id c) = Some n" using 1(2) by (auto simp: editable_def dest: node_by_idD)
  then have "node_by_id d2 (nd_id n) = Some n" by (simp add: nodes(1))
  note ok = accept_update_ok [OF nodes(2,3) this 1(4) update_row_fields(1,2), unfolded nodes(1,4) n(1)]
  have st: "nd_project_id n = uc_project_id c \<and> (nd_graph_state n = ACTIVE \<or> nd_graph_state n = UNATTACHED)
      \<and> nd_deleted_at n = None \<and> nd_version n = uc_expected_node_version c"
    using 1(2) by (auto simp: editable_def edit_rejection_def split: if_splits)
  from ok obtain n' where n': "node_by_id d' (uc_node_id c) = Some n'" "edited (strip (next_title c n)) (next_content c n) n n'"
      "ur_node_version r = Some (nd_version n')" by blast
  with 1(3) st have "nd_version n' = uc_expected_node_version c + 1" by (auto simp: edited_def)
  with n' st n(2) ok show ?thesis by simp
next
  case (2 d2 n)
  then show ?thesis by (auto simp: quiet_def entered_def editable_def)
next
  case (3 d2 code msg)
  then show ?thesis by (auto simp: quiet_def entered_def)
qed

section \<open>Redelivery of a single update\<close>

definition settled_update :: "stdlib \<Rightarrow> node_content_update_command \<Rightarrow> db \<Rightarrow> bool" where
  "settled_update L c d \<longleftrightarrow> (\<exists>row r. command_rows d (uc_command_id c) = [row]
     \<and> \<not> command_conflict NODE_CONTENT_UPDATE_REQUESTED (update_payload_hash L c) row
     \<and> (mc_status row = CMD_COMPLETED \<or> mc_status row = CMD_FAILED)
     \<and> existing_update_result d c row = Inr r)"

lemma settled_update_replays: "settled_update L c d \<Longrightarrow> \<exists>r. update_attempt L c now d = Inr (r, d)"
  by (auto simp: settled_update_def update_attempt_def Let_def)

lemma existing_update_total:
  "length (command_artifacts d (uc_project_id c) (uc_command_id c)) \<le> 1 \<Longrightarrow> \<exists>r. existing_update_result d c row = Inr r"
  using one_or_none_le1 [of "command_artifacts d (uc_project_id c) (uc_command_id c)"]
  by (auto simp: existing_update_result_def Let_def)

lemma update_attempt_settles:
  assumes "fresh_update c d" "update_attempt L c now d = Inr (r, d')"
  shows "settled_update L c d'"
proof -
  have fr: "nodes_unique d" "command_rows d (uc_command_id c) = []" "command_artifacts d (uc_project_id c) (uc_command_id c) = []"
    using assms(1) by (simp_all add: fresh_update_def)
  have settle: ?thesis if en: "entered d (update_row L c d) d2"
      and up: "db_commands d' = update_where (\<lambda>r. mc_command_id r = uc_command_id c) f (db_commands d2)"
      and f: "\<And>r. mc_command_id (f r) = mc_command_id r \<and> mc_command_type (f r) = mc_command_type r
          \<and> mc_payload_hash (f r) = mc_payload_hash r \<and> (mc_status (f r) = CMD_COMPLETED \<or> mc_status (f r) = CMD_FAILED)"
      and art: "\<exists>as. db_artifacts d' = db_artifacts d2 @ as \<and> length as \<le> 1" for d2 f
  proof -
    have "filter (\<lambda>r. mc_command_id r = uc_command_id c) (db_commands d2) = [update_row L c d]"
      using fr(2) en by (simp add: entered_def command_rows_def)
    then have "command_rows d' (uc_command_id c) = [f (update_row L c d)]"
      using f by (simp add: command_rows_def up filter_command_update)
    moreover from art obtain as where "db_artifacts d' = db_artifacts d @ as" "length as \<le> 1" using en by (auto simp: entered_def)
    then have "length (command_artifacts d' (uc_project_id c) (uc_command_id c)) \<le> 1"
      using fr(3) le_trans [OF length_filter_le] by (simp add: command_artifacts_def)
    ultimately show ?thesis
      using existing_update_total [of d' c] f [of "update_row L c d"] by (simp add: settled_update_def command_conflict_def)
  qed
  show ?thesis using assms
  proof (cases rule: update_outcome)
    case (1 d2 n current old)
    have nodes: "node_by_id d2 = node_by_id d" "nodes_unique d2" "graph_states_unique d2"
      using 1(1) fr(1) by (auto simp: entered_def intro: node_by_id_cong)
    have "node_by_id d2 (nd_id n) = Some n" using 1(2) node_by_idD [of d "uc_node_id c" n] by (simp add: editable_def nodes(1))
    from accept_update_ok [OF nodes(2,3) this 1(4) update_row_fields(1,2)] obtain a where
      "db_artifacts d' = db_artifacts d2 @ [a]"
      "db_commands d' = update_where (\<lambda>r. mc_command_id r = uc_command_id c) complete_command (db_commands d2)" by blast
    with 1(1) show ?thesis by (intro settle [of d2 complete_command]) simp_all
  next
    case (2 d2 n)
    then show ?thesis by (intro settle [of d2 "\<lambda>r. r\<lparr>mc_status := CMD_COMPLETED\<rparr>"]) (simp_all add: quiet_def)
  next
    case (3 d2 code msg)
    then show ?thesis by (intro settle [of d2 "fail_command code msg"]) (simp_all add: quiet_def)
  qed
qed

lemma persist_terminal_settles:
  assumes "fresh_update c d" "persist_terminal_failure L c code msg d = Inr (r, d')"
  shows "settled_update L c d'"
  using assms existing_update_total [of d' c]
  by (auto simp: fresh_update_def persist_terminal_failure_def Let_def add_command_def uuid4_def
      settled_update_def command_rows_def command_conflict_def update_inbox_row_def command_artifacts_def)

interpretation node_update_inbox:
  idempotent_inbox "\<lambda>c d. process_node_content_update L c now d d" fresh_update "settled_update L"
proof (unfold_locales, goal_cases)
  case (1 c d r d')
  show ?case
  proof (cases "update_attempt L c now d")
    case (Inr x)
    with 1 update_attempt_settles [of c d L now r d'] show ?thesis by (auto simp: process_node_content_update_def)
  next
    case (Inl e)
    have "one_or_none (command_rows d (uc_command_id c)) = Inr None"
      using 1(1) by (simp add: fresh_update_def)
    with 1 Inl persist_terminal_settles [of c d L _ _ r d'] show ?thesis
      by (cases e) (auto simp: process_node_content_update_def)
  qed
next
  case (2 c d)
  then show ?case using settled_update_replays [of L c d now] by (auto simp: process_node_content_update_def)
qed

text \<open>Delivering a content update again and again has the effect of delivering it once, also when the
  first delivery could only record that the snapshot was too large.\<close>

theorem node_update_exactly_once:
  assumes "fresh_update c d" "process_node_content_update L c now d d = Inr (r, d')"
  shows "deliveries (\<lambda>d. process_node_content_update L c now d d) (Suc n) d = Inr d'"
  using assms by (rule node_update_inbox.exactly_once)

section \<open>The properties at concrete commands\<close>

definition sample_edit_db :: db where
  "sample_edit_db = (sample_db [sample_node 2 ''7'', sample_node 3 ''7''])\<lparr>db_revisions := [sample_revision 2, sample_revision 3]\<rparr>"

lemma sample_edit_tables:
  "db_nodes sample_edit_db = [sample_node 2 ''7'', sample_node 3 ''7'']" "db_commands sample_edit_db = []"
  "db_artifacts sample_edit_db = []" "db_graph_states sample_edit_db = []"
  "db_revisions sample_edit_db = [sample_revision 2, sample_revision 3]" "db_revision_evidence sample_edit_db = []"
  "db_embeddings sample_edit_db = []" "db_next_uuid sample_edit_db = 1000"
  by (simp_all add: sample_edit_db_def sample_db_def empty_db_def)

lemma sample_fields:
  "nd_id (sample_node i p) = i" "nd_title (sample_node i p) = ''t''" "nd_content (sample_node i p) = ''c''"
  "nd_version (sample_node i p) = 1" "nd_graph_state (sample_node i p) = ACTIVE" "nd_deleted_at (sample_node i p) = None"
  "nd_merged_into_node_id (sample_node i p) = None" "nd_project_id (sample_node i p) = p"
  "nd_current_revision_id (sample_node i p) = Some (i + 100)" "nd_current_analysis_run_id (sample_node i p) = None"
  "rv_id (sample_revision i) = i + 100" "rv_node_id (sample_revision i) = i" "rv_version (sample_revision i) = 1"
  "rv_requires_evidence (sample_revision i) = False" "rv_project_id (sample_revision i) = ''7''"
  by (simp_all add: sample_node_def sample_revision_def)

lemma current_embedding_hash_total: "\<exists>h. current_embedding_hash L d n = Inr h"
  if "db_revision_evidence d = []"
  using that by (auto simp: current_embedding_hash_def load_current_revision_embedding_input_def rguard_def Let_def
      split: option.splits sum.splits)

lemma edit_succeeds:
  assumes "node_by_id d (nd_id n) = Some n" "strip title \<noteq> []" "db_revision_evidence d = []" "db_embeddings d = []"
    and "\<not> rv_requires_evidence current" "nd_current_revision_id n \<noteq> None" "nd_current_analysis_run_id n = None"
    and "\<forall>x \<in> set (db_revisions d). rv_node_id x = nd_id n \<longrightarrow> rv_version x \<noteq> nd_version n + 1"
  shows "\<exists>n1 d'. edit_node L pid cid member n title content current [] old now d = Inr (n1, d')
     \<and> db_revision_evidence d' = [] \<and> db_embeddings d' = []"
proof -
  let ?a = "edit_args n member title content current []"
  obtain r d1 where cr: "create_node_revision L n ?a now d = Inr (r, d1)"
    and d1: "db_revision_evidence d1 = []" "db_embeddings d1 = []"
    using assms by (simp add: create_node_revision_def edit_args_def uuid4_def Let_def rguard_def set_node_def)
  from create_node_revision_frame [OF cr, of "nd_id n"] assms(1) obtain n1 where
    n1: "node_by_id d1 (nd_id n) = Some n1" "nd_current_analysis_run_id n1 = None"
    using assms(7) by auto
  obtain h where h: "current_embedding_hash L d1 n1 = Inr h" using current_embedding_hash_total [OF d1(1)] by blast
  have "\<exists>res. reconcile_embedding_status_after_revision L n1 d1 = Inr (res, d1)"
    using d1(2) by (simp add: reconcile_embedding_status_after_revision_def)
  with cr n1 h d1 show ?thesis
    by (auto simp: edit_node_def invalidate_analysis_def set_node_def)
qed

definition sample_update :: node_content_update_command where
  "sample_update = \<lparr>uc_command_id = 500, uc_requested_at = 0, uc_requested_at_iso = ''t'', uc_project_id = ''7'',
     uc_node_id = 2, uc_expected_node_version = 1, uc_title = Some ''x'', uc_content = None,
     uc_requested_by_member_id = ''u''\<rparr>"

lemma sample_update_fresh: "fresh_update sample_update sample_edit_db"
  by (simp add: fresh_update_def sample_edit_tables sample_fields command_rows_def command_artifacts_def)

lemma strip_x: "strip ''x'' = ''x''"
  by code_simp

lemma sample_stage_update:
  assumes "db_artifacts d = []"
  shows "\<exists>x d'. stage_project_graph_changed_v3 sample_stdlib row None ''NODE_CONTENT_UPDATE'' now d = Inr (x, d')"
proof -
  obtain v d1 where b: "bump_graph_version (mc_project_id row) now d = (v, d1)" by fastforce
  then have "db_artifacts d1 = []" using assms bump_graph_version_tables(2) [of "mc_project_id row" now d] by simp
  with b assms show ?thesis
    by (simp add: stage_project_graph_changed_v3_def Let_def snapshot_digest_def validate_graph_snapshot_size_def
        sample_limit sample_prefix uuid4_def artifact_clash_def split_beta) (simp add: sample_stdlib_def)
qed

definition entered_edit_db :: "meeting_analysis_command \<Rightarrow> db" where
  "entered_edit_db row = sample_edit_db\<lparr>db_next_uuid := 1001, db_commands := [row],
     db_graph_states := [\<lparr>gs_project_id = ''7'', gs_graph_version = 0, gs_updated_at = 9\<rparr>]\<rparr>"

lemma entered_edit_tables:
  "db_nodes (entered_edit_db row) = db_nodes sample_edit_db" "db_revisions (entered_edit_db row) = db_revisions sample_edit_db"
  "db_revision_evidence (entered_edit_db row) = []" "db_embeddings (entered_edit_db row) = []"
  "db_artifacts (entered_edit_db row) = []"
  by (simp_all add: entered_edit_db_def sample_edit_tables)

lemma entered_edit_node:
  "node_by_id (entered_edit_db row) 2 = Some (sample_node 2 ''7'')"
  "current_revision_row (entered_edit_db row) (sample_node 2 ''7'') = Some (sample_revision 2)"
  "current_revision_evidence_specs (entered_edit_db row) (sample_node 2 ''7'') = []"
  "project_node_rows (entered_edit_db row) ''7'' 2 = [sample_node 2 ''7'']"
  by (simp_all add: node_by_id_def entered_edit_tables sample_edit_tables sample_fields current_revision_row_def
      revision_by_id_def current_revision_evidence_specs_def project_node_rows_def)

lemma sample_edit_run:
  obtains h n1 d3 ev a v d4 where "current_embedding_hash sample_stdlib (entered_edit_db row) (sample_node 2 ''7'') = Inr h"
    "edit_node sample_stdlib ''7'' 500 ''u'' (sample_node 2 ''7'') ''x'' ''c'' (sample_revision 2) [] h 9 (entered_edit_db row) = Inr (n1, d3)"
    "stage_project_graph_changed_v3 sample_stdlib row None ''NODE_CONTENT_UPDATE'' 9 d3 = Inr ((ev, a, v), d4)"
proof -
  note result = that
  let ?d = "entered_edit_db row" and ?n = "sample_node 2 ''7''"
  obtain h where h: "current_embedding_hash sample_stdlib ?d ?n = Inr h"
    using current_embedding_hash_total [OF entered_edit_tables(3)] by blast
  have u: "nodes_unique ?d" by (simp add: entered_edit_tables sample_edit_tables sample_fields)
  obtain n1 d3 where e: "edit_node sample_stdlib ''7'' 500 ''u'' ?n ''x'' ''c'' (sample_revision 2) [] h 9 ?d = Inr (n1, d3)"
    using edit_succeeds [of ?d ?n "''x''" "sample_revision 2" sample_stdlib "''7''" 500 "''u''" "''c''" h 9]
      entered_edit_node(1) [of row] entered_edit_tables [of row]
    by (auto simp: strip_x sample_fields sample_edit_tables)
  have "db_artifacts d3 = []"
    using edit_node_ok [OF u _ e] entered_edit_node(1) entered_edit_tables by (auto simp: sample_fields side_frame_def)
  from sample_stage_update [OF this, of row 9] obtain ev a v d4 where
    "stage_project_graph_changed_v3 sample_stdlib row None ''NODE_CONTENT_UPDATE'' 9 d3 = Inr ((ev, a, v), d4)" by auto
  with h e show thesis by (rule result)
qed

lemma sample_update_run:
  obtains r d' where "update_attempt sample_stdlib sample_update 9 sample_edit_db = Inr (r, d')" "ur_changed r"
proof -
  define row where "row = update_row sample_stdlib sample_update sample_edit_db"
  let ?n = "sample_node 2 ''7''" and ?d = "entered_edit_db row"
  obtain h n1 d3 ev a v d4 where h: "current_embedding_hash sample_stdlib ?d ?n = Inr h"
    and e: "edit_node sample_stdlib ''7'' 500 ''u'' ?n ''x'' ''c'' (sample_revision 2) [] h 9 ?d = Inr (n1, d3)"
    and s: "stage_project_graph_changed_v3 sample_stdlib row None ''NODE_CONTENT_UPDATE'' 9 d3 = Inr ((ev, a, v), d4)"
    by (rule sample_edit_run)
  note n = entered_edit_node [of row]
  have up: "uc_project_id sample_update = ''7''" "uc_command_id sample_update = 500" "uc_requested_by_member_id sample_update = ''u''"
      "uc_node_id sample_update = 2" "uc_expected_node_version sample_update = 1"
    by (simp_all add: sample_update_def)
  have nt: "next_title sample_update ?n = ''x''" "next_content sample_update ?n = ''c''"
    by (simp_all add: next_title_def next_content_def sample_update_def strip_x sample_fields)
  have "update_attempt sample_stdlib sample_update 9 sample_edit_db = decide_update sample_stdlib row sample_update True 9 ?d"
    by (simp add: update_attempt_def command_rows_def sample_edit_tables add_command_def uuid4_def row_def update_row_def
        up lock_project_graph_state_def locked_graph_state_def entered_edit_db_def Let_def)
  moreover have "decide_update sample_stdlib row sample_update True 9 ?d = update_node sample_stdlib row sample_update True ?n 9 ?d"
    using n(4) up by (simp add: decide_update_def edit_rejection_def sample_fields)
  moreover have "update_node sample_stdlib row sample_update True ?n 9 ?d = accept_update sample_stdlib row sample_update ?n (sample_revision 2) h 9 ?d"
    using n h nt by (simp add: update_node_def sample_fields)
  moreover obtain r where "accept_update sample_stdlib row sample_update ?n (sample_revision 2) h 9 ?d
      = Inr (r, set_command 500 complete_command d4)" "ur_changed r"
    using e s n(3) nt up by (simp add: accept_update_def)
  ultimately show thesis using that by metis
qed

theorem node_update_correct_witness:
  "\<exists>r d' n'. update_attempt sample_stdlib sample_update 9 sample_edit_db = Inr (r, d')
     \<and> node_by_id d' 2 = Some n' \<and> nd_title n' = ''x'' \<and> nd_version n' = 2 \<and> graph_version_of d' ''7'' = 1"
proof -
  obtain r d' where r: "update_attempt sample_stdlib sample_update 9 sample_edit_db = Inr (r, d')" "ur_changed r"
    by (rule sample_update_run)
  have g: "graph_version_of sample_edit_db ''7'' = 0" by (simp add: graph_version_of_def sample_edit_tables)
  have u: "uc_project_id sample_update = ''7''" "uc_node_id sample_update = 2" "uc_expected_node_version sample_update = 1"
    "next_title sample_update n = ''x''" for n
    by (simp_all add: sample_update_def next_title_def strip_x)
  from node_update_correct [OF sample_update_fresh r(1)] r(2)
  have "\<exists>n n'. node_by_id d' 2 = Some n' \<and> edited ''x'' (next_content sample_update n) n n' \<and> nd_version n' = 1 + 1"
    "graph_version_of d' = (graph_version_of sample_edit_db)(''7'' := 0 + 1)"
    by (auto simp: u g strip_x)
  with r(1) show ?thesis by (auto simp: edited_def)
qed

definition sample_batch :: "batch_update_item list \<Rightarrow> node_content_batch_update_command" where
  "sample_batch items = \<lparr>bc_command_id = 500, bc_requested_at = 0, bc_requested_at_iso = ''t'', bc_project_id = ''7'',
     bc_nodes = items, bc_requested_by_member_id = ''u''\<rparr>"

definition sample_item :: "uuid \<Rightarrow> int \<Rightarrow> batch_update_item" where
  "sample_item i v = \<lparr>bi_node_id = i, bi_expected_node_version = v, bi_title = ''x''\<rparr>"

lemma sample_batch_fields:
  "bc_command_id (sample_batch is) = 500" "bc_project_id (sample_batch is) = ''7''" "bc_nodes (sample_batch is) = is"
  "bc_requested_by_member_id (sample_batch is) = ''u''" "bi_node_id (sample_item i v) = i"
  "bi_expected_node_version (sample_item i v) = v" "bi_title (sample_item i v) = ''x''"
  by (simp_all add: sample_batch_def sample_item_def)

lemma sample_batch_fresh: "distinct (map bi_node_id items) \<Longrightarrow> fresh_batch (sample_batch items) sample_edit_db"
  by (simp add: fresh_batch_def sample_edit_tables sample_fields command_rows_def command_artifacts_def sample_batch_fields)

lemma sample_batch_entered:
  fixes items defines "row \<equiv> batch_row sample_stdlib (sample_batch items) sample_edit_db"
  shows "batch_attempt sample_stdlib (sample_batch items) 9 sample_edit_db
    = decide_batch sample_stdlib row (sample_batch items) True 9 (entered_edit_db row)"
  by (simp add: batch_attempt_def command_rows_def sample_edit_tables add_command_def uuid4_def row_def batch_row_def
      sample_batch_fields lock_project_graph_state_def locked_graph_state_def entered_edit_db_def Let_def)

lemma sample_batch_locked:
  "locked_batch_nodes (entered_edit_db row) (sample_batch [sample_item 2 v, sample_item 3 w]) = [sample_node 2 ''7'', sample_node 3 ''7'']"
  "locked_batch_nodes (entered_edit_db row) (sample_batch [sample_item 2 v]) = [sample_node 2 ''7'']"
  by (simp_all add: locked_batch_nodes_def sample_batch_fields entered_edit_tables sample_edit_tables sample_fields)

lemma sample_batch_rejected:
  obtains r d' where "batch_attempt sample_stdlib (sample_batch [sample_item 2 1, sample_item 3 4]) 9 sample_edit_db = Inr (r, d')"
    "br_status r = CMD_FAILED"
proof -
  let ?c = "sample_batch [sample_item 2 1, sample_item 3 4]"
  define row where "row = batch_row sample_stdlib ?c sample_edit_db"
  let ?d = "entered_edit_db row"
  obtain h where h: "current_embedding_hash sample_stdlib ?d (sample_node 2 ''7'') = Inr h"
    using current_embedding_hash_total [OF entered_edit_tables(3)] by blast
  then obtain plans m where "batch_preflight sample_stdlib ?d (locked_batch_nodes ?d ?c) (bc_nodes ?c) []
      = Inr (plans, Some (''NODE_VERSION_CONFLICT'', m, 3))"
    by (simp add: sample_batch_locked sample_batch_fields sample_fields edit_rejection_def entered_edit_node)
  moreover have "\<exists>d'. reject_batch row ?c ''NODE_VERSION_CONFLICT'' m (Some 3) True 9 ?d
      = Inr (failed_batch ?c ''NODE_VERSION_CONFLICT'' (Some 3) 1001, d')" for m
    by (simp add: reject_batch_def stage_node_content_update_rejected_v3_def NODE_CONTENT_UPDATE_REJECTION_REASONS_def
        stage_v3_def stage_outbox_def uuid4_def release_if_def sample_batch_fields entered_edit_db_def set_command_def
        release_unmutated_graph_state_def locked_graph_state_def rguard_def split_beta Let_def)
  ultimately show thesis using that by (force simp: sample_batch_entered decide_batch_def row_def [symmetric] failed_batch_def)
qed

theorem batch_update_atomic_witness:
  "\<exists>r d' code i. process_node_content_batch_update sample_stdlib (sample_batch [sample_item 2 1, sample_item 3 4]) 9 sample_edit_db sample_edit_db = Inr (r, d')
     \<and> batch_refused (sample_batch [sample_item 2 1, sample_item 3 4]) code (Some i) sample_edit_db r d'
     \<and> db_nodes d' = [sample_node 2 ''7'', sample_node 3 ''7''] \<and> graph_version_of d' ''7'' = 0"
proof -
  let ?c = "sample_batch [sample_item 2 1, sample_item 3 4]"
  obtain r d' where a: "batch_attempt sample_stdlib ?c 9 sample_edit_db = Inr (r, d')" "br_status r = CMD_FAILED"
    by (rule sample_batch_rejected)
  then have r: "process_node_content_batch_update sample_stdlib ?c 9 sample_edit_db sample_edit_db = Inr (r, d')"
    by (simp add: process_node_content_batch_update_def)
  have g: "graph_version_of sample_edit_db ''7'' = 0" by (simp add: graph_version_of_def sample_edit_tables)
  have "fresh_batch ?c sample_edit_db"
    by (rule sample_batch_fresh) (simp add: sample_batch_fields)
  from batch_update_atomic [OF this r] a obtain code i where "batch_refused ?c code (Some i) sample_edit_db r d'"
    by (auto simp: batch_applied_def)
  moreover from this have "db_nodes d' = db_nodes sample_edit_db" "graph_version_of d' = graph_version_of sample_edit_db"
    by (simp_all add: batch_refused_def)
  ultimately show ?thesis using r g by (auto simp: sample_edit_tables)
qed

lemma sample_batch_completed:
  obtains r d' where "batch_attempt sample_stdlib (sample_batch [sample_item 2 1]) 9 sample_edit_db = Inr (r, d')"
    "br_status r = CMD_COMPLETED"
proof -
  let ?c = "sample_batch [sample_item 2 1]"
  define row where "row = batch_row sample_stdlib ?c sample_edit_db"
  let ?n = "sample_node 2 ''7''" and ?d = "entered_edit_db row"
  obtain h n1 d3 ev a v d4 where h: "current_embedding_hash sample_stdlib ?d ?n = Inr h"
    and e: "edit_node sample_stdlib ''7'' 500 ''u'' ?n ''x'' ''c'' (sample_revision 2) [] h 9 ?d = Inr (n1, d3)"
    and s: "stage_project_graph_changed_v3 sample_stdlib row None ''NODE_CONTENT_UPDATE'' 9 d3 = Inr ((ev, a, v), d4)"
    by (rule sample_edit_run)
  let ?p = "\<lparr>bp_item = sample_item 2 1, bp_node = ?n, bp_next_title = ''x'', bp_current_revision = sample_revision 2,
      bp_evidence_specs = [], bp_old_embedding_hash = h\<rparr>"
  have "batch_preflight sample_stdlib ?d (locked_batch_nodes ?d ?c) (bc_nodes ?c) [] = Inr ([?p], None)"
    using h by (simp add: sample_batch_locked sample_batch_fields sample_fields edit_rejection_def entered_edit_node strip_x)
  moreover have "find (\<lambda>p. \<not> plan_changed p) [?p] = None" by (simp add: plan_changed_def sample_fields)
  moreover have "apply_batch sample_stdlib ?c [?p] 9 ?d = Inr d3"
    using e by (simp add: apply_batch_node_mutation_def entered_edit_node sample_batch_fields sample_fields)
  ultimately show thesis using that s
    by (force simp: sample_batch_entered decide_batch_def row_def [symmetric] accept_batch_def Let_def)
qed

theorem batch_update_replay_witness:
  "\<exists>r d' r2. batch_attempt sample_stdlib (sample_batch [sample_item 2 1]) 9 sample_edit_db = Inr (r, d')
     \<and> batch_attempt sample_stdlib (sample_batch [sample_item 2 1]) 12 d' = Inr (r2, d') \<and> br_replayed r2
     \<and> br_node_versions r2 = br_node_versions r"
proof -
  obtain r d' where r: "batch_attempt sample_stdlib (sample_batch [sample_item 2 1]) 9 sample_edit_db = Inr (r, d')"
    "br_status r = CMD_COMPLETED" by (rule sample_batch_completed)
  have "fresh_batch (sample_batch [sample_item 2 1]) sample_edit_db" by (rule sample_batch_fresh) simp
  from batch_update_replay [OF this r(1), of 12 0] r show ?thesis by blast
qed

end
