(* ===== verification/Publish_Invariant.thy ===== *)
theory Publish_Invariant
  imports Graph_Publish Node_Updates
begin

text \<open>
  What the phases of a publication (theory \<open>Graph_Publish\<close>) keep: the invariant \<open>pub_inv\<close> says that every node of the graph as it was
  keeps its place and that every node of the plan has a place that the rules of the graph allow. The lemmas follow the transaction: one merge, the
  Decisions, the links, the groups of dependent merges.
\<close>

section \<open>What a publication keeps\<close>

text \<open>A node of the graph before the publication keeps its place in the graph; what a user wrote in it stays, up to white space around
  the title.\<close>

definition same_shape :: "node \<Rightarrow> node \<Rightarrow> bool" where
  "same_shape n n' \<longleftrightarrow> nd_id n' = nd_id n \<and> nd_project_id n' = nd_project_id n \<and> nd_node_type n' = nd_node_type n
     \<and> nd_category n' = nd_category n \<and> nd_deleted_at n' = nd_deleted_at n"

definition same_place :: "node \<Rightarrow> node \<Rightarrow> bool" where
  "same_place n n' \<longleftrightarrow> same_shape n n' \<and> nd_graph_state n' = nd_graph_state n \<and> nd_parent_id n' = nd_parent_id n
     \<and> nd_merged_into_node_id n' = nd_merged_into_node_id n"

definition kept :: "node \<Rightarrow> node \<Rightarrow> bool" where
  "kept n n' \<longleftrightarrow> same_place n n' \<and> nd_due_date n' = nd_due_date n
     \<and> (nd_last_actor_type n = ''USER'' \<longrightarrow> nd_last_actor_type n' = ''USER'' \<and> nd_content n' = nd_content n \<and> strip (nd_title n') = strip (nd_title n))"

text \<open>A node has a live parent that the parent rule allows.\<close>

definition attached :: "db \<Rightarrow> node \<Rightarrow> bool" where
  "attached d n \<longleftrightarrow> (\<exists>p m. nd_parent_id n = Some p \<and> node_by_id d p = Some m \<and> nd_graph_state m = ACTIVE
     \<and> nd_node_type m \<in> link_parents (nd_node_type n) \<and> nd_category m = nd_category n \<and> nd_project_id m = nd_project_id n \<and> nd_deleted_at m = None)"

text \<open>The places a published node may end in: unattached, an active Decision, attached to an active parent, or merged into an active node
  of its type and category.\<close>

definition absorbed :: "db \<Rightarrow> node \<Rightarrow> bool" where
  "absorbed d n \<longleftrightarrow> (\<exists>t m. nd_merged_into_node_id n = Some t \<and> node_by_id d t = Some m \<and> nd_graph_state m = ACTIVE
     \<and> nd_node_type m = nd_node_type n \<and> nd_category m = nd_category n \<and> nd_project_id m = nd_project_id n \<and> nd_deleted_at m = None)"

definition placed :: "db \<Rightarrow> node \<Rightarrow> bool" where
  "placed d n \<longleftrightarrow> (case nd_graph_state n of
       UNATTACHED \<Rightarrow> nd_parent_id n = None \<and> nd_merged_into_node_id n = None
     | ACTIVE \<Rightarrow> nd_merged_into_node_id n = None \<and> (if nd_node_type n = DECISION then nd_parent_id n = None else attached d n)
     | MERGED \<Rightarrow> nd_parent_id n = None \<and> absorbed d n
     | _ \<Rightarrow> False)"

lemma same_shape_refl [simp]: "same_shape n n" by (simp add: same_shape_def)
lemma same_place_refl [simp]: "same_place n n" by (simp add: same_place_def)
lemma kept_refl [simp]: "kept n n" by (simp add: kept_def)
lemma kept_trans: "kept n n1 \<Longrightarrow> kept n1 n2 \<Longrightarrow> kept n n2" by (simp add: kept_def same_place_def same_shape_def)

text \<open>Nothing that is live is taken away.\<close>

definition grows :: "db \<Rightarrow> db \<Rightarrow> bool" where
  "grows d d' \<longleftrightarrow> (\<forall>i n. node_by_id d i = Some n \<longrightarrow>
     (\<exists>n'. node_by_id d' i = Some n' \<and> same_shape n n' \<and> (nd_graph_state n = ACTIVE \<longrightarrow> nd_graph_state n' = ACTIVE)))"

lemma growsD: "grows d d' \<Longrightarrow> node_by_id d i = Some n \<Longrightarrow> nd_graph_state n = ACTIVE \<Longrightarrow>
   \<exists>n'. node_by_id d' i = Some n' \<and> same_shape n n' \<and> nd_graph_state n' = ACTIVE"
  unfolding grows_def by blast

lemma placed_grows: "grows d d' \<Longrightarrow> placed d n \<Longrightarrow> same_place n n' \<Longrightarrow> placed d' n'"
proof -
  assume g: "grows d d'" and p: "placed d n" and s: "same_place n n'"
  have "attached d' n'" if "attached d n"
  proof -
    from that obtain q m where m: "nd_parent_id n = Some q" "node_by_id d q = Some m" "nd_graph_state m = ACTIVE"
        "nd_node_type m \<in> link_parents (nd_node_type n)" "nd_category m = nd_category n" "nd_project_id m = nd_project_id n" "nd_deleted_at m = None"
      by (auto simp: attached_def)
    from growsD [OF g m(2,3)] m s show ?thesis by (auto simp: attached_def same_place_def same_shape_def)
  qed
  moreover have "absorbed d' n'" if "absorbed d n"
  proof -
    from that obtain q m where m: "nd_merged_into_node_id n = Some q" "node_by_id d q = Some m" "nd_graph_state m = ACTIVE"
        "nd_node_type m = nd_node_type n" "nd_category m = nd_category n" "nd_project_id m = nd_project_id n" "nd_deleted_at m = None"
      by (auto simp: absorbed_def)
    from growsD [OF g m(2,3)] m s show ?thesis by (auto simp: absorbed_def same_place_def same_shape_def)
  qed
  ultimately show ?thesis using p s by (auto simp: placed_def same_place_def same_shape_def split: graph_state.splits if_splits)
qed

section \<open>The invariant of a publication\<close>

text \<open>The state of a publication that started on \<open>d0\<close> and has inserted the nodes \<open>P\<close>.\<close>

definition pub_inv :: "string \<Rightarrow> db \<Rightarrow> uuid set \<Rightarrow> db \<Rightarrow> bool" where
  "pub_inv pid d0 P d \<longleftrightarrow> nodes_unique d
     \<and> (\<forall>i. node_by_id d i \<noteq> None \<longleftrightarrow> node_by_id d0 i \<noteq> None \<or> i \<in> P) \<and> (\<forall>i \<in> P. node_by_id d0 i = None)
     \<and> (\<forall>i n. node_by_id d0 i = Some n \<longrightarrow> (\<exists>n'. node_by_id d i = Some n' \<and> kept n n'))
     \<and> (\<forall>i n. i \<in> P \<longrightarrow> node_by_id d i = Some n \<longrightarrow> placed d n \<and> nd_project_id n = pid \<and> nd_deleted_at n = None)"

lemma pub_inv_old: "pub_inv pid d0 P d \<Longrightarrow> node_by_id d0 i = Some n \<Longrightarrow> (\<exists>n'. node_by_id d i = Some n' \<and> kept n n') \<and> i \<notin> P"
  unfolding pub_inv_def by (metis option.distinct(1))

lemma pub_inv_new: "pub_inv pid d0 P d \<Longrightarrow> i \<in> P \<Longrightarrow> node_by_id d i = Some n \<Longrightarrow> placed d n \<and> nd_project_id n = pid \<and> nd_deleted_at n = None"
  unfolding pub_inv_def by blast

lemma pub_inv_unique: "pub_inv pid d0 P d \<Longrightarrow> nodes_unique d"
  unfolding pub_inv_def by blast

text \<open>One row changes.\<close>

definition one_row :: "uuid \<Rightarrow> (node \<Rightarrow> node) \<Rightarrow> db \<Rightarrow> db \<Rightarrow> bool" where
  "one_row i f d d' \<longleftrightarrow> (nodes_unique d \<longrightarrow> nodes_unique d')
     \<and> (\<forall>j. node_by_id d' j = (if j = i then map_option f (node_by_id d i) else node_by_id d j))"

lemma one_row_set_node: "(\<And>n. nd_id (f n) = nd_id n) \<Longrightarrow> one_row i f d (set_node i f d)"
  by (auto simp: one_row_def node_by_id_set_node)

lemma one_row_same: "db_nodes d' = db_nodes d \<Longrightarrow> one_row i (\<lambda>n. n) d d'"
  by (simp add: one_row_def node_by_id_def option.map_ident)

lemma one_row_trans: "one_row i f d d1 \<Longrightarrow> one_row i g d1 d2 \<Longrightarrow> one_row i (g \<circ> f) d d2"
  by (simp add: one_row_def option.map_comp)

lemma one_row_grows:
  assumes "one_row i f d d'" "\<And>n. node_by_id d i = Some n \<Longrightarrow> same_shape n (f n) \<and> (nd_graph_state n = ACTIVE \<longrightarrow> nd_graph_state (f n) = ACTIVE)"
  shows "grows d d'"
  using assms by (auto simp: one_row_def grows_def)

lemma pub_inv_row:
  assumes inv: "pub_inv pid d0 P d" and row: "one_row i f d d'"
    and f: "\<And>n. node_by_id d i = Some n \<Longrightarrow> same_shape n (f n) \<and> (nd_graph_state n = ACTIVE \<longrightarrow> nd_graph_state (f n) = ACTIVE)
       \<and> (if i \<in> P then placed d' (f n) else kept n (f n))"
  shows "pub_inv pid d0 P d'"
proof -
  have g: "grows d d'" by (rule one_row_grows [OF row]) (simp add: f)
  have look: "node_by_id d' j = (if j = i then map_option f (node_by_id d i) else node_by_id d j)" for j
    using row by (simp add: one_row_def)
  have old: "\<exists>n'. node_by_id d' j = Some n' \<and> kept n n'" if n: "node_by_id d0 j = Some n" for j n
  proof -
    from pub_inv_old [OF inv n] obtain m where m: "node_by_id d j = Some m" "kept n m" "j \<notin> P" by blast
    with m f [of m] show ?thesis by (auto simp: look intro: kept_trans)
  qed
  have new: "placed d' n \<and> nd_project_id n = pid \<and> nd_deleted_at n = None" if n: "j \<in> P" "node_by_id d' j = Some n" for j n
  proof (cases "j = i")
    case True
    with n look obtain m where m: "node_by_id d i = Some m" "n = f m" by auto
    with pub_inv_new [OF inv, of i m] True n(1) have "nd_project_id m = pid \<and> nd_deleted_at m = None" by simp
    with f [OF m(1)] m(2) True n(1) show ?thesis by (auto simp: same_shape_def)
  next
    case False
    with n look have "node_by_id d j = Some n" by simp
    from pub_inv_new [OF inv n(1) this] show ?thesis using placed_grows [OF g _ same_place_refl] by simp
  qed
  have "nodes_unique d'" using inv row by (simp add: pub_inv_def one_row_def)
  moreover have "\<forall>j. node_by_id d' j \<noteq> None \<longleftrightarrow> node_by_id d j \<noteq> None" by (simp add: look)
  ultimately show ?thesis using inv old new by (simp add: pub_inv_def)
qed

lemma grows_same: "db_nodes d' = db_nodes d \<Longrightarrow> grows d d'"
  by (simp add: grows_def node_by_id_def)

lemma pub_inv_same: "pub_inv pid d0 P d \<Longrightarrow> db_nodes d' = db_nodes d \<Longrightarrow> pub_inv pid d0 P d'"
  by (rule pub_inv_row [OF _ one_row_same]) (auto dest: pub_inv_new intro: placed_grows [OF grows_same _ same_place_refl])

section \<open>One merge\<close>

text \<open>The tables that the phases of a publication leave alone.\<close>

definition pub_frame :: "db \<Rightarrow> db \<Rightarrow> bool" where
  "pub_frame d d' \<longleftrightarrow> db_generation_runs d' = db_generation_runs d \<and> db_graph_states d' = db_graph_states d \<and> db_commands d' = db_commands d"

lemma pub_frame_refl [simp]: "pub_frame d d" by (simp add: pub_frame_def)
lemma pub_frame_trans: "pub_frame d d1 \<Longrightarrow> pub_frame d1 d2 \<Longrightarrow> pub_frame d d2" by (simp add: pub_frame_def)
lemma pub_frame_set_node [simp]: "pub_frame d (set_node i f d)" by (simp add: pub_frame_def)
lemma pub_frame_stale [simp]: "pub_frame d (mark_node_embedding_stale i d)" by (simp add: pub_frame_def mark_node_embedding_stale_def)
lemma node_by_id_stale [simp]: "node_by_id (mark_node_embedding_stale i d) = node_by_id d" by (rule ext) (simp add: node_by_id_def mark_node_embedding_stale_def)
lemma pub_frame_side: "side_frame d d' \<Longrightarrow> pub_frame d d'" by (simp add: side_frame_def pub_frame_def)

definition unmerged :: "db \<Rightarrow> uuid \<Rightarrow> bool" where
  "unmerged d i \<longleftrightarrow> (\<forall>n. node_by_id d i = Some n \<longrightarrow> nd_graph_state n \<noteq> MERGED)"

lemma one_row_unmerged:
  assumes "one_row i f d d'" "\<And>n. node_by_id d i = Some n \<Longrightarrow> nd_graph_state (f n) \<noteq> MERGED \<or> nd_graph_state (f n) = nd_graph_state n" "unmerged d j"
  shows "unmerged d' j"
  using assms by (auto simp: one_row_def unmerged_def split: if_splits)

lemma create_node_revision_row:
  assumes "create_node_revision L n a now d = Inr (r, d')"
  shows "\<exists>v i. one_row (nd_id n) (\<lambda>m. m\<lparr>nd_title := strip (ra_title a), nd_content := ra_content a, nd_node_type := ra_node_type a,
      nd_category := ra_category a, nd_due_date := ra_due_date a, nd_version := v, nd_current_revision_id := Some i,
      nd_last_actor_type := ra_created_by_type a, nd_updated_at := now\<rparr>) d d' \<and> pub_frame d d'"
  using create_node_revision_frame [OF assms] by (auto simp: one_row_def intro!: pub_frame_side)

lemma absorb_evidence_row:
  assumes "absorb_evidence L plan b source canonical now d = Inr d'" "node_by_id d (nd_id source) = Some source"
    "nd_parent_id source = None" "nd_id source \<noteq> nd_id canonical"
  shows "\<exists>f. one_row (nd_id canonical) f d d' \<and> kept canonical (f canonical) \<and> pub_frame d d'"
proof -
  let ?protected = "nd_last_actor_type canonical = ''USER''"
  let ?out = "\<lambda>d1. set_node (nd_id source) (\<lambda>n. n\<lparr>nd_parent_id := None\<rparr>) (mark_node_embedding_stale (nd_id canonical)
      (if ?protected then set_node (nd_id canonical) (\<lambda>n. n\<lparr>nd_last_actor_type := ''USER''\<rparr>) d1 else d1))"
  from assms(1) obtain specs r d1 where c: "create_node_revision L canonical (system_revision_args
        (if ?protected then nd_title canonical else strip (bd_suggested_title b)) (if ?protected then nd_content canonical else bd_suggested_content b)
        (nd_node_type canonical) (nd_category canonical) (nd_due_date canonical) (pl_generation_run_id plan) specs) now d = Inr (r, d1)"
    and d': "d' = ?out d1" by (auto simp: absorb_evidence_def Let_def rbind_Inr_iff)
  from create_node_revision_row [OF c] obtain f where f: "one_row (nd_id canonical) f d d1" "pub_frame d d1"
    and fc: "same_place canonical (f canonical)" "nd_due_date (f canonical) = nd_due_date canonical"
      "?protected \<Longrightarrow> nd_content (f canonical) = nd_content canonical \<and> nd_title (f canonical) = strip (nd_title canonical)"
    by (auto simp: system_revision_args_def same_place_def same_shape_def)
  let ?g = "\<lambda>n. if ?protected then (f n)\<lparr>nd_last_actor_type := ''USER''\<rparr> else f n"
  have "node_by_id d1 (nd_id source) = Some source" using f(1) assms(2,4) by (simp add: one_row_def)
  then have "one_row (nd_id canonical) ?g d d'"
    using f(1) assms(3,4) by (auto simp: one_row_def d' node_by_id_set_node option.map_comp o_def)
  moreover have "kept canonical (?g canonical)" using fc by (simp add: kept_def same_place_def same_shape_def)
  moreover have "pub_frame d d'" using f(2) by (simp add: d' pub_frame_def mark_node_embedding_stale_def)
  ultimately show ?thesis by blast
qed

lemma resolved_node:
  assumes "nodes_unique d" "resolve_canonical_node d pid i t = Inr c"
  shows "node_by_id d (nd_id c) = Some c" "nd_project_id c = pid" "nd_deleted_at c = None" "nd_merged_into_node_id c = None"
    "t = Some T \<Longrightarrow> nd_node_type c = T"
  using resolve_canonical_node_sound [OF assms] by (auto simp: project_node_def represents_def merge_target_def)

lemma merge_effects_commands:
  assumes "merge_effects pid s t c a now d = Inr (op, d')"
  shows "db_commands d' = db_commands d"
proof -
  have h: "db_commands d2 = db_commands d1" if "record_merge_history pid s c a now d1 = Inr d2" for d1 d2
    using that by (auto simp: record_merge_history_def rbind_Inr_iff uuid4_def Let_def split: if_splits)
  obtain o1 d1 where r: "record_merge pid s t c a now d = (o1, d1)" by fastforce
  have "db_commands d1 = db_commands d" using record_merge_tables(1) [of pid s t c a now d] r by simp
  with assms r show ?thesis by (auto simp: merge_effects_def Let_def result_simps dest!: h)
qed

text \<open>The redirection itself, when the target is ACTIVE.\<close>

lemma logical_merge_row:
  assumes "apply_logical_merge pid s c a now d = Inr (op, d')" "nodes_unique d" "node_by_id d (nd_id c) = Some c" "nd_graph_state c = ACTIVE"
    "nd_deleted_at c = None" "nd_project_id c = pid" "nd_merged_into_node_id c = None" "nd_node_type c = nd_node_type s"
  shows "one_row (nd_id s) (merged_source (nd_id c) (ma_actor_type a) now) d d' \<and> pub_frame d d' \<and> nd_id c \<noteq> nd_id s"
proof -
  from assms(1) obtain x where x: "resolve_canonical_node d pid (nd_id c) (Some (nd_node_type s)) = Inr x"
    "merge_effects pid s c x a now d = Inr (op, d')" "nd_id x \<noteq> nd_id s" by (rule apply_logical_mergeE)
  have "resolve_canonical_node d pid (nd_id c) (Some (nd_node_type c)) = Inr c"
    using assms by (intro resolve_terminal) (simp_all add: project_node_def)
  with x(1) assms(8) have "x = c" by simp
  with x have eff: "merge_effects pid s c c a now d = Inr (op, d')" "nd_id c \<noteq> nd_id s" by simp_all
  from merge_effects_commands [OF eff(1)] have "db_commands d' = db_commands d" .
  with merge_nodes [OF eff(1)] merge_effects_db [OF eff(1)] eff(2) show ?thesis by (auto simp: one_row_def pub_frame_def)
qed

lemma planned_mergeE:
  assumes "apply_planned_logical_merge E L plan it source target now d = Inr (op, d')"
  obtains b c d1 a o1 where "nd_graph_state source = UNATTACHED" "nd_parent_id source = None"
    "resolve_canonical_node d (pl_project_id plan) target (Some (nd_node_type source)) = Inr c" "nd_graph_state c = ACTIVE" "nd_category c = nd_category source"
    "absorb_evidence L plan b source c now d = Inr d1"
    "apply_logical_merge (pl_project_id plan) (refreshed d1 source) (refreshed d1 c) a now d1 = Inr (o1, d')"
proof -
  from assms obtain b where b: "gp_decision it = Some b" by (cases "gp_decision it") (simp_all add: apply_planned_logical_merge_def)
  from assms [unfolded apply_planned_logical_merge_def b] obtain c d1 where c: "nd_graph_state source = UNATTACHED" "nd_parent_id source = None"
    "resolve_canonical_node d (pl_project_id plan) target (Some (nd_node_type source)) = Inr c" "nd_graph_state c = ACTIVE" "nd_category c = nd_category source"
    "absorb_evidence L plan b source c now d = Inr d1"
    and rest: "(case find (\<lambda>row. sn_target_node_id row = target) (gp_retrieval it) of
            None \<Rightarrow> Inl StopIteration
          | Some row \<Rightarrow>
              rbind (apply_logical_merge (pl_project_id plan) (refreshed d1 source) (refreshed d1 c)
                \<lparr>ma_actor_type = ''SYSTEM'', ma_actor_id = Some ''AUTOMATIC_PIPELINE'', ma_generation_run_id = Some (pl_generation_run_id plan),
                  ma_reason_code = ''AUTO_IDENTITY_MATCH'', ma_reason_text = Some (bd_reason b), ma_evaluation = auto_evaluation E it b row\<rparr> now d1)
               (\<lambda>(operation, d2). Inr (mo_id operation, d2))) = Inr (op, d')"
    by (simp only: option.case rguard_Inr_iff rbind_Inr_iff) blast
  from rest obtain a o1 where "apply_logical_merge (pl_project_id plan) (refreshed d1 source) (refreshed d1 c) a now d1 = Inr (o1, d')"
    by (simp only: rbind_Inr_iff split: option.splits) auto
  with c that show thesis by blast
qed

text \<open>A step of a publication.\<close>

lemma same_shape_trans: "same_shape n n1 \<Longrightarrow> same_shape n1 n2 \<Longrightarrow> same_shape n n2" by (simp add: same_shape_def)

lemma grows_trans: "grows d d1 \<Longrightarrow> grows d1 d2 \<Longrightarrow> grows d d2"
  unfolding grows_def by (blast intro: same_shape_trans)

definition pub_step :: "string \<Rightarrow> db \<Rightarrow> uuid set \<Rightarrow> db \<Rightarrow> db \<Rightarrow> bool" where
  "pub_step pid d0 P d d' \<longleftrightarrow> pub_inv pid d0 P d' \<and> pub_frame d d' \<and> grows d d'"

lemma pub_step_trans: "pub_step pid d0 P d d1 \<Longrightarrow> pub_step pid d0 P d1 d2 \<Longrightarrow> pub_step pid d0 P d d2"
  unfolding pub_step_def using pub_frame_trans grows_trans by blast

lemma pub_step_same: "pub_inv pid d0 P d \<Longrightarrow> db_nodes d' = db_nodes d \<Longrightarrow> pub_frame d d' \<Longrightarrow> pub_step pid d0 P d d'"
  unfolding pub_step_def using pub_inv_same grows_same by blast

lemma pub_step_row:
  assumes "pub_inv pid d0 P d" "one_row i f d d'" "pub_frame d d'"
    and "\<And>n. node_by_id d i = Some n \<Longrightarrow> same_shape n (f n) \<and> (nd_graph_state n = ACTIVE \<longrightarrow> nd_graph_state (f n) = ACTIVE)
       \<and> (if i \<in> P then placed d' (f n) else kept n (f n))"
  shows "pub_step pid d0 P d d'"
  unfolding pub_step_def using pub_inv_row [OF assms(1,2)] one_row_grows [OF assms(2)] assms(3,4) by blast

text \<open>A planned merge keeps the invariant; it turns its own source MERGED and no other node.\<close>

lemma planned_merge_step:
  assumes inv: "pub_inv (pl_project_id plan) d0 P d" and source: "node_by_id d (nd_id source) = Some source" "nd_id source \<in> P"
    and step: "apply_planned_logical_merge E L plan it source target now d = Inr (op, d')"
  shows "pub_step (pl_project_id plan) d0 P d d' \<and> (\<forall>j. j \<noteq> nd_id source \<longrightarrow> unmerged d j \<longrightarrow> unmerged d' j)"
proof -
  let ?pid = "pl_project_id plan"
  note u = pub_inv_unique [OF inv]
  from step obtain b c d1 a o1 where state: "nd_graph_state source = UNATTACHED" "nd_parent_id source = None"
    and c: "resolve_canonical_node d ?pid target (Some (nd_node_type source)) = Inr c" "nd_graph_state c = ACTIVE" "nd_category c = nd_category source"
    and absorb: "absorb_evidence L plan b source c now d = Inr d1"
    and merge: "apply_logical_merge ?pid (refreshed d1 source) (refreshed d1 c) a now d1 = Inr (o1, d')"
    by (rule planned_mergeE)
  note cn = resolved_node(1-4) [OF u c(1)]
  have ct: "nd_node_type c = nd_node_type source" by (rule resolved_node(5) [OF u c(1) refl])
  have ne: "nd_id source \<noteq> nd_id c"
  proof
    assume "nd_id source = nd_id c"
    with source(1) cn(1) have "source = c" by (metis option.inject)
    with c(2) state(1) show False by simp
  qed
  from absorb_evidence_row [OF absorb source(1) state(2) ne] obtain f where f: "one_row (nd_id c) f d d1" "kept c (f c)" "pub_frame d d1" by blast
  have step1: "pub_step ?pid d0 P d d1"
  proof (rule pub_step_row [OF inv f(1,3)])
    fix n assume "node_by_id d (nd_id c) = Some n"
    with cn(1) have n: "n = c" by simp
    have g: "grows d d1" by (rule one_row_grows [OF f(1)]) (use cn(1) f(2) in \<open>auto simp: kept_def same_place_def\<close>)
    have "placed d1 (f c)" if "nd_id c \<in> P"
      using placed_grows [OF g] pub_inv_new [OF inv that cn(1)] f(2) unfolding kept_def by blast
    then show "same_shape n (f n) \<and> (nd_graph_state n = ACTIVE \<longrightarrow> nd_graph_state (f n) = ACTIVE) \<and> (if nd_id c \<in> P then placed d1 (f n) else kept n (f n))"
      using f(2) n by (simp add: kept_def same_place_def)
  qed
  then have inv1: "pub_inv ?pid d0 P d1" by (simp add: pub_step_def)
  have rows: "node_by_id d1 (nd_id source) = Some source" "node_by_id d1 (nd_id c) = Some (f c)" "nd_id (f c) = nd_id c"
    using f(1,2) source(1) cn(1) ne by (simp_all add: one_row_def kept_def same_place_def same_shape_def)
  then have fresh: "refreshed d1 source = source" "refreshed d1 c = f c" by (simp_all add: refreshed_def)
  have fc: "nd_graph_state (f c) = ACTIVE" "nd_deleted_at (f c) = None" "nd_project_id (f c) = ?pid" "nd_merged_into_node_id (f c) = None"
      "nd_node_type (f c) = nd_node_type source" "nd_category (f c) = nd_category source"
    using f(2) c(2,3) cn ct by (simp_all add: kept_def same_place_def same_shape_def)
  have m: "one_row (nd_id source) (merged_source (nd_id c) (ma_actor_type a) now) d1 d'" "pub_frame d1 d'"
    using logical_merge_row [OF merge [unfolded fresh] pub_inv_unique [OF inv1]] rows fc by simp_all
  have look: "node_by_id d' (nd_id c) = Some (f c)" using m(1) rows(2) ne by (simp add: one_row_def)
  have "nd_project_id source = ?pid" using pub_inv_new [OF inv source(2,1)] by simp
  then have pl: "placed d' (merged_source (nd_id c) (ma_actor_type a) now source)"
    using look fc state(2) by (simp add: placed_def merged_source_def absorbed_def)
  have "pub_step ?pid d0 P d1 d'"
    by (rule pub_step_row [OF inv1 m]) (use pl rows(1) source(2) state(1) in \<open>auto simp: merged_source_def same_shape_def\<close>)
  moreover have "unmerged d' j" if "j \<noteq> nd_id source" "unmerged d j" for j
  proof -
    have "unmerged d1 j" by (rule one_row_unmerged [OF f(1) _ that(2)]) (use cn(1) f(2) in \<open>auto simp: kept_def same_place_def\<close>)
    with m(1) that(1) show ?thesis by (simp add: one_row_def unmerged_def)
  qed
  ultimately show ?thesis using pub_step_trans [OF step1] by blast
qed

section \<open>The phases\<close>

text \<open>The row of a candidate has its type and its category.\<close>

definition sourced :: "db \<Rightarrow> candidate_snapshot \<Rightarrow> bool" where
  "sourced d s \<longleftrightarrow> (\<exists>n. node_by_id d (cs_node_id s) = Some n \<and> nd_node_type n = cs_node_type s \<and> nd_category n = cs_category s)"

lemma sourced_grows: "grows d d' \<Longrightarrow> sourced d s \<Longrightarrow> sourced d' s"
  unfolding grows_def sourced_def same_shape_def by metis

abbreviation own :: "graph_plan_item \<Rightarrow> uuid" where
  "own it \<equiv> cs_node_id (gp_source it)"

lemma apply_planned_merge_Applied:
  assumes "apply_planned_merge E L plan created locked now it d = Inr (Applied op d')"
  obtains source t where "node_by_id d (own it) = Some source" "apply_planned_logical_merge E L plan it source t now d = Inr (op, d')"
    "gp_applied_action it = MERGE"
  using assms by (auto simp: apply_planned_merge_def rbind_Inr_iff split: recommendation_type.splits option.splits if_splits)

lemma apply_planned_merge_NotApplied:
  "apply_planned_merge E L plan created locked now it d = Inr NotApplied \<Longrightarrow> gp_applied_action it = MERGE \<Longrightarrow> gp_target_node_id it = None"
  by (auto simp: apply_planned_merge_def rbind_Inr_iff split: option.splits if_splits)

lemma activate_step:
  assumes "pub_inv pid d0 P (pb_db p)" "own it \<in> P" "sourced (pb_db p) (gp_source it)" "cs_node_type (gp_source it) = DECISION"
    "unmerged (pb_db p) (own it)"
  shows "pub_step pid d0 P (pb_db p) (pb_db (activate (own it) p)) \<and> (\<forall>j. unmerged (pb_db p) j \<longrightarrow> unmerged (pb_db (activate (own it) p)) j)"
proof -
  let ?f = "\<lambda>n. n\<lparr>nd_graph_state := ACTIVE\<rparr>" and ?d = "pb_db (activate (own it) p)"
  from assms(3) obtain n where n: "node_by_id (pb_db p) (own it) = Some n" "nd_node_type n = DECISION" by (auto simp: sourced_def assms(4))
  have row: "one_row (own it) ?f (pb_db p) ?d" by (simp add: activate_def one_row_set_node)
  have "placed (pb_db p) n" "nd_graph_state n \<noteq> MERGED" using pub_inv_new [OF assms(1,2) n(1)] assms(5) n(1) by (simp_all add: unmerged_def)
  with n(2) have "placed ?d (?f n)" by (simp add: placed_def split: graph_state.splits)
  with n have "pub_step pid d0 P (pb_db p) ?d" by (intro pub_step_row [OF assms(1) row]) (simp_all add: activate_def same_shape_def assms(2))
  with one_row_unmerged [OF row] show ?thesis by simp
qed

lemma publish_decision_step:
  assumes step: "publish_decision E L plan created locked now it p = Inr (it', p')"
    and inv: "pub_inv (pl_project_id plan) d0 P (pb_db p)" and it: "own it \<in> P" "sourced (pb_db p) (gp_source it)" "unmerged (pb_db p) (own it)"
  shows "pub_step (pl_project_id plan) d0 P (pb_db p) (pb_db p') \<and> gp_source it' = gp_source it
    \<and> (\<forall>j. j \<noteq> own it \<longrightarrow> unmerged (pb_db p) j \<longrightarrow> unmerged (pb_db p') j) \<and> (gp_applied_action it' \<noteq> MERGE \<longrightarrow> unmerged (pb_db p') (own it))"
proof (cases "cs_node_type (gp_source it) = DECISION")
  case False
  with step inv it(3) show ?thesis by (auto simp: publish_decision_def pub_step_same)
next
  case True
  with step obtain out where out: "apply_planned_merge E L plan created locked now it (pb_db p) = Inr out"
    and rest: "(case out of Applied operation d \<Rightarrow> Inr (it, p\<lparr>pb_db := d, pb_merge_operation_ids := pb_merge_operation_ids p @ [operation]\<rparr>)
        | Refused reason \<Rightarrow> Inr (downgrade_merge reason it, activate (own it) (refuse_merge reason it p))
        | NotApplied \<Rightarrow> Inr (it, if gp_applied_action it = MERGE then p else activate (own it) p)) = (Inr (it', p') :: (graph_plan_item \<times> publication) result)"
    by (auto simp: publish_decision_def rbind_Inr_iff)
  note act = activate_step [OF _ it(1) _ True]
  show ?thesis
  proof (cases out)
    case NotApplied
    with rest have r: "it' = it" "p' = (if gp_applied_action it = MERGE then p else activate (own it) p)" by auto
    show ?thesis using act [OF inv it(2,3)] pub_step_same [OF inv refl pub_frame_refl] it(3) by (simp add: r)
  next
    case (Refused reason)
    with rest have r: "it' = downgrade_merge reason it" "p' = activate (own it) (refuse_merge reason it p)" by simp_all
    have "pb_db (refuse_merge reason it p) = pb_db p" by (simp add: refuse_merge_def)
    with act [where p = "refuse_merge reason it p" and pid = "pl_project_id plan" and ?d0.0 = d0] inv it(2,3) show ?thesis by (simp add: r downgrade_merge_def)
  next
    case (Applied op d)
    with rest have r: "it' = it" "pb_db p' = d" by auto
    from apply_planned_merge_Applied [OF out [unfolded Applied]] obtain source t where s: "node_by_id (pb_db p) (own it) = Some source"
      "apply_planned_logical_merge E L plan it source t now (pb_db p) = Inr (op, d)" "gp_applied_action it = MERGE" by blast
    then have "nd_id source = own it" by (auto dest: node_by_idD)
    with planned_merge_step [OF inv _ _ s(2)] s(1,3) it(1) show ?thesis by (simp add: r)
  qed
qed

lemma publish_decisions:
  assumes "over_items (publish_decision E L plan created locked now) its p = Inr (its', p')" "pub_inv (pl_project_id plan) d0 P (pb_db p)"
    "distinct (map own its)" "\<forall>it \<in> set its. own it \<in> P \<and> sourced (pb_db p) (gp_source it) \<and> unmerged (pb_db p) (own it)"
  shows "pub_step (pl_project_id plan) d0 P (pb_db p) (pb_db p') \<and> map gp_source its' = map gp_source its
    \<and> (\<forall>j. j \<notin> own ` set its \<longrightarrow> unmerged (pb_db p) j \<longrightarrow> unmerged (pb_db p') j)
    \<and> (\<forall>it \<in> set its'. gp_applied_action it \<noteq> MERGE \<longrightarrow> unmerged (pb_db p') (own it))"
  using assms
proof (induction its arbitrary: p its')
  case (Cons it its)
  from Cons.prems(1) obtain it1 p1 rest where st: "publish_decision E L plan created locked now it p = Inr (it1, p1)"
    "over_items (publish_decision E L plan created locked now) its p1 = Inr (rest, p')" "its' = it1 # rest" by (auto simp: rbind_Inr_iff)
  have own_it: "own it \<in> P" "sourced (pb_db p) (gp_source it)" "unmerged (pb_db p) (own it)" "own it \<notin> own ` set its"
    using Cons.prems(3,4) by auto
  from publish_decision_step [OF st(1) Cons.prems(2) own_it(1-3)] have one: "pub_step (pl_project_id plan) d0 P (pb_db p) (pb_db p1)"
      "gp_source it1 = gp_source it" "\<forall>j. j \<noteq> own it \<longrightarrow> unmerged (pb_db p) j \<longrightarrow> unmerged (pb_db p1) j"
      "gp_applied_action it1 \<noteq> MERGE \<longrightarrow> unmerged (pb_db p1) (own it)" by blast+
  have inv1: "pub_inv (pl_project_id plan) d0 P (pb_db p1)" and g: "grows (pb_db p) (pb_db p1)" using one(1) by (simp_all add: pub_step_def)
  have later: "\<forall>x \<in> set its. own x \<in> P \<and> sourced (pb_db p1) (gp_source x) \<and> unmerged (pb_db p1) (own x)"
    using Cons.prems(4) own_it(4) one(3) sourced_grows [OF g] by (metis image_eqI list.set_intros(2))
  from Cons.IH [OF st(2) inv1 _ later] Cons.prems(3) have ih: "pub_step (pl_project_id plan) d0 P (pb_db p1) (pb_db p')" "map gp_source rest = map gp_source its"
      "\<forall>j. j \<notin> own ` set its \<longrightarrow> unmerged (pb_db p1) j \<longrightarrow> unmerged (pb_db p') j"
      "\<forall>x \<in> set rest. gp_applied_action x \<noteq> MERGE \<longrightarrow> unmerged (pb_db p') (own x)" by auto
  show ?case using pub_step_trans [OF one(1) ih(1)] one(2-4) ih(2-4) own_it(4) st(3) by auto
qed (auto simp: pub_step_same)

lemma create_or_reactivate_relation_frame:
  "create_or_reactivate_relation pid a b t run now d = Inr (i, d') \<Longrightarrow> db_nodes d' = db_nodes d \<and> pub_frame d d'"
  by (auto simp: create_or_reactivate_relation_def relation_pair_def result_simps uuid4_def Let_def pub_frame_def split: if_splits option.splits)

text \<open>A source row that is not merged becomes ACTIVE under the parent \<open>q\<close>.\<close>

lemma link_row_step:
  assumes inv: "pub_inv pid d0 P d" and d1: "db_nodes d1 = db_nodes d" "pub_frame d d1"
    and source: "node_by_id d i = Some source" "i \<in> P" "unmerged d i"
    and f: "\<And>n. nd_id (f n) = nd_id n" "f source = source\<lparr>nd_parent_id := q, nd_graph_state := ACTIVE\<rparr>"
    and q: "if nd_node_type source = DECISION then q = None else \<exists>m. q = Some (nd_id m) \<and> node_by_id d (nd_id m) = Some m \<and> valid_link_parent source m
        \<and> nd_project_id m = pid \<and> nd_deleted_at m = None"
  shows "pub_step pid d0 P d (set_node i f d1) \<and> (\<forall>j. unmerged d j \<longrightarrow> unmerged (set_node i f d1) j)"
proof -
  have look: "node_by_id d1 = node_by_id d" using d1(1) by (simp add: node_by_id_def fun_eq_iff)
  have row: "one_row i f d (set_node i f d1)" using d1(1) by (auto simp: one_row_def f(1) node_by_id_set_node look)
  note new = pub_inv_new [OF inv source(2,1)]
  have "nd_id source = i" using source(1) by (auto dest: node_by_idD)
  have "placed (set_node i f d1) (f source)"
  proof (cases "nd_node_type source = DECISION")
    case True
    with new q source(1,3) show ?thesis by (auto simp: placed_def f(2) unmerged_def split: graph_state.splits)
  next
    case False
    with q obtain m where m: "q = Some (nd_id m)" "node_by_id d (nd_id m) = Some m" "valid_link_parent source m" "nd_project_id m = pid" "nd_deleted_at m = None"
      by auto
    then have "node_by_id (set_node i f d1) (nd_id m) = Some m" using row \<open>nd_id source = i\<close> by (simp add: one_row_def valid_link_parent_def)
    with m new False source(1,3) show ?thesis
      by (auto simp: placed_def f(2) unmerged_def attached_def valid_link_parent_def split: graph_state.splits)
  qed
  then have "pub_step pid d0 P d (set_node i f d1)"
    by (intro pub_step_row [OF inv row]) (use d1(2) source(1,2) in \<open>auto simp: f(2) same_shape_def pub_frame_def\<close>)
  moreover have "unmerged (set_node i f d1) j" if "unmerged d j" for j
    by (rule one_row_unmerged [OF row _ that]) (use source(1) in \<open>simp add: f(2)\<close>)
  ultimately show ?thesis by blast
qed

lemma publish_linkE:
  assumes "publish_link plan created locked now it p = Inr (it', p')"
  obtains (same) "pb_db p' = pb_db p" "gp_source it' = gp_source it"
  | (attached) source t c i d1 where "node_by_id (pb_db p) (own it) = Some source" "resolve_canonical_node (pb_db p) (pl_project_id plan) t None = Inr c"
      "valid_link_parent source c" "create_or_reactivate_relation (pl_project_id plan) (nd_id source) t ATTACHED_TO (pl_generation_run_id plan) now (pb_db p) = Inr (i, d1)"
      "pb_db p' = set_node (nd_id source) (\<lambda>n. n\<lparr>nd_parent_id := Some (nd_id c), nd_graph_state := ACTIVE\<rparr>) d1" "it' = it" "gp_applied_action it = LINK"
  | (related) source t r i d1 where "node_by_id (pb_db p) (own it) = Some source"
      "create_or_reactivate_relation (pl_project_id plan) (nd_id source) t r (pl_generation_run_id plan) now (pb_db p) = Inr (i, d1)"
      "pb_db p' = (if nd_node_type source = DECISION then set_node (nd_id source) (\<lambda>n. n\<lparr>nd_graph_state := ACTIVE\<rparr>) d1 else d1)" "it' = it"
      "gp_applied_action it = LINK"
proof -
  consider "gp_applied_action it \<noteq> LINK \<or> gp_target_node_id it = None" | t where "gp_applied_action it = LINK" "gp_target_node_id it = Some t"
    by (cases "gp_target_node_id it") auto
  then show thesis
  proof cases
    case 1
    with assms same show thesis by (auto simp: publish_link_def split: recommendation_type.splits option.splits)
  next
    case 2
    from assms 2 obtain source where s: "node_by_id (pb_db p) (own it) = Some source" by (auto simp: publish_link_def split: option.splits)
    show thesis
    proof (cases "session_node created locked (pb_db p) t")
      case None
      with assms 2 s have "pb_db p' = pb_db p \<and> gp_source it' = gp_source it" by (auto simp: publish_link_def drop_link_def warn_def)
      with same show thesis by blast
    next
      case (Some target)
      note defs = publish_link_def 2 s Some option.case recommendation_type.case prod.case
      show thesis
      proof (cases "gp_target_node_version it \<noteq> None \<and> t \<notin> set created \<and> Some (nd_version target) \<noteq> gp_target_node_version it")
        case True
        with assms have "pb_db p' = pb_db p \<and> gp_source it' = gp_source it" by (auto simp: defs drop_link_def warn_def)
        with same show thesis by blast
      next
        case False
        with assms obtain c where c: "resolve_canonical_node (pb_db p) (pl_project_id plan) (nd_id target) None = Inr c" by (auto simp: defs rbind_Inr_iff)
        show thesis
        proof (cases "gp_relation_type it = Some ATTACHED_TO")
          case att: True
          show thesis
          proof (cases "valid_link_parent source c")
            case False
            with assms att c \<open>\<not> (_ \<and> _ \<and> _)\<close> have "pb_db p' = pb_db p \<and> gp_source it' = gp_source it" by (auto simp: defs warn_def)
            with same show thesis by blast
          next
            case True
            with assms att c \<open>\<not> (_ \<and> _ \<and> _)\<close> obtain i d1 where
                "create_or_reactivate_relation (pl_project_id plan) (nd_id source) (nd_id target) ATTACHED_TO (pl_generation_run_id plan) now (pb_db p) = Inr (i, d1)"
                "it' = it" "p' = linked_publication i (set_node (nd_id source) (\<lambda>n. n\<lparr>nd_parent_id := Some (nd_id c), nd_graph_state := ACTIVE\<rparr>) d1) p"
              by (auto simp: defs rbind_Inr_iff)
            with attached [OF s c True] 2 show thesis by (simp add: linked_publication_def)
          qed
        next
          case other: False
          with assms c False obtain r i d1 where
              "create_or_reactivate_relation (pl_project_id plan) (nd_id source) (nd_id target) r (pl_generation_run_id plan) now (pb_db p) = Inr (i, d1)"
              "it' = it" "p' = linked_publication i (if nd_node_type source = DECISION then set_node (nd_id source) (\<lambda>n. n\<lparr>nd_graph_state := ACTIVE\<rparr>) d1 else d1) p"
            by (auto simp: defs rbind_Inr_iff)
          with related [OF s] 2 show thesis by (simp add: linked_publication_def)
        qed
      qed
    qed
  qed
qed

lemma publish_link_step:
  assumes step: "publish_link plan created locked now it p = Inr (it', p')"
    and inv: "pub_inv (pl_project_id plan) d0 P (pb_db p)" and it: "own it \<in> P" "gp_applied_action it \<noteq> MERGE \<longrightarrow> unmerged (pb_db p) (own it)"
  shows "pub_step (pl_project_id plan) d0 P (pb_db p) (pb_db p') \<and> gp_source it' = gp_source it \<and> (\<forall>j. unmerged (pb_db p) j \<longrightarrow> unmerged (pb_db p') j)"
  using step
proof (cases rule: publish_linkE)
  case same
  then show ?thesis using pub_step_same [OF inv refl pub_frame_refl] by simp
next
  case (attached source t c i d1)
  have un: "unmerged (pb_db p) (own it)" using it(2) attached(7) by simp
  have i: "nd_id source = own it" using attached(1) by (auto dest: node_by_idD)
  note c = resolved_node(1-3) [OF pub_inv_unique [OF inv] attached(2)] and fr = create_or_reactivate_relation_frame [OF attached(4)]
  have "nd_node_type source \<noteq> DECISION" using attached(3) by (auto simp: valid_link_parent_def link_parents_def)
  then have "pub_step (pl_project_id plan) d0 P (pb_db p) (pb_db p') \<and> (\<forall>j. unmerged (pb_db p) j \<longrightarrow> unmerged (pb_db p') j)"
    unfolding attached(5) i using fr c attached(1,3) it(1) un
    by (intro link_row_step [OF inv, where source = source and q = "Some (nd_id c)"]) auto
  then show ?thesis using attached(6) by simp
next
  case (related source t r i d1)
  have un: "unmerged (pb_db p) (own it)" using it(2) related(5) by simp
  have i: "nd_id source = own it" using related(1) by (auto dest: node_by_idD)
  note fr = create_or_reactivate_relation_frame [OF related(2)]
  have "pub_step (pl_project_id plan) d0 P (pb_db p) (pb_db p') \<and> (\<forall>j. unmerged (pb_db p) j \<longrightarrow> unmerged (pb_db p') j)"
  proof (cases "nd_node_type source = DECISION")
    case False
    with related(3) fr pub_step_same [OF inv, of d1] show ?thesis by (simp add: unmerged_def node_by_id_def)
  next
    case True
    then have "nd_parent_id source = None"
      using pub_inv_new [OF inv it(1) related(1)] un related(1) by (simp add: placed_def unmerged_def split: graph_state.splits)
    with True fr related(1,3) it(1) un show ?thesis
      unfolding i by (simp, intro link_row_step [OF inv, where source = source and q = None]) auto
  qed
  then show ?thesis using related(4) by simp
qed

lemma publish_links:
  assumes "over_items (publish_link plan created locked now) its p = Inr (its', p')" "pub_inv (pl_project_id plan) d0 P (pb_db p)"
    "\<forall>it \<in> set its. own it \<in> P \<and> (gp_applied_action it \<noteq> MERGE \<longrightarrow> unmerged (pb_db p) (own it))"
  shows "pub_step (pl_project_id plan) d0 P (pb_db p) (pb_db p') \<and> map gp_source its' = map gp_source its"
  using assms
proof (induction its arbitrary: p its')
  case (Cons it its)
  from Cons.prems(1) obtain it1 p1 rest where st: "publish_link plan created locked now it p = Inr (it1, p1)"
    "over_items (publish_link plan created locked now) its p1 = Inr (rest, p')" "its' = it1 # rest" by (auto simp: rbind_Inr_iff)
  have "own it \<in> P" "gp_applied_action it \<noteq> MERGE \<longrightarrow> unmerged (pb_db p) (own it)" using Cons.prems(3) by simp_all
  from publish_link_step [OF st(1) Cons.prems(2) this] have one: "pub_step (pl_project_id plan) d0 P (pb_db p) (pb_db p1)" "gp_source it1 = gp_source it"
      "\<forall>j. unmerged (pb_db p) j \<longrightarrow> unmerged (pb_db p1) j" by blast+
  have "pub_inv (pl_project_id plan) d0 P (pb_db p1)" using one(1) by (simp add: pub_step_def)
  moreover have "\<forall>x \<in> set its. own x \<in> P \<and> (gp_applied_action x \<noteq> MERGE \<longrightarrow> unmerged (pb_db p1) (own x))" using Cons.prems(3) one(3) by simp
  ultimately have "pub_step (pl_project_id plan) d0 P (pb_db p1) (pb_db p') \<and> map gp_source rest = map gp_source its" by (rule Cons.IH [OF st(2)])
  with one(1,2) st(3) show ?case by (auto intro: pub_step_trans)
qed (auto simp: pub_step_same)

section \<open>The dependent merges\<close>

lemma own_downgrade [simp]: "own (downgrade_merge reason it) = own it"
  by (simp add: downgrade_merge_def)

lemma own_replace_item: "map own (replace_item it items) = map own items"
  by (induction items) (auto simp: replace_item_def)

lemma pb_db_refuse [simp]: "pb_db (refuse_merge reason it p) = pb_db p"
  by (simp add: refuse_merge_def)

definition members :: "(graph_plan_item \<Rightarrow> bool) \<Rightarrow> merge_group list \<Rightarrow> bool" where
  "members R gs \<longleftrightarrow> (\<forall>g \<in> set gs. \<forall>m \<in> set (snd g). R (fst m))"

lemma members_add: "members R gs \<Longrightarrow> R it \<Longrightarrow> members R (add_member c (it, t) gs)"
  by (induction c "(it, t)" gs rule: add_member.induct) (auto simp: members_def)

lemma prepare_ok:
  assumes "prepare_dependent_merge_groups plan created locked its groups items p = Inr (gs, items', p')"
    "\<forall>it \<in> set its. R it" "members R groups"
  shows "members R gs \<and> pb_db p' = pb_db p \<and> map own items' = map own items"
  using assms
proof (induction its arbitrary: groups items p)
  case Nil
  then show ?case by (auto simp: members_def)
next
  case (Cons it its)
  from Cons.prems(1) obtain v where v: "member_verdict_of plan created locked (pb_db p) it = Inr v"
    "(case v of
         Joins canonical target \<Rightarrow> prepare_dependent_merge_groups plan created locked its (add_member canonical (it, target) groups) items p
       | AlreadyMerged \<Rightarrow> prepare_dependent_merge_groups plan created locked its groups items p
       | Downgraded reason \<Rightarrow>
           prepare_dependent_merge_groups plan created locked its groups (replace_item (downgrade_merge reason it) items) (refuse_merge reason it p))
      = Inr (gs, items', p')"
    by (auto simp: rbind_Inr_iff)
  have R: "\<forall>x \<in> set its. R x" "R it" using Cons.prems(2) by simp_all
  show ?case
  proof (cases v)
    case (Joins c t)
    with v(2) Cons.IH [OF _ R(1) members_add [OF Cons.prems(3) R(2)]] show ?thesis by simp
  next
    case AlreadyMerged
    with v(2) Cons.IH [OF _ R(1) Cons.prems(3)] show ?thesis by simp
  next
    case (Downgraded reason)
    with v(2) Cons.IH [OF _ R(1) Cons.prems(3)] show ?thesis by (fastforce simp: own_replace_item)
  qed
qed

lemma accept_ok:
  assumes "accept_members plan c tp ms items p = Inr (acc, items', p')" "\<forall>m \<in> set ms. R (fst m)"
  shows "(\<forall>m \<in> set acc. R (fst m)) \<and> pb_db p' = pb_db p \<and> map own items' = map own items"
  using assms
proof (induction ms arbitrary: items p acc)
  case (Cons m ms)
  obtain it t where m: "m = (it, t)" by fastforce
  from Cons.prems(1) m obtain gate where g: "(case gate of
         Some reason \<Rightarrow> accept_members plan c tp ms (replace_item (downgrade_merge reason it) items) (refuse_merge reason it p)
       | None \<Rightarrow> rbind (accept_members plan c tp ms items p) (\<lambda>(accepted, rest). Inr ((it, t) # accepted, rest))) = Inr (acc, items', p')"
    by (auto simp: rbind_Inr_iff)
  show ?case
  proof (cases gate)
    case None
    with g obtain acc1 where a: "accept_members plan c tp ms items p = Inr (acc1, items', p')" "acc = (it, t) # acc1" by (auto simp: rbind_Inr_iff)
    with Cons.IH [OF a(1)] Cons.prems(2) m show ?thesis by simp
  next
    case (Some reason)
    with g Cons.IH [of "replace_item (downgrade_merge reason it) items" "refuse_merge reason it p" acc] Cons.prems(2)
    show ?thesis by (simp add: own_replace_item)
  qed
qed simp

lemma merge_members_step:
  assumes "merge_members E L plan now ms p = Inr p'" "pub_inv (pl_project_id plan) d0 P (pb_db p)" "\<forall>m \<in> set ms. own (fst m) \<in> P"
  shows "pub_step (pl_project_id plan) d0 P (pb_db p) (pb_db p')"
  using assms
proof (induction ms arbitrary: p)
  case Nil
  then show ?case by (simp add: pub_step_same)
next
  case (Cons m ms)
  obtain it t where m: "m = (it, t)" by fastforce
  from Cons.prems(1) m obtain source op d where s: "node_by_id (pb_db p) (own it) = Some source"
    "apply_planned_logical_merge E L plan it source t now (pb_db p) = Inr (op, d)"
    "merge_members E L plan now ms (p\<lparr>pb_db := d, pb_merge_operation_ids := pb_merge_operation_ids p @ [op]\<rparr>) = Inr p'"
    by (auto simp: rbind_Inr_iff split: option.splits)
  have "nd_id source = own it" using s(1) by (auto dest: node_by_idD)
  with planned_merge_step [OF Cons.prems(2) _ _ s(2)] s(1) Cons.prems(3) m
  have one: "pub_step (pl_project_id plan) d0 P (pb_db p) d" by simp
  then have "pub_inv (pl_project_id plan) d0 P d" by (simp add: pub_step_def)
  with Cons.IH [OF s(3)] Cons.prems(3) have "pub_step (pl_project_id plan) d0 P d (pb_db p')" by simp
  with one show ?case by (rule pub_step_trans)
qed

lemma apply_merge_groups_step:
  assumes "apply_merge_groups E L plan now gs items p = Inr (items', p')" "pub_inv (pl_project_id plan) d0 P (pb_db p)"
    "members (\<lambda>it. own it \<in> P) gs"
  shows "pub_step (pl_project_id plan) d0 P (pb_db p) (pb_db p') \<and> map own items' = map own items"
  using assms
proof (induction gs arbitrary: items p)
  case Nil
  then show ?case by (simp add: pub_step_same)
next
  case (Cons g gs)
  obtain c ms where g: "g = (c, ms)" by fastforce
  from Cons.prems(1) g obtain canonical tp acc items1 p1 p2 where st:
    "accept_members plan canonical tp (sort_key (merge_item_order_key \<circ> fst) ms) items p = Inr (acc, items1, p1)"
    "merge_members E L plan now acc p1 = Inr p2" "apply_merge_groups E L plan now gs items1 p2 = Inr (items', p')"
    by (simp add: rbind_Inr_iff split: option.splits) blast
  have R: "\<forall>m \<in> set ms. own (fst m) \<in> P" "members (\<lambda>it. own it \<in> P) gs" using Cons.prems(3) g by (simp_all add: members_def)
  from accept_ok [OF st(1), of "\<lambda>it. own it \<in> P"] R(1) have acc: "\<forall>m \<in> set acc. own (fst m) \<in> P" "pb_db p1 = pb_db p" "map own items1 = map own items"
    by simp_all
  have one: "pub_step (pl_project_id plan) d0 P (pb_db p) (pb_db p2)" using merge_members_step [OF st(2) _ acc(1)] Cons.prems(2) acc(2) by simp
  then have "pub_inv (pl_project_id plan) d0 P (pb_db p2)" by (simp add: pub_step_def)
  from Cons.IH [OF st(3) this R(2)] pub_step_trans [OF one] acc(3) show ?case by simp
qed

lemma dependent_merges_step:
  assumes "apply_dependent_merge_groups E L plan created locked now items p = Inr (items', p')" "pub_inv (pl_project_id plan) d0 P (pb_db p)"
    "\<forall>it \<in> set items. own it \<in> P"
  shows "pub_step (pl_project_id plan) d0 P (pb_db p) (pb_db p') \<and> map own items' = map own items"
proof -
  from assms(1) obtain gs items1 p1 where st: "prepare_dependent_merge_groups plan created locked (dependent_merges items) [] items p = Inr (gs, items1, p1)"
    "apply_merge_groups E L plan now gs items1 p1 = Inr (items', p')" by (auto simp: apply_dependent_merge_groups_def rbind_Inr_iff)
  have "\<forall>it \<in> set (dependent_merges items). own it \<in> P" using assms(3) by (simp add: dependent_merges_def)
  from prepare_ok [OF st(1) this] have "members (\<lambda>it. own it \<in> P) gs" "pb_db p1 = pb_db p" "map own items1 = map own items"
    by (simp_all add: members_def)
  with apply_merge_groups_step [OF st(2)] assms(2) show ?thesis by simp
qed

end
