(* ===== verification/Publish_Safety.thy ===== *)
theory Publish_Safety
  imports Publish_Invariant
begin

text \<open>
  The whole publication of \<open>pipeline/automatic_graph.py\<close>: the invariant of theory \<open>Publish_Invariant\<close> from the insertion of the nodes to the
  announcement of the graph, and the properties of \<open>apply_graph_mutation_plan\<close> that follow from it: it publishes once, it leaves the existing
  graph in place, and it puts every new node in a place that the rules allow.
\<close>

section \<open>The insertion of the nodes\<close>

lemma pub_inv_start: "nodes_unique d \<Longrightarrow> pub_inv pid d {} d"
  by (simp add: pub_inv_def)

lemma pub_inv_insert:
  assumes inv: "pub_inv pid d0 P d" and n: "nd_id n \<notin> nd_id ` set (db_nodes d)" "nd_project_id n = pid" "nd_deleted_at n = None"
      "nd_graph_state n = UNATTACHED" "nd_parent_id n = None" "nd_merged_into_node_id n = None"
    and d': "db_nodes d' = db_nodes d @ [n]"
  shows "pub_inv pid d0 (insert (nd_id n) P) d' \<and> grows d d' \<and> (\<forall>j. node_by_id d' j = (if j = nd_id n then Some n else node_by_id d j))"
proof -
  have look: "node_by_id d' j = (if j = nd_id n then Some n else node_by_id d j)" for j
    using find_key_append [of nd_id n "db_nodes d" j] n(1) by (auto simp: node_by_id_def d')
  have none: "node_by_id d (nd_id n) = None" using n(1) by (simp add: node_by_id_None)
  with inv have none0: "node_by_id d0 (nd_id n) = None" unfolding pub_inv_def by metis
  have g: "grows d d'" using none by (auto simp: grows_def look)
  have "placed d' m \<and> nd_project_id m = pid \<and> nd_deleted_at m = None" if "j \<in> insert (nd_id n) P" "node_by_id d' j = Some m" for j m
  proof (cases "j = nd_id n")
    case True
    with that(2) look n show ?thesis by (auto simp: placed_def)
  next
    case False
    with that look pub_inv_new [OF inv, of j m] placed_grows [OF g _ same_place_refl] show ?thesis by auto
  qed
  moreover have "\<exists>m'. node_by_id d' j = Some m' \<and> kept m m'" if m: "node_by_id d0 j = Some m" for j m
    using pub_inv_old [OF inv m] none0 m by (auto simp: look)
  moreover have "nodes_unique d'" using pub_inv_unique [OF inv] n(1) by (simp add: d')
  moreover have "node_by_id d' j \<noteq> None \<longleftrightarrow> node_by_id d0 j \<noteq> None \<or> j \<in> insert (nd_id n) P" for j
    using inv look [of j] unfolding pub_inv_def by auto
  moreover have "\<forall>j \<in> insert (nd_id n) P. node_by_id d0 j = None" using inv none0 unfolding pub_inv_def by auto
  ultimately show ?thesis using g look unfolding pub_inv_def by blast
qed

lemma insert_planned_node_step:
  assumes step: "insert_planned_node L R plan it now d = Inr d'" and inv: "pub_inv (pl_project_id plan) d0 P d"
  shows "pub_step (pl_project_id plan) d0 (insert (own it) P) d d' \<and> sourced d' (gp_source it) \<and> unmerged d' (own it)
    \<and> node_by_id d (own it) = None \<and> (\<forall>j. j \<noteq> own it \<longrightarrow> node_by_id d' j = node_by_id d j)"
proof -
  let ?pid = "pl_project_id plan" and ?n = "planned_node plan (gp_source it) now"
  let ?d1 = "d\<lparr>db_nodes := db_nodes d @ [?n]\<rparr>"
  from step obtain r d2 where unused: "\<forall>x \<in> set (db_nodes d). nd_id x \<noteq> own it"
    and c: "create_node_revision L ?n (system_revision_args (cs_title (gp_source it)) (cs_content (gp_source it)) (cs_node_type (gp_source it))
        (cs_category (gp_source it)) (cs_due_date (gp_source it)) (pl_generation_run_id plan) (cs_evidence (gp_source it))) now ?d1 = Inr (r, d2)"
    and d': "db_nodes d' = db_nodes d2" "pub_frame d2 d'"
    by (cases "gp_embedding it") (auto simp: insert_planned_node_def Let_def result_simps pub_frame_def)
  then have new: "own it \<notin> nd_id ` set (db_nodes d)" by auto
  have n: "nd_id ?n = own it" "nd_project_id ?n = ?pid" "nd_deleted_at ?n = None" "nd_graph_state ?n = UNATTACHED" "nd_parent_id ?n = None"
    "nd_merged_into_node_id ?n = None" "nd_node_type ?n = cs_node_type (gp_source it)" "nd_category ?n = cs_category (gp_source it)"
    by (simp_all add: planned_node_def)
  have ins: "pub_inv ?pid d0 (insert (own it) P) ?d1" "grows d ?d1" "\<forall>j. node_by_id ?d1 j = (if j = own it then Some ?n else node_by_id d j)"
    using pub_inv_insert [OF inv, of ?n ?d1] new n by simp_all
  from create_node_revision_row [OF c] n obtain f where f: "one_row (own it) f ?d1 d2" "pub_frame ?d1 d2" "same_place ?n (f ?n)"
    by (fastforce simp: system_revision_args_def same_place_def same_shape_def)
  have row: "node_by_id ?d1 (own it) = Some ?n" using ins(3) by simp
  have "placed d2 (f ?n)"
    by (rule placed_grows [OF one_row_grows [OF f(1)] _ f(3)]) (use pub_inv_new [OF ins(1) _ row] row f(3) in \<open>auto simp: same_place_def\<close>)
  then have "pub_step ?pid d0 (insert (own it) P) ?d1 d2"
    by (intro pub_step_row [OF ins(1) f(1,2)]) (use row f(3) in \<open>auto simp: same_place_def\<close>)
  moreover from this have "pub_step ?pid d0 (insert (own it) P) d2 d'" by (intro pub_step_same) (simp_all add: pub_step_def d')
  ultimately have st: "pub_step ?pid d0 (insert (own it) P) ?d1 d'" by (rule pub_step_trans)
  have "pub_frame d ?d1" by (simp add: pub_frame_def)
  with st ins(2) have "pub_step ?pid d0 (insert (own it) P) d d'" unfolding pub_step_def using grows_trans pub_frame_trans by blast
  moreover have look: "node_by_id d' j = (if j = own it then Some (f ?n) else node_by_id d j)" for j
    using f(1) ins(3) row d'(1) by (simp add: one_row_def node_by_id_def)
  moreover have "node_by_id d (own it) = None" using new by (simp add: node_by_id_None)
  ultimately show ?thesis using f(3) n by (simp add: sourced_def unmerged_def same_place_def same_shape_def)
qed

lemma insert_planned_nodes_step:
  assumes "insert_planned_nodes L R plan its now d = Inr d'" "pub_inv (pl_project_id plan) d0 P d"
  shows "pub_inv (pl_project_id plan) d0 (own ` set its \<union> P) d' \<and> pub_frame d d' \<and> distinct (map own its)
    \<and> (\<forall>it \<in> set its. sourced d' (gp_source it) \<and> unmerged d' (own it))
    \<and> (\<forall>it \<in> set its. node_by_id d (own it) = None) \<and> (\<forall>j. j \<notin> own ` set its \<longrightarrow> node_by_id d' j = node_by_id d j)"
  using assms
proof (induction its arbitrary: d P)
  case (Cons it its)
  from Cons.prems(1) obtain d1 where st: "insert_planned_node L R plan it now d = Inr d1" "insert_planned_nodes L R plan its now d1 = Inr d'"
    by (auto simp: rbind_Inr_iff)
  note one = insert_planned_node_step [OF st(1) Cons.prems(2)]
  then have "pub_inv (pl_project_id plan) d0 (insert (own it) P) d1" by (simp add: pub_step_def)
  note ih = Cons.IH [OF st(2) this]
  have here: "node_by_id d1 (own it) \<noteq> None" using one by (auto simp: sourced_def)
  with ih have fresh: "own it \<notin> own ` set its" by auto
  with ih one have "sourced d' (gp_source it) \<and> unmerged d' (own it)" by (simp add: sourced_def unmerged_def)
  moreover have "node_by_id d (own x) = None" if "x \<in> set its" for x
    using ih one fresh that by (metis image_eqI)
  moreover have "pub_frame d d'" using ih one pub_frame_trans by (auto simp: pub_step_def)
  ultimately show ?case using ih one fresh by (auto simp: insert_commute)
qed simp

section \<open>Traces and the end\<close>

lemma add_retrieval_results_tables [simp]:
  "db_nodes (add_retrieval_results run now rows d) = db_nodes d"
  "db_generation_runs (add_retrieval_results run now rows d) = db_generation_runs d"
  "db_graph_states (add_retrieval_results run now rows d) = db_graph_states d"
  "db_commands (add_retrieval_results run now rows d) = db_commands d"
  by (induction rows arbitrary: d) (auto simp: uuid4_def Let_def)

lemma persist_trace_step:
  assumes step: "persist_analysis_trace L R pid model label it now d = Inr d'" and inv: "pub_inv pid0 d0 P d" and it: "own it \<in> P"
  shows "pub_step pid0 d0 P d d'"
proof -
  define f where "f = (\<lambda>n::node. n\<lparr>nd_current_analysis_run_id := Some (db_next_uuid d), nd_analysis_input_hash := Some (analysis_input_hash L R it),
      nd_analysis_status := AS_ANALYZED\<rparr>)"
  have f: "same_place n (f n)" for n by (simp add: f_def same_place_def same_shape_def)
  from step obtain d2 where d': "d' = set_node (own it) f d2" and d2: "db_nodes d2 = db_nodes d" "pub_frame d d2"
    by (cases "gp_decision it") (auto simp: persist_analysis_trace_def Let_def uuid4_def rguard_Inr_iff pub_frame_def f_def)
  have inv2: "pub_inv pid0 d0 P d2" by (rule pub_inv_same [OF inv d2(1)])
  have row: "one_row (own it) f d2 d'" unfolding d' by (rule one_row_set_node) (use f in \<open>simp add: same_place_def same_shape_def\<close>)
  have g: "grows d2 d'" by (rule one_row_grows [OF row]) (use f in \<open>auto simp: same_place_def\<close>)
  have "placed d' (f n)" if "node_by_id d2 (own it) = Some n" for n
    using placed_grows [OF g _ f] pub_inv_new [OF inv2 it that] by blast
  then have "pub_step pid0 d0 P d2 d'"
    by (intro pub_step_row [OF inv2 row]) (use f it in \<open>auto simp: same_place_def d'\<close>)
  moreover have "pub_step pid0 d0 P d d2" by (rule pub_step_same [OF inv d2])
  ultimately show ?thesis by (blast intro: pub_step_trans)
qed

lemma trace_items_step:
  assumes "trace_items L R label plan its now d = Inr d'" "pub_inv pid0 d0 P d" "\<forall>it \<in> set its. own it \<in> P"
  shows "pub_step pid0 d0 P d d'"
  using assms
proof (induction its arbitrary: d)
  case (Cons it its)
  from Cons.prems(1) obtain d1 d2 where st: "persist_analysis_trace L R (pl_project_id plan) (pl_provider_model plan) label it now d = Inr d1"
    "settle_candidate (pl_project_id plan) (cs_candidate_id (gp_source it)) (own it) now d1 = Inr d2" "trace_items L R label plan its now d2 = Inr d'"
    by (auto simp: rbind_Inr_iff)
  have one: "pub_step pid0 d0 P d d1" using persist_trace_step [OF st(1) Cons.prems(2)] Cons.prems(3) by simp
  have "pub_inv pid0 d0 P d1" using one by (simp add: pub_step_def)
  then have two: "pub_step pid0 d0 P d1 d2" by (rule pub_step_same) (use st(2) in \<open>auto simp: settle_candidate_def rbind_Inr_iff pub_frame_def\<close>)
  then have "pub_inv pid0 d0 P d2" by (simp add: pub_step_def)
  with Cons.IH [OF st(3)] Cons.prems(3) have "pub_step pid0 d0 P d2 d'" by simp
  with one two show ?case by (blast intro: pub_step_trans)
qed (simp add: pub_step_same)

section \<open>The whole publication\<close>

lemma own_map: "map gp_source xs = map gp_source ys \<Longrightarrow> map own xs = map own ys"
  by (drule arg_cong [where f = "map cs_node_id"]) (simp add: o_def)

lemma publish_graph_ok:
  assumes "publish_graph E L R plan locked now d = Inr (items, p)" "nodes_unique d" "P = own ` set (pl_items plan)"
  shows "pub_inv (pl_project_id plan) d P (pb_db p) \<and> pub_frame d (pb_db p) \<and> own ` set items = P
    \<and> (\<forall>it \<in> set (pl_items plan). sourced (pb_db p) (gp_source it))"
proof -
  let ?pid = "pl_project_id plan" and ?created = "map own (pl_items plan)"
  from assms(1) obtain d1 items1 p1 items2 p2 where st: "insert_planned_nodes L R plan (pl_items plan) now d = Inr d1"
    "over_items (publish_decision E L plan ?created locked now) (pl_items plan)
       \<lparr>pb_db = d1, pb_warnings = pl_warnings plan, pb_relation_ids = [], pb_merge_operation_ids = []\<rparr> = Inr (items1, p1)"
    "over_items (publish_link plan ?created locked now) items1 p1 = Inr (items2, p2)"
    "apply_dependent_merge_groups E L plan ?created locked now items2 p2 = Inr (items, p)"
    by (auto simp: publish_graph_def Let_def rbind_Inr_iff)
  from insert_planned_nodes_step [OF st(1) pub_inv_start [OF assms(2)]]
  have ins: "pub_inv ?pid d P d1" "pub_frame d d1" "distinct (map own (pl_items plan))"
      "\<forall>it \<in> set (pl_items plan). own it \<in> P \<and> sourced d1 (gp_source it) \<and> unmerged d1 (own it)"
    by (simp_all add: assms(3))
  have one: "pub_step ?pid d P d1 (pb_db p1)" "map gp_source items1 = map gp_source (pl_items plan)"
      "\<forall>it \<in> set items1. gp_applied_action it \<noteq> MERGE \<longrightarrow> unmerged (pb_db p1) (own it)"
    using publish_decisions [OF st(2)] ins(1,3,4) by simp_all
  then have own1: "map own items1 = map own (pl_items plan)" using own_map by blast
  then have P1: "\<forall>it \<in> set items1. own it \<in> P \<and> (gp_applied_action it \<noteq> MERGE \<longrightarrow> unmerged (pb_db p1) (own it))"
    using one(3) assms(3) by (metis image_eqI list.set_map)
  have inv1: "pub_inv ?pid d P (pb_db p1)" using one(1) by (simp add: pub_step_def)
  from publish_links [OF st(3) inv1 P1] have two: "pub_step ?pid d P (pb_db p1) (pb_db p2)" "map gp_source items2 = map gp_source items1" by simp_all
  then have own2: "map own items2 = map own (pl_items plan)" using own1 own_map by metis
  then have P2: "\<forall>it \<in> set items2. own it \<in> P" using assms(3) by (metis image_eqI list.set_map)
  have inv2: "pub_inv ?pid d P (pb_db p2)" using two(1) by (simp add: pub_step_def)
  from dependent_merges_step [OF st(4) inv2 P2] have three: "pub_step ?pid d P (pb_db p2) (pb_db p)" "map own items = map own items2" by simp_all
  have all: "pub_step ?pid d P d1 (pb_db p)" using pub_step_trans [OF pub_step_trans [OF one(1) two(1)] three(1)] .
  have "own ` set items = P" using three(2) own2 assms(3) by (metis list.set_map)
  with all ins(2,4) show ?thesis unfolding pub_step_def using sourced_grows pub_frame_trans by blast
qed

lemma delivery_or_start_frame: "delivery_or_start pid mid now d = Inr (s, d') \<Longrightarrow>
    db_nodes d' = db_nodes d \<and> db_generation_runs d' = db_generation_runs d \<and> db_graph_states d' = db_graph_states d"
  by (auto simp: delivery_or_start_def stage_analysis_processing_def stage_analysis_event_def stage_v1_def put_delivery_def result_simps Let_def
      split: option.splits if_splits)

lemma try_complete_frame: "try_complete_analysis pid mid now d = Inr (s, d') \<Longrightarrow>
    db_nodes d' = db_nodes d \<and> db_generation_runs d' = db_generation_runs d \<and> db_graph_states d' = db_graph_states d"
  by (auto simp: try_complete_analysis_def stage_analysis_event_def stage_v1_def put_delivery_def result_simps Let_def
      split: option.splits if_splits)

lemma mark_graph_ready_frame: "mark_graph_ready pid mid v now d = Inr d' \<Longrightarrow>
    db_nodes d' = db_nodes d \<and> db_generation_runs d' = db_generation_runs d \<and> db_graph_states d' = db_graph_states d"
  by (auto simp: mark_graph_ready_def rbind_Inr_iff put_delivery_def dest!: delivery_or_start_frame try_complete_frame)

lemma graph_version_cong: "db_graph_states d' = db_graph_states d \<Longrightarrow> graph_version_of d' = graph_version_of d"
  by (intro ext) (simp add: graph_version_of_def)

lemma stage_project_graph_changed_version:
  "stage_project_graph_changed pid ups dels now d = Inr ((e, v), d') \<Longrightarrow> graph_states_unique d \<Longrightarrow> v = graph_version_of d pid + 1"
  using bump_graph_version_ok [of d pid now "fst (bump_graph_version pid now d)" "snd (bump_graph_version pid now d)"] by (auto simp: stage_project_graph_changed_def Let_def result_simps split_beta)

lemma announce_graph_ok:
  assumes "announce_graph L plan status summary warnings touched now d = Inr (v, d')" "graph_states_unique d"
  shows "db_nodes d' = db_nodes d \<and> db_generation_runs d' = db_generation_runs d \<and> v = graph_version_of d (pl_project_id plan) + 1
    \<and> graph_version_of d' = (graph_version_of d)(pl_project_id plan := v)"
proof -
  let ?pid = "pl_project_id plan"
  from assms(1) obtain c where c: "product_command d ?pid (pl_external_meeting_id plan) = Inr c" by (auto simp: announce_graph_def rbind_Inr_iff)
  show ?thesis
  proof (cases c)
    case None
    from assms(1) c None obtain a b j ups e d1 d2 where d1: "d1 = snd (stage_outbox ''GRAPH_GENERATION_COMPLETED'' ''generation_run'' a b ''auto-graph-v1'' j now d)"
      and st: "stage_project_graph_changed ?pid ups [] now d1 = Inr ((e, v), d2)" "mark_graph_ready ?pid (pl_external_meeting_id plan) v now d2 = Inr d'"
      by (simp add: announce_graph_def rbind_Inr_iff Let_def split_beta) blast
    have d1f: "db_nodes d1 = db_nodes d" "db_generation_runs d1 = db_generation_runs d" "db_graph_states d1 = db_graph_states d" by (simp_all add: d1)
    have u: "graph_states_unique d1" using assms(2) d1f(3) by simp
    show ?thesis
      using stage_project_graph_changed_frame [OF st(1) u] stage_project_graph_changed_version [OF st(1) u] mark_graph_ready_frame [OF st(2)] d1f
        graph_version_cong [OF d1f(3)] graph_version_cong [of d' d2] by simp
  next
    case (Some cmd)
    with c have pid: "mc_project_id cmd = ?pid" by (auto simp: product_command_def result_simps dest!: arg_cong [where f = set])
    from assms(1) c Some obtain e a where st: "stage_project_graph_changed_v3 L cmd None ''MEETING_ANALYSIS'' now d = Inr ((e, a, v), d')"
      by (auto simp: announce_graph_def rbind_Inr_iff)
    from stage_project_graph_changed_v3_ok [OF st] pid obtain d1 where b: "bump_graph_version ?pid now d = (v, d1)" "db_graph_states d' = db_graph_states d1"
      "db_nodes d' = db_nodes d" "db_generation_runs d' = db_generation_runs d" by auto
    from bump_graph_version_ok [OF assms(2) b(1)] b graph_version_cong [OF b(2)] show ?thesis by simp
  qed
qed

section \<open>Publishing once\<close>

lemma publicationE:
  assumes "apply_graph_mutation_plan E L R label plan now d = Inr (res, d')" "\<not> ag_replayed res" "nodes_unique d"
  obtains r items p d1 locked where "select_run d (pl_project_id plan) (pl_generation_run_id plan) = Inr r" "\<not> published r"
    "pub_inv (pl_project_id plan) d (own ` set (pl_items plan)) d1"
    "db_generation_runs d1 = db_generation_runs (set_run (gr_id r) (\<lambda>r. r\<lparr>gr_status := GEN_APPLYING, gr_updated_at := now\<rparr>) d)"
    "db_graph_states d1 = db_graph_states d" "\<forall>it \<in> set (pl_items plan). sourced d1 (gp_source it)"
    "finish_publication L plan (map own (pl_items plan)) locked (p\<lparr>pb_db := d1\<rparr>) now = Inr (res, d')"
proof -
  let ?pid = "pl_project_id plan"
  from assms(1) obtain r where r: "select_run d ?pid (pl_generation_run_id plan) = Inr r" by (auto simp: apply_graph_mutation_plan_def rbind_Inr_iff)
  have np: "\<not> published r"
    using assms(1,2) r by (auto simp: apply_graph_mutation_plan_def replay_publication_def rbind_Inr_iff split: if_splits)
  let ?d0 = "set_run (gr_id r) (\<lambda>r. r\<lparr>gr_status := GEN_APPLYING, gr_updated_at := now\<rparr>) d"
  from assms(1) r np obtain locked items p d1 where st: "publish_graph E L R plan locked now ?d0 = Inr (items, p)"
    "trace_items L R label plan items now (pb_db p) = Inr d1"
    "finish_publication L plan (map own (pl_items plan)) locked (p\<lparr>pb_db := d1\<rparr>) now = Inr (res, d')"
    by (auto simp: apply_graph_mutation_plan_def rbind_Inr_iff rguard_Inr_iff Let_def)
  have d0: "db_nodes ?d0 = db_nodes d" "db_graph_states ?d0 = db_graph_states d" by (simp_all add: set_run_def)
  have "nodes_unique ?d0" using assms(3) d0 by simp
  from publish_graph_ok [OF st(1) this refl] have pub: "pub_inv ?pid ?d0 (own ` set (pl_items plan)) (pb_db p)" "pub_frame ?d0 (pb_db p)"
      "own ` set items = own ` set (pl_items plan)" "\<forall>it \<in> set (pl_items plan). sourced (pb_db p) (gp_source it)" by simp_all
  have "pub_step ?pid ?d0 (own ` set (pl_items plan)) (pb_db p) d1"
    by (rule trace_items_step [OF st(2) pub(1)]) (use pub(3) in blast)
  then have tr: "pub_inv ?pid ?d0 (own ` set (pl_items plan)) d1" "pub_frame (pb_db p) d1" "grows (pb_db p) d1" by (simp_all add: pub_step_def)
  have "node_by_id ?d0 = node_by_id d" using d0(1) by (simp add: node_by_id_def fun_eq_iff)
  then have inv: "pub_inv ?pid d (own ` set (pl_items plan)) d1" using tr(1) by (simp add: pub_inv_def)
  have fr: "pub_frame ?d0 d1" by (rule pub_frame_trans [OF pub(2) tr(2)])
  show thesis
    using that [OF r np inv _ _ _ st(3)] fr d0(2) pub(4) sourced_grows [OF tr(3)] by (simp add: pub_frame_def)
qed

lemma finish_publication_ok:
  assumes "finish_publication L plan created locked p now = Inr (res, d')" "graph_states_unique (pb_db p)"
  shows "db_nodes d' = db_nodes (pb_db p)
    \<and> graph_version_of d' = (graph_version_of (pb_db p))(pl_project_id plan := graph_version_of (pb_db p) (pl_project_id plan) + 1)
    \<and> (\<exists>request. db_generation_runs d' = update_where (\<lambda>r. gr_id r = pl_generation_run_id plan)
          (published_run (ag_status res) request (pb_warnings p)
            (JObj (publication_summary created p @ [(''graphVersion'', JInt (int (graph_version_of d' (pl_project_id plan))))])) now) (db_generation_runs (pb_db p)))
    \<and> res = \<lparr>ag_generation_run_id = pl_generation_run_id plan, ag_status = (if pb_warnings p = [] then GEN_COMPLETED else GEN_COMPLETED_WITH_WARNINGS),
          ag_created_node_ids = created, ag_merge_operation_ids = pb_merge_operation_ids p, ag_relation_ids = pb_relation_ids p,
          ag_warnings = pb_warnings p, ag_replayed = False\<rparr>"
proof -
  define status where s1: "status = (if pb_warnings p = [] then GEN_COMPLETED else GEN_COMPLETED_WITH_WARNINGS)"
  define summary where s2: "summary = publication_summary created p"
  note s = s1 s2
  from assms(1) obtain q :: pipeline_request and m :: meeting and x where ax: "announce_graph L plan status summary (pb_warnings p) (remdups (created @ locked)) now
        (complete_meeting (mt_id m) now (complete_request (rq_id q) (pb_warnings p) now (pb_db p))) = Inr x"
    and rest: "(\<lparr>ag_generation_run_id = pl_generation_run_id plan, ag_status = status,
          ag_created_node_ids = created, ag_merge_operation_ids = pb_merge_operation_ids p, ag_relation_ids = pb_relation_ids p,
          ag_warnings = pb_warnings p, ag_replayed = False\<rparr>,
        set_run (pl_generation_run_id plan) (published_run status (rq_id q) (pb_warnings p) (JObj (summary @ [(''graphVersion'', JInt (int (fst x)))])) now) (snd x)) = (res, d')"
    unfolding finish_publication_def Let_def s1 [symmetric] s2 [symmetric] rbind_Inr_iff split_beta
    by (simp only: sum.inject) (elim exE conjE, rule that)
  obtain v d2 where x: "x = (v, d2)" by fastforce
  note a = ax [unfolded x]
  from rest have res: "res = \<lparr>ag_generation_run_id = pl_generation_run_id plan, ag_status = status,
          ag_created_node_ids = created, ag_merge_operation_ids = pb_merge_operation_ids p, ag_relation_ids = pb_relation_ids p,
          ag_warnings = pb_warnings p, ag_replayed = False\<rparr>"
    and d': "d' = set_run (pl_generation_run_id plan) (published_run status (rq_id q) (pb_warnings p) (JObj (summary @ [(''graphVersion'', JInt (int v))])) now) d2"
    by (simp_all add: x)
  have eq: "db_nodes (complete_meeting i now (complete_request j w now e)) = db_nodes e"
      "db_generation_runs (complete_meeting i now (complete_request j w now e)) = db_generation_runs e"
      "db_graph_states (complete_meeting i now (complete_request j w now e)) = db_graph_states e" for i j w e
    by (simp_all add: complete_meeting_def complete_request_def)
  have u: "graph_states_unique (complete_meeting (mt_id m) now (complete_request (rq_id q) (pb_warnings p) now (pb_db p)))" using assms(2) by (simp add: eq)
  note an = announce_graph_ok [OF a u, unfolded eq graph_version_cong [OF eq(3)]]
  have v: "graph_version_of d' = graph_version_of d2" by (rule graph_version_cong) (simp add: d' set_run_def)
  have "db_nodes d' = db_nodes d2" "db_generation_runs d' = update_where (\<lambda>r. gr_id r = pl_generation_run_id plan)
      (published_run status (rq_id q) (pb_warnings p) (JObj (summary @ [(''graphVersion'', JInt (int v))])) now) (db_generation_runs d2)"
    by (simp_all add: d' set_run_def)
  with an v s res show ?thesis by auto
qed

lemma stored_uuids_juuid [simp]: "stored_uuids (map juuid us) = Inr us"
  by (induction us) simp_all

lemma summary_uuids_published:
  assumes "gr_result_summary r = Some (JObj (publication_summary created p @ [v]))"
  shows "summary_uuids r ''createdNodeIds'' = Inr created" "summary_uuids r ''mergeOperationIds'' = Inr (pb_merge_operation_ids p)"
    "summary_uuids r ''relationIds'' = Inr (pb_relation_ids p)"
  by (simp_all add: summary_uuids_def assms publication_summary_def)

text \<open>A publication happens once; whatever plan of the same run comes later is answered from the record of the run.\<close>

lemma publication_replays:
  assumes "nodes_unique d" "graph_states_unique d" "apply_graph_mutation_plan E L R label plan now d = Inr (res, d')" "\<not> ag_replayed res"
    "pl_project_id again = pl_project_id plan" "pl_generation_run_id again = pl_generation_run_id plan"
  shows "graph_version_of d' = (graph_version_of d)(pl_project_id plan := graph_version_of d (pl_project_id plan) + 1)
    \<and> ag_status res = (if ag_warnings res = [] then GEN_COMPLETED else GEN_COMPLETED_WITH_WARNINGS)
    \<and> ag_created_node_ids res = map (\<lambda>it. cs_node_id (gp_source it)) (pl_items plan)
    \<and> apply_graph_mutation_plan E2 L2 R2 label2 again later d' = Inr (res\<lparr>ag_replayed := True\<rparr>, d')"
proof -
  let ?pid = "pl_project_id plan" and ?i = "pl_generation_run_id plan"
  obtain r items p d1 locked where st: "select_run d ?pid ?i = Inr r"
    "db_generation_runs d1 = db_generation_runs (set_run (gr_id r) (\<lambda>r. r\<lparr>gr_status := GEN_APPLYING, gr_updated_at := now\<rparr>) d)"
    "db_graph_states d1 = db_graph_states d"
    "finish_publication L plan (map own (pl_items plan)) locked (p\<lparr>pb_db := d1\<rparr>) now = Inr (res, d')"
    using publicationE [OF assms(3,4,1)] by metis
  have u: "graph_states_unique (pb_db (p\<lparr>pb_db := d1\<rparr>))" using assms(2) st(3) by simp
  from finish_publication_ok [OF st(4) u] obtain request v where f:
    "graph_version_of d' = (graph_version_of d1)(?pid := graph_version_of d1 ?pid + 1)"
    "db_generation_runs d' = update_where (\<lambda>r. gr_id r = ?i) (published_run (ag_status res) request (pb_warnings p)
        (JObj (publication_summary (map own (pl_items plan)) (p\<lparr>pb_db := d1\<rparr>) @ [v])) now) (db_generation_runs d1)"
    "res = \<lparr>ag_generation_run_id = ?i, ag_status = (if pb_warnings p = [] then GEN_COMPLETED else GEN_COMPLETED_WITH_WARNINGS),
          ag_created_node_ids = map own (pl_items plan), ag_merge_operation_ids = pb_merge_operation_ids p, ag_relation_ids = pb_relation_ids p,
          ag_warnings = pb_warnings p, ag_replayed = False\<rparr>"
    by auto
  let ?pub = "published_run (ag_status res) request (pb_warnings p) (JObj (publication_summary (map own (pl_items plan)) (p\<lparr>pb_db := d1\<rparr>) @ [v])) now"
  let ?sel = "\<lambda>d. filter (\<lambda>r. gr_id r = ?i \<and> gr_project_id r = ?pid) (db_generation_runs d)"
  have r: "?sel d = [r]" "gr_id r = ?i" using st(1) by (auto simp: select_run_def exactly_one_iff dest!: arg_cong [where f = set])
  have "?sel d1 = [r\<lparr>gr_status := GEN_APPLYING, gr_updated_at := now\<rparr>]"
    unfolding st(2) r(2) by (rule filter_set_run) (simp_all add: r(1))
  from filter_set_run [of ?pub, OF _ this] have "?sel d' = [?pub (r\<lparr>gr_status := GEN_APPLYING, gr_updated_at := now\<rparr>)]"
    using f(2) by (simp add: set_run_def published_run_def)
  then have sel: "select_run d' ?pid ?i = Inr (?pub (r\<lparr>gr_status := GEN_APPLYING, gr_updated_at := now\<rparr>))" by (simp add: select_run_def)
  let ?r = "?pub (r\<lparr>gr_status := GEN_APPLYING, gr_updated_at := now\<rparr>)"
  have "gr_result_summary ?r = Some (JObj (publication_summary (map own (pl_items plan)) (p\<lparr>pb_db := d1\<rparr>) @ [v]))" by (simp add: published_run_def)
  note ids = summary_uuids_published [OF this]
  have "published ?r" by (simp add: published_run_def PUBLISHED_STATES_def f(3))
  moreover have "replay_publication ?r = Inr (res\<lparr>ag_replayed := True\<rparr>)"
    unfolding replay_publication_def ids by (simp add: f(3) published_run_def r(2))
  ultimately have "apply_graph_mutation_plan E2 L2 R2 label2 again later d' = Inr (res\<lparr>ag_replayed := True\<rparr>, d')"
    by (simp add: apply_graph_mutation_plan_def assms(5,6) sel)
  then show ?thesis using f(1,3) graph_version_cong [OF st(3)] by simp
qed

text \<open>The nodes that were there before keep their places.\<close>

lemma existing_graph_protected:
  assumes "nodes_unique d" "graph_states_unique d" "apply_graph_mutation_plan E L R label plan now d = Inr (res, d')" "\<not> ag_replayed res"
  shows "(\<forall>i n. node_by_id d i = Some n \<longrightarrow> (\<exists>n'. node_by_id d' i = Some n' \<and> kept n n'))
    \<and> (\<forall>i. node_by_id d' i \<noteq> None \<longleftrightarrow> node_by_id d i \<noteq> None \<or> i \<in> set (ag_created_node_ids res))
    \<and> (\<forall>i \<in> set (ag_created_node_ids res). node_by_id d i = None)"
proof -
  obtain r items p d1 locked where st: "pub_inv (pl_project_id plan) d (own ` set (pl_items plan)) d1" "db_graph_states d1 = db_graph_states d"
    "finish_publication L plan (map own (pl_items plan)) locked (p\<lparr>pb_db := d1\<rparr>) now = Inr (res, d')"
    using publicationE [OF assms(3,4,1)] by metis
  have u: "graph_states_unique (pb_db (p\<lparr>pb_db := d1\<rparr>))" using assms(2) st(2) by simp
  from finish_publication_ok [OF st(3) u] have "db_nodes d' = db_nodes d1" "ag_created_node_ids res = map own (pl_items plan)" by auto
  then have "node_by_id d' = node_by_id d1" "set (ag_created_node_ids res) = own ` set (pl_items plan)" by (simp_all add: node_by_id_def fun_eq_iff)
  with st(1) show ?thesis unfolding pub_inv_def by simp
qed

text \<open>The nodes of the plan end in places that the rules allow.\<close>

lemma published_nodes_placed:
  assumes "nodes_unique d" "graph_states_unique d" "apply_graph_mutation_plan E L R label plan now d = Inr (res, d')" "\<not> ag_replayed res"
    "it \<in> set (pl_items plan)"
  shows "\<exists>n. node_by_id d' (cs_node_id (gp_source it)) = Some n \<and> nd_project_id n = pl_project_id plan \<and> nd_deleted_at n = None
    \<and> nd_node_type n = cs_node_type (gp_source it) \<and> nd_category n = cs_category (gp_source it)
    \<and> (nd_graph_state n = UNATTACHED \<and> nd_parent_id n = None \<and> nd_merged_into_node_id n = None
      \<or> nd_graph_state n = ACTIVE \<and> nd_merged_into_node_id n = None \<and> (if nd_node_type n = DECISION then nd_parent_id n = None else attached d' n)
      \<or> nd_graph_state n = MERGED \<and> nd_parent_id n = None \<and> absorbed d' n)"
proof -
  obtain r items p d1 locked where st: "pub_inv (pl_project_id plan) d (own ` set (pl_items plan)) d1" "db_graph_states d1 = db_graph_states d"
    "\<forall>it \<in> set (pl_items plan). sourced d1 (gp_source it)"
    "finish_publication L plan (map own (pl_items plan)) locked (p\<lparr>pb_db := d1\<rparr>) now = Inr (res, d')"
    using publicationE [OF assms(3,4,1)] by metis
  have u: "graph_states_unique (pb_db (p\<lparr>pb_db := d1\<rparr>))" using assms(2) st(2) by simp
  from finish_publication_ok [OF st(4) u] have nodes: "db_nodes d' = db_nodes d1" by simp
  then have look: "node_by_id d' = node_by_id d1" by (simp add: node_by_id_def fun_eq_iff)
  from st(3) assms(5) obtain n where n: "node_by_id d1 (own it) = Some n" "nd_node_type n = cs_node_type (gp_source it)" "nd_category n = cs_category (gp_source it)"
    by (auto simp: sourced_def)
  have new: "placed d1 n" "nd_project_id n = pl_project_id plan" "nd_deleted_at n = None" using pub_inv_new [OF st(1) _ n(1)] assms(5) by auto
  have "placed d' n" by (rule placed_grows [OF grows_same [OF nodes] new(1) same_place_refl])
  then show ?thesis using n new(2,3) look by (intro exI [of _ n]) (auto simp: placed_def split: graph_state.splits if_splits)
qed

section \<open>A publication that succeeds\<close>

lemma exactly_one_single: "length xs = 1 \<Longrightarrow> \<exists>x. exactly_one xs = Inr x"
  by (cases xs rule: exactly_one.cases) auto

lemma stage_project_graph_changed_deliveries:
  "stage_project_graph_changed pid ups dels now d = Inr (r, d') \<Longrightarrow> db_deliveries d' = db_deliveries d"
  by (auto simp: stage_project_graph_changed_def stage_v1_def bump_graph_version_def Let_def result_simps split_beta split: option.splits)

text \<open>Where no command of the meeting is known, the announcement goes through.\<close>

lemma announce_graph_succeeds:
  assumes "db_commands d = []" "deliveries_ok d"
  shows "\<exists>v d'. announce_graph L plan s y w t now d = Inr (v, d')"
proof -
  have c: "product_command d (pl_project_id plan) (pl_external_meeting_id plan) = Inr None"
    using assms(1) by (simp add: product_command_def)
  obtain d1 where d1: "d1 = snd (stage_outbox ''GRAPH_GENERATION_COMPLETED'' ''generation_run'' (UuidTxt (pl_generation_run_id plan))
      (pl_project_id plan) ''auto-graph-v1'' (JObj ([(''generationRunId'', juuid (pl_generation_run_id plan)), (''projectId'', jstr (pl_project_id plan)),
         (''externalMeetingId'', jstr (pl_external_meeting_id plan)), (''status'', jstr (generation_status_value s))] @ y @ [(''warnings'', JList w)])) now d)"
    by simp
  obtain e v d2 where st: "stage_project_graph_changed (pl_project_id plan) (map (\<lambda>i. the (node_by_id d1 i)) t) [] now d1 = Inr ((e, v), d2)"
    by (rule stage_project_graph_changed_ok [of "pl_project_id plan" "map (\<lambda>i. the (node_by_id d1 i)) t" now d1]) (metis surj_pair)
  have "db_deliveries d2 = db_deliveries d" using stage_project_graph_changed_deliveries [OF st] by (simp add: d1)
  then have "deliveries_ok d2" using assms(2) by (simp add: deliveries_ok_def)
  from mark_graph_ready_refines [OF this] obtain d3 where "mark_graph_ready (pl_project_id plan) (pl_external_meeting_id plan) v now d2 = Inr d3" by blast
  then show ?thesis using st c by (auto simp: announce_graph_def Let_def split_beta d1)
qed

lemma finish_publication_succeeds:
  assumes "length (filter (\<lambda>q. rq_id q = pl_source_request_id plan \<and> rq_project_id q = pl_project_id plan) (db_requests (pb_db p))) = 1"
    "length (filter (\<lambda>m. mt_project_id m = pl_project_id plan \<and> mt_external_meeting_id m = pl_external_meeting_id plan) (db_meetings (pb_db p))) = 1"
    "db_commands (pb_db p) = []" "deliveries_ok (pb_db p)"
  shows "\<exists>res d'. finish_publication L plan created locked p now = Inr (res, d') \<and> \<not> ag_replayed res"
proof -
  from exactly_one_single [OF assms(1)] obtain q where
    q: "exactly_one (filter (\<lambda>q. rq_id q = pl_source_request_id plan \<and> rq_project_id q = pl_project_id plan) (db_requests (pb_db p))) = Inr q" by blast
  from exactly_one_single [OF assms(2)] obtain m where
    m: "exactly_one (filter (\<lambda>m. mt_project_id m = pl_project_id plan \<and> mt_external_meeting_id m = pl_external_meeting_id plan) (db_meetings (pb_db p))) = Inr m"
    by blast
  let ?d1 = "complete_meeting (mt_id m) now (complete_request (rq_id q) (pb_warnings p) now (pb_db p))"
  have "db_commands ?d1 = []" "deliveries_ok ?d1" using assms(3,4) by (simp_all add: deliveries_ok_def complete_meeting_def complete_request_def)
  note an = announce_graph_succeeds [OF this]
  let ?s = "if pb_warnings p = [] then GEN_COMPLETED else GEN_COMPLETED_WITH_WARNINGS"
  from an [of L plan ?s "publication_summary created p" "pb_warnings p" "remdups (created @ locked)" now] obtain v d2 where
    "announce_graph L plan ?s (publication_summary created p) (pb_warnings p) (remdups (created @ locked)) now ?d1 = Inr (v, d2)" by blast
  then show ?thesis using q m by (simp add: finish_publication_def Let_def)
qed

text \<open>One run over an existing Decision: a new Decision and an Action attached to it.\<close>

definition sample_new :: "uuid \<Rightarrow> node_type \<Rightarrow> graph_plan_item" where
  "sample_new i t = (new_item (sample_source i t))\<lparr>gp_skip_reason := Some ''NO_RETRIEVAL_CANDIDATES''\<rparr>"

definition sample_graph_plan :: graph_mutation_plan where
  "sample_graph_plan = \<lparr>pl_generation_run_id = 5, pl_project_id = ''7'', pl_external_meeting_id = ''m'', pl_source_request_id = 8,
     pl_items = [sample_new 3 DECISION, (sample_new 4 ACTION)\<lparr>gp_applied_action := LINK, gp_target_node_id := Some 103,
       gp_target_node_version := Some 1, gp_relation_type := Some ATTACHED_TO, gp_parent_node_id := Some 103\<rparr>],
     pl_warnings = [], pl_provider_model = ''m''\<rparr>"

definition sample_publish_db :: db where
  "sample_publish_db = sample_plan_db\<lparr>db_generation_runs := [sample_run GEN_VALIDATING],
     db_requests := [\<lparr>rq_id = 8, rq_project_id = ''7'', rq_external_meeting_id = ''m'', rq_status = ''PROCESSING'',
       rq_warnings = None, rq_completed_at = None, rq_created_at = 0\<rparr>],
     db_meetings := [\<lparr>mt_id = 9, mt_project_id = ''7'', mt_external_meeting_id = ''m'', mt_status = ''PROCESSING'',
       mt_created_at = 0, mt_updated_at = 0\<rparr>],
     db_candidates := map (\<lambda>i. sample_candidate\<lparr>cd_id := i, cd_project_id := ''7''\<rparr>) [3, 4]\<rparr>"

definition sample_applying :: db where
  "sample_applying = set_run 5 (\<lambda>r. r\<lparr>gr_status := GEN_APPLYING, gr_updated_at := 9\<rparr>) sample_publish_db"

lemma sample_graph_published:
  "case publish_graph sample_env sample_stdlib sample_retrieval sample_graph_plan [] 9 sample_applying of
     Inr (items, p) \<Rightarrow> (case trace_items sample_stdlib sample_retrieval ''l'' sample_graph_plan items 9 (pb_db p) of
        Inr d \<Rightarrow> map rq_id (filter (\<lambda>q. rq_id q = 8 \<and> rq_project_id q = ''7'') (db_requests d)) = [8]
          \<and> map mt_id (filter (\<lambda>m. mt_project_id m = ''7'' \<and> mt_external_meeting_id m = ''m'') (db_meetings d)) = [9]
          \<and> db_commands d = [] \<and> db_deliveries d = []
      | Inl e \<Rightarrow> False)
   | Inl e \<Rightarrow> False"
  by code_simp

lemma sample_publication:
  "\<exists>res d'. apply_graph_mutation_plan sample_env sample_stdlib sample_retrieval ''l'' sample_graph_plan 9 sample_publish_db = Inr (res, d') \<and> \<not> ag_replayed res"
proof -
  from sample_graph_published obtain items p where p: "publish_graph sample_env sample_stdlib sample_retrieval sample_graph_plan [] 9 sample_applying = Inr (items, p)"
    "case trace_items sample_stdlib sample_retrieval ''l'' sample_graph_plan items 9 (pb_db p) of
        Inr d \<Rightarrow> map rq_id (filter (\<lambda>q. rq_id q = 8 \<and> rq_project_id q = ''7'') (db_requests d)) = [8]
          \<and> map mt_id (filter (\<lambda>m. mt_project_id m = ''7'' \<and> mt_external_meeting_id m = ''m'') (db_meetings d)) = [9]
          \<and> db_commands d = [] \<and> db_deliveries d = []
      | Inl e \<Rightarrow> False"
    by (auto split: sum.splits)
  then obtain d where d: "trace_items sample_stdlib sample_retrieval ''l'' sample_graph_plan items 9 (pb_db p) = Inr d"
    "map rq_id (filter (\<lambda>q. rq_id q = 8 \<and> rq_project_id q = ''7'') (db_requests d)) = [8]"
    "map mt_id (filter (\<lambda>m. mt_project_id m = ''7'' \<and> mt_external_meeting_id m = ''m'') (db_meetings d)) = [9]"
    "db_commands d = []" "db_deliveries d = []"
    by (auto split: sum.splits)
  have plan: "pl_project_id sample_graph_plan = ''7''" "pl_generation_run_id sample_graph_plan = 5" "pl_source_request_id sample_graph_plan = 8"
    "pl_external_meeting_id sample_graph_plan = ''m''" by (simp_all add: sample_graph_plan_def)
  obtain r where r: "select_run sample_publish_db ''7'' 5 = Inr r" "gr_id r = 5" "gr_status r = GEN_VALIDATING" "\<not> published r"
    by (simp add: select_run_def sample_publish_db_def sample_run_def new_run_def PUBLISHED_STATES_def)
  have wanted: "existing_target_ids (pl_items sample_graph_plan) = []" by code_simp
  let ?created = "map (\<lambda>it. cs_node_id (gp_source it)) (pl_items sample_graph_plan)"
  have "\<exists>res d'. finish_publication sample_stdlib sample_graph_plan ?created [] (p\<lparr>pb_db := d\<rparr>) 9 = Inr (res, d') \<and> \<not> ag_replayed res"
    by (rule finish_publication_succeeds)
      (use d(2-5) in \<open>auto simp: plan deliveries_ok_def dest: arg_cong [where f = length]\<close>)
  then show ?thesis
    by (simp add: apply_graph_mutation_plan_def plan r wanted p(1) d(1) PUBLISHED_STATES_def sample_applying_def [symmetric])
qed

text \<open>C21. A publication keeps the graph in order and happens once. When a plan is published, the version of the project's graph grows by
  one and no other version moves, and the run ends COMPLETED, or COMPLETED_WITH_WARNINGS exactly when there are warnings. Every node that
  was there before keeps its project, type, category, due date, graph state, parent and merge target; a node that a user was the last to
  write also keeps its content, its title up to surrounding white space, and its author. The only new nodes are those of the plan, and
  each of them has the type and category of its candidate and ends in a place that the rules allow: UNATTACHED without a parent, an ACTIVE
  Decision without a parent, ACTIVE under a live ACTIVE parent of an allowed type in the same category, or MERGED into a live ACTIVE node
  of its own type and category. Applying any plan of the same run again returns the same result, marked as replayed, and changes nothing.\<close>

theorem publication_correct:
  assumes "nodes_unique d" "graph_states_unique d" "apply_graph_mutation_plan E L R label plan now d = Inr (res, d')" "\<not> ag_replayed res"
    "pl_project_id again = pl_project_id plan" "pl_generation_run_id again = pl_generation_run_id plan"
  shows "graph_version_of d' = (graph_version_of d)(pl_project_id plan := graph_version_of d (pl_project_id plan) + 1)
    \<and> ag_status res = (if ag_warnings res = [] then GEN_COMPLETED else GEN_COMPLETED_WITH_WARNINGS)
    \<and> ag_created_node_ids res = map (\<lambda>it. cs_node_id (gp_source it)) (pl_items plan)
    \<and> (\<forall>i n. node_by_id d i = Some n \<longrightarrow> (\<exists>n'. node_by_id d' i = Some n' \<and> kept n n'))
    \<and> (\<forall>i. node_by_id d' i \<noteq> None \<longleftrightarrow> node_by_id d i \<noteq> None \<or> i \<in> set (ag_created_node_ids res))
    \<and> (\<forall>i \<in> set (ag_created_node_ids res). node_by_id d i = None)
    \<and> (\<forall>it \<in> set (pl_items plan). \<exists>n. node_by_id d' (cs_node_id (gp_source it)) = Some n \<and> nd_project_id n = pl_project_id plan
        \<and> nd_deleted_at n = None \<and> nd_node_type n = cs_node_type (gp_source it) \<and> nd_category n = cs_category (gp_source it)
        \<and> (nd_graph_state n = UNATTACHED \<and> nd_parent_id n = None \<and> nd_merged_into_node_id n = None
          \<or> nd_graph_state n = ACTIVE \<and> nd_merged_into_node_id n = None \<and> (if nd_node_type n = DECISION then nd_parent_id n = None else attached d' n)
          \<or> nd_graph_state n = MERGED \<and> nd_parent_id n = None \<and> absorbed d' n))
    \<and> apply_graph_mutation_plan E2 L2 R2 label2 again later d' = Inr (res\<lparr>ag_replayed := True\<rparr>, d')"
  using publication_replays [OF assms, of E2 L2 R2 label2 later] existing_graph_protected [OF assms(1-4)]
    published_nodes_placed [OF assms(1-4)] by simp

theorem publication_correct_witness:
  "\<exists>res d' n k. apply_graph_mutation_plan sample_env sample_stdlib sample_retrieval ''l'' sample_graph_plan 9 sample_publish_db = Inr (res, d')
     \<and> ag_created_node_ids res = [103, 104] \<and> graph_version_of d' ''7'' = 1 \<and> node_by_id d' 104 = Some n \<and> nd_node_type n = ACTION
     \<and> node_by_id d' 10 = Some k \<and> kept (sample_node 10 ''7'') k
     \<and> apply_graph_mutation_plan sample_env sample_stdlib sample_retrieval ''l'' sample_graph_plan 10 d' = Inr (res\<lparr>ag_replayed := True\<rparr>, d')"
proof -
  have plan: "pl_project_id sample_graph_plan = ''7''" "map (\<lambda>it. cs_node_id (gp_source it)) (pl_items sample_graph_plan) = [103, 104]"
    by (simp_all add: sample_graph_plan_def sample_new_def new_item_def sample_source_def)
  obtain it where it: "it \<in> set (pl_items sample_graph_plan)" "cs_node_id (gp_source it) = 104" "cs_node_type (gp_source it) = ACTION"
    by (rule that [of "pl_items sample_graph_plan ! 1"]) (simp_all add: sample_graph_plan_def sample_new_def new_item_def sample_source_def)
  have d: "nodes_unique sample_publish_db" "graph_states_unique sample_publish_db" "node_by_id sample_publish_db 10 = Some (sample_node 10 ''7'')"
      "graph_version_of sample_publish_db ''7'' = 0"
    by (simp_all add: sample_publish_db_def sample_plan_db_def sample_db_def empty_db_def sample_node_def
      graph_version_of_def node_by_id_def)
  obtain res d' where r: "apply_graph_mutation_plan sample_env sample_stdlib sample_retrieval ''l'' sample_graph_plan 9 sample_publish_db = Inr (res, d')"
    "\<not> ag_replayed res" using sample_publication by blast
  note c = publication_correct [OF d(1,2) r refl refl, of sample_env sample_stdlib sample_retrieval "''l''" 10, unfolded plan]
  from c it obtain n where "node_by_id d' 104 = Some n" "nd_node_type n = ACTION" by force
  moreover from c d(3) obtain k where "node_by_id d' 10 = Some k" "kept (sample_node 10 ''7'') k" by blast
  ultimately show ?thesis using c d(4) r(1) by (intro exI [of _ res] exI [of _ d'] exI [of _ n] exI [of _ k]) simp
qed

end
