(* ===== verification/Claim_Queue.thy ===== *)
theory Claim_Queue
  imports Storage_Models
begin

text \<open>
  \<open>jobs/claiming.py\<close> and the claim discipline of the three work tables (outbox events, analysis
  jobs, analysis tasks). A worker claims a row by writing a new token into it; it writes the outcome
  of its work only if the row still carries that token. The contract of such a table is the locale
  \<open>claim_fencing\<close>; what it gives, that a worker which has lost its claim cannot change the row
  however the operations of the table interleave, is proved once inside it.
\<close>

section \<open>Backoff\<close>

definition MAX_BACKOFF_SECONDS :: int where "MAX_BACKOFF_SECONDS = 3600"

text \<open>The product is computed in floating point. It is exact, or infinite and cut to the maximum, up to 1024
  attempts; beyond, Python cannot convert the power of two to a float.\<close>

definition backoff_delay :: "nat \<Rightarrow> time result" where
  "backoff_delay attempt_count =
     (if attempt_count < 1 then Inr 0
      else if attempt_count - 1 \<ge> 1024 then Inl (OverflowError ''int too large to convert to float'')
      else Inr (seconds (min (2 * 2 ^ (attempt_count - 1)) MAX_BACKOFF_SECONDS)))"

lemma backoff_delay_bounds:
  assumes "backoff_delay n = Inr t"
  shows "0 \<le> t" "t \<le> seconds 3600"
  using assms by (auto simp: backoff_delay_def seconds_def MAX_BACKOFF_SECONDS_def split: if_splits)

lemma backoff_delay_total: "n \<le> 1024 \<Longrightarrow> \<exists>t. backoff_delay n = Inr t"
  by (auto simp: backoff_delay_def)

text \<open>C40. The wait before a retry doubles with every attempt, starts at two seconds, never decreases and never
  exceeds an hour; within 1024 attempts it is always defined.\<close>

theorem backoff_schedule:
  assumes "1 \<le> n" "n \<le> m" "m \<le> 1024"
  shows "backoff_delay n = Inr (min (seconds (2 ^ n)) (seconds 3600))
    \<and> (\<exists>s t. backoff_delay n = Inr s \<and> backoff_delay m = Inr t \<and> 0 < s \<and> s \<le> t \<and> t \<le> seconds 3600)"
proof -
  have eq: "backoff_delay k = Inr (min (seconds (2 ^ k)) (seconds 3600))" if "1 \<le> k" "k \<le> 1024" for k
  proof -
    have "(2::int) * 2 ^ (k - 1) = 2 ^ k" using that(1) by (simp flip: power_Suc)
    then show ?thesis using that
      by (simp add: backoff_delay_def seconds_def MAX_BACKOFF_SECONDS_def min_def)
  qed
  have "(2::int) ^ n \<le> 2 ^ m" using assms(2) by (simp add: power_increasing)
  then have "min (seconds (2 ^ n)) (seconds 3600) \<le> min (seconds (2 ^ m)) (seconds 3600)"
    by (intro min.mono) (simp_all add: seconds_def)
  moreover have "0 < min (seconds (2 ^ n)) (seconds 3600)" by (simp add: seconds_def)
  ultimately show ?thesis using eq [of n] eq [of m] assms by simp
qed

theorem backoff_schedule_witness:
  "backoff_delay 3 = Inr 8000000 \<and> (\<exists>t. backoff_delay 12 = Inr t \<and> 8000000 \<le> t)"
  using backoff_schedule [of 3 12] by (auto simp: seconds_def)

section \<open>Claiming rows\<close>

text \<open>\<open>claim_rows\<close>: the selected rows in the order of the statement, at most \<open>limit\<close> of them. Rows that a
  concurrent transaction has locked are skipped by the database; a transaction of the model sees the
  state between transactions, where no row is locked.\<close>

definition claim_rows :: "('r \<Rightarrow> bool) \<Rightarrow> ('r \<Rightarrow> 'k::linorder) \<Rightarrow> nat \<Rightarrow> 'r list \<Rightarrow> 'r list" where
  "claim_rows p k limit rows = take limit (sort_key k (filter p rows))"

lemma claim_rows_set: "r \<in> set (claim_rows p k limit rows) \<Longrightarrow> r \<in> set rows \<and> p r"
  by (auto simp: claim_rows_def dest: in_set_takeD)

lemma claim_rows_distinct: "distinct (map f rows) \<Longrightarrow> distinct (map f (claim_rows p k limit rows))"
proof -
  assume "distinct (map f rows)"
  then have "distinct rows" "inj_on f (set rows)" by (simp_all add: distinct_map)
  then have "distinct (claim_rows p k limit rows)" by (simp add: claim_rows_def)
  moreover have "inj_on f (set (claim_rows p k limit rows))"
    using \<open>inj_on f (set rows)\<close> by (rule inj_on_subset) (auto dest: claim_rows_set)
  ultimately show ?thesis by (simp add: distinct_map)
qed

lemma claim_rows_empty_iff:
  assumes "0 < limit"
  shows "claim_rows p k limit rows = [] \<longleftrightarrow> (\<forall>r \<in> set rows. \<not> p r)"
proof -
  have "claim_rows p k limit rows = [] \<longleftrightarrow> sort_key k (filter p rows) = []"
    using assms by (simp add: claim_rows_def)
  also have "\<dots> \<longleftrightarrow> set (filter p rows) = {}" by (metis set_empty set_sort)
  finally show ?thesis by auto
qed

text \<open>The oldest row first: no row that satisfies the condition has a smaller key than the first one claimed.\<close>

lemma claim_rows_oldest:
  assumes "claim_rows p k limit rows = r # rs" "s \<in> set rows" "p s"
  shows "k r \<le> k s"
proof -
  obtain ss where ss: "sort_key k (filter p rows) = r # ss"
    using assms(1) by (cases limit; cases "sort_key k (filter p rows)") (auto simp: claim_rows_def)
  have "sorted (map k (r # ss))" by (metis sorted_sort_key ss)
  moreover have "s \<in> set (r # ss)" using assms(2,3) set_sort [of k "filter p rows"] by (auto simp: ss)
  ultimately show ?thesis by auto
qed

text \<open>The state a transaction leaves: an exception rolls it back.\<close>

definition commit :: "('a \<times> 'd) result \<Rightarrow> 'd \<Rightarrow> 'd" where
  "commit r d = (case r of Inl _ \<Rightarrow> d | Inr (_, d') \<Rightarrow> d')"

lemma commit_simps [simp]: "commit (Inl e) d = d" "commit (Inr (x, d')) d = d'"
  by (simp_all add: commit_def)

section \<open>The contract of a table with claims\<close>

locale claim_fencing =
  fixes holds :: "'d \<Rightarrow> 'k \<Rightarrow> uuid \<Rightarrow> bool"
    and drawn :: "'d \<Rightarrow> uuid"
    and step :: "'d \<Rightarrow> 'd \<Rightarrow> bool"
    and outcome :: "'k \<Rightarrow> uuid \<Rightarrow> 'o \<Rightarrow> 'd \<Rightarrow> 'd"
  assumes drawn_mono: "step d d' \<Longrightarrow> drawn d \<le> drawn d'"
    and new_tokens: "step d d' \<Longrightarrow> holds d' k t \<Longrightarrow> holds d k t \<or> drawn d \<le> t"
    and fenced: "\<not> holds d k t \<Longrightarrow> outcome k t x d = d"
begin

lemma drawn_mono_steps: "step\<^sup>*\<^sup>* d d' \<Longrightarrow> drawn d \<le> drawn d'"
  by (induction rule: rtranclp_induct) (auto dest: drawn_mono)

text \<open>Tokens are never reused, so a claim that is lost stays lost.\<close>

lemma lost_stays_lost: "step\<^sup>*\<^sup>* d d' \<Longrightarrow> t < drawn d \<Longrightarrow> \<not> holds d k t \<Longrightarrow> \<not> holds d' k t"
proof (induction rule: rtranclp_induct)
  case (step d1 d2)
  then have "drawn d \<le> drawn d1" by (simp add: drawn_mono_steps)
  with step show ?case using new_tokens [of d1 d2 k t] by auto
qed

lemma late_outcome: "step\<^sup>*\<^sup>* d d' \<Longrightarrow> t < drawn d \<Longrightarrow> \<not> holds d k t \<Longrightarrow> outcome k t x d' = d'"
  by (simp add: fenced lost_stays_lost)

end

end
