(* ===== verification/Outbox_Relay.thy ===== *)
theory Outbox_Relay
  imports Claim_Queue Snapshot_Events
begin

text \<open>
  \<open>jobs/outbox.py\<close> and \<open>outbox_publisher/runner.py\<close>: the envelope of an event, the transports, the
  emission of pipeline events and the relay that claims a batch of rows, hands each to a transport and
  records the outcome. Every transaction of the relay is its own commit; the transport and the clients
  behind it work on an external state of type \<open>'w\<close> beside the database. An exception of a transport is
  the pair of its type name and its text.
\<close>

section \<open>The envelope\<close>

definition PIPELINE_EVENT_TYPES :: "string list" where
  "PIPELINE_EVENT_TYPES = [''INITIAL_REVIEW_READY'', ''ANALYSIS_QUEUED'', ''FINAL_REVIEW_READY'',
     ''PIPELINE_COMPLETED'', ''PIPELINE_FAILED'', ''MEETING_SUMMARY_READY'']"

definition SCHEMA_VERSION :: string where "SCHEMA_VERSION = ''v2.2''"

record outbox_message =
  om_event_id :: py_text
  om_event_type :: string
  om_aggregate_type :: string
  om_aggregate_id :: py_text
  om_project_id :: string
  om_schema_version :: string
  om_occurred_at :: time
  om_payload :: json

text \<open>\<open>str.isdigit()\<close> of a string, and \<open>int(text)\<close> of a text that passed it: the superscripts that
  \<open>isdigit\<close> accepts are no decimal digits.\<close>

definition str_isdigit :: "string \<Rightarrow> bool" where
  "str_isdigit s \<longleftrightarrow> s \<noteq> [] \<and> (\<forall>c \<in> set s. py_isdigit c)"

definition int_of_text :: "string \<Rightarrow> int result" where
  "int_of_text s =
     (let digits = (case s of [] \<Rightarrow> [] | c # cs \<Rightarrow> if c = CHR ''-'' then cs else s)
      in if \<forall>c \<in> set digits. is_digit c then Inr (parse_int s) else Inl (ValueError ''invalid literal for int()''))"

definition public_result_identifier :: "string \<Rightarrow> json result" where
  "public_result_identifier value =
     (if str_isdigit value \<and> (value = ''0'' \<or> hd value \<noteq> CHR ''0'')
      then rbind (int_of_text value) (\<lambda>parsed.
             Inr (if in_int64 parsed then JInt parsed else JStr (Txt value)))
      else Inr (JStr (Txt value)))"

definition canonical_numeric :: "string \<Rightarrow> bool" where
  "canonical_numeric pid \<longleftrightarrow> pid = ''0''
     \<or> (str_isdigit pid \<and> hd pid \<noteq> CHR ''0'')
     \<or> (case pid of [] \<Rightarrow> False | c # cs \<Rightarrow> c = CHR ''-'' \<and> str_isdigit cs \<and> hd cs \<noteq> CHR ''0'')"

definition v1_project_id :: "string \<Rightarrow> json result" where
  "v1_project_id pid =
     (if canonical_numeric pid
      then rbind (int_of_text pid) (\<lambda>parsed. Inr (if in_int64 parsed then JInt parsed else JStr (Txt pid)))
      else Inr (JStr (Txt pid)))"

text \<open>\<open>envelope[key]\<close>.\<close>

definition jindex :: "json \<Rightarrow> string \<Rightarrow> json result" where
  "jindex j k = (case j of JObj kvs \<Rightarrow> (case map_of kvs k of None \<Rightarrow> Inl KeyError | Some v \<Rightarrow> Inr v) | _ \<Rightarrow> Inl TypeError)"

definition as_dict :: "outbox_message \<Rightarrow> json result" where
  "as_dict m =
     (if om_schema_version m = ''3''
      then rbind (public_result_identifier (om_project_id m)) (\<lambda>pid.
           rbind (jindex (om_payload m) ''meetingId'') (\<lambda>meeting.
           rbind (jindex (om_payload m) ''commandId'') (\<lambda>command.
           rbind (jindex (om_payload m) ''payload'') (\<lambda>payload.
           Inr (JObj [(''eventSchemaVersion'', JInt 3), (''eventId'', JStr (om_event_id m)),
                      (''eventType'', jstr (om_event_type m)), (''occurredAt'', JTime (om_occurred_at m)),
                      (''projectId'', pid), (''meetingId'', meeting), (''commandId'', command),
                      (''payload'', payload)])))))
      else if om_schema_version m = ''1''
      then rbind (v1_project_id (om_project_id m)) (\<lambda>pid.
           Inr (JObj [(''eventSchemaVersion'', JInt 1), (''eventId'', JStr (om_event_id m)),
                      (''eventType'', jstr (om_event_type m)), (''occurredAt'', JTime (om_occurred_at m)),
                      (''projectId'', pid), (''payload'', om_payload m)]))
      else Inr (JObj [(''eventId'', JStr (om_event_id m)), (''eventType'', jstr (om_event_type m)),
                      (''aggregateType'', jstr (om_aggregate_type m)), (''aggregateId'', JStr (om_aggregate_id m)),
                      (''projectId'', jstr (om_project_id m)), (''schemaVersion'', jstr (om_schema_version m)),
                      (''occurredAt'', JTime (om_occurred_at m)), (''payload'', om_payload m)]))"

text \<open>\<open>dict(row.payload or {})\<close>; the column holds an object.\<close>

fun payload_dict :: "json \<Rightarrow> json" where
  "payload_dict (JObj kvs) = JObj kvs"
| "payload_dict _ = JObj []"

definition to_message :: "outbox_event \<Rightarrow> outbox_message" where
  "to_message row = \<lparr>om_event_id = UuidTxt (ob_id row), om_event_type = ob_event_type row,
     om_aggregate_type = ob_aggregate_type row, om_aggregate_id = ob_aggregate_id row,
     om_project_id = ob_project_id row, om_schema_version = ob_schema_version row,
     om_occurred_at = ob_created_at row, om_payload = payload_dict (ob_payload row)\<rparr>"

definition emit_outbox_event ::
  "string \<Rightarrow> string \<Rightarrow> py_text \<Rightarrow> string \<Rightarrow> json \<Rightarrow> time \<Rightarrow> db \<Rightarrow> (outbox_event \<times> db) result" where
  "emit_outbox_event event_type aggregate_type aggregate_id project_id payload now d =
     rguard (event_type \<notin> set PIPELINE_EVENT_TYPES) (ValueError ''unsupported outbox event type'')
       (Inr (stage_outbox event_type aggregate_type aggregate_id project_id SCHEMA_VERSION payload now d))"

section \<open>Transports\<close>

type_synonym py_exc = "string \<times> string"

type_synonym 'w transport = "outbox_message \<Rightarrow> 'w \<times> db \<Rightarrow> py_exc option \<times> 'w \<times> db"

record fake_transport =
  ft_published :: "outbox_message list"
  ft_fail_times :: nat
  ft_fail_forever :: bool
  ft_attempts :: nat

definition fake_publish :: "fake_transport transport" where
  "fake_publish m = (\<lambda>(w, d).
     let w1 = w\<lparr>ft_attempts := ft_attempts w + 1\<rparr>
     in if ft_fail_forever w1 \<or> ft_attempts w1 \<le> ft_fail_times w1
        then (Some (''RuntimeError'', ''simulated transport failure''), w1, d)
        else (None, w1\<lparr>ft_published := ft_published w1 @ [m]\<rparr>, d))"

text \<open>The exceptions that the transports raise themselves. The texts of the library's exceptions are abbreviated; the
  relay only stores them.\<close>

fun exc_of :: "py_error \<Rightarrow> py_exc" where
  "exc_of (ValueError s) = (''ValueError'', s)"
| "exc_of (RuntimeError s) = (''RuntimeError'', s)"
| "exc_of (GraphSnapshotTooLargeError s) = (''GraphSnapshotTooLargeError'', s)"
| "exc_of KeyError = (''KeyError'', [])"
| "exc_of TypeError = (''TypeError'', [])"
| "exc_of NoResultFound = (''NoResultFound'', ''No row was found when one was required'')"
| "exc_of MultipleResultsFound = (''MultipleResultsFound'', ''Multiple rows were found when exactly one was required'')"
| "exc_of (OverflowError s) = (''OverflowError'', s)"
| "exc_of (TransportError s) = (''Exception'', s)"
| "exc_of _ = (''Exception'', [])"

text \<open>\<open>httpx.post\<close> is a parameter: the endpoint, the body, the headers, the timeout and the network give the status code
  or an exception.\<close>

definition http_publish ::
  "(string \<Rightarrow> json \<Rightarrow> (string \<times> string) list \<Rightarrow> int \<Rightarrow> 'w \<Rightarrow> (py_exc + int) \<times> 'w)
    \<Rightarrow> string \<Rightarrow> int \<Rightarrow> string option \<Rightarrow> 'w transport" where
  "http_publish post endpoint timeout auth_header m = (\<lambda>(w, d).
     let headers = (''Content-Type'', ''application/json'')
           # (if truthy auth_header then [(''Authorization'', the auth_header)] else [])
     in case as_dict m of
          Inl e \<Rightarrow> (Some (exc_of e), w, d)
        | Inr body \<Rightarrow>
            (case post endpoint body headers timeout w of
               (Inl e, w1) \<Rightarrow> (Some e, w1, d)
             | (Inr status, w1) \<Rightarrow>
                 if status \<ge> 400
                 then (Some (''RuntimeError'', ''outbox endpoint rejected the event: '' @ int_str status), w1, d)
                 else (None, w1, d)))"

text \<open>The claim-check transport: the graph snapshot goes to the object store, a reference to it to the
  queue. \<open>put_object\<close> and \<open>send_message\<close> of the AWS clients are parameters.\<close>

record sqs_message =
  sq_queue_url :: string
  sq_body :: json
  sq_group_id :: "string option"
  sq_deduplication_id :: "py_text option"

record claim_check =
  cc_queue_url :: string
  cc_bucket :: string
  cc_queue_type :: string
  cc_max_size_bytes :: int

definition ascii_upper :: "char \<Rightarrow> char" where
  "ascii_upper c = (if 97 \<le> (of_char c :: nat) \<and> (of_char c :: nat) \<le> 122 then char_of ((of_char c :: nat) - 32) else c)"

definition claim_check_init :: "stdlib \<Rightarrow> string \<Rightarrow> string \<Rightarrow> string \<Rightarrow> limit_value option \<Rightarrow> claim_check result" where
  "claim_check_init L queue_url snapshot_bucket queue_type max_size =
     (let qt = map ascii_upper (strip queue_type) in
      rguard (qt \<noteq> ''STANDARD'' \<and> qt \<noteq> ''FIFO'') (ValueError ''queue_type must be STANDARD or FIFO'')
      (rguard (queue_url = [] \<or> snapshot_bucket = []) (ValueError ''result queue URL and snapshot bucket are required'')
      (rbind (graph_snapshot_max_size_bytes L max_size) (\<lambda>limit.
        Inr \<lparr>cc_queue_url = queue_url, cc_bucket = snapshot_bucket, cc_queue_type = qt, cc_max_size_bytes = limit\<rparr>))))"

type_synonym 'w s3_put = "string \<Rightarrow> py_text \<Rightarrow> string \<Rightarrow> string \<Rightarrow> 'w \<Rightarrow> py_exc option \<times> 'w"

type_synonym 'w sqs_send = "sqs_message \<Rightarrow> 'w \<Rightarrow> py_exc option \<times> 'w"

text \<open>\<open>d[key] = value\<close> and \<open>d.pop(key, None)\<close> on the items of an object.\<close>

definition jset :: "string \<Rightarrow> json \<Rightarrow> (string \<times> json) list \<Rightarrow> (string \<times> json) list" where
  "jset k v kvs = (if k \<in> fst ` set kvs then map (\<lambda>(a, b). if a = k then (a, v) else (a, b)) kvs else kvs @ [(k, v)])"

definition jdel :: "string \<Rightarrow> (string \<times> json) list \<Rightarrow> (string \<times> json) list" where
  "jdel k kvs = filter (\<lambda>(a, _). a \<noteq> k) kvs"

fun items :: "json \<Rightarrow> (string \<times> json) list" where
  "items (JObj kvs) = kvs"
| "items _ = []"

definition snapshot_ref :: "string \<Rightarrow> graph_snapshot_artifact \<Rightarrow> json" where
  "snapshot_ref bucket a = JObj
     [(''bucket'', jstr bucket), (''objectKey'', JStr (sa_object_key a)), (''contentType'', jstr (sa_content_type a)),
      (''sizeBytes'', JInt (int (sa_size_bytes a))), (''sha256'', jstr (sa_sha256 a))]"

text \<open>The artifact an event names: its row, locked, and the bytes to upload.\<close>

definition claimed_artifact :: "stdlib \<Rightarrow> claim_check \<Rightarrow> json \<Rightarrow> db \<Rightarrow> (graph_snapshot_artifact \<times> string) result" where
  "claimed_artifact L cc artifact_id d =
     (case artifact_id of
        JStr (UuidTxt u) \<Rightarrow>
          rbind (exactly_one (filter (\<lambda>a. sa_id a = u) (db_artifacts d))) (\<lambda>a.
          let (content, digest) = snapshot_digest L (sa_payload_json a)
          in rguard (length content \<noteq> sa_size_bytes a \<or> digest \<noteq> sa_sha256 a)
               (RuntimeError ''stored graph snapshot artifact checksum mismatch'')
             (rbind (validate_graph_snapshot_size L content (Some (LimitInt (cc_max_size_bytes cc)))) (\<lambda>_.
              Inr (a, content))))
      | JStr _ \<Rightarrow> Inl (ValueError ''badly formed hexadecimal UUID string'')
      | _ \<Rightarrow> Inl (ValueError ''PROJECT_GRAPH_CHANGED has no snapshotArtifactId''))"

definition mark_uploaded :: "uuid \<Rightarrow> time \<Rightarrow> db \<Rightarrow> db" where
  "mark_uploaded i now d = d\<lparr>db_artifacts := update_where (\<lambda>a. sa_id a = i)
     (\<lambda>a. a\<lparr>sa_status := ART_UPLOADED, sa_uploaded_at := Some now\<rparr>) (db_artifacts d)\<rparr>"

definition materialize_snapshot_ref ::
  "stdlib \<Rightarrow> claim_check \<Rightarrow> 'w s3_put \<Rightarrow> ('w \<Rightarrow> time) \<Rightarrow> outbox_message \<Rightarrow> 'w \<times> db \<Rightarrow> (py_exc + outbox_message) \<times> 'w \<times> db" where
  "materialize_snapshot_ref L cc put utcnow m = (\<lambda>(w, d).
     let envelope = items (om_payload m);
         payload = items (payload_dict (jget (om_payload m) ''payload''))
     in case claimed_artifact L cc (jget (JObj payload) ''snapshotArtifactId'') d of
          Inl e \<Rightarrow> (Inl (exc_of e), w, d)
        | Inr (a, content) \<Rightarrow>
            (case put (cc_bucket cc) (sa_object_key a) content (sa_content_type a) w of
               (Some e, w1) \<Rightarrow> (Inl e, w1, d)
             | (None, w1) \<Rightarrow>
                 (Inr (m\<lparr>om_payload := JObj (jset ''payload''
                    (JObj (jset ''snapshotRef'' (snapshot_ref (cc_bucket cc) a) (jdel ''snapshotArtifactId'' payload))) envelope)\<rparr>),
                  w1, mark_uploaded (sa_id a) (utcnow w1) d)))"

fun json_text :: "json \<Rightarrow> string" where
  "json_text (JInt i) = int_str i"
| "json_text (JStr (Txt s)) = s"
| "json_text _ = []"

definition send_outgoing :: "claim_check \<Rightarrow> 'w sqs_send \<Rightarrow> outbox_message \<Rightarrow> 'w \<times> db \<Rightarrow> py_exc option \<times> 'w \<times> db" where
  "send_outgoing cc send m = (\<lambda>(w, d).
     case rbind (as_dict m) (\<lambda>body.
          let base = \<lparr>sq_queue_url = cc_queue_url cc, sq_body = body, sq_group_id = None, sq_deduplication_id = None\<rparr>
          in if cc_queue_type cc = ''FIFO''
             then rbind (public_result_identifier (om_project_id m)) (\<lambda>pid.
                  Inr (base\<lparr>sq_group_id := Some (json_text pid), sq_deduplication_id := Some (om_event_id m)\<rparr>))
             else Inr base) of
       Inl e \<Rightarrow> (Some (exc_of e), w, d)
     | Inr q \<Rightarrow> (case send q w of (r, w1) \<Rightarrow> (r, w1, d)))"

definition claim_check_publish ::
  "stdlib \<Rightarrow> claim_check \<Rightarrow> 'w s3_put \<Rightarrow> 'w sqs_send \<Rightarrow> ('w \<Rightarrow> time) \<Rightarrow> 'w transport" where
  "claim_check_publish L cc put send utcnow m = (\<lambda>(w, d).
     if om_schema_version m \<noteq> ''3''
     then (Some (''ValueError'', ''the Java result queue accepts only Result Event schema v3''), w, d)
     else if om_event_type m = ''PROJECT_GRAPH_CHANGED''
     then (case materialize_snapshot_ref L cc put utcnow m (w, d) of
             (Inl e, s) \<Rightarrow> (Some e, s)
           | (Inr outgoing, s) \<Rightarrow> send_outgoing cc send outgoing s)
     else send_outgoing cc send m (w, d))"

section \<open>The relay\<close>

definition set_event :: "uuid \<Rightarrow> (outbox_event \<Rightarrow> outbox_event) \<Rightarrow> db \<Rightarrow> db" where
  "set_event i f d = d\<lparr>db_outbox := update_where (\<lambda>e. ob_id e = i) f (db_outbox d)\<rparr>"

definition due_event :: "time \<Rightarrow> string list option \<Rightarrow> outbox_event \<Rightarrow> bool" where
  "due_event now versions e \<longleftrightarrow> (ob_status e = OB_PENDING \<or> ob_status e = OB_PUBLISHING) \<and> ob_available_at e \<le> now
     \<and> (case versions of None \<Rightarrow> True | Some vs \<Rightarrow> ob_schema_version e \<in> set vs)"

definition claim_event :: "uuid \<Rightarrow> time \<Rightarrow> time \<Rightarrow> outbox_event \<Rightarrow> outbox_event" where
  "claim_event token now stall e = e\<lparr>ob_status := OB_PUBLISHING, ob_claim_token := Some token,
     ob_claimed_at := Some now, ob_available_at := now + stall\<rparr>"

fun claim_events :: "time \<Rightarrow> time \<Rightarrow> outbox_event list \<Rightarrow> db \<Rightarrow> (uuid \<times> uuid \<times> outbox_message) list \<times> db" where
  "claim_events now stall [] d = ([], d)"
| "claim_events now stall (row # rows) d =
     (let (token, d1) = uuid4 d;
          (claimed, d2) = claim_events now stall rows (set_event (ob_id row) (claim_event token now stall) d1)
      in ((ob_id row, token, to_message row) # claimed, d2))"

definition claim_batch ::
  "time \<Rightarrow> nat \<Rightarrow> time \<Rightarrow> string list option \<Rightarrow> db \<Rightarrow> ((uuid \<times> uuid \<times> outbox_message) list \<times> db) result" where
  "claim_batch now batch_size stall versions d =
     rguard (versions = Some []) (ValueError ''schema_versions must not be empty'')
       (Inr (claim_events now stall
          (claim_rows (due_event now versions) (\<lambda>e. (ob_available_at e, ob_created_at e)) batch_size (db_outbox d)) d))"

definition claimed_by :: "db \<Rightarrow> uuid \<Rightarrow> uuid \<Rightarrow> outbox_event list" where
  "claimed_by d i token = filter (\<lambda>e. ob_id e = i \<and> ob_status e = OB_PUBLISHING \<and> ob_claim_token e = Some token) (db_outbox d)"

definition record_success :: "uuid \<Rightarrow> uuid \<Rightarrow> time \<Rightarrow> db \<Rightarrow> (bool \<times> db) result" where
  "record_success i token now d =
     rbind (one_or_none (claimed_by d i token)) (\<lambda>row.
       case row of
         None \<Rightarrow> Inr (False, d)
       | Some _ \<Rightarrow> Inr (True, set_event i (\<lambda>e. e\<lparr>ob_status := OB_PUBLISHED, ob_claim_token := None,
             ob_published_at := Some now, ob_attempt_count := ob_attempt_count e + 1, ob_last_error := None\<rparr>) d))"

definition error_text :: "py_exc \<Rightarrow> string" where
  "error_text e = take 2000 (fst e @ '': '' @ snd e)"

definition record_failed :: "uuid \<Rightarrow> uuid \<Rightarrow> py_exc \<Rightarrow> time \<Rightarrow> db \<Rightarrow> (outbox_status option \<times> db) result" where
  "record_failed i token error now d =
     rbind (one_or_none (claimed_by d i token)) (\<lambda>row.
       case row of
         None \<Rightarrow> Inr (None, d)
       | Some e0 \<Rightarrow>
           (let e1 = e0\<lparr>ob_attempt_count := ob_attempt_count e0 + 1, ob_last_error := Some (error_text error),
                        ob_claim_token := None\<rparr>
            in if ob_attempt_count e1 \<ge> ob_max_attempts e1
               then Inr (Some OB_DEAD, set_event i (\<lambda>_. e1\<lparr>ob_status := OB_DEAD\<rparr>) d)
               else rbind (backoff_delay (ob_attempt_count e1)) (\<lambda>delay.
                 Inr (Some OB_PENDING, set_event i (\<lambda>_. e1\<lparr>ob_status := OB_PENDING, ob_available_at := now + delay\<rparr>) d))))"

record publish_result =
  pr_claimed :: nat
  pr_published :: nat
  pr_failed :: nat
  pr_dead :: nat

text \<open>One claimed event: the transport, then the transaction that records the outcome, at the time \<open>now\<close>.\<close>

definition relay_one :: "'w transport \<Rightarrow> time \<Rightarrow> uuid \<times> uuid \<times> outbox_message \<Rightarrow> publish_result \<Rightarrow> 'w \<times> db
    \<Rightarrow> (py_error + publish_result) \<times> 'w \<times> db" where
  "relay_one transport now claim result s =
     (case claim of (i, token, m) \<Rightarrow>
      (case transport m s of
         (Some error, w, d) \<Rightarrow>
           (case record_failed i token error now d of
              Inl e \<Rightarrow> (Inl e, w, d)
            | Inr (outcome, d1) \<Rightarrow>
                (Inr (if outcome = Some OB_DEAD then result\<lparr>pr_dead := pr_dead result + 1\<rparr>
                      else if outcome = Some OB_PENDING then result\<lparr>pr_failed := pr_failed result + 1\<rparr>
                      else result), w, d1))
       | (None, w, d) \<Rightarrow>
           (case record_success i token now d of
              Inl e \<Rightarrow> (Inl e, w, d)
            | Inr (owned, d1) \<Rightarrow>
                (Inr (if owned then result\<lparr>pr_published := pr_published result + 1\<rparr> else result), w, d1))))"

text \<open>\<open>clock k\<close> is the time at which the outcome of the \<open>k\<close>-th event of the batch is recorded.\<close>

fun relay_claimed :: "'w transport \<Rightarrow> (nat \<Rightarrow> time) \<Rightarrow> nat \<Rightarrow> (uuid \<times> uuid \<times> outbox_message) list \<Rightarrow> publish_result
    \<Rightarrow> 'w \<times> db \<Rightarrow> (py_error + publish_result) \<times> 'w \<times> db" where
  "relay_claimed transport clock k [] result s = (Inr result, s)"
| "relay_claimed transport clock k (c # cs) result s =
     (case relay_one transport (clock k) c result s of
        (Inl e, s1) \<Rightarrow> (Inl e, s1)
      | (Inr result1, s1) \<Rightarrow> relay_claimed transport clock (Suc k) cs result1 s1)"

text \<open>The transactions that record an outcome raise nothing here but the OverflowError of the backoff; a lost connection, which ends the poll in the
  source, is not modelled.\<close>

definition publish_pending_events ::
  "'w transport \<Rightarrow> time \<Rightarrow> (nat \<Rightarrow> time) \<Rightarrow> nat \<Rightarrow> time \<Rightarrow> string list option \<Rightarrow> 'w \<times> db
    \<Rightarrow> (py_error + publish_result) \<times> 'w \<times> db" where
  "publish_pending_events transport now clock batch_size stall versions s =
     (case claim_batch now batch_size stall versions (snd s) of
        Inl e \<Rightarrow> (Inl e, s)
      | Inr (claimed, d) \<Rightarrow>
          relay_claimed transport clock 0 claimed
            \<lparr>pr_claimed = length claimed, pr_published = 0, pr_failed = 0, pr_dead = 0\<rparr> (fst s, d))"

section \<open>Rows of the outbox\<close>

definition live_event :: "outbox_event \<Rightarrow> bool" where
  "live_event e \<longleftrightarrow> ob_status e = OB_PENDING \<or> ob_status e = OB_PUBLISHING"

text \<open>What holds of every row: the CHECK constraints of the table, the bound on the attempts, and a token that was
  drawn before.\<close>

definition event_ok :: "uuid \<Rightarrow> outbox_event \<Rightarrow> bool" where
  "event_ok drawn e \<longleftrightarrow> ck_outbox_event e \<and> ob_attempt_count e \<le> ob_max_attempts e \<and> ob_max_attempts e \<le> 1024
     \<and> (live_event e \<longrightarrow> ob_attempt_count e < ob_max_attempts e)
     \<and> ob_id e < drawn \<and> (\<forall>t. ob_claim_token e = Some t \<longrightarrow> t < drawn)"

definition outbox_ok :: "db \<Rightarrow> bool" where
  "outbox_ok d \<longleftrightarrow> distinct (map ob_id (db_outbox d)) \<and> (\<forall>e \<in> set (db_outbox d). event_ok (db_next_uuid d) e)"

text \<open>The attempts the live rows have left.\<close>

definition attempts_left :: "outbox_event \<Rightarrow> nat" where
  "attempts_left e = (if live_event e then ob_max_attempts e - ob_attempt_count e else 0)"

definition budget :: "db \<Rightarrow> nat" where
  "budget d = sum_list (map attempts_left (db_outbox d))"

definition event_by_id :: "db \<Rightarrow> uuid \<Rightarrow> outbox_event option" where
  "event_by_id d i = find (\<lambda>e. ob_id e = i) (db_outbox d)"

definition held :: "db \<Rightarrow> uuid \<Rightarrow> uuid \<Rightarrow> bool" where
  "held d i t \<longleftrightarrow> claimed_by d i t \<noteq> []"

lemma event_ok_mono: "event_ok u e \<Longrightarrow> u \<le> v \<Longrightarrow> event_ok v e"
  by (auto simp: event_ok_def)

lemma sum_list_update_where:
  fixes c :: "'r \<Rightarrow> nat"
  assumes "distinct (map k rows)" "r \<in> set rows"
  shows "sum_list (map c (update_where (\<lambda>x. k x = k r) f rows)) + c r = sum_list (map c rows) + c (f r)"
  using assms
proof (induction rows)
  case (Cons a rows)
  show ?case
  proof (cases "a = r")
    case True
    then have "update_where (\<lambda>x. k x = k r) f rows = rows"
      using Cons.prems(1) by (intro update_where_id) (metis (no_types, lifting) distinct.simps(2) image_eqI list.set_map list.simps(9))
    with True show ?thesis by simp
  next
    case False
    then have "r \<in> set rows" "k a \<noteq> k r" using Cons.prems by auto
    with Cons show ?thesis by simp
  qed
qed simp

lemma set_event_frame [simp]:
  "db_outbox (set_event i f d) = update_where (\<lambda>e. ob_id e = i) f (db_outbox d)"
  "db_next_uuid (set_event i f d) = db_next_uuid d" "db_artifacts (set_event i f d) = db_artifacts d"
  by (simp_all add: set_event_def)

lemma held_iff:
  assumes "distinct (map ob_id (db_outbox d))"
  shows "claimed_by d i t = (case event_by_id d i of None \<Rightarrow> []
     | Some e \<Rightarrow> if ob_status e = OB_PUBLISHING \<and> ob_claim_token e = Some t then [e] else [])"
  unfolding claimed_by_def event_by_id_def using filter_key_singleton [OF assms] by simp

lemma event_by_idD: "event_by_id d i = Some e \<Longrightarrow> e \<in> set (db_outbox d) \<and> ob_id e = i"
  by (auto simp: event_by_id_def dest: find_SomeD)

text \<open>Writing one row under its own key.\<close>

lemma put_event:
  assumes "outbox_ok d" "event_by_id d i = Some e" "ob_id e' = i" "event_ok (db_next_uuid d) e'"
  shows "outbox_ok (set_event i (\<lambda>_. e') d)"
    and "event_by_id (set_event i (\<lambda>_. e') d) j = (if j = i then Some e' else event_by_id d j)"
    and "budget (set_event i (\<lambda>_. e') d) + attempts_left e = budget d + attempts_left e'"
proof -
  have e: "e \<in> set (db_outbox d)" "ob_id e = i" using event_by_idD [OF assms(2)] by auto
  have u: "distinct (map ob_id (db_outbox d))" using assms(1) by (simp add: outbox_ok_def)
  show "outbox_ok (set_event i (\<lambda>_. e') d)"
    using assms(1,4) map_key_put_key [of ob_id e' "db_outbox d"]
    by (auto simp: outbox_ok_def assms(3) dest: in_put_key)
  show "event_by_id (set_event i (\<lambda>_. e') d) j = (if j = i then Some e' else event_by_id d j)"
    using find_put_key [of ob_id j e' "db_outbox d"] assms(2) by (simp add: event_by_id_def assms(3))
  show "budget (set_event i (\<lambda>_. e') d) + attempts_left e = budget d + attempts_left e'"
    using sum_list_update_where [OF u e(1), of attempts_left "\<lambda>_. e'"] by (simp add: budget_def e(2))
qed

text \<open>An outcome recorded under a claim that holds: the row leaves the claim, uses an attempt, and if it is
  retried, it is due within the hour.\<close>

definition settled_event :: "time \<Rightarrow> outbox_event \<Rightarrow> outbox_event \<Rightarrow> bool" where
  "settled_event now e e' \<longleftrightarrow> ob_id e' = ob_id e \<and> ob_status e' \<noteq> OB_PUBLISHING \<and> ob_claim_token e' = None
     \<and> ob_attempt_count e' = ob_attempt_count e + 1 \<and> ob_max_attempts e' = ob_max_attempts e
     \<and> ob_schema_version e' = ob_schema_version e \<and> to_message e' = to_message e
     \<and> (live_event e' \<longrightarrow> now \<le> ob_available_at e' \<and> ob_available_at e' \<le> now + seconds 3600)"

lemma settled_event_ok:
  assumes "event_ok u e" "live_event e" "settled_event now e e'" "live_event e' \<Longrightarrow> ob_attempt_count e' < ob_max_attempts e'"
  shows "event_ok u e'" "attempts_left e' < attempts_left e"
  using assms by (auto simp: event_ok_def settled_event_def ck_outbox_event_def attempts_left_def live_event_def)

lemma record_success_held:
  assumes "outbox_ok d" "event_by_id d i = Some e" "ob_status e = OB_PUBLISHING" "ob_claim_token e = Some t"
  obtains e' where "record_success i t now d = Inr (True, set_event i (\<lambda>_. e') d)" "settled_event now e e'"
    "ob_status e' = OB_PUBLISHED" "event_ok (db_next_uuid d) e'" "attempts_left e' < attempts_left e"
proof -
  note result = that
  let ?f = "\<lambda>e. e\<lparr>ob_status := OB_PUBLISHED, ob_claim_token := None,
     ob_published_at := Some now, ob_attempt_count := ob_attempt_count e + 1, ob_last_error := None\<rparr>"
  have u: "distinct (map ob_id (db_outbox d))" using assms(1) by (simp add: outbox_ok_def)
  note e = event_by_idD [OF assms(2)]
  have ok: "event_ok (db_next_uuid d) e" using assms(1) e by (simp add: outbox_ok_def)
  have "set_event i ?f d = set_event i (\<lambda>_. ?f e) d"
    unfolding set_event_def update_where_def using e u
    by (intro arg_cong [where f = "\<lambda>x. d\<lparr>db_outbox := x\<rparr>"] map_cong) (auto dest: distinct_key_inj [of ob_id])
  moreover have s: "settled_event now e (?f e)" by (simp add: settled_event_def live_event_def to_message_def)
  moreover have "event_ok (db_next_uuid d) (?f e)" "attempts_left (?f e) < attempts_left e"
    by (rule settled_event_ok [OF ok _ s]; simp add: live_event_def assms(3))+
  ultimately show thesis using held_iff [OF u, of i t] assms result by (simp add: record_success_def)
qed

lemma record_failed_held:
  assumes "outbox_ok d" "event_by_id d i = Some e" "ob_status e = OB_PUBLISHING" "ob_claim_token e = Some t"
  obtains e' where "record_failed i t error now d = Inr (Some (ob_status e'), set_event i (\<lambda>_. e') d)" "settled_event now e e'"
    "ob_status e' = (if ob_attempt_count e + 1 \<ge> ob_max_attempts e then OB_DEAD else OB_PENDING)"
    "event_ok (db_next_uuid d) e'" "attempts_left e' < attempts_left e"
proof -
  note result = that
  have u: "distinct (map ob_id (db_outbox d))" using assms(1) by (simp add: outbox_ok_def)
  note e = event_by_idD [OF assms(2)]
  have ok: "event_ok (db_next_uuid d) e" using assms(1) e by (simp add: outbox_ok_def)
  let ?e1 = "e\<lparr>ob_attempt_count := ob_attempt_count e + 1, ob_last_error := Some (error_text error), ob_claim_token := None\<rparr>"
  have live: "live_event e" by (simp add: live_event_def assms(3))
  show thesis
  proof (cases "ob_attempt_count e + 1 \<ge> ob_max_attempts e")
    case True
    let ?e' = "?e1\<lparr>ob_status := OB_DEAD\<rparr>"
    have s: "settled_event now e ?e'" by (simp add: settled_event_def live_event_def to_message_def)
    have "record_failed i t error now d = Inr (Some (ob_status ?e'), set_event i (\<lambda>_. ?e') d)"
      using held_iff [OF u, of i t] assms True by (simp add: record_failed_def Let_def)
    then show thesis using result [OF _ s] settled_event_ok [OF ok live s] True by (simp add: live_event_def)
  next
    case False
    then have "ob_attempt_count e + 1 \<le> 1024" using ok by (simp add: event_ok_def)
    then obtain w where w: "backoff_delay (ob_attempt_count e + 1) = Inr w" using backoff_delay_total by blast
    let ?e' = "?e1\<lparr>ob_status := OB_PENDING, ob_available_at := now + w\<rparr>"
    have s: "settled_event now e ?e'" using backoff_delay_bounds [OF w] by (simp add: settled_event_def live_event_def to_message_def)
    have "record_failed i t error now d = Inr (Some (ob_status ?e'), set_event i (\<lambda>_. ?e') d)"
      using held_iff [OF u, of i t] assms False w by (simp add: record_failed_def Let_def)
    then show thesis using result [OF _ s] settled_event_ok [OF ok live s] False by (simp add: live_event_def)
  qed
qed

lemma outbox_cong:
  assumes "db_outbox d' = db_outbox d" "db_next_uuid d' = db_next_uuid d"
  shows "outbox_ok d' = outbox_ok d" "event_by_id d' = event_by_id d" "budget d' = budget d"
  using assms by (auto simp: outbox_ok_def event_by_id_def budget_def)

lemma set_event_const:
  assumes "distinct (map ob_id (db_outbox d))" "event_by_id d i = Some e"
  shows "set_event i f d = set_event i (\<lambda>_. f e) d"
  unfolding set_event_def update_where_def using assms(1) event_by_idD [OF assms(2)]
  by (intro arg_cong [where f = "\<lambda>x. d\<lparr>db_outbox := x\<rparr>"] map_cong) (auto dest: distinct_key_inj [of ob_id])

section \<open>Claiming a batch\<close>

lemma claim_event_ok:
  assumes "event_ok u e" "live_event e" "t < v" "u \<le> v"
  shows "event_ok v (claim_event t now stall e)" "attempts_left (claim_event t now stall e) = attempts_left e"
  using assms by (auto simp: event_ok_def claim_event_def ck_outbox_event_def live_event_def attempts_left_def)

lemma claim_events_ok:
  assumes "outbox_ok d" "distinct (map ob_id rows)" "\<forall>r \<in> set rows. event_by_id d (ob_id r) = Some r \<and> live_event r"
    and "claim_events now stall rows d = (cs, d')"
  shows "outbox_ok d' \<and> db_next_uuid d' = db_next_uuid d + length rows \<and> budget d' = budget d
    \<and> map fst cs = map ob_id rows
    \<and> (\<forall>(i, t, m) \<in> set cs. \<exists>e. event_by_id d i = Some e \<and> m = to_message e
         \<and> event_by_id d' i = Some (claim_event t now stall e))
    \<and> (\<forall>j. j \<notin> ob_id ` set rows \<longrightarrow> event_by_id d' j = event_by_id d j) \<and> db_artifacts d' = db_artifacts d"
  using assms
proof (induction rows arbitrary: d cs)
  case (Cons r rows)
  let ?t = "db_next_uuid d" and ?d1 = "d\<lparr>db_next_uuid := Suc (db_next_uuid d)\<rparr>"
  let ?f = "claim_event ?t now stall"
  define d2 where "d2 = set_event (ob_id r) ?f ?d1"
  have r: "event_by_id ?d1 (ob_id r) = Some r" "live_event r" "event_ok ?t r" "r \<in> set (db_outbox d)"
    using Cons.prems(1,3) by (auto simp: event_by_id_def outbox_ok_def dest: find_SomeD)
  have d1: "outbox_ok ?d1" using Cons.prems(1) by (auto simp: outbox_ok_def intro: event_ok_mono)
  then have eq: "d2 = set_event (ob_id r) (\<lambda>_. ?f r) ?d1" unfolding d2_def using r(1)
    by (intro set_event_const) (simp_all add: outbox_ok_def)
  note ok = claim_event_ok [OF r(3,2), of ?t "Suc ?t" now stall, simplified]
  note put = put_event [OF d1 r(1), of "?f r", folded eq]
  have id: "ob_id (?f r) = ob_id r" by (simp add: claim_event_def)
  have b: "budget d2 = budget d" using put(3) ok id by (simp add: outbox_cong budget_def)
  have look: "event_by_id d2 j = (if j = ob_id r then Some (?f r) else event_by_id d j)" for j
    using put(2) [of j] ok id by (simp add: event_by_id_def)
  obtain cs2 where rec: "claim_events now stall rows d2 = (cs2, d')" and cs: "cs = (ob_id r, ?t, to_message r) # cs2"
    using Cons.prems(4) by (auto simp: uuid4_def d2_def Let_def split: prod.splits)
  have "ob_id r \<notin> ob_id ` set rows" using Cons.prems(2) by simp
  then have other: "i \<noteq> ob_id r" if "i \<in> ob_id ` set rows" for i using that by blast
  have "event_by_id d2 (ob_id s) = Some s \<and> live_event s" if "s \<in> set rows" for s
    using other [of "ob_id s"] that Cons.prems(3) by (simp add: look)
  then have "\<forall>s \<in> set rows. event_by_id d2 (ob_id s) = Some s \<and> live_event s" by blast
  with Cons.IH [OF _ _ _ rec] put(1) ok id Cons.prems(2) have IH: "outbox_ok d' \<and> db_next_uuid d' = db_next_uuid d2 + length rows
    \<and> budget d' = budget d2 \<and> map fst cs2 = map ob_id rows
    \<and> (\<forall>(i, t, m) \<in> set cs2. \<exists>e. event_by_id d2 i = Some e \<and> m = to_message e
         \<and> event_by_id d' i = Some (claim_event t now stall e))
    \<and> (\<forall>j. j \<notin> ob_id ` set rows \<longrightarrow> event_by_id d' j = event_by_id d2 j) \<and> db_artifacts d' = db_artifacts d2" by simp
  have new: "event_by_id d' (ob_id r) = Some (?f r)" using IH Cons.prems(2) by (simp add: look)
  have old: "\<exists>e. event_by_id d i = Some e \<and> m = to_message e \<and> event_by_id d' i = Some (claim_event t now stall e)"
    if "(i, t, m) \<in> set cs2" for i t m
  proof -
    have ids: "fst ` set cs2 = ob_id ` set rows" using IH by (metis list.set_map)
    have "i \<in> fst ` set cs2" by (rule image_eqI [OF _ that]) simp
    then have "i \<noteq> ob_id r" unfolding ids by (rule other)
    moreover from IH that obtain e where "event_by_id d2 i = Some e \<and> m = to_message e \<and> event_by_id d' i = Some (claim_event t now stall e)"
      by blast
    ultimately show ?thesis by (simp add: look)
  qed
  have d: "event_by_id d (ob_id r) = Some r" using Cons.prems(3) by simp
  have "\<exists>e. event_by_id d i = Some e \<and> m = to_message e \<and> event_by_id d' i = Some (claim_event t now stall e)"
    if "(i, t, m) \<in> set cs" for i t m
    using that old new d by (auto simp: cs)
  then have claims: "\<forall>(i, t, m) \<in> set cs. \<exists>e. event_by_id d i = Some e \<and> m = to_message e
         \<and> event_by_id d' i = Some (claim_event t now stall e)" by blast
  have rest: "event_by_id d' j = event_by_id d j" if "j \<notin> ob_id ` set (r # rows)" for j using that IH by (simp add: look)
  have "db_next_uuid d2 = Suc (db_next_uuid d)" "db_artifacts d2 = db_artifacts d" by (simp_all add: d2_def)
  then show ?case using IH claims rest b cs by simp
qed simp

lemma claim_batch_ok:
  assumes "outbox_ok d" "claim_batch now n stall versions d = Inr (cs, d')"
  defines "rows \<equiv> claim_rows (due_event now versions) (\<lambda>e. (ob_available_at e, ob_created_at e)) n (db_outbox d)"
  shows "outbox_ok d' \<and> db_next_uuid d' = db_next_uuid d + length rows \<and> budget d' = budget d
    \<and> map fst cs = map ob_id rows
    \<and> (\<forall>(i, t, m) \<in> set cs. \<exists>e. event_by_id d i = Some e \<and> m = to_message e
         \<and> event_by_id d' i = Some (claim_event t now stall e))
    \<and> (\<forall>j. j \<notin> ob_id ` set rows \<longrightarrow> event_by_id d' j = event_by_id d j) \<and> db_artifacts d' = db_artifacts d"
proof (rule claim_events_ok [OF assms(1)])
  have u: "distinct (map ob_id (db_outbox d))" using assms(1) by (simp add: outbox_ok_def)
  then show "distinct (map ob_id rows)" unfolding rows_def by (rule claim_rows_distinct)
  show "\<forall>r \<in> set rows. event_by_id d (ob_id r) = Some r \<and> live_event r"
    using find_key_Some_iff [OF u] by (auto simp: rows_def event_by_id_def due_event_def live_event_def dest: claim_rows_set)
  show "claim_events now stall rows d = (cs, d')"
    using assms(2) by (auto simp: claim_batch_def rows_def result_simps)
qed

section \<open>The contract of a transport and the relay on top of it\<close>

text \<open>\<open>tally\<close> counts an outcome.\<close>

fun tally :: "outbox_status \<Rightarrow> publish_result \<Rightarrow> publish_result" where
  "tally OB_PUBLISHED r = r\<lparr>pr_published := pr_published r + 1\<rparr>"
| "tally OB_DEAD r = r\<lparr>pr_dead := pr_dead r + 1\<rparr>"
| "tally OB_PENDING r = r\<lparr>pr_failed := pr_failed r + 1\<rparr>"
| "tally OB_PUBLISHING r = r"

definition outcomes :: "publish_result \<Rightarrow> nat" where
  "outcomes r = pr_published r + pr_failed r + pr_dead r"

lemma tally_outcomes: "s \<noteq> OB_PUBLISHING \<Longrightarrow> outcomes (tally s r) = Suc (outcomes r)" "pr_claimed (tally s r) = pr_claimed r"
  by (cases s; simp add: outcomes_def)+

text \<open>The outcome of one claimed event: the row is settled, and it is PUBLISHED exactly if the transport took
  the message.\<close>

definition relayed :: "'w transport \<Rightarrow> outbox_event \<Rightarrow> time \<Rightarrow> outbox_event \<Rightarrow> bool" where
  "relayed publish e now e' \<longleftrightarrow> settled_event now e e' \<and>
     (\<exists>s r s'. publish (to_message e) s = (r, s') \<and> (ob_status e' = OB_PUBLISHED \<longleftrightarrow> r = None)
        \<and> (r \<noteq> None \<longrightarrow> ob_status e' = (if ob_attempt_count e + 1 \<ge> ob_max_attempts e then OB_DEAD else OB_PENDING)))"

locale outbox_transport =
  fixes publish :: "'w transport"
  assumes outbox_kept: "publish m (w, d) = (r, w', d') \<Longrightarrow> db_outbox d' = db_outbox d \<and> db_next_uuid d' = db_next_uuid d"
begin

lemma relay_one_held:
  assumes "outbox_ok d" "event_by_id d i = Some e" "ob_status e = OB_PUBLISHING" "ob_claim_token e = Some t"
  obtains e' w' d' where "relay_one publish now (i, t, to_message e) res (w, d) = (Inr (tally (ob_status e') res), w', d')"
    "relayed publish e now e'" "outbox_ok d'" "budget d' < budget d"
    "\<And>j. event_by_id d' j = (if j = i then Some e' else event_by_id d j)"
proof -
  note result = that
  obtain r w1 d1 where p: "publish (to_message e) (w, d) = (r, w1, d1)" by (metis prod_cases3)
  note kept = outbox_kept [OF p]
  note c = outbox_cong [OF conjunct1 [OF kept] conjunct2 [OF kept]]
  have held: "outbox_ok d1" "event_by_id d1 i = Some e" using assms(1,2) c by simp_all
  have fin: thesis
    if run: "relay_one publish now (i, t, to_message e) res (w, d)
        = (Inr (tally (ob_status e') res), w1, set_event i (\<lambda>_. e') d1)" and s: "settled_event now e e'"
      and st: "ob_status e' = OB_PUBLISHED \<longleftrightarrow> r = None"
        "r \<noteq> None \<Longrightarrow> ob_status e' = (if ob_attempt_count e + 1 \<ge> ob_max_attempts e then OB_DEAD else OB_PENDING)"
      and ok: "event_ok (db_next_uuid d1) e'" "attempts_left e' < attempts_left e" for e'
  proof (rule result [OF run])
    have "ob_id e' = i" using s event_by_idD [OF assms(2)] by (simp add: settled_event_def)
    note put = put_event [OF held this ok(1)]
    show "relayed publish e now e'" unfolding relayed_def using s st p by blast
    show "outbox_ok (set_event i (\<lambda>_. e') d1)" by (rule put(1))
    show "budget (set_event i (\<lambda>_. e') d1) < budget d" using put(3) ok(2) c by simp
    show "event_by_id (set_event i (\<lambda>_. e') d1) j = (if j = i then Some e' else event_by_id d j)" for j
      using put(2) [of j] c by simp
  qed
  show thesis
  proof (cases r)
    case None
    obtain e' where "record_success i t now d1 = Inr (True, set_event i (\<lambda>_. e') d1)" "settled_event now e e'"
      "ob_status e' = OB_PUBLISHED" "event_ok (db_next_uuid d1) e'" "attempts_left e' < attempts_left e"
      by (rule record_success_held [OF held assms(3,4)])
    with None p show thesis by (intro fin [of e']) (simp_all add: relay_one_def)
  next
    case (Some error)
    obtain e' where "record_failed i t error now d1 = Inr (Some (ob_status e'), set_event i (\<lambda>_. e') d1)"
      "settled_event now e e'" "ob_status e' = (if ob_attempt_count e + 1 \<ge> ob_max_attempts e then OB_DEAD else OB_PENDING)"
      "event_ok (db_next_uuid d1) e'" "attempts_left e' < attempts_left e"
      by (rule record_failed_held [OF held assms(3,4)])
    with Some p show thesis by (intro fin [of e']) (simp_all add: relay_one_def)
  qed
qed

end

text \<open>Polls: each has the time of its claim, the times of its outcomes and a time by which it has ended; the next poll comes
  at least an hour later, the longest backoff.\<close>

fun spaced :: "time \<Rightarrow> (time \<times> (nat \<Rightarrow> time) \<times> time) list \<Rightarrow> bool" where
  "spaced t [] \<longleftrightarrow> True"
| "spaced t ((now, clock, fin) # ps) \<longleftrightarrow> t \<le> now \<and> now \<le> fin \<and> (\<forall>k. clock k \<le> fin) \<and> spaced (fin + seconds 3600) ps"

fun polls :: "'w transport \<Rightarrow> nat \<Rightarrow> time \<Rightarrow> string list option \<Rightarrow> (time \<times> (nat \<Rightarrow> time) \<times> time) list \<Rightarrow> 'w \<times> db \<Rightarrow> 'w \<times> db" where
  "polls publish n stall versions [] s = s"
| "polls publish n stall versions ((now, clock, fin) # ps) s =
     polls publish n stall versions ps (snd (publish_pending_events publish now clock n stall versions s))"

text \<open>The rows that a publisher with these schema versions relays, and the state in which it has nothing left to do.\<close>

definition selected :: "string list option \<Rightarrow> outbox_event \<Rightarrow> bool" where
  "selected versions e \<longleftrightarrow> (case versions of None \<Rightarrow> True | Some vs \<Rightarrow> ob_schema_version e \<in> set vs)"

definition no_live :: "string list option \<Rightarrow> db \<Rightarrow> bool" where
  "no_live versions d \<longleftrightarrow> (\<forall>i e. event_by_id d i = Some e \<longrightarrow> selected versions e \<longrightarrow> \<not> live_event e)"

text \<open>No row comes or goes, and a row of another version stays as it is.\<close>

definition follows :: "string list option \<Rightarrow> db \<Rightarrow> db \<Rightarrow> bool" where
  "follows versions d d' \<longleftrightarrow> (\<forall>i. case event_by_id d i of None \<Rightarrow> event_by_id d' i = None
     | Some e \<Rightarrow> \<exists>e'. event_by_id d' i = Some e' \<and> selected versions e' = selected versions e \<and> (selected versions e \<or> e' = e))"

lemma follows_refl: "follows versions d d"
  by (simp add: follows_def split: option.split)

lemma follows_trans:
  assumes "follows versions d d1" "follows versions d1 d2"
  shows "follows versions d d2"
  unfolding follows_def
proof
  fix i
  show "case event_by_id d i of None \<Rightarrow> event_by_id d2 i = None
     | Some e \<Rightarrow> \<exists>e'. event_by_id d2 i = Some e' \<and> selected versions e' = selected versions e \<and> (selected versions e \<or> e' = e)"
    using assms [unfolded follows_def, THEN spec, of i] by (auto split: option.splits)
qed

definition due_by :: "time \<Rightarrow> db \<Rightarrow> bool" where
  "due_by t d \<longleftrightarrow> (\<forall>e \<in> set (db_outbox d). live_event e \<longrightarrow> ob_available_at e \<le> t)"

lemma due_by_lookup:
  assumes "outbox_ok d"
  shows "due_by t d \<longleftrightarrow> (\<forall>i e. event_by_id d i = Some e \<longrightarrow> live_event e \<longrightarrow> ob_available_at e \<le> t)"
  using assms find_key_Some_iff [of ob_id "db_outbox d"] by (auto simp: due_by_def event_by_id_def outbox_ok_def)

lemma budget_0:
  assumes "outbox_ok d"
  shows "budget d = 0 \<longleftrightarrow> (\<forall>e \<in> set (db_outbox d). \<not> live_event e)"
proof -
  have "attempts_left e = 0 \<longleftrightarrow> \<not> live_event e" if "e \<in> set (db_outbox d)" for e
    using assms that by (auto simp: outbox_ok_def event_ok_def attempts_left_def)
  then show ?thesis unfolding budget_def by (simp add: sum_list_eq_0_iff)
qed

definition claim_holds :: "db \<Rightarrow> uuid \<times> uuid \<times> outbox_message \<Rightarrow> bool" where
  "claim_holds d c \<longleftrightarrow> (\<exists>e. event_by_id d (fst c) = Some e \<and> ob_status e = OB_PUBLISHING
     \<and> ob_claim_token e = Some (fst (snd c)) \<and> snd (snd c) = to_message e)"

context outbox_transport begin

lemma relay_claimed_held:
  assumes "outbox_ok d" "distinct (map fst cs)" "\<forall>c \<in> set cs. claim_holds d c" "outcomes res + length cs = pr_claimed res"
  obtains res' w' d' where "relay_claimed publish clock k cs res (w, d) = (Inr res', w', d')"
    "outbox_ok d'" "budget d' + length cs \<le> budget d" "pr_claimed res' = pr_claimed res" "outcomes res' = pr_claimed res'"
    "\<forall>j. j \<notin> fst ` set cs \<longrightarrow> event_by_id d' j = event_by_id d j"
    "\<forall>j. j \<in> fst ` set cs \<longrightarrow> (\<exists>e e' l. event_by_id d j = Some e \<and> event_by_id d' j = Some e' \<and> relayed publish e (clock l) e')"
proof -
  from assms have "\<exists>res' w' d'. relay_claimed publish clock k cs res (w, d) = (Inr res', w', d')
    \<and> outbox_ok d' \<and> budget d' + length cs \<le> budget d \<and> pr_claimed res' = pr_claimed res \<and> outcomes res' = pr_claimed res'
    \<and> (\<forall>j. j \<notin> fst ` set cs \<longrightarrow> event_by_id d' j = event_by_id d j)
    \<and> (\<forall>j. j \<in> fst ` set cs \<longrightarrow> (\<exists>e e' l. event_by_id d j = Some e \<and> event_by_id d' j = Some e' \<and> relayed publish e (clock l) e'))"
  proof (induction cs arbitrary: k res w d)
    case (Cons c cs)
    obtain i t m where c: "c = (i, t, m)" by (cases c)
    from Cons.prems(3) obtain e where e: "event_by_id d i = Some e" "ob_status e = OB_PUBLISHING" "ob_claim_token e = Some t"
      "m = to_message e" by (auto simp: claim_holds_def c)
    obtain e' w1 d1 where one: "relay_one publish (clock k) (i, t, to_message e) res (w, d) = (Inr (tally (ob_status e') res), w1, d1)"
      and r: "relayed publish e (clock k) e'" and ok: "outbox_ok d1" "budget d1 < budget d"
      and look: "\<And>j. event_by_id d1 j = (if j = i then Some e' else event_by_id d j)"
      by (rule relay_one_held [OF Cons.prems(1) e(1-3), where now = "clock k" and res = res and w = w]) blast
    have "ob_status e' \<noteq> OB_PUBLISHING" using r by (simp add: relayed_def settled_event_def)
    note ta = tally_outcomes(1) [OF this, of res] tally_outcomes(2) [of "ob_status e'" res]
    have ni: "i \<notin> fst ` set cs" using Cons.prems(2) by (simp add: c)
    have "claim_holds d1 x" if "x \<in> set cs" for x
    proof -
      have "fst x \<noteq> i" using ni that by blast
      then show ?thesis using Cons.prems(3) that by (simp add: claim_holds_def look)
    qed
    with Cons.IH [OF ok(1), of "tally (ob_status e') res" "Suc k" w1] Cons.prems(2,4) ta
    obtain res' w' d' where IH: "relay_claimed publish clock (Suc k) cs (tally (ob_status e') res) (w1, d1) = (Inr res', w', d')"
      "outbox_ok d'" "budget d' + length cs \<le> budget d1" "pr_claimed res' = pr_claimed res" "outcomes res' = pr_claimed res'"
      "\<forall>j. j \<notin> fst ` set cs \<longrightarrow> event_by_id d' j = event_by_id d1 j"
      "\<forall>j. j \<in> fst ` set cs \<longrightarrow> (\<exists>e e' l. event_by_id d1 j = Some e \<and> event_by_id d' j = Some e' \<and> relayed publish e (clock l) e')"
      by auto
    have "\<exists>e e' l. event_by_id d j = Some e \<and> event_by_id d' j = Some e' \<and> relayed publish e (clock l) e'"
      if "j \<in> fst ` set (c # cs)" for j
    proof (cases "j = i")
      case True
      then have "event_by_id d' j = Some e'" using IH(6) ni look by simp
      with True e(1) r show ?thesis by blast
    next
      case False
      then have "j \<in> fst ` set cs" using that by (simp add: c)
      with IH(7) obtain e0 e1 l where "event_by_id d1 j = Some e0 \<and> event_by_id d' j = Some e1 \<and> relayed publish e0 (clock l) e1"
        by blast
      with False look [of j] show ?thesis by metis
    qed
    moreover have "event_by_id d' j = event_by_id d j" if "j \<notin> fst ` set (c # cs)" for j
      using that IH(6) look by (simp add: c)
    moreover have "relay_claimed publish clock k (c # cs) res (w, d) = (Inr res', w', d')"
      using one IH(1) by (simp add: c e(4))
    ultimately show ?case using IH(2-5) ok(2) by auto
  qed simp
  then show thesis using that by blast
qed

lemma publish_pending_ok:
  fixes now :: time and n :: nat
  assumes "outbox_ok d" "versions \<noteq> Some []"
  defines "rows \<equiv> claim_rows (due_event now versions) (\<lambda>e. (ob_available_at e, ob_created_at e)) n (db_outbox d)"
  obtains res w' d' where "publish_pending_events publish now clock n stall versions (w, d) = (Inr res, w', d')"
    "outbox_ok d'" "budget d' + length rows \<le> budget d" "pr_claimed res = length rows" "outcomes res = length rows"
    "\<forall>j. j \<notin> ob_id ` set rows \<longrightarrow> event_by_id d' j = event_by_id d j"
    "\<forall>j. j \<in> ob_id ` set rows \<longrightarrow> (\<exists>e e' l. event_by_id d j = Some e \<and> event_by_id d' j = Some e' \<and> relayed publish e (clock l) e')"
proof -
  note result = that
  obtain cs d1 where cl: "claim_batch now n stall versions d = Inr (cs, d1)"
    using assms(2) by (simp add: claim_batch_def rguard_def) (metis surj_pair)
  note b = claim_batch_ok [OF assms(1) cl, folded rows_def]
  have len: "length cs = length rows" using b by (metis length_map)
  have ids: "fst ` set cs = ob_id ` set rows" "map fst cs = map ob_id rows" using b by (metis list.set_map, simp)
  have dist: "distinct (map fst cs)" unfolding ids rows_def using assms(1) by (intro claim_rows_distinct) (simp add: outbox_ok_def)
  have hold: "\<forall>c \<in> set cs. claim_holds d1 c"
    using b by (fastforce simp: claim_holds_def claim_event_def to_message_def)
  have same: "relayed publish e now' e' \<longleftrightarrow> relayed publish (claim_event t now stall e) now' e'" for e e' t now'
    by (simp add: relayed_def settled_event_def claim_event_def to_message_def)
  let ?r = "\<lparr>pr_claimed = length cs, pr_published = 0, pr_failed = 0, pr_dead = 0\<rparr>"
  have cnt: "outcomes ?r + length cs = pr_claimed ?r" by (simp add: outcomes_def)
  obtain res w' d' where r: "relay_claimed publish clock 0 cs ?r (w, d1) = (Inr res, w', d')"
    "outbox_ok d'" "budget d' + length cs \<le> budget d1" "pr_claimed res = pr_claimed ?r" "outcomes res = pr_claimed res"
    "\<forall>j. j \<notin> fst ` set cs \<longrightarrow> event_by_id d' j = event_by_id d1 j"
    "\<forall>j. j \<in> fst ` set cs \<longrightarrow> (\<exists>e e' l. event_by_id d1 j = Some e \<and> event_by_id d' j = Some e' \<and> relayed publish e (clock l) e')"
    by (rule relay_claimed_held [OF conjunct1 [OF b] dist hold cnt, where clock = clock and k = 0 and w = w])
  show thesis
  proof (rule result)
    show "publish_pending_events publish now clock n stall versions (w, d) = (Inr res, w', d')"
      using cl r(1) by (simp add: publish_pending_events_def)
    show "\<forall>j. j \<notin> ob_id ` set rows \<longrightarrow> event_by_id d' j = event_by_id d j"
      using b r(6) by (simp add: ids)
    have "\<exists>e e' l. event_by_id d j = Some e \<and> event_by_id d' j = Some e' \<and> relayed publish e (clock l) e'"
      if j: "j \<in> ob_id ` set rows" for j
    proof -
      from j obtain c where "c \<in> set cs" "j = fst c" unfolding ids(1) [symmetric] by blast
      with b obtain e t where "event_by_id d j = Some e" "event_by_id d1 j = Some (claim_event t now stall e)" by fastforce
      with r(7) j show ?thesis unfolding ids(1) using same by fastforce
    qed
    then show "\<forall>j. j \<in> ob_id ` set rows \<longrightarrow> (\<exists>e e' l. event_by_id d j = Some e \<and> event_by_id d' j = Some e' \<and> relayed publish e (clock l) e')"
      by blast
  qed (use r b len in simp_all)
qed

lemma poll_ok:
  assumes "outbox_ok d" "due_by t d" "t \<le> now" "now \<le> fin" "\<forall>k. clock k \<le> fin" "0 < n" "versions \<noteq> Some []"
  obtains res w' d' where "publish_pending_events publish now clock n stall versions (w, d) = (Inr res, w', d')"
    "outbox_ok d'" "due_by (fin + seconds 3600) d'" "follows versions d d'"
    "no_live versions d \<or> budget d' < budget d" "no_live versions d \<Longrightarrow> no_live versions d'"
proof -
  note result = that
  let ?rows = "claim_rows (due_event now versions) (\<lambda>e. (ob_available_at e, ob_created_at e)) n (db_outbox d)"
  obtain res w' d' where r: "publish_pending_events publish now clock n stall versions (w, d) = (Inr res, w', d')"
    "outbox_ok d'" "budget d' + length ?rows \<le> budget d" "pr_claimed res = length ?rows" "outcomes res = length ?rows"
    "\<forall>j. j \<notin> ob_id ` set ?rows \<longrightarrow> event_by_id d' j = event_by_id d j"
    "\<forall>j. j \<in> ob_id ` set ?rows \<longrightarrow> (\<exists>e e' l. event_by_id d j = Some e \<and> event_by_id d' j = Some e' \<and> relayed publish e (clock l) e')"
    by (rule publish_pending_ok [OF assms(1,7), where now = now and n = n and clock = clock and stall = stall and w = w])
  have row: "selected versions e \<and> live_event e" if "event_by_id d j = Some e" "j \<in> ob_id ` set ?rows" for j e
  proof -
    from that(2) obtain r where r: "r \<in> set ?rows" "ob_id r = j" by blast
    then have "r \<in> set (db_outbox d)" "due_event now versions r" using claim_rows_set [OF r(1)] by simp_all
    moreover from this(1) have "event_by_id d j = Some r"
      using assms(1) find_key_Some_iff [of ob_id "db_outbox d"] r(2) by (simp add: event_by_id_def outbox_ok_def)
    ultimately show ?thesis using that(1) by (auto simp: due_event_def selected_def live_event_def)
  qed
  have "ob_available_at x \<le> fin + seconds 3600" if x: "event_by_id d' i = Some x" "live_event x" for i x
  proof (cases "i \<in> ob_id ` set ?rows")
    case True
    with r(7) x obtain e l where "relayed publish e (clock l) x" by fastforce
    then have "ob_available_at x \<le> clock l + seconds 3600" using x(2) by (simp add: relayed_def settled_event_def)
    with assms(5) show ?thesis by (smt (verit))
  next
    case False
    with r(6) x assms(2) have "ob_available_at x \<le> t" by (simp add: due_by_lookup [OF assms(1)])
    moreover have "0 \<le> seconds 3600" by (simp add: seconds_def)
    ultimately show ?thesis using assms(3,4) by linarith
  qed
  then have due: "due_by (fin + seconds 3600) d'" by (simp add: due_by_lookup [OF r(2)])
  have follow: "follows versions d d'" unfolding follows_def
  proof
    fix i
    show "case event_by_id d i of None \<Rightarrow> event_by_id d' i = None
       | Some e \<Rightarrow> \<exists>e'. event_by_id d' i = Some e' \<and> selected versions e' = selected versions e \<and> (selected versions e \<or> e' = e)"
    proof (cases "i \<in> ob_id ` set ?rows")
      case True
      with r(7) obtain e e' l where e: "event_by_id d i = Some e" "event_by_id d' i = Some e'" "relayed publish e (clock l) e'" by blast
      from e(3) have "ob_schema_version e' = ob_schema_version e" by (simp add: relayed_def settled_event_def)
      then have "selected versions e' = selected versions e" by (simp add: selected_def split: option.split)
      with row [OF e(1) True] e show ?thesis by simp
    next
      case False
      with r(6) show ?thesis by (simp split: option.split)
    qed
  qed
  have live: "?rows \<noteq> []" if no: "\<not> no_live versions d"
  proof -
    from no obtain i e where e: "event_by_id d i = Some e" "selected versions e" "live_event e" by (auto simp: no_live_def)
    have "e \<in> set (db_outbox d)" using event_by_idD [OF e(1)] by simp
    moreover from this have "due_event now versions e" using e(2,3) assms(2,3) by (auto simp: due_event_def due_by_def live_event_def selected_def)
    ultimately show ?thesis unfolding claim_rows_empty_iff [OF assms(6)] by blast
  qed
  have "no_live versions d'" if no: "no_live versions d"
  proof -
    have "j \<notin> ob_id ` set ?rows" for j using no row r(7) by (metis no_live_def)
    with no r(6) show ?thesis by (simp add: no_live_def)
  qed
  moreover have "no_live versions d \<or> budget d' < budget d"
  proof (cases "no_live versions d")
    case False
    from live [OF this] have "0 < length ?rows" by simp
    with r(3) show ?thesis by linarith
  qed simp
  ultimately show thesis using result [OF r(1,2) due follow] by blast
qed

text \<open>The relay empties the outbox: every poll that finds a live row uses up one of the attempts that the rows have left.\<close>

lemma polls_drain:
  assumes "outbox_ok d" "due_by t d" "spaced t ps" "0 < n" "versions \<noteq> Some []" "no_live versions d \<or> budget d \<le> length ps"
  shows "follows versions d (snd (polls publish n stall versions ps (w, d)))
    \<and> no_live versions (snd (polls publish n stall versions ps (w, d)))"
  using assms
proof (induction ps arbitrary: t w d)
  case Nil
  have "no_live versions d" if "budget d = 0"
    using that event_by_idD [of d] by (auto simp: budget_0 [OF Nil.prems(1)] no_live_def)
  with Nil.prems(6) show ?case by (auto simp: follows_refl)
next
  case (Cons p ps)
  obtain now clock fin where p: "p = (now, clock, fin)" by (cases p)
  with Cons.prems(3) have sp: "t \<le> now" "now \<le> fin" "\<forall>k. clock k \<le> fin" "spaced (fin + seconds 3600) ps" by simp_all
  obtain res w' d' where r: "publish_pending_events publish now clock n stall versions (w, d) = (Inr res, w', d')"
    "outbox_ok d'" "due_by (fin + seconds 3600) d'" "follows versions d d'" "no_live versions d \<or> budget d' < budget d"
    "no_live versions d \<Longrightarrow> no_live versions d'"
    by (rule poll_ok [OF Cons.prems(1,2) sp(1-3) Cons.prems(4,5)]) blast
  have "no_live versions d' \<or> budget d' \<le> length ps" using r(5,6) Cons.prems(6) by auto
  from Cons.IH [OF r(2,3) sp(4) Cons.prems(4,5) this, of w'] r(1) show ?case
    using follows_trans [OF r(4)] by (simp add: p)
qed

end

section \<open>The transports meet the contract\<close>

interpretation fake_relay: outbox_transport fake_publish
  by unfold_locales (auto simp: fake_publish_def Let_def split: if_splits)

interpretation http_relay: outbox_transport "http_publish post endpoint timeout auth_header"
  for post endpoint timeout auth_header
  by unfold_locales (auto simp: http_publish_def Let_def split: sum.splits prod.splits if_splits)

lemma send_outgoing_frame: "send_outgoing cc send m (w, d) = (r, w', d') \<Longrightarrow> d' = d"
  by (auto simp: send_outgoing_def split: sum.splits prod.splits)

lemma materialize_frame:
  "materialize_snapshot_ref L cc put utcnow m (w, d) = (r, w', d') \<Longrightarrow> db_outbox d' = db_outbox d \<and> db_next_uuid d' = db_next_uuid d"
  by (auto simp: materialize_snapshot_ref_def Let_def mark_uploaded_def split: sum.splits prod.splits option.splits)

interpretation claim_check_relay: outbox_transport "claim_check_publish L cc put send utcnow"
  for L cc put send utcnow
proof
  fix m w d r w' d'
  assume *: "claim_check_publish L cc put send utcnow m (w, d) = (r, w', d')"
  show "db_outbox d' = db_outbox d \<and> db_next_uuid d' = db_next_uuid d"
  proof (cases "materialize_snapshot_ref L cc put utcnow m (w, d)")
    case (fields x w1 d1)
    with * materialize_frame [OF fields] show ?thesis
      by (auto simp: claim_check_publish_def split: if_splits sum.splits dest: send_outgoing_frame)
  qed
qed

section \<open>Interleavings\<close>

text \<open>Everything that touches the outbox table: events are staged, workers claim batches and record outcomes, in
  any order and with any tokens; every other transaction leaves the table alone.\<close>

inductive relay_step :: "db \<Rightarrow> db \<Rightarrow> bool" where
  stage: "relay_step d (snd (stage_outbox et at ai pid sv payload now d))"
| claim: "claim_batch now n stall versions d = Inr (cs, d') \<Longrightarrow> relay_step d d'"
| success: "record_success i t now d = Inr (b, d') \<Longrightarrow> relay_step d d'"
| failure: "record_failed i t error now d = Inr (st, d') \<Longrightarrow> relay_step d d'"
| other: "db_outbox d' = db_outbox d \<Longrightarrow> db_next_uuid d \<le> db_next_uuid d' \<Longrightarrow> relay_step d d'"

lemma held_set_event: "held (set_event i f d) k t \<Longrightarrow> held d k t \<or> (\<exists>e. ob_claim_token (f e) = Some t)"
  by (auto simp: held_def claimed_by_def filter_empty_conv elim!: in_update_whereE)

lemma record_success_cases:
  assumes "record_success i t now d = Inr (b, d')"
  shows "d' = d \<and> \<not> b \<or> b \<and> held d i t \<and> d' = set_event i (\<lambda>e. e\<lparr>ob_status := OB_PUBLISHED, ob_claim_token := None,
             ob_published_at := Some now, ob_attempt_count := ob_attempt_count e + 1, ob_last_error := None\<rparr>) d"
  using assms by (auto simp: record_success_def result_simps held_def split: option.splits)

lemma record_failed_cases:
  assumes "record_failed i t error now d = Inr (st, d')"
  shows "d' = d \<or> held d i t \<and> (\<exists>e. ob_claim_token e = None \<and> d' = set_event i (\<lambda>_. e) d)"
proof (cases "claimed_by d i t" rule: one_or_none.cases)
  case (2 x)
  let ?e = "x\<lparr>ob_attempt_count := ob_attempt_count x + 1, ob_last_error := Some (error_text error), ob_claim_token := None\<rparr>"
  from 2 assms obtain w where "d' = set_event i (\<lambda>_. ?e\<lparr>ob_status := OB_DEAD\<rparr>) d
      \<or> d' = set_event i (\<lambda>_. ?e\<lparr>ob_status := OB_PENDING, ob_available_at := now + w\<rparr>) d"
    by (cases "ob_attempt_count ?e \<ge> ob_max_attempts ?e") (auto simp: record_failed_def result_simps Let_def)
  moreover have "ob_claim_token (?e\<lparr>ob_status := OB_DEAD\<rparr>) = None"
    "ob_claim_token (?e\<lparr>ob_status := OB_PENDING, ob_available_at := now + w\<rparr>) = None" by simp_all
  moreover have "held d i t" using 2 by (simp add: held_def)
  ultimately show ?thesis by blast
qed (use assms in \<open>auto simp: record_failed_def\<close>)

lemma claim_events_tokens:
  "claim_events now stall rows d = (cs, d') \<Longrightarrow> db_next_uuid d \<le> db_next_uuid d' \<and> (held d' k t \<longrightarrow> held d k t \<or> db_next_uuid d \<le> t)"
proof (induction rows arbitrary: d cs)
  case (Cons r rows)
  let ?d2 = "set_event (ob_id r) (claim_event (db_next_uuid d) now stall) (d\<lparr>db_next_uuid := Suc (db_next_uuid d)\<rparr>)"
  obtain cs2 where "claim_events now stall rows ?d2 = (cs2, d')"
    using Cons.prems by (auto simp: uuid4_def Let_def split: prod.splits)
  from Cons.IH [OF this] have "Suc (db_next_uuid d) \<le> db_next_uuid d'" "held d' k t \<longrightarrow> held ?d2 k t \<or> Suc (db_next_uuid d) \<le> t"
    by simp_all
  moreover have "held ?d2 k t \<Longrightarrow> held d k t \<or> db_next_uuid d \<le> t"
    by (drule held_set_event) (auto simp: claim_event_def held_def claimed_by_def)
  ultimately show ?case by auto
qed simp

lemma relay_step_tokens:
  "relay_step d d' \<Longrightarrow> db_next_uuid d \<le> db_next_uuid d' \<and> (held d' k t \<longrightarrow> held d k t \<or> db_next_uuid d \<le> t)"
proof (induction rule: relay_step.induct)
  case (claim now n stall versions d cs d')
  then have "claim_events now stall (claim_rows (due_event now versions) (\<lambda>e. (ob_available_at e, ob_created_at e)) n (db_outbox d)) d
      = (cs, d')" by (simp add: claim_batch_def result_simps)
  then show ?case by (rule claim_events_tokens)
next
  case (success i t' now d b d')
  from record_success_cases [OF this] show ?case by (auto dest: held_set_event)
next
  case (failure i t' error now d st d')
  from record_failed_cases [OF this] show ?case by (auto dest: held_set_event)
qed (auto simp: held_def claimed_by_def stage_outbox_def uuid4_def Let_def split: if_splits)

definition relay_outcome :: "uuid \<Rightarrow> uuid \<Rightarrow> py_exc option \<times> time \<Rightarrow> db \<Rightarrow> db" where
  "relay_outcome i t x d = (case x of
       (None, now) \<Rightarrow> commit (record_success i t now d) d
     | (Some error, now) \<Rightarrow> commit (record_failed i t error now d) d)"

interpretation outbox_claims: claim_fencing held db_next_uuid relay_step relay_outcome
proof
  show "relay_outcome i t x d = d" if "\<not> held d i t" for i t x d
    using that by (auto simp: relay_outcome_def record_success_def record_failed_def held_def split: prod.splits option.splits)
qed (use relay_step_tokens in blast)+

text \<open>The rows that are there stay, with the message they carry; a row that is PUBLISHED or DEAD stays as it is.\<close>

definition keeps_events :: "db \<Rightarrow> db \<Rightarrow> bool" where
  "keeps_events d d' \<longleftrightarrow> (\<forall>i e. event_by_id d i = Some e \<longrightarrow> (\<exists>e'. event_by_id d' i = Some e'
     \<and> to_message e' = to_message e \<and> ob_attempt_count e \<le> ob_attempt_count e' \<and> (\<not> live_event e \<longrightarrow> e' = e)))"

lemma keeps_events_refl: "keeps_events d d"
  by (simp add: keeps_events_def)

lemma keeps_events_trans: "keeps_events d d1 \<Longrightarrow> keeps_events d1 d' \<Longrightarrow> keeps_events d d'"
  unfolding keeps_events_def
proof (intro allI impI)
  fix i e
  assume 1: "\<forall>i e. event_by_id d i = Some e \<longrightarrow> (\<exists>e'. event_by_id d1 i = Some e' \<and> to_message e' = to_message e
      \<and> ob_attempt_count e \<le> ob_attempt_count e' \<and> (\<not> live_event e \<longrightarrow> e' = e))"
    and 2: "\<forall>i e. event_by_id d1 i = Some e \<longrightarrow> (\<exists>e'. event_by_id d' i = Some e' \<and> to_message e' = to_message e
      \<and> ob_attempt_count e \<le> ob_attempt_count e' \<and> (\<not> live_event e \<longrightarrow> e' = e))"
    and "event_by_id d i = Some e"
  then obtain e1 where e1: "event_by_id d1 i = Some e1" "to_message e1 = to_message e" "ob_attempt_count e \<le> ob_attempt_count e1"
    "\<not> live_event e \<longrightarrow> e1 = e" by blast
  with 2 obtain e2 where "event_by_id d' i = Some e2" "to_message e2 = to_message e1" "ob_attempt_count e1 \<le> ob_attempt_count e2"
    "\<not> live_event e1 \<longrightarrow> e2 = e1" by blast
  with e1 show "\<exists>e'. event_by_id d' i = Some e' \<and> to_message e' = to_message e \<and> ob_attempt_count e \<le> ob_attempt_count e'
      \<and> (\<not> live_event e \<longrightarrow> e' = e)" by (intro exI [of _ e2]) auto
qed

lemma keeps_events_put:
  assumes "outbox_ok d" "event_by_id d i = Some e" "live_event e" "settled_event now e e'" "event_ok (db_next_uuid d) e'"
  shows "outbox_ok (set_event i (\<lambda>_. e') d) \<and> keeps_events d (set_event i (\<lambda>_. e') d)"
proof -
  have "ob_id e' = i" using assms(2,4) by (auto simp: settled_event_def dest: event_by_idD)
  from put_event [OF assms(1,2) this assms(5)] assms show ?thesis
    by (auto simp: keeps_events_def settled_event_def)
qed

lemma record_success_keeps:
  assumes "outbox_ok d" "record_success i t now d = Inr (b, d')"
  shows "outbox_ok d' \<and> keeps_events d d'"
proof (cases "held d i t")
  case True
  then obtain e where e: "event_by_id d i = Some e" "ob_status e = OB_PUBLISHING" "ob_claim_token e = Some t"
    using held_iff [of d i t] assms(1) by (auto simp: held_def outbox_ok_def split: option.splits if_splits)
  from record_success_held [OF assms(1) e, of now] assms keeps_events_put [OF assms(1) e(1), of now] e(2) show ?thesis
    by (metis Inr_inject live_event_def prod.inject)
next
  case False
  with record_success_cases [OF assms(2)] assms(1) show ?thesis by (auto simp: keeps_events_refl)
qed

lemma record_failed_keeps:
  assumes "outbox_ok d" "record_failed i t error now d = Inr (st, d')"
  shows "outbox_ok d' \<and> keeps_events d d'"
proof (cases "held d i t")
  case True
  then obtain e where e: "event_by_id d i = Some e" "ob_status e = OB_PUBLISHING" "ob_claim_token e = Some t"
    using held_iff [of d i t] assms(1) by (auto simp: held_def outbox_ok_def split: option.splits if_splits)
  from record_failed_held [OF assms(1) e, of error now] assms keeps_events_put [OF assms(1) e(1), of now] e(2) show ?thesis
    by (metis Inr_inject live_event_def prod.inject)
next
  case False
  with record_failed_cases [OF assms(2)] assms(1) show ?thesis by (auto simp: keeps_events_refl)
qed

lemma claim_batch_keeps:
  assumes "outbox_ok d" "claim_batch now n stall versions d = Inr (cs, d')"
  shows "outbox_ok d' \<and> keeps_events d d'"
proof -
  let ?rows = "claim_rows (due_event now versions) (\<lambda>e. (ob_available_at e, ob_created_at e)) n (db_outbox d)"
  note b = claim_batch_ok [OF assms]
  have "\<exists>e'. event_by_id d' i = Some e' \<and> to_message e' = to_message e \<and> ob_attempt_count e \<le> ob_attempt_count e' \<and> (\<not> live_event e \<longrightarrow> e' = e)"
    if e: "event_by_id d i = Some e" for i e
  proof (cases "i \<in> ob_id ` set ?rows")
    case True
    then obtain r where r: "r \<in> set ?rows" "ob_id r = i" by blast
    have "r = e" using claim_rows_set [OF r(1)] r(2) event_by_idD [OF e] assms(1)
      by (auto simp: outbox_ok_def dest: distinct_key_inj [of ob_id])
    then have live: "live_event e" using claim_rows_set [OF r(1)] by (auto simp: due_event_def live_event_def)
    have "i \<in> fst ` set cs" using True b by (metis (no_types, lifting) list.set_map)
    then obtain c where "c \<in> set cs" "i = fst c" by blast
    with b obtain t where "event_by_id d' i = Some (claim_event t now stall e)" using e by fastforce
    with live show ?thesis by (simp add: claim_event_def to_message_def)
  next
    case False
    with b e show ?thesis by auto
  qed
  with b show ?thesis by (simp add: keeps_events_def)
qed

lemma relay_step_keeps:
  assumes "relay_step d d'" "outbox_ok d"
  shows "outbox_ok d' \<and> keeps_events d d'"
  using assms
proof (cases rule: relay_step.cases)
  case (stage et at ai pid sv payload now)
  let ?e = "fst (stage_outbox et at ai pid sv payload now d)"
  have d': "db_outbox d' = db_outbox d @ [?e]" "db_next_uuid d' = Suc (db_next_uuid d)" "ob_id ?e = db_next_uuid d"
    by (simp_all add: stage stage_outbox_def uuid4_def Let_def)
  have new: "event_ok (Suc (db_next_uuid d)) ?e"
    by (simp add: stage_outbox_def uuid4_def event_ok_def ck_outbox_event_def Let_def)
  have fresh: "db_next_uuid d \<notin> ob_id ` set (db_outbox d)" using assms(2) by (auto simp: outbox_ok_def event_ok_def)
  have "outbox_ok d'" using assms(2) new fresh d' by (auto simp: outbox_ok_def intro: event_ok_mono)
  moreover have "keeps_events d d'" by (auto simp: keeps_events_def event_by_id_def d'(1) find_append)
  ultimately show ?thesis by simp
next
  case (other)
  then have "outbox_ok d'" using assms(2) by (auto simp: outbox_ok_def intro: event_ok_mono)
  with other show ?thesis by (simp add: keeps_events_def event_by_id_def)
qed (use assms(2) claim_batch_keeps record_success_keeps record_failed_keeps in blast)+

lemma relay_steps_keep:
  "relay_step\<^sup>*\<^sup>* d d' \<Longrightarrow> outbox_ok d \<Longrightarrow> outbox_ok d' \<and> keeps_events d d'"
proof (induction rule: rtranclp_induct)
  case base
  then show ?case by (simp add: keeps_events_refl)
next
  case (step d1 d2)
  then show ?case using relay_step_keeps keeps_events_trans by blast
qed

section \<open>The properties of the relay\<close>

text \<open>C26. The outbox drains. However the object store and the queue behave, polls that are at least an hour apart, the
  longest backoff, settle every event that the publisher is set up for (all of them, or those of the schema versions it is given; the
  program runs this transport with version 3 only): after as many polls as the live events have attempts left, every such
  row is PUBLISHED or DEAD, so a poison event never blocks the others. A row of another version stays exactly as it was, and no
  row comes or goes.\<close>

theorem outbox_relay_drains:
  assumes "outbox_ok d" "due_by t d" "spaced t ps" "0 < n" "versions \<noteq> Some []" "budget d \<le> length ps"
  shows "let d' = snd (polls (claim_check_publish L cc put send utcnow) n stall versions ps (w, d)) in
    \<forall>i. case event_by_id d i of None \<Rightarrow> event_by_id d' i = None
      | Some e \<Rightarrow> \<exists>e'. event_by_id d' i = Some e'
          \<and> (if selected versions e then ob_status e' = OB_PUBLISHED \<or> ob_status e' = OB_DEAD else e' = e)"
proof -
  let ?d = "snd (polls (claim_check_publish L cc put send utcnow) n stall versions ps (w, d))"
  have f: "follows versions d ?d" "no_live versions ?d"
    using claim_check_relay.polls_drain [OF assms(1-5) disjI2 [OF assms(6)], of L cc put send utcnow stall w] by simp_all
  have "ob_status e = OB_PUBLISHED \<or> ob_status e = OB_DEAD" if "\<not> live_event e" for e
    using that by (cases "ob_status e") (auto simp: live_event_def)
  with f show ?thesis unfolding Let_def follows_def no_live_def by (fastforce split: option.splits)
qed

text \<open>One poll of the relay. The oldest due events, at most a batch of them, are each handed to the transport; an
  event becomes PUBLISHED exactly if the transport took it, else it waits for its backoff, or is DEAD after its
  last attempt; the counters add up, every other row is untouched, and the poll raises no exception.\<close>

theorem relay_poll_outcome:
  fixes now :: time and n :: nat
  assumes "outbox_ok d"
  defines "rows \<equiv> claim_rows (due_event now None) (\<lambda>e. (ob_available_at e, ob_created_at e)) n (db_outbox d)"
  shows "\<exists>res w' d'. publish_pending_events (claim_check_publish L cc put send utcnow) now clock n stall None (w, d) = (Inr res, w', d')
    \<and> pr_claimed res = length rows \<and> pr_published res + pr_failed res + pr_dead res = length rows
    \<and> (\<forall>e \<in> set rows. \<exists>e' l. event_by_id d' (ob_id e) = Some e' \<and> relayed (claim_check_publish L cc put send utcnow) e (clock l) e')
    \<and> (\<forall>j. j \<notin> ob_id ` set rows \<longrightarrow> event_by_id d' j = event_by_id d j)"
proof -
  let ?P = "claim_check_publish L cc put send utcnow"
  obtain res w' d' where r: "publish_pending_events ?P now clock n stall None (w, d) = (Inr res, w', d')"
    "outbox_ok d'" "budget d' + length rows \<le> budget d" "pr_claimed res = length rows" "outcomes res = length rows"
    "\<forall>j. j \<notin> ob_id ` set rows \<longrightarrow> event_by_id d' j = event_by_id d j"
    "\<forall>j. j \<in> ob_id ` set rows \<longrightarrow> (\<exists>e e' l. event_by_id d j = Some e \<and> event_by_id d' j = Some e' \<and> relayed ?P e (clock l) e')"
    unfolding rows_def by (rule claim_check_relay.publish_pending_ok [OF assms(1) option.distinct(1)])
  have "event_by_id d (ob_id e) = Some e" if "e \<in> set rows" for e
    using that assms(1) find_key_Some_iff [of ob_id "db_outbox d"]
    by (auto simp: rows_def event_by_id_def outbox_ok_def dest: claim_rows_set)
  with r(7) have "\<forall>e \<in> set rows. \<exists>e' l. event_by_id d' (ob_id e) = Some e' \<and> relayed ?P e (clock l) e'" by fastforce
  with r show ?thesis by (simp add: outcomes_def)
qed

text \<open>C28. A worker that has lost its claim cannot write. Once an event is not held under a token that was drawn, no
  sequence of stagings, claims and outcomes gives the token back, and a late success or failure recorded
  under it leaves the database unchanged.\<close>

theorem late_relay_outcome_ignored:
  assumes "relay_step\<^sup>*\<^sup>* d d'" "t < db_next_uuid d" "\<not> held d i t"
  shows "relay_outcome i t x d' = d'"
  using assms by (rule outbox_claims.late_outcome)

text \<open>C29. The life of an outbox row. Under every interleaving the rows keep the CHECK constraints of the table (a claim token
  exactly while PUBLISHING), never use more attempts than they have, never lose an event or change its message, and
  never change a row once it is PUBLISHED or DEAD.\<close>

theorem outbox_history:
  assumes "outbox_ok d" "relay_step\<^sup>*\<^sup>* d d'"
  shows "(\<forall>e \<in> set (db_outbox d'). ck_outbox_event e \<and> ob_attempt_count e \<le> ob_max_attempts e)
    \<and> (\<forall>e \<in> set (db_outbox d). \<exists>e' \<in> set (db_outbox d'). to_message e' = to_message e \<and> ob_attempt_count e \<le> ob_attempt_count e'
         \<and> (ob_status e = OB_PUBLISHED \<or> ob_status e = OB_DEAD \<longrightarrow> e' = e))"
proof -
  have k: "outbox_ok d'" "keeps_events d d'" using relay_steps_keep [OF assms(2,1)] by auto
  have "\<exists>e' \<in> set (db_outbox d'). to_message e' = to_message e \<and> ob_attempt_count e \<le> ob_attempt_count e'
         \<and> (ob_status e = OB_PUBLISHED \<or> ob_status e = OB_DEAD \<longrightarrow> e' = e)" if "e \<in> set (db_outbox d)" for e
  proof -
    have "event_by_id d (ob_id e) = Some e"
      using that assms(1) find_key_Some_iff [of ob_id "db_outbox d"] by (simp add: event_by_id_def outbox_ok_def)
    with k(2) obtain e' where "event_by_id d' (ob_id e) = Some e'" "to_message e' = to_message e"
      "ob_attempt_count e \<le> ob_attempt_count e'" "\<not> live_event e \<longrightarrow> e' = e" unfolding keeps_events_def by blast
    then show ?thesis by (intro bexI [of _ e']) (auto simp: live_event_def dest: event_by_idD)
  qed
  with k(1) show ?thesis by (auto simp: outbox_ok_def event_ok_def)
qed

section \<open>The claim check\<close>

lemma map_of_set_value:
  "map_of (map (\<lambda>(a, b). if a = k then (a, v) else (a, b)) kvs) x =
     (if x = k then (if k \<in> fst ` set kvs then Some v else None) else map_of kvs x)"
  by (induction kvs) (auto, metis fst_conv image_eqI)

lemma map_of_jset [simp]: "map_of (jset k v kvs) = (map_of kvs)(k \<mapsto> v)"
proof
  fix x
  show "map_of (jset k v kvs) x = ((map_of kvs)(k \<mapsto> v)) x"
  proof (cases "k \<in> fst ` set kvs")
    case True
    then show ?thesis by (simp add: jset_def map_of_set_value)
  next
    case False
    then have "map_of kvs k = None" by (simp add: map_of_eq_None_iff)
    with False show ?thesis by (simp add: jset_def map_add_def split: option.splits)
  qed
qed

lemma map_of_jdel [simp]: "map_of (jdel k kvs) k = None"
  by (auto simp: jdel_def map_of_eq_None_iff)

lemma claimed_artifact_ok:
  assumes "claimed_artifact L cc j d = Inr (a, content)"
  shows "a \<in> set (db_artifacts d) \<and> j = JStr (UuidTxt (sa_id a)) \<and> content = json_dumps L (sa_payload_json a)
    \<and> length content = sa_size_bytes a \<and> sha256_hexdigest L content = sa_sha256 a \<and> int (length content) \<le> cc_max_size_bytes cc"
proof -
  from assms obtain u where u: "j = JStr (UuidTxt u)"
    by (cases j) (auto simp: claimed_artifact_def split: py_text.splits)
  with assms have "filter (\<lambda>a. sa_id a = u) (db_artifacts d) = [a]"
    and r: "content = json_dumps L (sa_payload_json a)" "length content = sa_size_bytes a" "sha256_hexdigest L content = sa_sha256 a"
      "int (length content) \<le> cc_max_size_bytes cc"
    by (auto simp: claimed_artifact_def result_simps Let_def snapshot_digest_def validate_graph_snapshot_size_def
        graph_snapshot_max_size_bytes_def split: if_splits)
  then have "a \<in> set (db_artifacts d) \<and> sa_id a = u" by (metis (mono_tags, lifting) filter_eq_ConsD in_set_conv_decomp)
  with u r show ?thesis by simp
qed

text \<open>C27. The reference a consumer gets is good. When the publication of a graph change succeeds, the snapshot was stored first,
  under the key of the artifact that the event names, the bytes stored have the size and the digest the
  reference announces and are within the limit, and only then the message went to the queue, carrying the reference in
  place of the artifact id; the artifact is marked as uploaded.\<close>

theorem claim_check_consistent:
  assumes "claim_check_publish L cc put send utcnow m (w, d) = (None, w', d')" "om_event_type m = ''PROJECT_GRAPH_CHANGED''"
  shows "\<exists>a content w1 q. a \<in> set (db_artifacts d)
    \<and> jget (jget (om_payload m) ''payload'') ''snapshotArtifactId'' = JStr (UuidTxt (sa_id a))
    \<and> put (cc_bucket cc) (sa_object_key a) content (sa_content_type a) w = (None, w1)
    \<and> content = json_dumps L (sa_payload_json a) \<and> length content = sa_size_bytes a
    \<and> sha256_hexdigest L content = sa_sha256 a \<and> int (length content) \<le> cc_max_size_bytes cc
    \<and> send q w1 = (None, w') \<and> sq_queue_url q = cc_queue_url cc
    \<and> jget (jget (sq_body q) ''payload'') ''snapshotRef'' = snapshot_ref (cc_bucket cc) a
    \<and> jget (jget (sq_body q) ''payload'') ''snapshotArtifactId'' = JNull
    \<and> d' = mark_uploaded (sa_id a) (utcnow w1) d"
proof -
  let ?env = "items (om_payload m)" and ?p = "items (payload_dict (jget (om_payload m) ''payload''))"
  from assms have v3: "om_schema_version m = ''3''" by (auto simp: claim_check_publish_def split: if_splits)
  with assms obtain m' s1 where mat: "materialize_snapshot_ref L cc put utcnow m (w, d) = (Inr m', s1)"
    and snd: "send_outgoing cc send m' s1 = (None, w', d')"
    by (auto simp: claim_check_publish_def split: sum.splits prod.splits)
  from mat obtain a content w1 where art: "claimed_artifact L cc (jget (JObj ?p) ''snapshotArtifactId'') d = Inr (a, content)"
    and put: "put (cc_bucket cc) (sa_object_key a) content (sa_content_type a) w = (None, w1)"
    and s1: "s1 = (w1, mark_uploaded (sa_id a) (utcnow w1) d)"
    and m': "m' = m\<lparr>om_payload := JObj (jset ''payload''
                    (JObj (jset ''snapshotRef'' (snapshot_ref (cc_bucket cc) a) (jdel ''snapshotArtifactId'' ?p))) ?env)\<rparr>"
    by (auto simp: materialize_snapshot_ref_def Let_def split: sum.splits prod.splits option.splits)
  have p: "JObj ?p = payload_dict (jget (om_payload m) ''payload'')"
    by (cases "jget (om_payload m) ''payload''") auto
  have id: "jget (jget (om_payload m) ''payload'') ''snapshotArtifactId'' = JStr (UuidTxt (sa_id a))"
    using claimed_artifact_ok [OF art] by (cases "jget (om_payload m) ''payload''") auto
  from snd s1 obtain q body where q: "send q w1 = (None, w')" "d' = mark_uploaded (sa_id a) (utcnow w1) d" "sq_queue_url q = cc_queue_url cc"
    "as_dict m' = Inr body" "sq_body q = body"
    by (auto simp: send_outgoing_def Let_def result_simps split: sum.splits prod.splits if_splits)
  have "jget body ''payload'' = jget (om_payload m') ''payload''"
    using q(4) v3 by (auto simp: as_dict_def m' result_simps jindex_def split: option.splits)
  then have "jget (jget body ''payload'') ''snapshotRef'' = snapshot_ref (cc_bucket cc) a"
    "jget (jget body ''payload'') ''snapshotArtifactId'' = JNull" by (simp_all add: m')
  with claimed_artifact_ok [OF art] id put q show ?thesis by blast
qed

section \<open>Identifiers on the wire\<close>

lemma str_isdigit_ascii:
  assumes "\<forall>c \<in> set s. py_isdigit c \<longrightarrow> is_digit c"
  shows "str_isdigit s \<longleftrightarrow> s \<noteq> [] \<and> (\<forall>c \<in> set s. is_digit c)"
  using assms by (auto simp: str_isdigit_def py_isdigit_def)

lemma minus_no_digit [simp]: "\<not> is_digit (CHR ''-'')" "\<not> py_isdigit (CHR ''-'')"
  by (simp_all add: is_digit_def py_isdigit_def)

lemma canonical_numeric_ascii:
  assumes "\<forall>c \<in> set s. py_isdigit c \<longrightarrow> is_digit c"
  shows "canonical_numeric s \<longleftrightarrow> canonical_integer s"
proof (cases s)
  case (Cons c cs)
  then show ?thesis using assms str_isdigit_ascii [of s] str_isdigit_ascii [of cs]
    by (cases cs) (auto simp: canonical_numeric_def canonical_integer_def)
qed (simp add: canonical_numeric_def canonical_integer_def str_isdigit_def)

lemma int_of_text_canonical: "canonical_integer s \<Longrightarrow> int_of_text s = Inr (parse_int s)"
  by (cases s; cases "tl s") (auto simp: canonical_integer_def int_of_text_def is_digit_def split: if_splits)

text \<open>The envelopes write the identifiers that the event payloads write. For every project id without superscript digits
  the Event v1 envelope carries exactly the public identifier of the contract, and so does the Result Event v3
  envelope except for negative numbers, which it leaves as text.\<close>

theorem envelope_identifier_agrees:
  assumes "\<forall>c \<in> set pid. py_isdigit c \<longrightarrow> is_digit c"
  shows "v1_project_id pid = Inr (public_identifier (IdStr pid))
    \<and> public_result_identifier pid = Inr (if pid \<noteq> [] \<and> hd pid = CHR ''-'' then JStr (Txt pid) else public_identifier (IdStr pid))"
proof
  show "v1_project_id pid = Inr (public_identifier (IdStr pid))"
    using canonical_numeric_ascii [OF assms] int_of_text_canonical [of pid] by (simp add: v1_project_id_def)
  have "str_isdigit pid \<and> (pid = ''0'' \<or> hd pid \<noteq> CHR ''0'') \<longleftrightarrow> canonical_integer pid \<and> hd pid \<noteq> CHR ''-''"
    using str_isdigit_ascii [OF assms] by (cases pid; cases "tl pid") (auto simp: canonical_integer_def is_digit_def split: if_splits)
  then show "public_result_identifier pid = Inr (if pid \<noteq> [] \<and> hd pid = CHR ''-'' then JStr (Txt pid) else public_identifier (IdStr pid))"
    using int_of_text_canonical [of pid] by (auto simp: public_result_identifier_def canonical_integer_def)
qed

section \<open>The properties at concrete events\<close>

definition sample_payload :: json where
  "sample_payload = JObj [(''meetingId'', JNull), (''commandId'', JNull),
     (''payload'', JObj [(''snapshotArtifactId'', JStr (UuidTxt 5))])]"

definition sample_outbox :: db where
  "sample_outbox = snd (stage_outbox ''PROJECT_GRAPH_CHANGED'' ''project_graph'' (Txt ''7'') ''7'' ''3'' sample_payload 0 (sample_db []))"

lemma sample_outbox_ok: "outbox_ok sample_outbox" "due_by 0 sample_outbox" "budget sample_outbox = 8" "db_next_uuid sample_outbox = 1001"
  "map ob_id (db_outbox sample_outbox) = [1000]"
  by (simp_all add: sample_outbox_def stage_outbox_def uuid4_def sample_db_def empty_db_def outbox_ok_def event_ok_def
      ck_outbox_event_def due_by_def budget_def attempts_left_def live_event_def Let_def)

text \<open>A poll every hour, each instantaneous.\<close>

fun hourly :: "nat \<Rightarrow> time \<Rightarrow> (time \<times> (nat \<Rightarrow> time) \<times> time) list" where
  "hourly 0 t = []"
| "hourly (Suc n) t = (t, \<lambda>_. t, t) # hourly n (t + seconds 3600)"

lemma hourly_spaced: "spaced t (hourly n t)" "length (hourly n t) = n"
  by (induction n arbitrary: t) auto

definition sample_claim_check :: claim_check where
  "sample_claim_check = \<lparr>cc_queue_url = ''q'', cc_bucket = ''b'', cc_queue_type = ''STANDARD'', cc_max_size_bytes = 100\<rparr>"

text \<open>Clients that always succeed and count their calls.\<close>

definition sample_put :: "nat s3_put" where "sample_put bucket key body content_type w = (None, w + 1)"

definition sample_send :: "nat sqs_send" where "sample_send q w = (None, w + 10)"

abbreviation sample_transport :: "nat transport" where
  "sample_transport \<equiv> claim_check_publish sample_stdlib sample_claim_check sample_put sample_send int"

theorem outbox_relay_drains_witness:
  "\<exists>e'. event_by_id (snd (polls sample_transport 20 300 (Some [''3'']) (hourly 8 0) (0, sample_outbox))) 1000 = Some e'
     \<and> (ob_status e' = OB_PUBLISHED \<or> ob_status e' = OB_DEAD)"
proof -
  obtain e where e: "event_by_id sample_outbox 1000 = Some e" "selected (Some [''3'']) e"
    by (simp add: sample_outbox_def stage_outbox_def uuid4_def sample_db_def empty_db_def Let_def event_by_id_def selected_def)
  have "0 < (20 :: nat)" "Some [''3''] \<noteq> Some []" "budget sample_outbox \<le> length (hourly 8 0)" by (simp_all add: sample_outbox_ok hourly_spaced)
  note drained = outbox_relay_drains [OF sample_outbox_ok(1,2) hourly_spaced(1) this, of sample_stdlib sample_claim_check sample_put sample_send int 300 0,
      unfolded Let_def]
  from spec [OF drained, of 1000] e show ?thesis by simp
qed

text \<open>A worker whose event was claimed again by another one, under the token 1002, and published by that one.\<close>

definition sample_reclaimed :: db where
  "sample_reclaimed = set_event 1000 (claim_event 1002 5 300) (sample_outbox\<lparr>db_next_uuid := 1003\<rparr>)"

theorem late_relay_outcome_ignored_witness:
  "\<exists>d'. record_success 1000 1002 7 sample_reclaimed = Inr (True, d')
     \<and> relay_outcome 1000 1001 (Some (''RuntimeError'', ''x''), 9) d' = d'"
proof -
  have "claimed_by sample_reclaimed 1000 1002 \<noteq> []" and nh: "\<not> held sample_reclaimed 1000 1001"
    by (simp_all add: sample_reclaimed_def claimed_by_def held_def sample_outbox_def stage_outbox_def uuid4_def sample_db_def
        empty_db_def claim_event_def Let_def)
  moreover have "one_or_none (claimed_by sample_reclaimed 1000 1002) \<noteq> Inl MultipleResultsFound"
    by (simp add: sample_reclaimed_def claimed_by_def sample_outbox_def stage_outbox_def uuid4_def sample_db_def
        empty_db_def claim_event_def Let_def)
  ultimately obtain d' where r: "record_success 1000 1002 7 sample_reclaimed = Inr (True, d')"
    by (cases "claimed_by sample_reclaimed 1000 1002" rule: one_or_none.cases) (auto simp: record_success_def)
  then have "relay_step\<^sup>*\<^sup>* sample_reclaimed d'" by (intro r_into_rtranclp success)
  moreover have "1001 < db_next_uuid sample_reclaimed" by (simp add: sample_reclaimed_def)
  ultimately have "relay_outcome 1000 1001 (Some (''RuntimeError'', ''x''), 9) d' = d'"
    using late_relay_outcome_ignored [of sample_reclaimed d' 1001 1000] nh by blast
  with r show ?thesis by blast
qed

theorem outbox_history_witness:
  "to_message (hd (db_outbox sample_outbox)) \<in> to_message ` set (db_outbox
      (snd (stage_outbox ''X'' ''a'' (Txt ''x'') ''7'' ''3'' (JObj []) 4 sample_outbox)))"
proof -
  have "relay_step\<^sup>*\<^sup>* sample_outbox (snd (stage_outbox ''X'' ''a'' (Txt ''x'') ''7'' ''3'' (JObj []) 4 sample_outbox))"
    by (intro r_into_rtranclp stage)
  moreover have "hd (db_outbox sample_outbox) \<in> set (db_outbox sample_outbox)"
    using sample_outbox_ok(5) by (intro hd_in_set) auto
  ultimately show ?thesis using outbox_history [OF sample_outbox_ok(1)] by (metis image_eqI)
qed

definition sample_artifact :: graph_snapshot_artifact where
  "sample_artifact = \<lparr>sa_id = 5, sa_project_id = ''7'', sa_meeting_id = None, sa_command_id = 3, sa_graph_version = 2,
     sa_snapshot_schema_version = 2, sa_payload_json = JNull, sa_size_bytes = 2, sa_sha256 = ''{}'',
     sa_content_type = ''application/json'', sa_object_key = KeyTxt ''p'' ''7'' 3 2, sa_status = ART_PENDING, sa_uploaded_at = None\<rparr>"

definition sample_message :: outbox_message where
  "sample_message = \<lparr>om_event_id = UuidTxt 1000, om_event_type = ''PROJECT_GRAPH_CHANGED'', om_aggregate_type = ''project_graph'',
     om_aggregate_id = Txt ''7'', om_project_id = ''7'', om_schema_version = ''3'', om_occurred_at = 0, om_payload = sample_payload\<rparr>"

lemma sample_publish:
  "\<exists>d'. sample_transport sample_message (0, sample_outbox\<lparr>db_artifacts := [sample_artifact]\<rparr>) = (None, 11, d')"
proof -
  have "claimed_artifact sample_stdlib sample_claim_check (JStr (UuidTxt 5)) (sample_outbox\<lparr>db_artifacts := [sample_artifact]\<rparr>)
      = Inr (sample_artifact, ''{}'')"
    by (simp add: claimed_artifact_def sample_artifact_def snapshot_digest_def sample_stdlib_def validate_graph_snapshot_size_def
        graph_snapshot_max_size_bytes_def sample_claim_check_def Let_def)
  moreover have "public_result_identifier ''7'' = Inr (JInt 7)" by code_simp
  ultimately show ?thesis
    by (simp add: claim_check_publish_def materialize_snapshot_ref_def sample_message_def sample_payload_def sample_put_def
        send_outgoing_def sample_send_def as_dict_def jindex_def jset_def jdel_def sample_claim_check_def Let_def)
qed

theorem claim_check_consistent_witness:
  "\<exists>a q w1. sample_send q w1 = (None, 11) \<and> a = sample_artifact
     \<and> jget (jget (sq_body q) ''payload'') ''snapshotRef'' = snapshot_ref ''b'' a"
proof -
  obtain d' where "sample_transport sample_message (0, sample_outbox\<lparr>db_artifacts := [sample_artifact]\<rparr>) = (None, 11, d')"
    using sample_publish by blast
  from claim_check_consistent [OF this] show ?thesis by (auto simp: sample_message_def sample_claim_check_def)
qed

end
