(* ===== verification/Analysis_Jobs.thy ===== *)
theory Analysis_Jobs
  imports Outbox_Relay
begin

text \<open>
  \<open>jobs/analysis_jobs.py\<close> and \<open>analysis_worker/runner.py\<close>: the queue of analysis jobs, one row per node
  (enqueue, claim, complete, fail) and the worker that drains it. The callbacks with which a caller
  stages an event in the transaction of an outcome are functions on the database. The three stages of the analysis
  that a worker runs between claim and outcome (request, retrieval, model) are one parameter of the worker: a
  function that may change the database and ends with the run or with an exception.
\<close>

section \<open>The queue\<close>

definition DEFAULT_CLAIM_TIMEOUT_SECONDS :: int where "DEFAULT_CLAIM_TIMEOUT_SECONDS = 1800"

record claimed_analysis_job =
  cj_job_id :: uuid
  cj_project_id :: string
  cj_external_meeting_id :: string
  cj_node_id :: uuid
  cj_node_version :: int
  cj_attempt :: nat
  cj_claim_token :: uuid

definition set_job :: "uuid \<Rightarrow> (analysis_job \<Rightarrow> analysis_job) \<Rightarrow> db \<Rightarrow> db" where
  "set_job i f d = d\<lparr>db_jobs := update_where (\<lambda>j. jb_id j = i) f (db_jobs d)\<rparr>"

definition requeue_job :: "int \<Rightarrow> time \<Rightarrow> analysis_job \<Rightarrow> analysis_job" where
  "requeue_job node_version now j = j\<lparr>jb_status := JOB_PENDING, jb_node_version := node_version, jb_attempt_count := 0,
     jb_claim_token := None, jb_claimed_at := None, jb_available_at := now, jb_failure_code := None,
     jb_last_error := None, jb_updated_at := now\<rparr>"

definition enqueue_analysis_job ::
  "string \<Rightarrow> string \<Rightarrow> uuid \<Rightarrow> int \<Rightarrow> nat \<Rightarrow> time \<Rightarrow> db \<Rightarrow> (analysis_job \<times> db) result" where
  "enqueue_analysis_job project_id external_meeting_id node_id node_version max_attempts now d =
     rbind (one_or_none (filter (\<lambda>n. nd_id n = node_id \<and> nd_project_id n = project_id) (db_nodes d))) (\<lambda>node_exists.
     rguard (node_exists = None) (ValueError ''analysis job Node does not exist in the requested project'')
     (rbind (one_or_none (filter (\<lambda>j. jb_node_id j = node_id \<and> jb_project_id j = project_id) (db_jobs d))) (\<lambda>existing.
       case existing of
         Some j \<Rightarrow> Inr (requeue_job node_version now j, set_job (jb_id j) (requeue_job node_version now) d)
       | None \<Rightarrow>
           rguard (max_attempts < 1 \<or> (\<exists>j \<in> set (db_jobs d). jb_node_id j = node_id)) IntegrityError
           (let (i, d1) = uuid4 d;
                j = \<lparr>jb_id = i, jb_project_id = project_id, jb_external_meeting_id = external_meeting_id,
                     jb_node_id = node_id, jb_node_version = node_version, jb_status = JOB_PENDING,
                     jb_attempt_count = 0, jb_max_attempts = max_attempts, jb_claim_token = None, jb_claimed_at = None,
                     jb_available_at = now, jb_analysis_run_id = None, jb_failure_code = None, jb_last_error = None,
                     jb_created_at = now, jb_updated_at = now\<rparr>
            in Inr (j, d1\<lparr>db_jobs := db_jobs d1 @ [j]\<rparr>)))))"

definition due_job :: "time \<Rightarrow> analysis_job \<Rightarrow> bool" where
  "due_job now j \<longleftrightarrow> (jb_status j = JOB_PENDING \<or> jb_status j = JOB_RUNNING) \<and> jb_available_at j \<le> now"

text \<open>A RUNNING row that a live worker still owns.\<close>

definition owned_by_live_worker :: "time \<Rightarrow> analysis_job \<Rightarrow> bool" where
  "owned_by_live_worker stale_before j \<longleftrightarrow> jb_status j = JOB_RUNNING
     \<and> (case jb_claimed_at j of None \<Rightarrow> False | Some c \<Rightarrow> c > stale_before)"

definition claim_job :: "uuid \<Rightarrow> time \<Rightarrow> time \<Rightarrow> analysis_job \<Rightarrow> analysis_job" where
  "claim_job token now timeout j = j\<lparr>jb_status := JOB_RUNNING, jb_attempt_count := jb_attempt_count j + 1,
     jb_claim_token := Some token, jb_claimed_at := Some now, jb_available_at := now + timeout, jb_updated_at := now\<rparr>"

definition claimed_of :: "uuid \<Rightarrow> analysis_job \<Rightarrow> claimed_analysis_job" where
  "claimed_of token j = \<lparr>cj_job_id = jb_id j, cj_project_id = jb_project_id j, cj_external_meeting_id = jb_external_meeting_id j,
     cj_node_id = jb_node_id j, cj_node_version = jb_node_version j, cj_attempt = jb_attempt_count j, cj_claim_token = token\<rparr>"

definition claim_next_analysis_job :: "time \<Rightarrow> time \<Rightarrow> db \<Rightarrow> claimed_analysis_job option \<times> db" where
  "claim_next_analysis_job now timeout d =
     (let stale_before = now - timeout;
          rows = claim_rows (due_job now) (\<lambda>j. (jb_available_at j, jb_created_at j)) 10 (db_jobs d)
      in case find (\<lambda>j. \<not> owned_by_live_worker stale_before j) rows of
           None \<Rightarrow> (None, d)
         | Some j \<Rightarrow>
             (let (token, d1) = uuid4 d
              in (Some (claimed_of token (claim_job token now timeout j)), set_job (jb_id j) (claim_job token now timeout) d1)))"

definition owned_job :: "db \<Rightarrow> uuid \<Rightarrow> uuid \<Rightarrow> analysis_job option result" where
  "owned_job d i token = one_or_none (filter (\<lambda>j. jb_id j = i \<and> jb_claim_token j = Some token \<and> jb_status j = JOB_RUNNING) (db_jobs d))"

text \<open>A callback on the session of an outcome.\<close>

definition run_callback :: "(db \<Rightarrow> db result) option \<Rightarrow> db \<Rightarrow> db result" where
  "run_callback callback d = (case callback of None \<Rightarrow> Inr d | Some f \<Rightarrow> f d)"

definition succeed_job :: "uuid option \<Rightarrow> time \<Rightarrow> analysis_job \<Rightarrow> analysis_job" where
  "succeed_job run_id now j = j\<lparr>jb_status := JOB_SUCCEEDED, jb_analysis_run_id := run_id, jb_claim_token := None,
     jb_failure_code := None, jb_last_error := None, jb_updated_at := now\<rparr>"

definition complete_analysis_job ::
  "uuid \<Rightarrow> uuid \<Rightarrow> uuid option \<Rightarrow> (db \<Rightarrow> db result) option \<Rightarrow> time \<Rightarrow> db \<Rightarrow> (bool \<times> db) result" where
  "complete_analysis_job job_id token run_id on_session now d =
     rbind (owned_job d job_id token) (\<lambda>job.
       case job of
         None \<Rightarrow> Inr (False, d)
       | Some _ \<Rightarrow> rbind (run_callback on_session (set_job job_id (succeed_job run_id now) d)) (\<lambda>d1. Inr (True, d1)))"

definition fail_job :: "string \<Rightarrow> string \<Rightarrow> time \<Rightarrow> analysis_job \<Rightarrow> analysis_job" where
  "fail_job failure_code error now j = j\<lparr>jb_claim_token := None, jb_failure_code := Some (take 128 failure_code),
     jb_last_error := Some (take 2000 error), jb_updated_at := now\<rparr>"

text \<open>The status after a failure; \<open>None\<close> is the answer UNOWNED.\<close>

definition fail_analysis_job ::
  "uuid \<Rightarrow> uuid \<Rightarrow> string \<Rightarrow> string \<Rightarrow> bool \<Rightarrow> (db \<Rightarrow> db result) option \<Rightarrow> time \<Rightarrow> db \<Rightarrow> (job_status option \<times> db) result" where
  "fail_analysis_job job_id token failure_code error retryable on_terminal_failure now d =
     rbind (owned_job d job_id token) (\<lambda>job.
       case job of
         None \<Rightarrow> Inr (None, d)
       | Some j \<Rightarrow>
           if retryable \<and> jb_attempt_count j < jb_max_attempts j
           then rbind (backoff_delay (jb_attempt_count j)) (\<lambda>delay.
                Inr (Some JOB_PENDING, set_job job_id (\<lambda>j. (fail_job failure_code error now j)
                  \<lparr>jb_status := JOB_PENDING, jb_available_at := now + delay\<rparr>) d))
           else rbind (run_callback on_terminal_failure
                  (set_job job_id (\<lambda>j. (fail_job failure_code error now j)\<lparr>jb_status := JOB_FAILED\<rparr>) d)) (\<lambda>d1.
                Inr (Some JOB_FAILED, d1)))"

section \<open>The worker\<close>

text \<open>The classes of exceptions that end a job at once, with their subclasses.\<close>

definition NON_RETRYABLE :: "string list" where
  "NON_RETRYABLE = [''NodeNotFoundError'', ''NodeStateError'', ''DependentAnalysisBlockedError'', ''NodeValidationError'',
     ''EmbeddingValidationError'']"

record analysis_worker_result =
  aw_claimed :: nat
  aw_succeeded :: nat
  aw_failed :: nat
  aw_skipped :: nat

definition worker_stage :: "claimed_analysis_job \<Rightarrow> string \<Rightarrow> (string \<times> json) list \<Rightarrow> time \<Rightarrow> db \<Rightarrow> db result" where
  "worker_stage job event_type payload now d =
     rbind (emit_outbox_event event_type ''node'' (UuidTxt (cj_node_id job)) (cj_project_id job)
              (JObj ((''meetingId'', jstr (cj_external_meeting_id job)) # payload)) now d) (\<lambda>(_, d1). Inr d1)"

definition current_node_version :: "claimed_analysis_job \<Rightarrow> db \<Rightarrow> py_exc + int" where
  "current_node_version job d =
     (case one_or_none (filter (\<lambda>n. nd_id n = cj_node_id job \<and> nd_project_id n = cj_project_id job) (db_nodes d)) of
        Inl e \<Rightarrow> Inl (exc_of e)
      | Inr None \<Rightarrow> Inl (''NodeNotFoundError'', ''node not found'')
      | Inr (Some n) \<Rightarrow> Inr (nd_version n))"

text \<open>What the stages of the analysis leave: the run, the candidate and whether the model was called.\<close>

record analysis_outcome =
  ao_run_id :: uuid
  ao_candidate_id :: "uuid option"
  ao_b_model_called :: bool

type_synonym analysis = "claimed_analysis_job \<Rightarrow> int \<Rightarrow> db \<Rightarrow> (py_exc + analysis_outcome) \<times> db"

definition review_payload :: "claimed_analysis_job \<Rightarrow> analysis_outcome \<Rightarrow> (string \<times> json) list" where
  "review_payload job a = [(''nodeId'', JStr (UuidTxt (cj_node_id job))), (''analysisRunId'', JStr (UuidTxt (ao_run_id a))),
     (''analysisCandidateId'', jopt (\<lambda>c. JStr (UuidTxt c)) (ao_candidate_id a)), (''bModelCalled'', JBool (ao_b_model_called a))]"

text \<open>\<open>_process\<close>: whether this worker completed the job, or the exception; and the state it leaves.\<close>

definition worker_process :: "analysis \<Rightarrow> claimed_analysis_job \<Rightarrow> time \<Rightarrow> db \<Rightarrow> (py_exc + bool) \<times> db" where
  "worker_process analyse job now d =
     (case current_node_version job d of
        Inl e \<Rightarrow> (Inl e, d)
      | Inr v \<Rightarrow>
          (case analyse job v d of
             (Inl e, d1) \<Rightarrow> (Inl e, d1)
           | (Inr a, d1) \<Rightarrow>
               (case complete_analysis_job (cj_job_id job) (cj_claim_token job) (Some (ao_run_id a))
                       (Some (worker_stage job ''FINAL_REVIEW_READY'' (review_payload job a) now)) now d1 of
                  Inl e \<Rightarrow> (Inl (exc_of e), d1)
                | Inr (won, d2) \<Rightarrow> (Inr won, d2))))"

definition worker_fail :: "claimed_analysis_job \<Rightarrow> py_exc \<Rightarrow> bool \<Rightarrow> time \<Rightarrow> db \<Rightarrow> (bool \<times> db) result" where
  "worker_fail job exc retryable now d =
     rbind (fail_analysis_job (cj_job_id job) (cj_claim_token job) (fst exc) (snd exc) retryable
              (Some (worker_stage job ''PIPELINE_FAILED''
                 [(''nodeId'', JStr (UuidTxt (cj_node_id job))), (''stage'', jstr ''ANALYSIS''), (''failureCode'', jstr (fst exc))] now))
              now d) (\<lambda>(status, d1). Inr (status \<noteq> None, d1))"

text \<open>One turn: the claim at \<open>now\<close>, the outcome at \<open>later\<close>.\<close>

definition worker_run_once :: "analysis \<Rightarrow> time \<Rightarrow> time \<Rightarrow> db \<Rightarrow> analysis_worker_result result \<times> db" where
  "worker_run_once analyse now later d =
     (case claim_next_analysis_job now (seconds DEFAULT_CLAIM_TIMEOUT_SECONDS) d of
        (None, d1) \<Rightarrow> (Inr \<lparr>aw_claimed = 0, aw_succeeded = 0, aw_failed = 0, aw_skipped = 0\<rparr>, d1)
      | (Some job, d1) \<Rightarrow>
          (case worker_process analyse job later d1 of
             (Inl exc, d2) \<Rightarrow>
               (case worker_fail job exc (fst exc \<notin> set NON_RETRYABLE) later d2 of
                  Inl e \<Rightarrow> (Inl e, d2)
                | Inr (owned, d3) \<Rightarrow>
                    (Inr (if owned then \<lparr>aw_claimed = 1, aw_succeeded = 0, aw_failed = 1, aw_skipped = 0\<rparr>
                          else \<lparr>aw_claimed = 1, aw_succeeded = 0, aw_failed = 0, aw_skipped = 1\<rparr>), d3))
           | (Inr won, d2) \<Rightarrow>
               (Inr (if won then \<lparr>aw_claimed = 1, aw_succeeded = 1, aw_failed = 0, aw_skipped = 0\<rparr>
                     else \<lparr>aw_claimed = 1, aw_succeeded = 0, aw_failed = 0, aw_skipped = 1\<rparr>), d2)))"

section \<open>Claims of jobs\<close>

text \<open>The table: one job per key and per node, and a RUNNING job is out of reach of the claim for the timeout.\<close>

definition jobs_ok :: "time \<Rightarrow> db \<Rightarrow> bool" where
  "jobs_ok timeout d \<longleftrightarrow> distinct (map jb_id (db_jobs d)) \<and> distinct (map jb_node_id (db_jobs d))
     \<and> (\<forall>j \<in> set (db_jobs d). jb_id j < db_next_uuid d \<and> 1 \<le> jb_max_attempts j
         \<and> (jb_status j = JOB_RUNNING \<longrightarrow> (\<exists>c. jb_claimed_at j = Some c \<and> c + timeout \<le> jb_available_at j)))"

definition job_by_id :: "db \<Rightarrow> uuid \<Rightarrow> analysis_job option" where
  "job_by_id d i = find (\<lambda>j. jb_id j = i) (db_jobs d)"

lemma job_by_id_Some:
  "jobs_ok timeout d \<Longrightarrow> job_by_id d i = Some j \<longleftrightarrow> j \<in> set (db_jobs d) \<and> jb_id j = i"
  unfolding jobs_ok_def job_by_id_def by (simp add: find_key_Some_iff)

lemma set_job_frame [simp]:
  "db_jobs (set_job i f d) = update_where (\<lambda>j. jb_id j = i) f (db_jobs d)" "db_next_uuid (set_job i f d) = db_next_uuid d"
  "db_outbox (set_job i f d) = db_outbox d" "db_nodes (set_job i f d) = db_nodes d"
  by (simp_all add: set_job_def)

lemma job_by_id_set_job:
  "(\<And>j. jb_id (f j) = jb_id j) \<Longrightarrow> job_by_id (set_job i f d) k = (if k = i then map_option f (job_by_id d k) else job_by_id d k)"
proof -
  assume "\<And>j. jb_id (f j) = jb_id j"
  then have "job_by_id (set_job i f d) k = map_option (\<lambda>j. if jb_id j = i then f j else j) (job_by_id d k)"
    unfolding job_by_id_def by (simp add: find_update_where_key)
  then show ?thesis by (cases "job_by_id d k") (auto simp: job_by_id_def dest: find_SomeD)
qed

text \<open>An attribute assignment that keeps the keys and the rule of the claims.\<close>

lemma jobs_ok_set_job:
  assumes "jobs_ok timeout d" "\<And>j. jb_id (f j) = jb_id j \<and> jb_node_id (f j) = jb_node_id j \<and> jb_max_attempts (f j) = jb_max_attempts j"
    and "\<And>j. jb_status (f j) = JOB_RUNNING \<Longrightarrow> \<exists>c. jb_claimed_at (f j) = Some c \<and> c + timeout \<le> jb_available_at (f j)"
  shows "jobs_ok timeout (set_job i f d)"
  using assms by (auto simp: jobs_ok_def map_key_update_where elim!: in_update_whereE)

text \<open>Without a claim of its own the row of a live worker is never due, so the claim takes the oldest due row.\<close>

lemma due_not_live: "jobs_ok timeout d \<Longrightarrow> j \<in> set (db_jobs d) \<Longrightarrow> due_job now j \<Longrightarrow> \<not> owned_by_live_worker (now - timeout) j"
  by (fastforce simp: jobs_ok_def due_job_def owned_by_live_worker_def)

lemma claim_next_cases:
  assumes "jobs_ok timeout d"
  obtains "\<forall>j \<in> set (db_jobs d). \<not> due_job now j" "claim_next_analysis_job now timeout d = (None, d)"
  | j where "j \<in> set (db_jobs d)" "due_job now j"
    "\<forall>k \<in> set (db_jobs d). due_job now k \<longrightarrow> (jb_available_at j, jb_created_at j) \<le> (jb_available_at k, jb_created_at k)"
    "claim_next_analysis_job now timeout d = (Some (claimed_of (db_next_uuid d) (claim_job (db_next_uuid d) now timeout j)),
       set_job (jb_id j) (claim_job (db_next_uuid d) now timeout) (d\<lparr>db_next_uuid := Suc (db_next_uuid d)\<rparr>))"
proof -
  note cases = that
  let ?rows = "claim_rows (due_job now) (\<lambda>j. (jb_available_at j, jb_created_at j)) 10 (db_jobs d)"
  show thesis
  proof (cases ?rows)
    case Nil
    then have "\<forall>j \<in> set (db_jobs d). \<not> due_job now j" using claim_rows_empty_iff [of 10 "due_job now"] by fastforce
    then show thesis using cases(1) Nil by (simp add: claim_next_analysis_job_def)
  next
    case (Cons j js)
    then have j: "j \<in> set (db_jobs d)" "due_job now j" using claim_rows_set [of j "due_job now"] by (metis list.set_intros(1))+
    then have "find (\<lambda>j. \<not> owned_by_live_worker (now - timeout) j) ?rows = Some j" using due_not_live [OF assms] Cons by simp
    then show thesis using cases(2) [OF j] claim_rows_oldest [OF Cons] by (simp add: claim_next_analysis_job_def uuid4_def)
  qed
qed

lemma claim_keeps_jobs:
  assumes "jobs_ok timeout d" "claim_next_analysis_job now timeout d = (r, d')"
  shows "jobs_ok timeout d'"
  using assms(1)
proof (cases rule: claim_next_cases [where now = now])
  case (2 j)
  have "jobs_ok timeout (d\<lparr>db_next_uuid := Suc (db_next_uuid d)\<rparr>)" using assms(1) by (auto simp: jobs_ok_def)
  then have "jobs_ok timeout (set_job (jb_id j) (claim_job (db_next_uuid d) now timeout) (d\<lparr>db_next_uuid := Suc (db_next_uuid d)\<rparr>))"
    by (rule jobs_ok_set_job) (simp_all add: claim_job_def)
  with 2 assms(2) show ?thesis by simp
qed (use assms in simp)

text \<open>Claims of any workers at the given times, one after the other: the jobs that they get.\<close>

fun claims_at :: "time \<Rightarrow> time list \<Rightarrow> db \<Rightarrow> claimed_analysis_job list" where
  "claims_at timeout [] d = []"
| "claims_at timeout (t # ts) d =
     (case claim_next_analysis_job t timeout d of
        (None, d1) \<Rightarrow> claims_at timeout ts d1
      | (Some c, d1) \<Rightarrow> c # claims_at timeout ts d1)"

lemma claims_leave_job:
  assumes "jobs_ok timeout d" "job_by_id d i = Some j" "\<forall>t \<in> set ts. t < jb_available_at j"
  shows "\<forall>c \<in> set (claims_at timeout ts d). cj_job_id c \<noteq> i"
  using assms
proof (induction ts arbitrary: d)
  case (Cons t ts)
  from Cons.prems(1) show ?case
  proof (cases rule: claim_next_cases [where now = t])
    case 1
    with Cons.IH [OF Cons.prems(1,2)] Cons.prems(3) show ?thesis by simp
  next
    case (2 k)
    let ?d1 = "set_job (jb_id k) (claim_job (db_next_uuid d) t timeout) (d\<lparr>db_next_uuid := Suc (db_next_uuid d)\<rparr>)"
    have ok: "jobs_ok timeout ?d1" using claim_keeps_jobs [OF Cons.prems(1) 2(4)] .
    have "job_by_id d (jb_id k) = Some k" using job_by_id_Some [OF Cons.prems(1)] 2(1) by simp
    with 2(2) Cons.prems(2,3) have k: "jb_id k \<noteq> i" by (auto simp: due_job_def)
    then have "job_by_id ?d1 i = Some j"
      using Cons.prems(2) by (simp add: job_by_id_set_job claim_job_def) (simp add: job_by_id_def)
    with Cons.IH [OF ok] Cons.prems(3) 2(4) k show ?thesis by (simp add: claimed_of_def claim_job_def)
  qed
qed simp

text \<open>C30. No job starves. Whenever a job is due, the claim takes one, and it takes the one that
  has been due the longest, whatever other workers hold; it refuses only when nothing is due. The job taken gets
  a new token, and however many claims follow before the timeout, none of them hands it out again. (A new request for the node, which
  makes the row PENDING and due, ends that protection; the token of the first worker is void from then on.)\<close>

theorem job_claim_fair:
  assumes "jobs_ok timeout d" "claim_next_analysis_job now timeout d = (r, d')"
  shows "case r of
      None \<Rightarrow> d' = d \<and> (\<forall>j \<in> set (db_jobs d). \<not> due_job now j)
    | Some c \<Rightarrow> (\<exists>j \<in> set (db_jobs d). due_job now j \<and> cj_job_id c = jb_id j \<and> cj_node_id c = jb_node_id j
          \<and> (\<forall>k \<in> set (db_jobs d). due_job now k \<longrightarrow> (jb_available_at j, jb_created_at j) \<le> (jb_available_at k, jb_created_at k))
          \<and> job_by_id d' (jb_id j) = Some (claim_job (cj_claim_token c) now timeout j))
        \<and> cj_claim_token c = db_next_uuid d \<and> jobs_ok timeout d'
        \<and> (\<forall>times. (\<forall>t \<in> set times. t < now + timeout) \<longrightarrow> (\<forall>c' \<in> set (claims_at timeout times d'). cj_job_id c' \<noteq> cj_job_id c))"
  using assms(1)
proof (cases rule: claim_next_cases [where now = now])
  case (2 j)
  let ?t = "db_next_uuid d" and ?d1 = "d\<lparr>db_next_uuid := Suc (db_next_uuid d)\<rparr>"
  from 2(4) assms(2) have r: "r = Some (claimed_of ?t (claim_job ?t now timeout j))" "d' = set_job (jb_id j) (claim_job ?t now timeout) ?d1"
    by simp_all
  have ok: "jobs_ok timeout d'" using claim_keeps_jobs [OF assms] .
  have "job_by_id d (jb_id j) = Some j" using job_by_id_Some [OF assms(1)] 2(1) by simp
  then have row: "job_by_id d' (jb_id j) = Some (claim_job ?t now timeout j)"
    by (simp add: r(2) job_by_id_set_job claim_job_def) (simp add: job_by_id_def)
  have "\<forall>c' \<in> set (claims_at timeout times d'). cj_job_id c' \<noteq> jb_id j" if "\<forall>t \<in> set times. t < now + timeout" for times
    using that by (intro claims_leave_job [OF ok row]) (simp add: claim_job_def)
  with 2 row ok r(1) show ?thesis by (auto simp: claimed_of_def claim_job_def)
qed (use assms in simp)

section \<open>Outcomes of jobs\<close>

definition job_held :: "db \<Rightarrow> uuid \<Rightarrow> uuid \<Rightarrow> bool" where
  "job_held d i t \<longleftrightarrow> (\<exists>j \<in> set (db_jobs d). jb_id j = i \<and> jb_claim_token j = Some t \<and> jb_status j = JOB_RUNNING)"

text \<open>A callback stages events: it writes no job.\<close>

definition quiet_callback :: "(db \<Rightarrow> db result) option \<Rightarrow> bool" where
  "quiet_callback cb \<longleftrightarrow> (\<forall>d d1. run_callback cb d = Inr d1 \<longrightarrow> db_jobs d1 = db_jobs d \<and> db_next_uuid d \<le> db_next_uuid d1)"

lemma worker_stage_ok:
  assumes "worker_stage job et payload now d = Inr d1"
  shows "db_jobs d1 = db_jobs d \<and> db_next_uuid d \<le> db_next_uuid d1
    \<and> (\<exists>e. db_outbox d1 = db_outbox d @ [e] \<and> ob_event_type e = et \<and> ob_aggregate_id e = UuidTxt (cj_node_id job)
         \<and> ob_project_id e = cj_project_id job \<and> ob_status e = OB_PENDING)"
  using assms by (auto simp: worker_stage_def emit_outbox_event_def result_simps stage_outbox_def uuid4_def Let_def)

lemma worker_stage_quiet: "quiet_callback (Some (worker_stage job et payload now))"
  using worker_stage_ok by (auto simp: quiet_callback_def run_callback_def)

lemma quiet_set_job:
  assumes "quiet_callback cb" "run_callback cb (set_job i f d) = Inr d'"
  shows "db_jobs d' = db_jobs (set_job i f d)" "db_next_uuid d \<le> db_next_uuid d'"
proof -
  from assms have "db_jobs d' = db_jobs (set_job i f d) \<and> db_next_uuid (set_job i f d) \<le> db_next_uuid d'"
    unfolding quiet_callback_def by blast
  then show "db_jobs d' = db_jobs (set_job i f d)" "db_next_uuid d \<le> db_next_uuid d'" by simp_all
qed

lemma quiet_None: "quiet_callback None"
  by (simp add: quiet_callback_def run_callback_def)

lemma not_held_unowned: "\<not> job_held d i t \<Longrightarrow> owned_job d i t = Inr None"
  by (auto simp: job_held_def owned_job_def result_simps filter_empty_conv)

lemma owned_job_ok:
  assumes "jobs_ok timeout d" "owned_job d i t = Inr (Some j)"
  shows "job_by_id d i = Some j" "jb_status j = JOB_RUNNING" "jb_claim_token j = Some t" "job_held d i t"
proof -
  have "filter (\<lambda>j. jb_id j = i \<and> jb_claim_token j = Some t \<and> jb_status j = JOB_RUNNING) (db_jobs d) = [j]"
    using assms(2) by (simp add: owned_job_def result_simps)
  then have "j \<in> set (db_jobs d) \<and> jb_id j = i \<and> jb_claim_token j = Some t \<and> jb_status j = JOB_RUNNING"
    by (metis (mono_tags, lifting) filter_eq_ConsD in_set_conv_decomp)
  then show "job_by_id d i = Some j" "jb_status j = JOB_RUNNING" "jb_claim_token j = Some t" "job_held d i t"
    using job_by_id_Some [OF assms(1)] by (auto simp: job_held_def)
qed

text \<open>The two outcomes of a job: nothing, or the row changed to one without a claim and the callback run.\<close>

lemma complete_cases:
  assumes "complete_analysis_job i t run_id cb now d = Inr (won, d')"
  obtains "\<not> won" "d' = d" "owned_job d i t = Inr None"
  | j where "won" "owned_job d i t = Inr (Some j)" "run_callback cb (set_job i (succeed_job run_id now) d) = Inr d'"
  using assms by (cases "owned_job d i t") (auto simp: complete_analysis_job_def result_simps split: option.splits)

lemma fail_cases:
  assumes "fail_analysis_job i t code error retryable cb now d = Inr (st, d')"
  obtains "st = None" "d' = d" "owned_job d i t = Inr None"
  | j w where "st = Some JOB_PENDING" "owned_job d i t = Inr (Some j)" "retryable" "jb_attempt_count j < jb_max_attempts j"
      "0 \<le> w" "w \<le> seconds 3600"
      "d' = set_job i (\<lambda>j. (fail_job code error now j)\<lparr>jb_status := JOB_PENDING, jb_available_at := now + w\<rparr>) d"
  | j where "st = Some JOB_FAILED" "owned_job d i t = Inr (Some j)" "\<not> (retryable \<and> jb_attempt_count j < jb_max_attempts j)"
      "run_callback cb (set_job i (\<lambda>j. (fail_job code error now j)\<lparr>jb_status := JOB_FAILED\<rparr>) d) = Inr d'"
proof -
  note cases = that
  from assms obtain job where o: "owned_job d i t = Inr job"
    by (cases "owned_job d i t") (auto simp: fail_analysis_job_def)
  show thesis
  proof (cases job)
    case None
    with o assms cases(1) show thesis by (simp add: fail_analysis_job_def)
  next
    case (Some j)
    show thesis
    proof (cases "retryable \<and> jb_attempt_count j < jb_max_attempts j")
      case True
      with o assms Some obtain w where w: "backoff_delay (jb_attempt_count j) = Inr w" and "st = Some JOB_PENDING"
        "d' = set_job i (\<lambda>j. (fail_job code error now j)\<lparr>jb_status := JOB_PENDING, jb_available_at := now + w\<rparr>) d"
        by (auto simp: fail_analysis_job_def result_simps)
      with cases(2) o Some True backoff_delay_bounds [OF w] show thesis by simp
    next
      case False
      with o assms Some cases(3) show thesis by (auto simp: fail_analysis_job_def result_simps)
    qed
  qed
qed

section \<open>Interleavings\<close>

inductive job_step :: "time \<Rightarrow> db \<Rightarrow> db \<Rightarrow> bool" for timeout :: time where
  enqueue: "enqueue_analysis_job pid mid nid v m now d = Inr (j, d') \<Longrightarrow> job_step timeout d d'"
| claim: "claim_next_analysis_job now timeout d = (r, d') \<Longrightarrow> job_step timeout d d'"
| complete: "complete_analysis_job i t run_id cb now d = Inr (won, d') \<Longrightarrow> quiet_callback cb \<Longrightarrow> job_step timeout d d'"
| fail: "fail_analysis_job i t code error retryable cb now d = Inr (st, d') \<Longrightarrow> quiet_callback cb \<Longrightarrow> job_step timeout d d'"
| other: "db_jobs d' = db_jobs d \<Longrightarrow> db_next_uuid d \<le> db_next_uuid d' \<Longrightarrow> job_step timeout d d'"

lemma held_set_job: "job_held (set_job i f d) k t \<Longrightarrow> job_held d k t \<or> (\<exists>j. jb_claim_token (f j) = Some t)"
  by (auto simp: job_held_def elim!: in_update_whereE)

lemma enqueue_cases:
  assumes "enqueue_analysis_job pid mid nid v m now d = Inr (j, d')"
  obtains j0 where "j0 \<in> set (db_jobs d)" "jb_node_id j0 = nid" "jb_project_id j0 = pid" "j = requeue_job v now j0"
      "d' = set_job (jb_id j0) (requeue_job v now) d"
  | "\<forall>k \<in> set (db_jobs d). jb_node_id k \<noteq> nid" "1 \<le> m" "jb_id j = db_next_uuid d" "jb_node_id j = nid" "jb_project_id j = pid"
      "jb_status j = JOB_PENDING" "jb_claim_token j = None" "jb_max_attempts j = m" "jb_node_version j = v" "jb_attempt_count j = 0"
      "d' = d\<lparr>db_next_uuid := Suc (db_next_uuid d), db_jobs := db_jobs d @ [j]\<rparr>"
proof -
  note cases = that
  from assms obtain ex where ex: "one_or_none (filter (\<lambda>j. jb_node_id j = nid \<and> jb_project_id j = pid) (db_jobs d)) = Inr ex"
    by (auto simp: enqueue_analysis_job_def result_simps)
  show thesis
  proof (cases ex)
    case (Some j0)
    with ex have f: "filter (\<lambda>j. jb_node_id j = nid \<and> jb_project_id j = pid) (db_jobs d) = [j0]" by (simp add: result_simps)
    then have "j0 \<in> set (db_jobs d) \<and> jb_node_id j0 = nid \<and> jb_project_id j0 = pid"
      by (metis (mono_tags, lifting) filter_eq_ConsD in_set_conv_decomp)
    with cases(1) assms Some ex show thesis by (auto simp: enqueue_analysis_job_def result_simps)
  next
    case None
    with assms ex show thesis using cases(2)
      by (auto simp: enqueue_analysis_job_def result_simps uuid4_def Let_def)
  qed
qed

lemma job_step_tokens:
  "job_step timeout d d' \<Longrightarrow> db_next_uuid d \<le> db_next_uuid d' \<and> (job_held d' k t \<longrightarrow> job_held d k t \<or> db_next_uuid d \<le> t)"
proof (induction rule: job_step.induct)
  case (enqueue pid mid nid v m now d j d')
  then show ?case
  proof (cases rule: enqueue_cases)
    case (1 j0)
    then show ?thesis by (auto simp: requeue_job_def dest: held_set_job)
  next
    case 2
    then show ?thesis by (auto simp: job_held_def)
  qed
next
  case (claim now d r d')
  let ?d1 = "d\<lparr>db_next_uuid := Suc (db_next_uuid d)\<rparr>"
  from claim have "d' = d \<or> (\<exists>i. d' = set_job i (claim_job (db_next_uuid d) now timeout) ?d1)"
    by (auto simp: claim_next_analysis_job_def uuid4_def Let_def split: option.splits)
  moreover have "job_held ?d1 k t = job_held d k t" by (simp add: job_held_def)
  ultimately show ?case by (auto simp: claim_job_def dest: held_set_job)
next
  case (complete i t' run_id cb now d won d')
  from this(1) show ?case
  proof (cases rule: complete_cases)
    case (2 j)
    note q = quiet_set_job [OF complete(2) 2(3)]
    then show ?thesis using q held_set_job [of i "succeed_job run_id now" d k t] by (simp add: job_held_def succeed_job_def)
  qed simp
next
  case (fail i t' code error retryable cb now d st d')
  from this(1) show ?case
  proof (cases rule: fail_cases)
    case (2 j w)
    then show ?thesis by (auto simp: fail_job_def dest!: held_set_job)
  next
    case (3 j)
    let ?f = "\<lambda>j. (fail_job code error now j)\<lparr>jb_status := JOB_FAILED\<rparr>"
    note q = quiet_set_job [OF fail(2) 3(4)]
    then show ?thesis using held_set_job [of i ?f d k t] by (simp add: job_held_def fail_job_def)
  qed simp
qed (simp add: job_held_def)

text \<open>What a worker may record: a run, or a failure, with the callback and the time.\<close>

definition job_outcome ::
  "uuid \<Rightarrow> uuid \<Rightarrow> (uuid option + string \<times> string \<times> bool) \<times> (db \<Rightarrow> db result) option \<times> time \<Rightarrow> db \<Rightarrow> db" where
  "job_outcome i t x d = (case x of
       (Inl run_id, cb, now) \<Rightarrow> commit (complete_analysis_job i t run_id cb now d) d
     | (Inr (code, error, retryable), cb, now) \<Rightarrow> commit (fail_analysis_job i t code error retryable cb now d) d)"

interpretation job_claims: claim_fencing job_held db_next_uuid "job_step timeout" job_outcome for timeout
proof
  show "job_outcome i t x d = d" if "\<not> job_held d i t" for i t x d
    using not_held_unowned [OF that]
    by (auto simp: job_outcome_def complete_analysis_job_def fail_analysis_job_def split: prod.splits sum.splits)
qed (use job_step_tokens in blast)+

lemma jobs_ok_cong: "db_jobs d' = db_jobs d \<Longrightarrow> db_next_uuid d \<le> db_next_uuid d' \<Longrightarrow> jobs_ok timeout d \<Longrightarrow> jobs_ok timeout d'"
  by (auto simp: jobs_ok_def intro: less_le_trans)

lemma jobs_ok_callback:
  assumes "quiet_callback cb" "run_callback cb d = Inr d'" "jobs_ok timeout d"
  shows "jobs_ok timeout d'"
proof -
  from assms(1,2) have "db_jobs d' = db_jobs d" "db_next_uuid d \<le> db_next_uuid d'" unfolding quiet_callback_def by blast+
  then show ?thesis using assms(3) by (rule jobs_ok_cong)
qed

lemma job_step_ok:
  assumes "job_step timeout d d'" "jobs_ok timeout d"
  shows "jobs_ok timeout d'"
  using assms(1)
proof (cases rule: job_step.cases)
  case (enqueue pid mid nid v m now j)
  from this show ?thesis
  proof (cases rule: enqueue_cases)
    case (1 j0)
    have "jobs_ok timeout (set_job (jb_id j0) (requeue_job v now) d)"
      by (rule jobs_ok_set_job [OF assms(2)]) (simp_all add: requeue_job_def)
    with 1 show ?thesis by simp
  next
    case 2
    then show ?thesis using assms(2) by (auto simp: jobs_ok_def less_Suc_eq)
  qed
next
  case (claim now r)
  then show ?thesis using claim_keeps_jobs [OF assms(2)] by blast
next
  case (complete i t run_id cb now won)
  from complete(1) show ?thesis
  proof (cases rule: complete_cases)
    case (2 j)
    have "jobs_ok timeout (set_job i (succeed_job run_id now) d)"
      by (rule jobs_ok_set_job [OF assms(2)]) (simp_all add: succeed_job_def)
    with complete(2) 2(3) show ?thesis by (rule jobs_ok_callback)
  qed (use assms(2) in simp)
next
  case (fail i t code error retryable cb now st)
  from fail(1) show ?thesis
  proof (cases rule: fail_cases)
    case (2 j w)
    show ?thesis unfolding 2(7) by (rule jobs_ok_set_job [OF assms(2)]) (simp_all add: fail_job_def)
  next
    case (3 j)
    have "jobs_ok timeout (set_job i (\<lambda>j. (fail_job code error now j)\<lparr>jb_status := JOB_FAILED\<rparr>) d)"
      by (rule jobs_ok_set_job [OF assms(2)]) (simp_all add: fail_job_def)
    with fail(2) 3(4) show ?thesis by (rule jobs_ok_callback)
  qed (use assms(2) in simp)
next
  case other
  with assms(2) show ?thesis by (blast intro: jobs_ok_cong)
qed

section \<open>The properties of the job queue\<close>

text \<open>A worker that lost its job cannot write. When a job was requeued, reclaimed or finished, the token of the
  earlier claim never becomes valid again, and a late completion or failure under it leaves the database unchanged, its
  callback included.\<close>

theorem late_job_outcome_ignored:
  assumes "(job_step timeout)\<^sup>*\<^sup>* d d'" "t < db_next_uuid d" "\<not> job_held d i t"
  shows "job_outcome i t x d' = d'"
  using assms by (rule job_claims.late_outcome)

text \<open>C32. The job table stays sound under every interleaving of enqueuing, claims and outcomes: one job per node, keys that
  were drawn, at least one attempt, and a RUNNING job out of reach of the claims for the whole timeout; enqueuing a node
  leaves its single job PENDING, at the new version, with all attempts and without a claim.\<close>

theorem job_table_invariant:
  assumes "jobs_ok timeout d" "(job_step timeout)\<^sup>*\<^sup>* d d1" "enqueue_analysis_job pid mid nid v m now d1 = Inr (j, d')"
  shows "jobs_ok timeout d' \<and> (\<exists>k. filter (\<lambda>k. jb_node_id k = nid) (db_jobs d') = [k] \<and> jb_status k = JOB_PENDING
    \<and> jb_node_version k = v \<and> jb_attempt_count k = 0 \<and> jb_claim_token k = None \<and> jb_project_id k = pid)"
proof -
  from assms(2,1) have ok: "jobs_ok timeout d1" by (induction rule: rtranclp_induct) (auto intro: job_step_ok)
  then have ok': "jobs_ok timeout d'" using assms(3) job_step_ok job_step.enqueue by blast
  have "\<exists>k \<in> set (db_jobs d'). jb_node_id k = nid \<and> jb_status k = JOB_PENDING
    \<and> jb_node_version k = v \<and> jb_attempt_count k = 0 \<and> jb_claim_token k = None \<and> jb_project_id k = pid"
    using assms(3)
  proof (cases rule: enqueue_cases)
    case (1 j0)
    then have "requeue_job v now j0 \<in> set (db_jobs d')" by (auto simp: set_update_where)
    with 1 show ?thesis by (intro bexI [of _ "requeue_job v now j0"]) (simp_all add: requeue_job_def)
  qed auto
  then obtain k where k: "k \<in> set (db_jobs d')" "jb_node_id k = nid" "jb_status k = JOB_PENDING" "jb_node_version k = v"
    "jb_attempt_count k = 0" "jb_claim_token k = None" "jb_project_id k = pid" by blast
  have "filter (\<lambda>x. jb_node_id x = jb_node_id k) (db_jobs d') = [k]"
    using filter_key_distinct [OF _ k(1), of jb_node_id] ok' by (simp add: jobs_ok_def)
  with k ok' show ?thesis by auto
qed

text \<open>One event of a type about the node of a job was staged.\<close>

definition job_announced :: "string \<Rightarrow> claimed_analysis_job \<Rightarrow> db \<Rightarrow> db \<Rightarrow> bool" where
  "job_announced event_type c d d' \<longleftrightarrow> (\<exists>e. db_outbox d' = db_outbox d @ [e] \<and> ob_event_type e = event_type
     \<and> ob_aggregate_id e = UuidTxt (cj_node_id c) \<and> ob_project_id e = cj_project_id c \<and> ob_status e = OB_PENDING)"

lemma worker_stage_announced: "worker_stage c et payload now d = Inr d1 \<Longrightarrow> job_announced et c d d1 \<and> db_jobs d1 = db_jobs d"
  using worker_stage_ok [of c et payload now d d1] by (auto simp: job_announced_def)

lemma completion_announced:
  assumes "jobs_ok timeout d"
    and "complete_analysis_job (cj_job_id c) (cj_claim_token c) run_id (Some (worker_stage c et payload now)) now d = Inr (won, d')"
  shows "if won then (\<exists>j. job_by_id d (cj_job_id c) = Some j \<and> job_by_id d' (cj_job_id c) = Some (succeed_job run_id now j))
           \<and> job_announced et c d d' else d' = d"
  using assms(2)
proof (cases rule: complete_cases)
  case (2 j)
  let ?i = "cj_job_id c" and ?d1 = "set_job (cj_job_id c) (succeed_job run_id now) d"
  from 2(3) have st: "worker_stage c et payload now ?d1 = Inr d'" by (simp add: run_callback_def)
  have j: "job_by_id d ?i = Some j" by (rule owned_job_ok(1) [OF assms(1) 2(2)])
  then have "job_by_id ?d1 ?i = Some (succeed_job run_id now j)" by (simp add: job_by_id_set_job succeed_job_def)
  then have "job_by_id d' ?i = Some (succeed_job run_id now j)" using worker_stage_announced [OF st] by (simp add: job_by_id_def)
  with worker_stage_announced [OF st] j 2(1) show ?thesis by (simp add: job_announced_def)
qed simp

lemma failure_announced:
  assumes "jobs_ok timeout d" "worker_fail c exc retryable now d = Inr (won, d')"
  shows "if won then \<exists>j j'. job_by_id d (cj_job_id c) = Some j \<and> job_by_id d' (cj_job_id c) = Some j' \<and> jb_claim_token j' = None
       \<and> (if retryable \<and> jb_attempt_count j < jb_max_attempts j
          then jb_status j' = JOB_PENDING \<and> now \<le> jb_available_at j' \<and> jb_available_at j' \<le> now + seconds 3600 \<and> db_outbox d' = db_outbox d
          else jb_status j' = JOB_FAILED \<and> job_announced ''PIPELINE_FAILED'' c d d')
     else d' = d"
proof -
  let ?i = "cj_job_id c"
  from assms(2) obtain st p where f: "fail_analysis_job ?i (cj_claim_token c) (fst exc) (snd exc) retryable
      (Some (worker_stage c ''PIPELINE_FAILED'' p now)) now d = Inr (st, d')" and won: "won \<longleftrightarrow> st \<noteq> None"
    by (auto simp: worker_fail_def result_simps)
  from f show ?thesis
  proof (cases rule: fail_cases)
    case (2 j w)
    then show ?thesis using owned_job_ok(1) [OF assms(1) 2(2)] won by (simp add: job_by_id_set_job fail_job_def)
  next
    case (3 j)
    let ?f = "\<lambda>j. (fail_job (fst exc) (snd exc) now j)\<lparr>jb_status := JOB_FAILED\<rparr>"
    from 3(4) have st: "worker_stage c ''PIPELINE_FAILED'' p now (set_job ?i ?f d) = Inr d'" by (simp add: run_callback_def)
    have j: "job_by_id d ?i = Some j" by (rule owned_job_ok(1) [OF assms(1) 3(2)])
    then have "job_by_id (set_job ?i ?f d) ?i = Some (?f j)" by (simp add: job_by_id_set_job fail_job_def)
    then have "job_by_id d' ?i = Some (?f j)" using worker_stage_announced [OF st] by (simp add: job_by_id_def)
    with worker_stage_announced [OF st] j 3(1,3) won show ?thesis by (auto simp: fail_job_def job_announced_def)
  qed (use won in simp)
qed

text \<open>C31. The outcome of a job and its announcement are one commit. A completion that counts marks the job SUCCEEDED and
  stages exactly one review event; a failure that counts either puts the job back for a retry within the hour, while it is
  retryable and has attempts left, and announces nothing, or marks it FAILED with exactly one failure event; an outcome that
  does not count changes nothing.\<close>

theorem worker_outcome_announced:
  assumes "jobs_ok timeout d"
  shows "(complete_analysis_job (cj_job_id c) (cj_claim_token c) run_id
           (Some (worker_stage c ''FINAL_REVIEW_READY'' payload now)) now d = Inr (won, d') \<longrightarrow>
       (if won then (\<exists>j. job_by_id d (cj_job_id c) = Some j \<and> job_by_id d' (cj_job_id c) = Some (succeed_job run_id now j))
              \<and> job_announced ''FINAL_REVIEW_READY'' c d d'
        else d' = d))
    \<and> (worker_fail c exc retryable now d = Inr (won, d') \<longrightarrow>
       (if won then \<exists>j j'. job_by_id d (cj_job_id c) = Some j \<and> job_by_id d' (cj_job_id c) = Some j' \<and> jb_claim_token j' = None
          \<and> (if retryable \<and> jb_attempt_count j < jb_max_attempts j
             then jb_status j' = JOB_PENDING \<and> now \<le> jb_available_at j' \<and> jb_available_at j' \<le> now + seconds 3600 \<and> db_outbox d' = db_outbox d
             else jb_status j' = JOB_FAILED \<and> job_announced ''PIPELINE_FAILED'' c d d')
        else d' = d))"
  using completion_announced [OF assms] failure_announced [OF assms] by blast

section \<open>The properties at a concrete job\<close>

definition sample_job :: "job_status \<Rightarrow> uuid option \<Rightarrow> analysis_job" where
  "sample_job st token = \<lparr>jb_id = 50, jb_project_id = ''7'', jb_external_meeting_id = ''m'', jb_node_id = 2, jb_node_version = 4,
     jb_status = st, jb_attempt_count = 3, jb_max_attempts = 3, jb_claim_token = token, jb_claimed_at = Some 0,
     jb_available_at = 20, jb_analysis_run_id = None, jb_failure_code = None, jb_last_error = None, jb_created_at = 0, jb_updated_at = 0\<rparr>"

definition sample_jobs :: "job_status \<Rightarrow> uuid option \<Rightarrow> db" where
  "sample_jobs st token = (sample_db [sample_node 2 ''7''])\<lparr>db_jobs := [sample_job st token]\<rparr>"

definition sample_claim :: claimed_analysis_job where
  "sample_claim = \<lparr>cj_job_id = 50, cj_project_id = ''7'', cj_external_meeting_id = ''m'', cj_node_id = 2, cj_node_version = 4,
     cj_attempt = 3, cj_claim_token = 60\<rparr>"

lemma sample_jobs_ok: "jobs_ok 20 (sample_jobs st token)" "db_next_uuid (sample_jobs st token) = 1000"
  by (simp_all add: jobs_ok_def sample_jobs_def sample_job_def sample_db_def)

theorem job_claim_fair_witness:
  "\<exists>c d'. claim_next_analysis_job 25 20 (sample_jobs JOB_RUNNING (Some 60)) = (Some c, d') \<and> cj_job_id c = 50 \<and> cj_claim_token c = 1000
     \<and> 50 \<notin> cj_job_id ` set (claims_at 20 [26, 40] d')"
proof -
  let ?d = "sample_jobs JOB_RUNNING (Some 60)"
  obtain r d' where r: "claim_next_analysis_job 25 20 ?d = (r, d')" by fastforce
  have due: "\<exists>j \<in> set (db_jobs ?d). due_job 25 j" "\<forall>j \<in> set (db_jobs ?d). jb_id j = 50"
    by (simp_all add: sample_jobs_def sample_job_def due_job_def)
  from job_claim_fair [OF sample_jobs_ok(1) r] due obtain c where "r = Some c" "cj_job_id c = 50" "cj_claim_token c = 1000"
    and away: "\<forall>times. (\<forall>t \<in> set times. t < 25 + 20) \<longrightarrow> (\<forall>c' \<in> set (claims_at 20 times d'). cj_job_id c' \<noteq> cj_job_id c)"
    by (cases r) (auto simp: sample_jobs_ok)
  moreover have "\<forall>c' \<in> set (claims_at 20 [26, 40] d'). cj_job_id c' \<noteq> cj_job_id c"
    using away by (rule allE [where x = "[26, 40]"]) (simp del: claims_at.simps)
  ultimately show ?thesis using r by (auto simp del: claims_at.simps)
qed

text \<open>The worker with the token 60 was replaced by one with the token 70.\<close>

theorem job_table_invariant_witness:
  "\<exists>j d'. enqueue_analysis_job ''7'' ''m'' 2 9 3 30 (sample_jobs JOB_SUCCEEDED None) = Inr (j, d') \<and> jobs_ok 20 d'
     \<and> (\<exists>k. filter (\<lambda>k. jb_node_id k = 2) (db_jobs d') = [k] \<and> jb_node_version k = 9)"
proof -
  let ?d = "sample_jobs JOB_SUCCEEDED None"
  obtain j d' where e: "enqueue_analysis_job ''7'' ''m'' 2 9 3 30 ?d = Inr (j, d')"
    by (simp add: enqueue_analysis_job_def sample_jobs_def sample_job_def sample_db_def sample_node_def)
  from job_table_invariant [OF sample_jobs_ok(1) rtranclp.rtrancl_refl e] e show ?thesis by blast
qed

theorem worker_outcome_announced_witness:
  "\<exists>d'. worker_fail sample_claim (''EmbeddingGenerationError'', ''x'') True 30 (sample_jobs JOB_RUNNING (Some 60)) = Inr (True, d')
     \<and> job_announced ''PIPELINE_FAILED'' sample_claim (sample_jobs JOB_RUNNING (Some 60)) d'"
proof -
  let ?d = "sample_jobs JOB_RUNNING (Some 60)"
  obtain d' where f: "worker_fail sample_claim (''EmbeddingGenerationError'', ''x'') True 30 ?d = Inr (True, d')"
    by (simp add: worker_fail_def fail_analysis_job_def owned_job_def sample_jobs_def sample_job_def sample_claim_def sample_db_def
        run_callback_def worker_stage_def emit_outbox_event_def PIPELINE_EVENT_TYPES_def split_beta)
  have "job_by_id ?d 50 = Some (sample_job JOB_RUNNING (Some 60))" by (simp add: job_by_id_def sample_jobs_def sample_job_def)
  with worker_outcome_announced [OF sample_jobs_ok(1), of sample_claim _ _ 30 JOB_RUNNING "Some 60" True d' "(''EmbeddingGenerationError'', ''x'')" True] f
  show ?thesis by (auto simp: sample_claim_def sample_job_def)
qed

end
