(* ===== verification/Command_Join.thy ===== *)
theory Command_Join
  imports Node_Deletes
begin

text \<open>
  \<open>meeting_analysis/persistence.py\<close>: the two input queues of a meeting analysis, the commands of the Java
  service and the recordings that are ready, and the join that starts the work when both are there. Each
  message is one transaction. When the insert hits a constraint the code starts over; the
  states that the successive attempts see are an argument, and running out of them is the exhausted call stack.
\<close>

section \<open>Messages and rows\<close>

record meeting_analysis_command_message =
  mm_command_id :: uuid
  mm_project_id :: string
  mm_meeting_id :: string
  mm_room_name :: string
  mm_generate_summary :: bool
  mm_generate_nodes :: bool
  mm_requested_at :: time
  mm_requested_at_iso :: string

record openvidu_egress_event =
  ov_project_id :: string
  ov_room_name :: string
  ov_object_key :: string
  ov_egress_id :: string
  ov_kind :: string
  ov_member_id :: "string option"
  ov_ended_at_raw :: "string option"

definition command_hash :: "stdlib \<Rightarrow> meeting_analysis_command_message \<Rightarrow> string" where
  "command_hash L c = canonical_hash L (JObj
     [(''commandId'', JStr (UuidTxt (mm_command_id c))), (''projectId'', jstr (mm_project_id c)),
      (''meetingId'', jstr (mm_meeting_id c)), (''roomName'', jstr (mm_room_name c)),
      (''generateSummary'', JBool (mm_generate_summary c)), (''generateNodes'', JBool (mm_generate_nodes c)),
      (''requestedAt'', jstr (mm_requested_at_iso c))])"

text \<open>The identity of a recording, of an event and of a row.\<close>

definition recording_identity :: "openvidu_egress_event \<Rightarrow> string \<Rightarrow> string \<times> string \<times> string \<times> string \<times> string \<times> string" where
  "recording_identity e bucket = (ov_project_id e, ov_room_name e, ov_egress_id e, bucket, ov_object_key e, ov_kind e)"

definition row_identity :: "recording_ready_event \<Rightarrow> string \<times> string \<times> string \<times> string \<times> string \<times> string" where
  "row_identity r = (rc_project_id r, rc_room_name r, rc_egress_id r, rc_recording_bucket r, rc_object_key r, rc_kind r)"

definition initial_task_status :: "bool \<Rightarrow> bool \<Rightarrow> task_status" where
  "initial_task_status selected ready = (if \<not> selected then TASK_SKIPPED else if ready then TASK_READY else TASK_WAITING_INPUT)"

definition recording_row :: "uuid \<Rightarrow> openvidu_egress_event \<Rightarrow> string \<Rightarrow> recording_ready_event" where
  "recording_row i e bucket = \<lparr>rc_id = i, rc_project_id = ov_project_id e, rc_room_name = ov_room_name e,
     rc_egress_id = ov_egress_id e, rc_kind = ov_kind e, rc_member_id = ov_member_id e, rc_recording_bucket = bucket,
     rc_object_key = ov_object_key e, rc_ended_at_raw = ov_ended_at_raw e, rc_status = REC_WAITING_FOR_COMMAND\<rparr>"

definition analysis_command_row :: "uuid \<Rightarrow> meeting_analysis_command_message \<Rightarrow> string \<Rightarrow> command_status \<Rightarrow> meeting_analysis_command" where
  "analysis_command_row i c h status =
     \<lparr>mc_id = i, mc_command_id = mm_command_id c, mc_command_type = MEETING_ANALYSIS_REQUESTED,
      mc_project_id = mm_project_id c, mc_meeting_id = Some (mm_meeting_id c), mc_room_name = Some (mm_room_name c),
      mc_generate_summary = Some (mm_generate_summary c), mc_generate_nodes = Some (mm_generate_nodes c),
      mc_target_node_id = None, mc_expected_node_version = None, mc_expected_graph_version = None,
      mc_requested_by_member_id = None, mc_requested_at = mm_requested_at c, mc_status = status,
      mc_payload_hash = h, mc_failure_code = None, mc_failure_message = None\<rparr>"

definition task_row :: "uuid \<Rightarrow> uuid \<Rightarrow> task_type \<Rightarrow> task_status \<Rightarrow> time \<Rightarrow> meeting_analysis_task" where
  "task_row i cid t status now = \<lparr>tk_id = i, tk_command_id = cid, tk_task_type = t, tk_status = status, tk_attempt_count = 0,
     tk_max_attempts = 3, tk_claim_token = None, tk_claimed_at = None, tk_available_at = now, tk_failure_code = None,
     tk_last_error = None, tk_updated_at = now\<rparr>"

text \<open>The CHECK constraints of the two tables; SQL's \<open>trim\<close> removes blanks only.\<close>

definition blank_sql :: "string \<Rightarrow> bool" where
  "blank_sql s \<longleftrightarrow> (\<forall>c \<in> set s. c = CHR '' '')"

definition ck_recording_ready :: "recording_ready_event \<Rightarrow> bool" where
  "ck_recording_ready r \<longleftrightarrow> \<not> blank_sql (rc_room_name r) \<and> rc_kind r = ''MIXED''"

definition ck_analysis_command :: "meeting_analysis_command \<Rightarrow> bool" where
  "ck_analysis_command c \<longleftrightarrow>
     (case mc_command_type c of
        MEETING_ANALYSIS_REQUESTED \<Rightarrow>
          mc_meeting_id c \<noteq> None \<and> (case mc_room_name c of None \<Rightarrow> False | Some r \<Rightarrow> \<not> blank_sql r)
          \<and> mc_generate_summary c \<noteq> None \<and> mc_generate_nodes c \<noteq> None \<and> mc_target_node_id c = None
          \<and> mc_expected_node_version c = None \<and> mc_expected_graph_version c = None \<and> mc_requested_by_member_id c = None
      | NODE_CONTENT_UPDATE_REQUESTED \<Rightarrow>
          mc_meeting_id c = None \<and> mc_room_name c = None \<and> mc_generate_summary c = None \<and> mc_generate_nodes c = None
          \<and> (mc_target_node_id c = None \<longleftrightarrow> mc_expected_node_version c = None)
          \<and> mc_expected_graph_version c = None \<and> mc_requested_by_member_id c \<noteq> None
      | NODE_DELETE_REQUESTED \<Rightarrow>
          mc_meeting_id c = None \<and> mc_room_name c = None \<and> mc_generate_summary c = None \<and> mc_generate_nodes c = None
          \<and> mc_target_node_id c = None \<and> mc_expected_node_version c = None
          \<and> mc_expected_graph_version c \<noteq> None \<and> mc_requested_by_member_id c \<noteq> None)
   \<and> (case mc_expected_node_version c of None \<Rightarrow> True | Some v \<Rightarrow> 1 \<le> v)
   \<and> (case mc_expected_graph_version c of None \<Rightarrow> True | Some v \<Rightarrow> 0 \<le> v)
   \<and> length (mc_payload_hash c) = 64"

section \<open>The join\<close>

definition open_command :: "string \<Rightarrow> string \<Rightarrow> meeting_analysis_command \<Rightarrow> bool" where
  "open_command pid room c \<longleftrightarrow> mc_project_id c = pid \<and> mc_room_name c = Some room
     \<and> (mc_status c = CMD_WAITING_FOR_RECORDING \<or> mc_status c = CMD_READY)"

definition open_recording :: "string \<Rightarrow> string \<Rightarrow> recording_ready_event \<Rightarrow> bool" where
  "open_recording pid room r \<longleftrightarrow> rc_project_id r = pid \<and> rc_room_name r = room
     \<and> (rc_status r = REC_WAITING_FOR_COMMAND \<or> rc_status r = REC_READY)"

definition set_recording :: "uuid \<Rightarrow> (recording_ready_event \<Rightarrow> recording_ready_event) \<Rightarrow> db \<Rightarrow> db" where
  "set_recording i f d = d\<lparr>db_recordings := update_where (\<lambda>r. rc_id r = i) f (db_recordings d)\<rparr>"

definition ready_tasks :: "uuid \<Rightarrow> time \<Rightarrow> db \<Rightarrow> db" where
  "ready_tasks cid now d = d\<lparr>db_tasks := update_where (\<lambda>t. tk_command_id t = cid \<and> tk_status t = TASK_WAITING_INPUT)
     (\<lambda>t. t\<lparr>tk_status := TASK_READY, tk_available_at := now\<rparr>) (db_tasks d)\<rparr>"

definition join :: "string \<Rightarrow> string \<Rightarrow> time \<Rightarrow> db \<Rightarrow> (bool \<times> db) result" where
  "join pid room now d =
     rbind (one_or_none (filter (open_command pid room) (db_commands d))) (\<lambda>command.
     rbind (one_or_none (filter (open_recording pid room) (db_recordings d))) (\<lambda>recording.
       case (command, recording) of
         (Some c, Some r) \<Rightarrow>
           Inr (True, ready_tasks (mc_command_id c) now
             (set_recording (rc_id r) (\<lambda>r. r\<lparr>rc_status := REC_READY\<rparr>)
             (set_command (mc_command_id c) (\<lambda>c. c\<lparr>mc_status := CMD_READY\<rparr>) d)))
       | _ \<Rightarrow> Inr (False, d)))"

section \<open>Persisting the messages\<close>

definition same_recording :: "openvidu_egress_event \<Rightarrow> string \<Rightarrow> recording_ready_event \<Rightarrow> bool" where
  "same_recording e bucket r \<longleftrightarrow> rc_egress_id r = ov_egress_id e
     \<or> (rc_recording_bucket r = bucket \<and> rc_object_key r = ov_object_key e)"

definition recording_attempt ::
  "openvidu_egress_event \<Rightarrow> string \<Rightarrow> time \<Rightarrow> db \<Rightarrow> ((recording_ready_event \<times> bool) \<times> db) result" where
  "recording_attempt e bucket now d =
     (case filter (same_recording e bucket) (db_recordings d) of
        row # _ \<Rightarrow> rguard (row_identity row \<noteq> recording_identity e bucket) RecordingPayloadConflictError (Inr ((row, False), d))
      | [] \<Rightarrow>
          (let (i, d1) = uuid4 d; row = recording_row i e bucket
           in rguard (\<not> ck_recording_ready row) IntegrityError
             (rbind (join (ov_project_id e) (ov_room_name e) now (d1\<lparr>db_recordings := db_recordings d1 @ [row]\<rparr>)) (\<lambda>(_, d2).
              Inr ((row, True), d2)))))"

text \<open>The row returned is the object the transaction changed, so its status is the one after the join; only its
  identity is used.\<close>

fun persist_recording_ready ::
  "openvidu_egress_event \<Rightarrow> string \<Rightarrow> time \<Rightarrow> db list \<Rightarrow> ((recording_ready_event \<times> bool) \<times> db) result" where
  "persist_recording_ready e bucket now [] = Inl (RuntimeError ''maximum recursion depth exceeded'')"
| "persist_recording_ready e bucket now (d # ds) =
     (if strip bucket = [] then Inl (ValueError ''recording_bucket must not be blank'')
      else case recording_attempt e bucket now d of
             Inl IntegrityError \<Rightarrow> persist_recording_ready e bucket now ds
           | r \<Rightarrow> r)"

definition same_command :: "meeting_analysis_command_message \<Rightarrow> meeting_analysis_command \<Rightarrow> bool" where
  "same_command c r \<longleftrightarrow> mc_command_id r = mm_command_id c
     \<or> (mc_project_id r = mm_project_id c \<and> mc_meeting_id r = Some (mm_meeting_id c))"

definition add_task :: "uuid \<Rightarrow> task_type \<Rightarrow> task_status \<Rightarrow> time \<Rightarrow> db \<Rightarrow> db" where
  "add_task cid t status now d = (let (i, d1) = uuid4 d in d1\<lparr>db_tasks := db_tasks d1 @ [task_row i cid t status now]\<rparr>)"

definition analysis_command_attempt ::
  "stdlib \<Rightarrow> meeting_analysis_command_message \<Rightarrow> time \<Rightarrow> db \<Rightarrow> ((meeting_analysis_command \<times> bool) \<times> db) result" where
  "analysis_command_attempt L c now d =
     (let h = command_hash L c in
      case filter (same_command c) (db_commands d) of
        row # _ \<Rightarrow> rguard (mc_command_id row \<noteq> mm_command_id c \<or> mc_payload_hash row \<noteq> h) CommandPayloadConflictError
                     (Inr ((row, False), d))
      | [] \<Rightarrow>
          rbind (one_or_none (filter (open_recording (mm_project_id c) (mm_room_name c)) (db_recordings d))) (\<lambda>recording.
            let ready = (recording \<noteq> None);
                (row, d1) = add_command (\<lambda>i. analysis_command_row i c h (if ready then CMD_READY else CMD_WAITING_FOR_RECORDING)) d
            in rguard (\<not> ck_analysis_command row) IntegrityError
               (rguard (\<exists>t \<in> set (db_tasks d). tk_command_id t = mm_command_id c) IntegrityError
               (rbind (join (mm_project_id c) (mm_room_name c) now
                  (add_task (mm_command_id c) NODES (initial_task_status (mm_generate_nodes c) ready) now
                  (add_task (mm_command_id c) SUMMARY (initial_task_status (mm_generate_summary c) ready) now d1))) (\<lambda>(_, d2).
                Inr ((row, True), d2))))))"

fun persist_analysis_command ::
  "stdlib \<Rightarrow> meeting_analysis_command_message \<Rightarrow> time \<Rightarrow> db list \<Rightarrow> ((meeting_analysis_command \<times> bool) \<times> db) result" where
  "persist_analysis_command L c now [] = Inl (RuntimeError ''maximum recursion depth exceeded'')"
| "persist_analysis_command L c now (d # ds) =
     (case analysis_command_attempt L c now d of
        Inl IntegrityError \<Rightarrow> persist_analysis_command L c now ds
      | r \<Rightarrow> r)"

section \<open>Lemmas on the join\<close>

lemma filter_update_where:
  "(\<And>x. P (f x) = P x) \<Longrightarrow> filter P (update_where q f xs) = update_where q f (filter P xs)"
  by (induction xs) auto

lemma join_cases:
  assumes "join pid room now d = Inr (b, d')"
  obtains "\<not> b" "d' = d"
  | c r where "b" "filter (open_command pid room) (db_commands d) = [c]" "filter (open_recording pid room) (db_recordings d) = [r]"
      "d' = ready_tasks (mc_command_id c) now (set_recording (rc_id r) (\<lambda>r. r\<lparr>rc_status := REC_READY\<rparr>)
             (set_command (mc_command_id c) (\<lambda>c. c\<lparr>mc_status := CMD_READY\<rparr>) d))"
proof -
  note cases = that
  from assms obtain co re where co: "one_or_none (filter (open_command pid room) (db_commands d)) = Inr co"
    and re: "one_or_none (filter (open_recording pid room) (db_recordings d)) = Inr re"
    by (auto simp: join_def result_simps)
  show thesis
  proof (cases "\<exists>c r. co = Some c \<and> re = Some r")
    case True
    then obtain c r where "co = Some c" "re = Some r" by blast
    with co re assms cases(2) show thesis by (auto simp: join_def result_simps)
  next
    case False
    with co re assms have "\<not> b" "d' = d" by (auto simp: join_def split: option.splits)
    with cases(1) show thesis by blast
  qed
qed

text \<open>The join changes statuses, so it moves neither the identity of a command nor of a recording.\<close>

lemma join_keeps_commands:
  assumes "join pid room now d = Inr (b, d')" "\<And>x s. P (x\<lparr>mc_status := s\<rparr>) = P x"
  shows "\<exists>A. filter P (db_commands d') = map (\<lambda>x. if A x then x\<lparr>mc_status := CMD_READY\<rparr> else x) (filter P (db_commands d))"
  using assms(1)
proof (cases rule: join_cases)
  case 1
  then show ?thesis by (intro exI [of _ "\<lambda>_. False"]) simp
next
  case (2 c r)
  then show ?thesis using assms(2)
    by (intro exI [of _ "\<lambda>x. mc_command_id x = mc_command_id c"])
      (simp add: ready_tasks_def set_recording_def set_command_def filter_update_where, simp add: update_where_def)
qed

lemma join_keeps_recordings:
  assumes "join pid room now d = Inr (b, d')" "\<And>x s. Q (x\<lparr>rc_status := s\<rparr>) = Q x"
  shows "\<exists>A. filter Q (db_recordings d') = map (\<lambda>x. if A x then x\<lparr>rc_status := REC_READY\<rparr> else x) (filter Q (db_recordings d))"
  using assms(1)
proof (cases rule: join_cases)
  case 1
  then show ?thesis by (intro exI [of _ "\<lambda>_. False"]) simp
next
  case (2 c r)
  then show ?thesis using assms(2)
    by (intro exI [of _ "\<lambda>x. rc_id x = rc_id r"])
      (simp add: ready_tasks_def set_recording_def set_command_def filter_update_where, simp add: update_where_def)
qed

section \<open>Redelivered messages\<close>

definition fresh_command :: "meeting_analysis_command_message \<Rightarrow> db \<Rightarrow> bool" where
  "fresh_command c d \<longleftrightarrow> filter (same_command c) (db_commands d) = []"

definition settled_command :: "stdlib \<Rightarrow> meeting_analysis_command_message \<Rightarrow> db \<Rightarrow> bool" where
  "settled_command L c d \<longleftrightarrow> (\<exists>row. filter (same_command c) (db_commands d) = [row] \<and> mc_command_id row = mm_command_id c
     \<and> mc_payload_hash row = command_hash L c)"

lemma command_attempt_fresh:
  assumes "fresh_command c d" "analysis_command_attempt L c now d = Inr (r, d')"
  obtains ready i d1 b where "join (mm_project_id c) (mm_room_name c) now d1 = Inr (b, d')"
    "db_commands d1 = db_commands d @ [analysis_command_row i c (command_hash L c) (if ready then CMD_READY else CMD_WAITING_FOR_RECORDING)]"
    "db_recordings d1 = db_recordings d" "ready \<longleftrightarrow> filter (open_recording (mm_project_id c) (mm_room_name c)) (db_recordings d) \<noteq> []"
    "\<exists>j k. db_tasks d1 = db_tasks d @ [task_row j (mm_command_id c) SUMMARY (initial_task_status (mm_generate_summary c) ready) now,
        task_row k (mm_command_id c) NODES (initial_task_status (mm_generate_nodes c) ready) now]"
    "\<forall>t \<in> set (db_tasks d). tk_command_id t \<noteq> mm_command_id c" "db_next_uuid d \<le> db_next_uuid d1" "snd r"
proof -
  note result = that
  let ?open = "filter (open_recording (mm_project_id c) (mm_room_name c)) (db_recordings d)"
  from assms obtain re where re: "one_or_none ?open = Inr re"
    by (auto simp: analysis_command_attempt_def fresh_command_def result_simps Let_def)
  have ready: "re \<noteq> None \<longleftrightarrow> ?open \<noteq> []" using re by (cases re) (auto simp: result_simps)
  let ?row = "analysis_command_row (db_next_uuid d) c (command_hash L c) (if re \<noteq> None then CMD_READY else CMD_WAITING_FOR_RECORDING)"
  let ?d1 = "add_task (mm_command_id c) NODES (initial_task_status (mm_generate_nodes c) (re \<noteq> None)) now
      (add_task (mm_command_id c) SUMMARY (initial_task_status (mm_generate_summary c) (re \<noteq> None)) now
      (d\<lparr>db_next_uuid := Suc (db_next_uuid d), db_commands := db_commands d @ [?row]\<rparr>))"
  from assms re obtain b where b: "join (mm_project_id c) (mm_room_name c) now ?d1 = Inr (b, d')"
    and t: "\<forall>t \<in> set (db_tasks d). tk_command_id t \<noteq> mm_command_id c" "snd r"
    by (auto simp: analysis_command_attempt_def fresh_command_def result_simps Let_def add_command_def uuid4_def)
  have "\<exists>j k. db_tasks ?d1 = db_tasks d @ [task_row j (mm_command_id c) SUMMARY (initial_task_status (mm_generate_summary c) (re \<noteq> None)) now,
        task_row k (mm_command_id c) NODES (initial_task_status (mm_generate_nodes c) (re \<noteq> None)) now]"
    unfolding add_task_def uuid4_def Let_def split by (intro exI) simp
  with b t ready show thesis by (intro result [of ?d1 b "db_next_uuid d" "re \<noteq> None"]) (simp_all add: add_task_def uuid4_def)
qed

lemma command_settles:
  assumes "fresh_command c d" "analysis_command_attempt L c now d = Inr (r, d')"
  shows "settled_command L c d'"
  using assms
proof (cases rule: command_attempt_fresh)
  case (1 ready i d1 b)
  have "filter (same_command c) (db_commands d1) = [analysis_command_row i c (command_hash L c)
      (if ready then CMD_READY else CMD_WAITING_FOR_RECORDING)]"
    using assms(1) 1(2) by (simp add: fresh_command_def same_command_def analysis_command_row_def)
  moreover obtain A where "filter (same_command c) (db_commands d')
      = map (\<lambda>x. if A x then x\<lparr>mc_status := CMD_READY\<rparr> else x) (filter (same_command c) (db_commands d1))"
    using join_keeps_commands [OF 1(1), of "same_command c"] by (auto simp: same_command_def)
  ultimately show ?thesis by (simp add: settled_command_def analysis_command_row_def)
qed

lemma persist_command_iff: "persist_analysis_command L c now [d] = Inr x \<longleftrightarrow> analysis_command_attempt L c now d = Inr x"
  by (auto split: sum.splits py_error.splits)

lemma persist_recording_iff:
  "persist_recording_ready e bucket now [d] = Inr x \<longleftrightarrow> strip bucket \<noteq> [] \<and> recording_attempt e bucket now d = Inr x"
  by (auto split: sum.splits py_error.splits)

interpretation analysis_command_inbox:
  idempotent_inbox "\<lambda>c d. persist_analysis_command L c now [d]" fresh_command "settled_command L" for L now
proof (unfold_locales, goal_cases)
  case (1 c d r d')
  then show ?case by (simp only: persist_command_iff) (rule command_settles)
next
  case (2 c d)
  then show ?case by (auto simp: settled_command_def analysis_command_attempt_def)
qed

definition fresh_recording :: "openvidu_egress_event \<times> string \<Rightarrow> db \<Rightarrow> bool" where
  "fresh_recording m d \<longleftrightarrow> strip (snd m) \<noteq> [] \<and> filter (same_recording (fst m) (snd m)) (db_recordings d) = []"

definition settled_recording :: "openvidu_egress_event \<times> string \<Rightarrow> db \<Rightarrow> bool" where
  "settled_recording m d \<longleftrightarrow> strip (snd m) \<noteq> [] \<and> (\<exists>row. filter (same_recording (fst m) (snd m)) (db_recordings d) = [row]
     \<and> row_identity row = recording_identity (fst m) (snd m))"

lemma recording_settles:
  assumes "fresh_recording (e, bucket) d" "recording_attempt e bucket now d = Inr (r, d')"
  shows "settled_recording (e, bucket) d'"
proof -
  let ?row = "recording_row (db_next_uuid d) e bucket"
  let ?d1 = "d\<lparr>db_next_uuid := Suc (db_next_uuid d), db_recordings := db_recordings d @ [?row]\<rparr>"
  from assms obtain b where b: "join (ov_project_id e) (ov_room_name e) now ?d1 = Inr (b, d')"
    by (auto simp: recording_attempt_def fresh_recording_def result_simps uuid4_def Let_def)
  have "filter (same_recording e bucket) (db_recordings ?d1) = [?row]"
    using assms(1) by (simp add: fresh_recording_def same_recording_def recording_row_def)
  moreover obtain A where "filter (same_recording e bucket) (db_recordings d')
      = map (\<lambda>x. if A x then x\<lparr>rc_status := REC_READY\<rparr> else x) (filter (same_recording e bucket) (db_recordings ?d1))"
    using join_keeps_recordings [OF b, of "same_recording e bucket"] by (auto simp: same_recording_def)
  ultimately show ?thesis using assms(1)
    by (simp add: settled_recording_def fresh_recording_def recording_row_def row_identity_def recording_identity_def)
qed

interpretation recording_inbox:
  idempotent_inbox "\<lambda>m d. persist_recording_ready (fst m) (snd m) now [d]" fresh_recording settled_recording for now
proof (unfold_locales, goal_cases)
  case (1 m d r d')
  then show ?case using recording_settles [of "fst m" "snd m" d now r d'] by (simp only: persist_recording_iff) simp
next
  case (2 m d)
  then show ?case by (auto simp: settled_recording_def recording_attempt_def)
qed

section \<open>The order of the inputs\<close>

text \<open>A command and a recording of one room of which neither has been seen.\<close>

definition awaited :: "stdlib \<Rightarrow> meeting_analysis_command_message \<Rightarrow> openvidu_egress_event \<Rightarrow> string \<Rightarrow> db \<Rightarrow> bool" where
  "awaited L c e bucket d \<longleftrightarrow> ov_project_id e = mm_project_id c \<and> ov_room_name e = mm_room_name c
     \<and> fresh_command c d \<and> fresh_recording (e, bucket) d
     \<and> filter (open_command (mm_project_id c) (mm_room_name c)) (db_commands d) = []
     \<and> filter (open_recording (mm_project_id c) (mm_room_name c)) (db_recordings d) = []
     \<and> (\<forall>t \<in> set (db_tasks d). tk_command_id t \<noteq> mm_command_id c) \<and> (\<forall>r \<in> set (db_recordings d). rc_id r < db_next_uuid d)
     \<and> \<not> blank_sql (mm_room_name c) \<and> ov_kind e = ''MIXED'' \<and> length (command_hash L c) = 64"

text \<open>What the join leaves, whichever input came last: both rows READY, the selected tasks READY, the others SKIPPED.\<close>

definition analysis_started :: "stdlib \<Rightarrow> meeting_analysis_command_message \<Rightarrow> openvidu_egress_event \<Rightarrow> string \<Rightarrow> db \<Rightarrow> db \<Rightarrow> bool" where
  "analysis_started L c e bucket d d' \<longleftrightarrow> (\<exists>i j t1 t2.
       db_commands d' = db_commands d @ [analysis_command_row i c (command_hash L c) CMD_READY]
     \<and> db_recordings d' = db_recordings d @ [(recording_row j e bucket)\<lparr>rc_status := REC_READY\<rparr>]
     \<and> db_tasks d' = db_tasks d @ [t1, t2]
     \<and> tk_command_id t1 = mm_command_id c \<and> tk_task_type t1 = SUMMARY \<and> tk_status t1 = (if mm_generate_summary c then TASK_READY else TASK_SKIPPED)
     \<and> tk_command_id t2 = mm_command_id c \<and> tk_task_type t2 = NODES \<and> tk_status t2 = (if mm_generate_nodes c then TASK_READY else TASK_SKIPPED))"

text \<open>What the input that comes first leaves: its own row, waiting, and nothing that a worker could take.\<close>

definition command_waiting :: "stdlib \<Rightarrow> meeting_analysis_command_message \<Rightarrow> db \<Rightarrow> db \<Rightarrow> bool" where
  "command_waiting L c d d' \<longleftrightarrow> (\<exists>i t1 t2.
       db_commands d' = db_commands d @ [analysis_command_row i c (command_hash L c) CMD_WAITING_FOR_RECORDING]
     \<and> db_recordings d' = db_recordings d \<and> db_tasks d' = db_tasks d @ [t1, t2]
     \<and> tk_command_id t1 = mm_command_id c \<and> tk_task_type t1 = SUMMARY \<and> tk_status t1 = (if mm_generate_summary c then TASK_WAITING_INPUT else TASK_SKIPPED)
     \<and> tk_command_id t2 = mm_command_id c \<and> tk_task_type t2 = NODES \<and> tk_status t2 = (if mm_generate_nodes c then TASK_WAITING_INPUT else TASK_SKIPPED))"

definition recording_waiting :: "openvidu_egress_event \<Rightarrow> string \<Rightarrow> db \<Rightarrow> db \<Rightarrow> bool" where
  "recording_waiting e bucket d d' \<longleftrightarrow> db_commands d' = db_commands d \<and> db_tasks d' = db_tasks d
     \<and> (\<exists>j. db_recordings d' = db_recordings d @ [(recording_row j e bucket)\<lparr>rc_status := REC_WAITING_FOR_COMMAND\<rparr>])"

lemma join_both:
  assumes "filter (open_command pid room) (db_commands d) = [c]" "filter (open_recording pid room) (db_recordings d) = [r]"
  shows "join pid room now d = Inr (True, ready_tasks (mc_command_id c) now (set_recording (rc_id r) (\<lambda>r. r\<lparr>rc_status := REC_READY\<rparr>)
           (set_command (mc_command_id c) (\<lambda>c. c\<lparr>mc_status := CMD_READY\<rparr>) d)))"
  using assms by (simp add: join_def)

lemma join_alone:
  assumes "filter (open_command pid room) (db_commands d) = [] \<and> filter (open_recording pid room) (db_recordings d) = [r]
     \<or> filter (open_command pid room) (db_commands d) = [c] \<and> filter (open_recording pid room) (db_recordings d) = []"
  shows "join pid room now d = Inr (False, d)"
  using assms by (auto simp: join_def)

lemma new_command_row:
  "open_command (mm_project_id c) (mm_room_name c) (analysis_command_row i c h s) \<longleftrightarrow> s = CMD_WAITING_FOR_RECORDING \<or> s = CMD_READY"
  "mc_command_id (analysis_command_row i c h s) = mm_command_id c"
  "(analysis_command_row i c h s)\<lparr>mc_status := s'\<rparr> = analysis_command_row i c h s'"
  "ck_analysis_command (analysis_command_row i c h s) \<longleftrightarrow> \<not> blank_sql (mm_room_name c) \<and> length h = 64"
  by (auto simp: open_command_def analysis_command_row_def ck_analysis_command_def)

lemma new_recording_row:
  "open_recording (ov_project_id e) (ov_room_name e) (recording_row i e bucket)"
  "ck_recording_ready (recording_row i e bucket) \<longleftrightarrow> \<not> blank_sql (ov_room_name e) \<and> ov_kind e = ''MIXED''"
  "rc_id (recording_row i e bucket) = i"
  by (auto simp: open_recording_def recording_row_def ck_recording_ready_def)

text \<open>The two messages, each arriving at a database of the given shape.\<close>

lemma joined_tables:
  assumes "awaited L c e bucket d"
    and "db_commands d1 = db_commands d @ [analysis_command_row i c (command_hash L c) s]" "s = CMD_WAITING_FOR_RECORDING \<or> s = CMD_READY"
    and "db_recordings d1 = db_recordings d @ [recording_row j e bucket]" "db_next_uuid d \<le> j"
    and "db_tasks d1 = db_tasks d @ [t1, t2]" "tk_command_id t1 = mm_command_id c" "tk_task_type t1 = SUMMARY"
      "tk_status t1 = initial_task_status (mm_generate_summary c) ready"
      "tk_command_id t2 = mm_command_id c" "tk_task_type t2 = NODES" "tk_status t2 = initial_task_status (mm_generate_nodes c) ready"
  shows "\<exists>d'. join (mm_project_id c) (mm_room_name c) now d1 = Inr (True, d') \<and> analysis_started L c e bucket d d'"
proof -
  have room: "ov_project_id e = mm_project_id c" "ov_room_name e = mm_room_name c" using assms(1) by (simp_all add: awaited_def)
  let ?c = "analysis_command_row i c (command_hash L c) s" and ?r = "recording_row j e bucket"
  have f: "filter (open_command (mm_project_id c) (mm_room_name c)) (db_commands d1) = [?c]"
    "filter (open_recording (mm_project_id c) (mm_room_name c)) (db_recordings d1) = [?r]"
    using assms(1,3) new_recording_row(1) [of e j bucket] by (simp_all add: awaited_def assms(2,4) new_command_row room)
  have keep: "update_where (\<lambda>r. mc_command_id r = mm_command_id c) g (db_commands d) = db_commands d"
    "update_where (\<lambda>r. rc_id r = j) h (db_recordings d) = db_recordings d"
    "update_where (\<lambda>t. tk_command_id t = mm_command_id c \<and> tk_status t = TASK_WAITING_INPUT) k (db_tasks d) = db_tasks d" for g h k
    using assms(1,5) by (auto simp: awaited_def fresh_command_def same_command_def filter_empty_conv intro!: update_where_id)
  let ?d' = "ready_tasks (mc_command_id ?c) now (set_recording (rc_id ?r) (\<lambda>r. r\<lparr>rc_status := REC_READY\<rparr>)
           (set_command (mc_command_id ?c) (\<lambda>c. c\<lparr>mc_status := CMD_READY\<rparr>) d1))"
  let ?t = "\<lambda>t. if tk_status t = TASK_WAITING_INPUT then t\<lparr>tk_status := TASK_READY, tk_available_at := now\<rparr> else t"
  have upd: "update_where p f (xs @ ys) = update_where p f xs @ update_where p f ys" for p f and xs ys :: "'z list"
    by (simp add: update_where_def)
  have "db_commands ?d' = db_commands d @ [analysis_command_row i c (command_hash L c) CMD_READY]"
    "db_recordings ?d' = db_recordings d @ [?r\<lparr>rc_status := REC_READY\<rparr>]" "db_tasks ?d' = db_tasks d @ [?t t1, ?t t2]"
    using assms(6,7,10) by (simp_all add: ready_tasks_def set_recording_def set_command_def assms(2,4) new_command_row new_recording_row upd keep)
  moreover have st: "tk_status (?t t) = (if b then TASK_READY else TASK_SKIPPED)" if "tk_status t = initial_task_status b ready" for t b
    using that by (auto simp: initial_task_status_def)
  moreover have same: "tk_command_id (?t t) = tk_command_id t" "tk_task_type (?t t) = tk_task_type t" for t by simp_all
  ultimately have "analysis_started L c e bucket d ?d'" unfolding analysis_started_def
    using same [of t1] same [of t2] st [OF assms(9)] st [OF assms(12)] unfolding assms(7,8,10,11) by blast
  with join_both [OF f, of now] show ?thesis by blast
qed

lemma command_waits:
  assumes "awaited L c e bucket d"
  obtains d1 i j k where "analysis_command_attempt L c now d = Inr ((analysis_command_row i c (command_hash L c) CMD_WAITING_FOR_RECORDING, True), d1)"
    "db_commands d1 = db_commands d @ [analysis_command_row i c (command_hash L c) CMD_WAITING_FOR_RECORDING]"
    "db_recordings d1 = db_recordings d" "db_next_uuid d \<le> db_next_uuid d1"
    "db_tasks d1 = db_tasks d @ [task_row j (mm_command_id c) SUMMARY (initial_task_status (mm_generate_summary c) False) now,
       task_row k (mm_command_id c) NODES (initial_task_status (mm_generate_nodes c) False) now]"
proof -
  note result = that
  let ?row = "analysis_command_row (db_next_uuid d) c (command_hash L c) CMD_WAITING_FOR_RECORDING"
  define d1 where "d1 = add_task (mm_command_id c) NODES (initial_task_status (mm_generate_nodes c) False) now
      (add_task (mm_command_id c) SUMMARY (initial_task_status (mm_generate_summary c) False) now
      (d\<lparr>db_next_uuid := Suc (db_next_uuid d), db_commands := db_commands d @ [?row]\<rparr>))"
  have t: "db_commands d1 = db_commands d @ [?row]" "db_recordings d1 = db_recordings d" "db_next_uuid d \<le> db_next_uuid d1"
    "db_tasks d1 = db_tasks d @ [task_row (Suc (db_next_uuid d)) (mm_command_id c) SUMMARY (initial_task_status (mm_generate_summary c) False) now,
       task_row (Suc (Suc (db_next_uuid d))) (mm_command_id c) NODES (initial_task_status (mm_generate_nodes c) False) now]"
    by (simp_all add: d1_def add_task_def uuid4_def)
  have "join (mm_project_id c) (mm_room_name c) now d1 = Inr (False, d1)"
    using assms by (intro join_alone [where c = ?row]) (simp add: t awaited_def new_command_row)
  with assms have "analysis_command_attempt L c now d = Inr ((?row, True), d1)"
    by (simp add: analysis_command_attempt_def awaited_def fresh_command_def add_command_def uuid4_def new_command_row d1_def [symmetric] Let_def rguard_def)
  with t show thesis by (intro result)
qed

lemma recording_waits:
  assumes "awaited L c e bucket d"
  obtains d1 where "recording_attempt e bucket now d = Inr ((recording_row (db_next_uuid d) e bucket, True), d1)"
    "db_commands d1 = db_commands d" "db_recordings d1 = db_recordings d @ [recording_row (db_next_uuid d) e bucket]" "db_tasks d1 = db_tasks d"
proof -
  note result = that
  let ?row = "recording_row (db_next_uuid d) e bucket"
  define d1 where "d1 = d\<lparr>db_next_uuid := Suc (db_next_uuid d), db_recordings := db_recordings d @ [?row]\<rparr>"
  have room: "ov_project_id e = mm_project_id c" "ov_room_name e = mm_room_name c" using assms by (simp_all add: awaited_def)
  have "join (mm_project_id c) (mm_room_name c) now d1 = Inr (False, d1)"
    using assms new_recording_row(1) [of e "db_next_uuid d" bucket]
    by (intro join_alone [where r = ?row]) (simp add: d1_def awaited_def room)
  with assms have "recording_attempt e bucket now d = Inr ((?row, True), d1)"
    by (simp add: recording_attempt_def awaited_def fresh_recording_def uuid4_def new_recording_row d1_def [symmetric] Let_def rguard_def)
  then show thesis by (rule result) (simp_all add: d1_def)
qed

text \<open>C18. The analysis of a meeting starts when its command and its recording are both there, in whichever order they arrive. The
  input that comes first only adds its own row, waiting, and for a command its two tasks, waiting or skipped, so that it starts nothing; the one
  that comes second makes both rows READY and the
  selected tasks READY, the others SKIPPED, and the outcome is the same for both orders.\<close>

theorem join_order_independent:
  assumes "awaited L c e bucket d"
  shows "(\<exists>r1 d1 r2 d2. persist_analysis_command L c now [d] = Inr (r1, d1) \<and> mc_status (fst r1) = CMD_WAITING_FOR_RECORDING
        \<and> command_waiting L c d d1
        \<and> persist_recording_ready e bucket now' [d1] = Inr (r2, d2) \<and> analysis_started L c e bucket d d2)
    \<and> (\<exists>r1 d1 r2 d2. persist_recording_ready e bucket now' [d] = Inr (r1, d1) \<and> rc_status (fst r1) = REC_WAITING_FOR_COMMAND
        \<and> recording_waiting e bucket d d1
        \<and> persist_analysis_command L c now [d1] = Inr (r2, d2) \<and> analysis_started L c e bucket d d2)"
proof
  have room: "ov_project_id e = mm_project_id c" "ov_room_name e = mm_room_name c" and bucket: "strip bucket \<noteq> []"
    using assms by (simp_all add: awaited_def fresh_recording_def)
  obtain d1 i j k where a: "analysis_command_attempt L c now d = Inr ((analysis_command_row i c (command_hash L c) CMD_WAITING_FOR_RECORDING, True), d1)"
    "db_commands d1 = db_commands d @ [analysis_command_row i c (command_hash L c) CMD_WAITING_FOR_RECORDING]"
    "db_recordings d1 = db_recordings d" "db_next_uuid d \<le> db_next_uuid d1"
    "db_tasks d1 = db_tasks d @ [task_row j (mm_command_id c) SUMMARY (initial_task_status (mm_generate_summary c) False) now,
       task_row k (mm_command_id c) NODES (initial_task_status (mm_generate_nodes c) False) now]"
    by (rule command_waits [OF assms])
  let ?r = "recording_row (db_next_uuid d1) e bucket"
  let ?d = "d1\<lparr>db_next_uuid := Suc (db_next_uuid d1), db_recordings := db_recordings d1 @ [?r]\<rparr>"
  obtain d2 where j: "join (mm_project_id c) (mm_room_name c) now' ?d = Inr (True, d2)" "analysis_started L c e bucket d d2"
    using joined_tables [OF assms, of ?d i CMD_WAITING_FOR_RECORDING "db_next_uuid d1" _ _ False now'] a by (auto simp: task_row_def)
  have "recording_attempt e bucket now' d1 = Inr ((?r, True), d2)"
    using assms j(1) a(3) by (simp add: recording_attempt_def awaited_def fresh_recording_def uuid4_def new_recording_row rguard_def)
  moreover have "command_waiting L c d d1"
    unfolding command_waiting_def a(2,3,5)
    by (rule exI [of _ i], rule exI [of _ "task_row j (mm_command_id c) SUMMARY (initial_task_status (mm_generate_summary c) False) now"],
        rule exI [of _ "task_row k (mm_command_id c) NODES (initial_task_status (mm_generate_nodes c) False) now"])
      (simp add: task_row_def initial_task_status_def)
  ultimately show "\<exists>r1 d1 r2 d2. persist_analysis_command L c now [d] = Inr (r1, d1) \<and> mc_status (fst r1) = CMD_WAITING_FOR_RECORDING
        \<and> command_waiting L c d d1
        \<and> persist_recording_ready e bucket now' [d1] = Inr (r2, d2) \<and> analysis_started L c e bucket d d2"
    using a(1) j(2) bucket unfolding persist_command_iff persist_recording_iff by (fastforce simp: analysis_command_row_def)
next
  have room: "ov_project_id e = mm_project_id c" "ov_room_name e = mm_room_name c" and bucket: "strip bucket \<noteq> []"
    using assms by (simp_all add: awaited_def fresh_recording_def)
  let ?r = "recording_row (db_next_uuid d) e bucket"
  obtain d1 where a: "recording_attempt e bucket now' d = Inr ((?r, True), d1)"
    "db_commands d1 = db_commands d" "db_recordings d1 = db_recordings d @ [?r]" "db_tasks d1 = db_tasks d"
    by (rule recording_waits [OF assms])
  let ?row = "analysis_command_row (db_next_uuid d1) c (command_hash L c) CMD_READY"
  define d2 where "d2 = add_task (mm_command_id c) NODES (initial_task_status (mm_generate_nodes c) True) now
      (add_task (mm_command_id c) SUMMARY (initial_task_status (mm_generate_summary c) True) now
      (d1\<lparr>db_next_uuid := Suc (db_next_uuid d1), db_commands := db_commands d1 @ [?row]\<rparr>))"
  have t: "db_commands d2 = db_commands d @ [?row]" "db_recordings d2 = db_recordings d @ [?r]"
    "db_tasks d2 = db_tasks d @ [task_row (Suc (db_next_uuid d1)) (mm_command_id c) SUMMARY (initial_task_status (mm_generate_summary c) True) now,
       task_row (Suc (Suc (db_next_uuid d1))) (mm_command_id c) NODES (initial_task_status (mm_generate_nodes c) True) now]"
    by (simp_all add: d2_def add_task_def uuid4_def a)
  obtain d3 where j: "join (mm_project_id c) (mm_room_name c) now d2 = Inr (True, d3)" "analysis_started L c e bucket d d3"
    using joined_tables [OF assms t(1) _ t(2) _ t(3), of True now] by (auto simp: task_row_def)
  have "filter (open_recording (mm_project_id c) (mm_room_name c)) (db_recordings d1) = [?r]"
    using assms new_recording_row(1) [of e "db_next_uuid d" bucket] by (simp add: a(3) awaited_def room)
  with assms j(1) have "analysis_command_attempt L c now d1 = Inr ((?row, True), d3)"
    by (simp add: analysis_command_attempt_def awaited_def fresh_command_def add_command_def uuid4_def new_command_row a(2,4)
        d2_def Let_def rguard_def)
  moreover have "recording_waiting e bucket d d1" using a(2-4) by (auto simp: recording_waiting_def recording_row_def)
  ultimately show "\<exists>r1 d1 r2 d2. persist_recording_ready e bucket now' [d] = Inr (r1, d1) \<and> rc_status (fst r1) = REC_WAITING_FOR_COMMAND
        \<and> recording_waiting e bucket d d1
        \<and> persist_analysis_command L c now [d1] = Inr (r2, d2) \<and> analysis_started L c e bucket d d2"
    using a(1) j(2) bucket unfolding persist_command_iff persist_recording_iff by (fastforce simp: recording_row_def)
qed

lemma join_tasks:
  assumes "join pid room now d = Inr (b, d')"
  shows "map tk_task_type (filter (\<lambda>t. tk_command_id t = cid) (db_tasks d')) = map tk_task_type (filter (\<lambda>t. tk_command_id t = cid) (db_tasks d))"
  using assms
proof (cases rule: join_cases)
  case (2 c r)
  then show ?thesis
    by (simp add: ready_tasks_def set_recording_def set_command_def filter_update_where map_key_update_where)
qed simp

text \<open>Redelivered inputs are harmless. A command or a recording that was persisted is recognized on every further
  delivery, which leaves the database as it is, and a command has exactly one SUMMARY and one NODES task however often
  it is delivered.\<close>

theorem intake_exactly_once:
  shows "(fresh_command c d \<and> persist_analysis_command L c now [d] = Inr (r, d') \<longrightarrow>
         deliveries (\<lambda>d. persist_analysis_command L c now [d]) (Suc n) d = Inr d'
       \<and> map tk_task_type (filter (\<lambda>t. tk_command_id t = mm_command_id c) (db_tasks d')) = [SUMMARY, NODES])
    \<and> (fresh_recording (e, bucket) d \<and> persist_recording_ready e bucket now [d] = Inr (s, d'') \<longrightarrow>
         deliveries (\<lambda>d. persist_recording_ready e bucket now [d]) (Suc n) d = Inr d'')"
proof (intro conjI impI)
  assume fr: "fresh_command c d \<and> persist_analysis_command L c now [d] = Inr (r, d')"
  then show "deliveries (\<lambda>d. persist_analysis_command L c now [d]) (Suc n) d = Inr d'"
    using analysis_command_inbox.exactly_once by blast
  from fr have "fresh_command c d" "analysis_command_attempt L c now d = Inr (r, d')" by (simp_all only: persist_command_iff)
  then show "map tk_task_type (filter (\<lambda>t. tk_command_id t = mm_command_id c) (db_tasks d')) = [SUMMARY, NODES]"
  proof (cases rule: command_attempt_fresh)
    case (1 ready i d1 b)
    then show ?thesis by (auto simp: join_tasks [OF 1(1)] task_row_def filter_empty_conv)
  qed
next
  assume "fresh_recording (e, bucket) d \<and> persist_recording_ready e bucket now [d] = Inr (s, d'')"
  then show "deliveries (\<lambda>d. persist_recording_ready e bucket now [d]) (Suc n) d = Inr d''"
    using recording_inbox.exactly_once [of "(e, bucket)" d now s d'' n] by simp
qed

section \<open>The properties at concrete messages\<close>

definition sample_hash_stdlib :: stdlib where
  "sample_hash_stdlib = sample_stdlib\<lparr>sha256_hexdigest := (\<lambda>_. replicate 64 CHR ''a'')\<rparr>"

definition sample_analysis_command :: meeting_analysis_command_message where
  "sample_analysis_command = \<lparr>mm_command_id = 70, mm_project_id = ''7'', mm_meeting_id = ''8'', mm_room_name = ''r'',
     mm_generate_summary = True, mm_generate_nodes = False, mm_requested_at = 0, mm_requested_at_iso = ''t''\<rparr>"

definition sample_recording :: openvidu_egress_event where
  "sample_recording = \<lparr>ov_project_id = ''7'', ov_room_name = ''r'', ov_object_key = ''k'', ov_egress_id = ''e'', ov_kind = ''MIXED'',
     ov_member_id = None, ov_ended_at_raw = None\<rparr>"

lemma sample_awaited: "awaited sample_hash_stdlib sample_analysis_command sample_recording ''b'' (sample_db [])"
proof -
  have "strip ''b'' \<noteq> []" by code_simp
  then show ?thesis
    by (simp add: awaited_def sample_analysis_command_def sample_recording_def fresh_command_def fresh_recording_def sample_db_def
        empty_db_def blank_sql_def command_hash_def canonical_hash_def sample_hash_stdlib_def)
qed

theorem join_order_independent_witness:
  "\<exists>d1 d2 r1 r2. persist_analysis_command sample_hash_stdlib sample_analysis_command 1 [sample_db []] = Inr (r1, d1)
     \<and> command_waiting sample_hash_stdlib sample_analysis_command (sample_db []) d1
     \<and> persist_recording_ready sample_recording ''b'' 2 [d1] = Inr (r2, d2)
     \<and> analysis_started sample_hash_stdlib sample_analysis_command sample_recording ''b'' (sample_db []) d2"
  using join_order_independent [OF sample_awaited, of 1 2] by blast

end
