(* ===== verification/Coordinator.thy ===== *)
theory Coordinator
  imports Command_Join Outbox_Relay
begin

text \<open>
  \<open>meeting_analysis/coordinator.py\<close>: the worker that takes a command whose recording is there, loads the transcript
  once for its tasks, runs the tasks and records the outcome of each, and closes the command when all
  its tasks have ended. The transcript loader and the processors of the two task types are parameters: functions
  that may change the database and end with a result or an exception. The tasks run in threads; they end in some order, which is
  an argument, and what they do to the database is taken in that order.
\<close>

section \<open>Claims\<close>

record coordinator_claim =
  cl_command_id :: uuid
  cl_recording_id :: uuid
  cl_claim_token :: uuid
  cl_task_types :: "task_type list"

record coordinator_run_result =
  co_claimed :: bool
  co_command_id :: "uuid option"
  co_transcript_loads :: nat
  co_succeeded :: "task_type list"
  co_retrying :: "task_type list"
  co_failed :: "task_type list"

text \<open>\<open>ORDER BY task_type\<close> sorts the names: NODES before SUMMARY.\<close>

definition task_order :: "meeting_analysis_task \<Rightarrow> string" where
  "task_order t = task_type_value (tk_task_type t)"

definition command_tasks :: "db \<Rightarrow> uuid \<Rightarrow> meeting_analysis_task list" where
  "command_tasks d cid = filter (\<lambda>t. tk_command_id t = cid) (db_tasks d)"

definition claimable_task :: "time \<Rightarrow> meeting_analysis_task \<Rightarrow> bool" where
  "claimable_task stale_before t \<longleftrightarrow> tk_status t = TASK_READY
     \<or> (tk_status t = TASK_PROCESSING \<and> (case tk_claimed_at t of None \<Rightarrow> False | Some c \<Rightarrow> c < stale_before))"

definition claim_task :: "uuid \<Rightarrow> time \<Rightarrow> meeting_analysis_task \<Rightarrow> meeting_analysis_task" where
  "claim_task token now t = t\<lparr>tk_status := TASK_PROCESSING, tk_claim_token := Some token, tk_claimed_at := Some now,
     tk_attempt_count := tk_attempt_count t + 1, tk_failure_code := None, tk_last_error := None\<rparr>"

definition claim_tasks :: "uuid \<Rightarrow> uuid \<Rightarrow> time \<Rightarrow> time \<Rightarrow> db \<Rightarrow> db" where
  "claim_tasks cid token stale_before now d = d\<lparr>db_tasks :=
     update_where (\<lambda>t. tk_command_id t = cid \<and> claimable_task stale_before t) (claim_task token now) (db_tasks d)\<rparr>"

definition running_recording :: "meeting_analysis_command \<Rightarrow> recording_ready_event \<Rightarrow> bool" where
  "running_recording c r \<longleftrightarrow> rc_project_id r = mc_project_id c \<and> Some (rc_room_name r) = mc_room_name c
     \<and> (rc_status r = REC_READY \<or> rc_status r = REC_PROCESSING)"

fun claim_loop ::
  "time \<Rightarrow> time \<Rightarrow> meeting_analysis_command list \<Rightarrow> db \<Rightarrow> (coordinator_claim option \<times> db) result" where
  "claim_loop now stale_before [] d = Inr (None, d)"
| "claim_loop now stale_before (c # cs) d =
     rbind (one_or_none (filter (running_recording c) (db_recordings d))) (\<lambda>recording.
       case recording of
         None \<Rightarrow> claim_loop now stale_before cs d
       | Some r \<Rightarrow>
           (let tasks = sort_key task_order (command_tasks d (mc_command_id c));
                claimable = filter (claimable_task stale_before) tasks
            in if claimable = [] \<and> \<not> (\<forall>t \<in> set tasks. tk_status t = TASK_SKIPPED)
               then claim_loop now stale_before cs d
               else (let (token, d1) = uuid4 d
                     in Inr (Some \<lparr>cl_command_id = mc_command_id c, cl_recording_id = rc_id r, cl_claim_token = token,
                              cl_task_types = map tk_task_type claimable\<rparr>,
                          set_recording (rc_id r) (\<lambda>r. r\<lparr>rc_status := REC_PROCESSING\<rparr>)
                         (set_command (mc_command_id c) (\<lambda>c. c\<lparr>mc_status := CMD_PROCESSING\<rparr>)
                         (claim_tasks (mc_command_id c) token stale_before now d1))))))"

definition claimable_command :: "meeting_analysis_command \<Rightarrow> bool" where
  "claimable_command c \<longleftrightarrow> mc_status c = CMD_READY \<or> mc_status c = CMD_PROCESSING"

definition claim_ready :: "time \<Rightarrow> time \<Rightarrow> db \<Rightarrow> (coordinator_claim option \<times> db) result" where
  "claim_ready now timeout d =
     claim_loop now (now - timeout) (sort_key mc_requested_at (filter claimable_command (db_commands d))) d"

definition load_inputs :: "coordinator_claim \<Rightarrow> db \<Rightarrow> (meeting_analysis_command \<times> recording_ready_event) result" where
  "load_inputs cl d =
     rbind (exactly_one (command_rows d (cl_command_id cl))) (\<lambda>c.
       case find (\<lambda>r. rc_id r = cl_recording_id cl) (db_recordings d) of
         None \<Rightarrow> Inl (RuntimeError ''claimed recording no longer matches command'')
       | Some r \<Rightarrow>
           if rc_project_id r \<noteq> mc_project_id c \<or> Some (rc_room_name r) \<noteq> mc_room_name c
           then Inl (RuntimeError ''claimed recording no longer matches command'') else Inr (c, r))"

section \<open>Outcomes\<close>

definition is_claimed_task :: "uuid \<Rightarrow> task_type \<Rightarrow> uuid \<Rightarrow> meeting_analysis_task \<Rightarrow> bool" where
  "is_claimed_task cid ty token t \<longleftrightarrow> tk_command_id t = cid \<and> tk_task_type t = ty \<and> tk_status t = TASK_PROCESSING
     \<and> tk_claim_token t = Some token"

definition set_task :: "uuid \<Rightarrow> task_type \<Rightarrow> (meeting_analysis_task \<Rightarrow> meeting_analysis_task) \<Rightarrow> db \<Rightarrow> db" where
  "set_task cid ty f d = d\<lparr>db_tasks := update_where (\<lambda>t. tk_command_id t = cid \<and> tk_task_type t = ty) f (db_tasks d)\<rparr>"

definition succeed_task :: "time \<Rightarrow> meeting_analysis_task \<Rightarrow> meeting_analysis_task" where
  "succeed_task now t = t\<lparr>tk_status := TASK_SUCCEEDED, tk_claim_token := None, tk_claimed_at := None, tk_updated_at := now\<rparr>"

definition record_task_success :: "coordinator_claim \<Rightarrow> task_type \<Rightarrow> time \<Rightarrow> db \<Rightarrow> (unit \<times> db) result" where
  "record_task_success cl ty now d =
     rbind (exactly_one (filter (is_claimed_task (cl_command_id cl) ty (cl_claim_token cl)) (db_tasks d))) (\<lambda>_.
       Inr ((), set_task (cl_command_id cl) ty (succeed_task now) d))"

definition task_failure :: "string \<Rightarrow> py_exc \<Rightarrow> meeting_analysis_task \<Rightarrow> meeting_analysis_task" where
  "task_failure code error t = t\<lparr>tk_claim_token := None, tk_claimed_at := None, tk_failure_code := Some code,
     tk_last_error := Some (error_text error)\<rparr>"

definition record_task_failure ::
  "coordinator_claim \<Rightarrow> task_type \<Rightarrow> py_exc \<Rightarrow> string \<Rightarrow> bool \<Rightarrow> bool \<Rightarrow> time \<Rightarrow> db \<Rightarrow> (bool \<times> db) result" where
  "record_task_failure cl ty error code retryable emit now d =
     rbind (exactly_one (filter (is_claimed_task (cl_command_id cl) ty (cl_claim_token cl)) (db_tasks d))) (\<lambda>t.
       if \<not> retryable \<or> tk_attempt_count t \<ge> tk_max_attempts t
       then (let d1 = set_task (cl_command_id cl) ty (\<lambda>t. (task_failure code error t)\<lparr>tk_status := TASK_FAILED, tk_updated_at := now\<rparr>) d
             in if emit
                then rbind (exactly_one (command_rows d1 (cl_command_id cl))) (\<lambda>c.
                     rbind (stage_task_failed_v3 c ty code (Some (snd error)) now d1) (\<lambda>(_, d2). Inr (True, d2)))
                else Inr (True, d1))
       else Inr (False, set_task (cl_command_id cl) ty
              (\<lambda>t. (task_failure code error t)\<lparr>tk_status := TASK_READY, tk_available_at := now, tk_updated_at := now\<rparr>) d))"

definition ended_task :: "meeting_analysis_task \<Rightarrow> bool" where
  "ended_task t \<longleftrightarrow> tk_status t = TASK_SUCCEEDED \<or> tk_status t = TASK_FAILED \<or> tk_status t = TASK_SKIPPED"

definition set_inputs :: "uuid \<Rightarrow> uuid \<Rightarrow> command_status \<Rightarrow> recording_status \<Rightarrow> db \<Rightarrow> db" where
  "set_inputs cid rid cs rs d = set_recording rid (\<lambda>r. r\<lparr>rc_status := rs\<rparr>) (set_command cid (\<lambda>c. c\<lparr>mc_status := cs\<rparr>) d)"

definition finish_inputs_if_terminal :: "uuid \<Rightarrow> uuid \<Rightarrow> db \<Rightarrow> (unit \<times> db) result" where
  "finish_inputs_if_terminal cid rid d =
     rbind (exactly_one (command_rows d cid)) (\<lambda>_.
     rbind (exactly_one (filter (\<lambda>r. rc_id r = rid) (db_recordings d))) (\<lambda>_.
       let tasks = command_tasks d cid in
       if \<forall>t \<in> set tasks. ended_task t then Inr ((), set_inputs cid rid CMD_COMPLETED REC_COMPLETED d)
       else if \<exists>t \<in> set tasks. tk_status t = TASK_READY then Inr ((), set_inputs cid rid CMD_READY REC_READY d)
       else Inr ((), d)))"

section \<open>One run\<close>

text \<open>\<open>TaskProcessingError\<close> and any other exception of a processor.\<close>

datatype task_exception = TaskProcessingError string string bool bool | OtherException py_exc

fun failure_of :: "task_type \<Rightarrow> task_exception \<Rightarrow> py_exc \<times> string \<times> bool \<times> bool" where
  "failure_of ty (TaskProcessingError message code retryable emit) = ((''TaskProcessingError'', message), code, retryable, emit)"
| "failure_of ty (OtherException e) =
     (e, if ty = SUMMARY then ''SUMMARY_GENERATION_FAILED'' else task_type_value ty @ ''_FAILED'', True, True)"

type_synonym 't loader = "meeting_analysis_command \<Rightarrow> recording_ready_event \<Rightarrow> db \<Rightarrow> (py_exc + 't) \<times> db"

type_synonym 't processor =
  "task_type \<Rightarrow> meeting_analysis_command \<Rightarrow> recording_ready_event \<Rightarrow> 't \<Rightarrow> db \<Rightarrow> task_exception option \<times> db"

datatype task_outcome = Succeeded | Retrying | Failed

text \<open>The transcript could not be loaded: every task of the claim fails, in the order of the claim.\<close>

fun fail_all :: "coordinator_claim \<Rightarrow> py_exc \<Rightarrow> time \<Rightarrow> task_type list \<Rightarrow> db \<Rightarrow> (py_error + (task_type \<times> task_outcome) list) \<times> db" where
  "fail_all cl error now [] d = (Inr [], d)"
| "fail_all cl error now (ty # tys) d =
     (case record_task_failure cl ty error ''STT_FAILED'' True True now d of
        Inl e \<Rightarrow> (Inl e, d)
      | Inr (terminal, d1) \<Rightarrow>
          (case fail_all cl error now tys d1 of
             (Inl e, d2) \<Rightarrow> (Inl e, d2)
           | (Inr os, d2) \<Rightarrow> (Inr ((ty, if terminal then Failed else Retrying) # os), d2)))"

definition run_task ::
  "'t processor \<Rightarrow> coordinator_claim \<Rightarrow> meeting_analysis_command \<Rightarrow> recording_ready_event \<Rightarrow> 't \<Rightarrow> time \<Rightarrow> task_type \<Rightarrow> db
    \<Rightarrow> (py_error + task_outcome) \<times> db" where
  "run_task processor cl c r transcript now ty d =
     (case processor ty c r transcript d of
        (None, d1) \<Rightarrow>
          (case record_task_success cl ty now d1 of Inl e \<Rightarrow> (Inl e, d1) | Inr (_, d2) \<Rightarrow> (Inr Succeeded, d2))
      | (Some exc, d1) \<Rightarrow>
          (case failure_of ty exc of (error, code, retryable, emit) \<Rightarrow>
            (case record_task_failure cl ty error code retryable emit now d1 of
               Inl e \<Rightarrow> (Inl e, d1)
             | Inr (terminal, d2) \<Rightarrow> (Inr (if terminal then Failed else Retrying), d2))))"

text \<open>The tasks in the order in which they end. An exception while an outcome is recorded ends the run; the other
  threads still finish their work, but their outcomes are not recorded.\<close>

fun run_tasks ::
  "'t processor \<Rightarrow> coordinator_claim \<Rightarrow> meeting_analysis_command \<Rightarrow> recording_ready_event \<Rightarrow> 't \<Rightarrow> time \<Rightarrow> task_type list \<Rightarrow> db
    \<Rightarrow> (py_error + (task_type \<times> task_outcome) list) \<times> db" where
  "run_tasks processor cl c r transcript now [] d = (Inr [], d)"
| "run_tasks processor cl c r transcript now (ty # tys) d =
     (case run_task processor cl c r transcript now ty d of
        (Inl e, d1) \<Rightarrow> (Inl e, fold (\<lambda>ty d. snd (processor ty c r transcript d)) tys d1)
      | (Inr out, d1) \<Rightarrow>
          (case run_tasks processor cl c r transcript now tys d1 of
             (Inl e, d2) \<Rightarrow> (Inl e, d2)
           | (Inr os, d2) \<Rightarrow> (Inr ((ty, out) # os), d2)))"

definition with_outcome :: "task_outcome \<Rightarrow> (task_type \<times> task_outcome) list \<Rightarrow> task_type list \<Rightarrow> task_type list" where
  "with_outcome out os tys = filter (\<lambda>ty. map_of os ty = Some out) tys"

definition finish_run ::
  "coordinator_claim \<Rightarrow> (py_error + (task_type \<times> task_outcome) list) \<times> db \<Rightarrow> coordinator_run_result result \<times> db" where
  "finish_run cl s =
     (case s of
        (Inl e, d) \<Rightarrow> (Inl e, d)
      | (Inr os, d) \<Rightarrow>
          (case finish_inputs_if_terminal (cl_command_id cl) (cl_recording_id cl) d of
             Inl e \<Rightarrow> (Inl e, d)
           | Inr (_, d1) \<Rightarrow>
               (Inr \<lparr>co_claimed = True, co_command_id = Some (cl_command_id cl), co_transcript_loads = 1,
                     co_succeeded = with_outcome Succeeded os (cl_task_types cl),
                     co_retrying = with_outcome Retrying os (cl_task_types cl),
                     co_failed = with_outcome Failed os (cl_task_types cl)\<rparr>, d1)))"

definition coordinator_run_once ::
  "'t loader \<Rightarrow> 't processor \<Rightarrow> (task_type list \<Rightarrow> task_type list) \<Rightarrow> time \<Rightarrow> time \<Rightarrow> time \<Rightarrow> db
    \<Rightarrow> coordinator_run_result result \<times> db" where
  "coordinator_run_once loader processor completion now timeout later d =
     (case claim_ready now timeout d of
        Inl e \<Rightarrow> (Inl e, d)
      | Inr (None, d1) \<Rightarrow>
          (Inr \<lparr>co_claimed = False, co_command_id = None, co_transcript_loads = 0, co_succeeded = [], co_retrying = [], co_failed = []\<rparr>, d1)
      | Inr (Some cl, d1) \<Rightarrow>
          (case load_inputs cl d1 of
             Inl e \<Rightarrow> (Inl e, d1)
           | Inr (c, r) \<Rightarrow>
               if cl_task_types cl = []
               then (case finish_inputs_if_terminal (cl_command_id cl) (cl_recording_id cl) d1 of
                       Inl e \<Rightarrow> (Inl e, d1)
                     | Inr (_, d2) \<Rightarrow> (Inr \<lparr>co_claimed = True, co_command_id = Some (cl_command_id cl), co_transcript_loads = 0,
                           co_succeeded = [], co_retrying = [], co_failed = []\<rparr>, d2))
               else (case loader c r d1 of
                       (Inl exc, d2) \<Rightarrow> finish_run cl (fail_all cl exc later (cl_task_types cl) d2)
                     | (Inr transcript, d2) \<Rightarrow>
                         finish_run cl (run_tasks processor cl c r transcript later (completion (cl_task_types cl)) d2))))"

section \<open>Tasks\<close>

definition task_held :: "db \<Rightarrow> uuid \<times> task_type \<Rightarrow> uuid \<Rightarrow> bool" where
  "task_held d k token \<longleftrightarrow> (\<exists>t \<in> set (db_tasks d). is_claimed_task (fst k) (snd k) token t)"

definition running :: "meeting_analysis_task \<Rightarrow> uuid \<Rightarrow> bool" where
  "running t k \<longleftrightarrow> tk_status t = TASK_PROCESSING \<and> tk_claim_token t = Some k"

text \<open>The table: one task per command and type, the CHECK constraints, and tokens that were drawn.\<close>

definition tasks_ok :: "db \<Rightarrow> bool" where
  "tasks_ok d \<longleftrightarrow> distinct (map (\<lambda>t. (tk_command_id t, tk_task_type t)) (db_tasks d))
     \<and> (\<forall>t \<in> set (db_tasks d). ck_meeting_analysis_task t \<and> (\<forall>k. running t k \<longrightarrow> k < db_next_uuid d))"

text \<open>The effect of a transaction on the task table: new tasks may be added, an ended task stays as it is, the others keep
  their key and the constraints, and a token that appears was drawn by the transaction.\<close>

definition task_change :: "uuid \<Rightarrow> uuid \<Rightarrow> meeting_analysis_task \<Rightarrow> meeting_analysis_task \<Rightarrow> bool" where
  "task_change u v t t' \<longleftrightarrow> tk_command_id t' = tk_command_id t \<and> tk_task_type t' = tk_task_type t
     \<and> (ended_task t \<longrightarrow> t' = t) \<and> (ck_meeting_analysis_task t \<longrightarrow> ck_meeting_analysis_task t')
     \<and> (\<forall>k. running t' k \<longrightarrow> running t k \<or> u \<le> k \<and> k < v)"

definition tasks_change :: "db \<Rightarrow> db \<Rightarrow> bool" where
  "tasks_change d d' \<longleftrightarrow> db_next_uuid d \<le> db_next_uuid d' \<and> length (db_tasks d) \<le> length (db_tasks d')
     \<and> (\<forall>i < length (db_tasks d). task_change (db_next_uuid d) (db_next_uuid d') (db_tasks d ! i) (db_tasks d' ! i))
     \<and> (\<forall>i < length (db_tasks d'). length (db_tasks d) \<le> i \<longrightarrow>
          (\<forall>k. running (db_tasks d' ! i) k \<longrightarrow> db_next_uuid d \<le> k \<and> k < db_next_uuid d'))"

lemma task_change_refl: "task_change u v t t"
  by (simp add: task_change_def)

lemma tasks_change_update:
  assumes "db_tasks d' = update_where p f (db_tasks d)" "db_next_uuid d \<le> db_next_uuid d'"
    and "\<And>t. t \<in> set (db_tasks d) \<Longrightarrow> p t \<Longrightarrow> task_change (db_next_uuid d) (db_next_uuid d') t (f t)"
  shows "tasks_change d d'"
  using assms by (simp add: tasks_change_def update_where_def task_change_refl)

lemma tasks_change_append:
  assumes "db_tasks d' = db_tasks d @ ts" "db_next_uuid d \<le> db_next_uuid d'" "\<And>t k. t \<in> set ts \<Longrightarrow> \<not> running t k"
  shows "tasks_change d d'"
  using assms by (auto simp: tasks_change_def nth_append task_change_refl)

lemma tasks_change_same: "db_tasks d' = db_tasks d \<Longrightarrow> db_next_uuid d \<le> db_next_uuid d' \<Longrightarrow> tasks_change d d'"
  by (rule tasks_change_append [where ts = "[]"]) simp_all

lemma task_change_trans:
  assumes "task_change u v s t" "task_change v w t r" "u \<le> v" "v \<le> w"
  shows "task_change u w s r"
proof -
  have "running s k \<or> u \<le> k \<and> k < w" if "running r k" for k
  proof -
    have "running t k \<or> v \<le> k \<and> k < w" using assms(2) that by (simp add: task_change_def)
    moreover have "running t k \<Longrightarrow> running s k \<or> u \<le> k \<and> k < v" using assms(1) by (simp add: task_change_def)
    ultimately show ?thesis using assms(3,4) by auto
  qed
  moreover have "ended_task s \<Longrightarrow> r = s" using assms(1,2) by (auto simp: task_change_def)
  ultimately show ?thesis using assms(1,2) by (simp add: task_change_def)
qed

lemma tasks_change_trans:
  assumes "tasks_change d d1" "tasks_change d1 d'"
  shows "tasks_change d d'"
proof -
  let ?u = "db_next_uuid d" and ?v = "db_next_uuid d1" and ?w = "db_next_uuid d'"
  have u: "?u \<le> ?v" "?v \<le> ?w" and l: "length (db_tasks d) \<le> length (db_tasks d1)" "length (db_tasks d1) \<le> length (db_tasks d')"
    using assms by (simp_all add: tasks_change_def)
  have "task_change ?u ?w (db_tasks d ! i) (db_tasks d' ! i)" if "i < length (db_tasks d)" for i
    using that assms l by (intro task_change_trans [of ?u ?v "db_tasks d ! i" "db_tasks d1 ! i", OF _ _ u]) (auto simp: tasks_change_def)
  moreover have "?u \<le> k \<and> k < ?w"
    if "i < length (db_tasks d')" "length (db_tasks d) \<le> i" "running (db_tasks d' ! i) k" for i k
  proof (cases "i < length (db_tasks d1)")
    case True
    then have "running (db_tasks d1 ! i) k \<or> ?v \<le> k \<and> k < ?w" using assms(2) that(3) by (auto simp: tasks_change_def task_change_def)
    moreover have "?u \<le> k \<and> k < ?v" if "running (db_tasks d1 ! i) k"
      using assms(1) True \<open>length (db_tasks d) \<le> i\<close> that by (simp add: tasks_change_def)
    ultimately show ?thesis using u by auto
  next
    case False
    with assms(2) that have "?v \<le> k \<and> k < ?w" by (simp add: tasks_change_def)
    with u show ?thesis by simp
  qed
  ultimately show ?thesis using u l by (simp add: tasks_change_def)
qed

section \<open>The operations on the task table\<close>

lemma join_tasks_change:
  assumes "join pid room now d = Inr (b, d')"
  shows "tasks_change d d' \<and> length (db_tasks d') = length (db_tasks d) \<and> db_next_uuid d' = db_next_uuid d"
  using assms
proof (cases rule: join_cases)
  case 1
  then show ?thesis by (simp add: tasks_change_same)
next
  case (2 c r)
  have "tasks_change d d'"
    by (rule tasks_change_update [where p = "\<lambda>t. tk_command_id t = mc_command_id c \<and> tk_status t = TASK_WAITING_INPUT"
          and f = "\<lambda>t. t\<lparr>tk_status := TASK_READY, tk_available_at := now\<rparr>"])
      (auto simp: 2 ready_tasks_def set_recording_def set_command_def task_change_def ended_task_def running_def ck_meeting_analysis_task_def)
  then show ?thesis by (simp add: 2 ready_tasks_def set_recording_def set_command_def)
qed

lemma claim_loop_ok:
  assumes "claim_loop now stale cs d = Inr (r, d')"
  shows "r = None \<and> d' = d \<or> (\<exists>cl. r = Some cl \<and> cl_claim_token cl = db_next_uuid d
    \<and> db_tasks d' = db_tasks (claim_tasks (cl_command_id cl) (db_next_uuid d) stale now d) \<and> db_next_uuid d' = Suc (db_next_uuid d)
    \<and> cl_task_types cl = map tk_task_type (filter (claimable_task stale) (sort_key task_order (command_tasks d (cl_command_id cl)))))"
  using assms
proof (induction cs)
  case (Cons c cs)
  from Cons.prems obtain re where re: "one_or_none (filter (running_recording c) (db_recordings d)) = Inr re" by (auto simp: result_simps)
  let ?ts = "sort_key task_order (command_tasks d (mc_command_id c))"
  let ?skip = "filter (claimable_task stale) ?ts = [] \<and> \<not> (\<forall>t \<in> set ?ts. tk_status t = TASK_SKIPPED)"
  show ?case
  proof (cases re)
    case None
    with re Cons show ?thesis by simp
  next
    case (Some rec)
    show ?thesis
    proof (cases ?skip)
      case True
      then have "claim_loop now stale (c # cs) d = claim_loop now stale cs d" using re Some by (simp add: Let_def)
      with Cons show ?thesis by simp
    next
      case False
      define d1 where "d1 = d\<lparr>db_next_uuid := Suc (db_next_uuid d)\<rparr>"
      let ?cl = "\<lparr>cl_command_id = mc_command_id c, cl_recording_id = rc_id rec, cl_claim_token = db_next_uuid d,
        cl_task_types = map tk_task_type (filter (claimable_task stale) ?ts)\<rparr>"
      have "claim_loop now stale (c # cs) d = Inr (Some ?cl, set_recording (rc_id rec) (\<lambda>r. r\<lparr>rc_status := REC_PROCESSING\<rparr>)
          (set_command (mc_command_id c) (\<lambda>c. c\<lparr>mc_status := CMD_PROCESSING\<rparr>) (claim_tasks (mc_command_id c) (db_next_uuid d) stale now d1)))"
        unfolding claim_loop.simps re Some option.case rbind.simps Let_def if_not_P [OF False] uuid4_def d1_def split by (rule refl)
      with Cons.prems have "r = Some ?cl" "d' = set_recording (rc_id rec) (\<lambda>r. r\<lparr>rc_status := REC_PROCESSING\<rparr>)
          (set_command (mc_command_id c) (\<lambda>c. c\<lparr>mc_status := CMD_PROCESSING\<rparr>) (claim_tasks (mc_command_id c) (db_next_uuid d) stale now d1))"
        by simp_all
      then show ?thesis by (simp add: set_recording_def set_command_def claim_tasks_def d1_def)
    qed
  qed
qed simp

lemma claim_ready_change:
  assumes "claim_ready now timeout d = Inr (r, d')"
  shows "tasks_change d d'"
proof -
  consider "d' = d"
    | cl :: coordinator_claim where "db_tasks d' = db_tasks (claim_tasks (cl_command_id cl) (db_next_uuid d) (now - timeout) now d)"
        "db_next_uuid d' = Suc (db_next_uuid d)"
    using claim_loop_ok [OF assms [unfolded claim_ready_def]] by blast
  then show ?thesis
  proof cases
    case 1
    then show ?thesis by (simp add: tasks_change_same)
  next
    case (2 cl)
    show ?thesis
    by (rule tasks_change_update [OF 2(1) [unfolded claim_tasks_def, simplified]])
      (auto simp: 2(2) task_change_def claim_task_def claimable_task_def ended_task_def running_def ck_meeting_analysis_task_def)
  qed
qed

lemma set_task_change:
  assumes "\<And>t. is_claimed_task cid ty k t \<Longrightarrow> tk_command_id (f t) = cid \<and> tk_task_type (f t) = ty \<and> tk_claim_token (f t) = None
      \<and> tk_status (f t) \<noteq> TASK_PROCESSING \<and> tk_max_attempts (f t) = tk_max_attempts t"
    and "filter (is_claimed_task cid ty k) (db_tasks d) = [x]" "tasks_ok d"
    and "db_tasks d' = db_tasks (set_task cid ty f d)" "db_next_uuid d \<le> db_next_uuid d'"
  shows "tasks_change d d'"
proof (rule tasks_change_update [OF assms(4) [unfolded set_task_def, simplified] assms(5)])
  fix t
  assume t: "t \<in> set (db_tasks d)" "tk_command_id t = cid \<and> tk_task_type t = ty"
  have x: "x \<in> set (db_tasks d)" "is_claimed_task cid ty k x"
    using assms(2) by (metis (mono_tags, lifting) filter_eq_ConsD in_set_conv_decomp)+
  have "t = x" using t x assms(3) distinct_key_inj [of "\<lambda>t. (tk_command_id t, tk_task_type t)" "db_tasks d" t x]
    by (simp add: tasks_ok_def is_claimed_task_def)
  with x assms(1) [of x] t(2) show "task_change (db_next_uuid d) (db_next_uuid d') t (f t)"
    by (auto simp: task_change_def ended_task_def running_def is_claimed_task_def ck_meeting_analysis_task_def)
qed


lemma stage_task_failed_tasks:
  assumes "stage_task_failed_v3 c ty code m now d = Inr (e, d')"
  shows "db_tasks d' = db_tasks d \<and> db_next_uuid d \<le> db_next_uuid d' \<and> db_commands d' = db_commands d \<and> db_recordings d' = db_recordings d"
  using assms
  by (auto simp: stage_task_failed_v3_def Let_def result_simps stage_v3_def stage_outbox_def uuid4_def)

lemma record_task_success_cases:
  assumes "record_task_success cl ty now d = Inr (u, d')"
  obtains t where "filter (is_claimed_task (cl_command_id cl) ty (cl_claim_token cl)) (db_tasks d) = [t]"
    "d' = set_task (cl_command_id cl) ty (succeed_task now) d"
  using assms by (auto simp: record_task_success_def result_simps)

lemma record_task_failure_cases:
  assumes "record_task_failure cl ty error code retryable emit now d = Inr (terminal, d')"
  obtains t where "filter (is_claimed_task (cl_command_id cl) ty (cl_claim_token cl)) (db_tasks d) = [t]"
    "terminal \<longleftrightarrow> \<not> retryable \<or> tk_attempt_count t \<ge> tk_max_attempts t"
    "db_tasks d' = db_tasks (set_task (cl_command_id cl) ty (\<lambda>t. (task_failure code error t)\<lparr>tk_status := if terminal then TASK_FAILED else TASK_READY,
       tk_available_at := if terminal then tk_available_at t else now, tk_updated_at := now\<rparr>) d)"
    "db_next_uuid d \<le> db_next_uuid d'" "db_commands d' = db_commands d" "db_recordings d' = db_recordings d"
proof -
  note result = that
  from assms obtain t where t: "filter (is_claimed_task (cl_command_id cl) ty (cl_claim_token cl)) (db_tasks d) = [t]"
    by (auto simp: record_task_failure_def result_simps)
  show thesis
  proof (cases "\<not> retryable \<or> tk_attempt_count t \<ge> tk_max_attempts t")
    case True
    let ?d1 = "set_task (cl_command_id cl) ty (\<lambda>t. (task_failure code error t)\<lparr>tk_status := TASK_FAILED, tk_updated_at := now\<rparr>) d"
    from assms t True have tm: "terminal" and c: "d' = ?d1 \<or> (\<exists>c e. stage_task_failed_v3 c ty code (Some (snd error)) now ?d1 = Inr (e, d'))"
      by (auto simp: record_task_failure_def Let_def result_simps split: if_splits)
    then have "db_tasks d' = db_tasks ?d1 \<and> db_next_uuid ?d1 \<le> db_next_uuid d' \<and> db_commands d' = db_commands ?d1 \<and> db_recordings d' = db_recordings ?d1"
      using stage_task_failed_tasks by blast
    with t True tm show thesis by (intro result [of t]) (simp_all add: set_task_def task_failure_def)
  next
    case False
    with assms t show thesis by (intro result [of t]) (auto simp: record_task_failure_def result_simps set_task_def)
  qed
qed

lemma finish_cases:
  assumes "finish_inputs_if_terminal cid rid d = Inr (u, d')"
  shows "d' = (if list_all ended_task (command_tasks d cid) then set_inputs cid rid CMD_COMPLETED REC_COMPLETED d
    else if list_ex (\<lambda>t. tk_status t = TASK_READY) (command_tasks d cid) then set_inputs cid rid CMD_READY REC_READY d else d)"
  using assms by (auto simp: finish_inputs_if_terminal_def result_simps Let_def list_all_iff list_ex_iff split: if_splits)

section \<open>Steps\<close>

inductive task_step :: "db \<Rightarrow> db \<Rightarrow> bool" where
  command: "analysis_command_attempt L c now d = Inr (r, d') \<Longrightarrow> task_step d d'"
| recording: "recording_attempt e bucket now d = Inr (s, d') \<Longrightarrow> task_step d d'"
| claim: "claim_ready now timeout d = Inr (r, d') \<Longrightarrow> task_step d d'"
| success: "record_task_success cl ty now d = Inr (u, d') \<Longrightarrow> task_step d d'"
| failure: "record_task_failure cl ty error code retryable emit now d = Inr (terminal, d') \<Longrightarrow> task_step d d'"
| finish: "finish_inputs_if_terminal cid rid d = Inr (u, d') \<Longrightarrow> task_step d d'"
| other: "db_tasks d' = db_tasks d \<Longrightarrow> db_next_uuid d \<le> db_next_uuid d' \<Longrightarrow> task_step d d'"

lemma tasks_change_ok:
  assumes "tasks_change d d'" "length (db_tasks d') = length (db_tasks d)" "tasks_ok d"
  shows "tasks_ok d'"
proof -
  let ?k = "\<lambda>t. (tk_command_id t, tk_task_type t)"
  have ch: "task_change (db_next_uuid d) (db_next_uuid d') (db_tasks d ! i) (db_tasks d' ! i)" if "i < length (db_tasks d)" for i
    using assms(1) that by (simp add: tasks_change_def)
  then have "map ?k (db_tasks d') = map ?k (db_tasks d)" using assms(2) by (intro nth_equalityI) (simp_all add: task_change_def)
  moreover have "ck_meeting_analysis_task t' \<and> (\<forall>k. running t' k \<longrightarrow> k < db_next_uuid d')" if "t' \<in> set (db_tasks d')" for t'
  proof -
    from that assms(2) obtain i where i: "i < length (db_tasks d)" "t' = db_tasks d' ! i" by (auto simp: in_set_conv_nth)
    have "db_tasks d ! i \<in> set (db_tasks d)" "db_next_uuid d \<le> db_next_uuid d'" using i(1) assms(1) by (simp_all add: tasks_change_def)
    with assms(3) ch [OF i(1)] i(2) show ?thesis by (fastforce simp: tasks_ok_def task_change_def)
  qed
  ultimately show ?thesis using assms(3) by (simp add: tasks_ok_def)
qed

lemma recording_tasks_change:
  assumes "recording_attempt e bucket now d = Inr (s, d')"
  shows "tasks_change d d' \<and> length (db_tasks d') = length (db_tasks d)"
proof (cases "filter (same_recording e bucket) (db_recordings d)")
  case Nil
  let ?d1 = "d\<lparr>db_next_uuid := Suc (db_next_uuid d), db_recordings := db_recordings d @ [recording_row (db_next_uuid d) e bucket]\<rparr>"
  from assms Nil obtain b where "join (ov_project_id e) (ov_room_name e) now ?d1 = Inr (b, d')"
    by (auto simp: recording_attempt_def result_simps uuid4_def Let_def)
  from join_tasks_change [OF this] have "tasks_change ?d1 d'" "length (db_tasks d') = length (db_tasks d)" by simp_all
  moreover have "tasks_change d ?d1" by (simp add: tasks_change_same)
  ultimately show ?thesis using tasks_change_trans by blast
next
  case (Cons r rs)
  with assms show ?thesis by (auto simp: recording_attempt_def result_simps tasks_change_same)
qed

lemma command_tasks_change:
  assumes "analysis_command_attempt L c now d = Inr (r, d')"
  shows "tasks_change d d' \<and> (tasks_ok d \<longrightarrow> tasks_ok d')"
proof (cases "fresh_command c d")
  case True
  from this assms show ?thesis
  proof (cases rule: command_attempt_fresh)
    case (1 ready i d1 b)
    from 1(5) obtain j k where ts: "db_tasks d1 = db_tasks d @ [task_row j (mm_command_id c) SUMMARY (initial_task_status (mm_generate_summary c) ready) now,
        task_row k (mm_command_id c) NODES (initial_task_status (mm_generate_nodes c) ready) now]" by blast
    have ch: "tasks_change d d1"
      using ts 1(7) by (rule tasks_change_append) (auto simp: task_row_def running_def)
    have ok: "tasks_ok d \<longrightarrow> tasks_ok d1"
      using ts 1(6,7) by (fastforce simp: tasks_ok_def task_row_def ck_meeting_analysis_task_def running_def initial_task_status_def)
    from join_tasks_change [OF 1(1)] ch ok show ?thesis using tasks_change_trans tasks_change_ok by blast
  qed
next
  case False
  with assms have "d' = d" by (auto simp: analysis_command_attempt_def fresh_command_def result_simps Let_def split: list.splits)
  then show ?thesis by (simp add: tasks_change_same)
qed

lemma claim_ready_length:
  assumes "claim_ready now timeout d = Inr (r, d')"
  shows "length (db_tasks d') = length (db_tasks d)"
  using claim_loop_ok [OF assms [unfolded claim_ready_def]] by (auto simp: claim_tasks_def)

lemma task_step_ok:
  assumes "task_step d d'" "tasks_ok d"
  shows "tasks_change d d' \<and> tasks_ok d'"
  using assms(1)
proof cases
  case (command L c now r)
  then show ?thesis using command_tasks_change assms(2) by blast
next
  case (recording e bucket now s)
  then show ?thesis using recording_tasks_change tasks_change_ok assms(2) by blast
next
  case (claim now timeout r)
  then show ?thesis using claim_ready_change claim_ready_length tasks_change_ok assms(2) by blast
next
  case (success cl ty now u)
  from success show ?thesis
  proof (cases rule: record_task_success_cases)
    case (1 t)
    have "tasks_change d d'"
      by (rule set_task_change [OF _ 1(1) assms(2)]) (simp_all add: 1(2) succeed_task_def is_claimed_task_def set_task_def)
    then show ?thesis using tasks_change_ok assms(2) by (simp add: 1(2) set_task_def)
  qed
next
  case (failure cl ty error code retryable emit now terminal)
  from failure show ?thesis
  proof (cases rule: record_task_failure_cases)
    case (1 t)
    have "tasks_change d d'"
      by (rule set_task_change [OF _ 1(1) assms(2) 1(3,4)]) (simp add: task_failure_def is_claimed_task_def)
    then show ?thesis using tasks_change_ok assms(2) by (simp add: 1(3) set_task_def)
  qed
next
  case (finish cid rid u)
  have "db_tasks d' = db_tasks d" "db_next_uuid d' = db_next_uuid d"
    using finish_cases [OF finish] by (simp_all add: set_inputs_def set_recording_def set_command_def)
  then have "tasks_change d d'" by (simp add: tasks_change_same)
  with \<open>db_tasks d' = db_tasks d\<close> show ?thesis using tasks_change_ok assms(2) by simp
next
  case other
  then have "tasks_change d d'" by (simp add: tasks_change_same)
  with \<open>db_tasks d' = db_tasks d\<close> show ?thesis using tasks_change_ok assms(2) by simp
qed

lemma task_steps_ok:
  assumes "task_step\<^sup>*\<^sup>* d d'" "tasks_ok d"
  shows "tasks_change d d' \<and> tasks_ok d'"
  using assms
proof (induction rule: rtranclp_induct)
  case base
  then show ?case by (simp add: tasks_change_same)
next
  case (step d1 d2)
  then show ?case using task_step_ok tasks_change_trans by blast
qed

text \<open>The two ways a worker records an outcome, as what they leave behind: an exception rolls back.\<close>

type_synonym task_report = "(py_exc \<times> string \<times> bool \<times> bool) option \<times> time"

definition record_outcome :: "uuid \<times> task_type \<Rightarrow> uuid \<Rightarrow> task_report \<Rightarrow> db \<Rightarrow> db" where
  "record_outcome k token x d =
     (let cl = \<lparr>cl_command_id = fst k, cl_recording_id = 0, cl_claim_token = token, cl_task_types = []\<rparr>
      in case x of
           (None, now) \<Rightarrow> commit (record_task_success cl (snd k) now d) d
         | (Some (error, code, retryable, emit), now) \<Rightarrow> commit (record_task_failure cl (snd k) error code retryable emit now d) d)"

lemma not_held_filter:
  "\<not> task_held d (cid, ty) k \<Longrightarrow> filter (is_claimed_task cid ty k) (db_tasks d) = []"
  by (auto simp: task_held_def filter_empty_conv)

lemma tasks_change_held:
  assumes "tasks_change d d'" "task_held d' k token"
  shows "task_held d k token \<or> db_next_uuid d \<le> token"
proof -
  from assms(2) obtain i where i: "i < length (db_tasks d')" "is_claimed_task (fst k) (snd k) token (db_tasks d' ! i)"
    by (auto simp: task_held_def in_set_conv_nth)
  show ?thesis
  proof (cases "i < length (db_tasks d)")
    case True
    then have "task_change (db_next_uuid d) (db_next_uuid d') (db_tasks d ! i) (db_tasks d' ! i)" using assms(1) by (simp add: tasks_change_def)
    with i(2) True show ?thesis by (auto simp: task_change_def running_def is_claimed_task_def task_held_def)
  next
    case False
    with assms(1) i show ?thesis by (auto simp: tasks_change_def running_def is_claimed_task_def)
  qed
qed

interpretation task_claims: claim_fencing task_held db_next_uuid "\<lambda>d d'. tasks_ok d \<and> task_step d d'" record_outcome
proof unfold_locales
  fix d d' :: db and k token x
  show "tasks_ok d \<and> task_step d d' \<Longrightarrow> db_next_uuid d \<le> db_next_uuid d'" using task_step_ok by (auto simp: tasks_change_def)
  show "tasks_ok d \<and> task_step d d' \<Longrightarrow> task_held d' k token \<Longrightarrow> task_held d k token \<or> db_next_uuid d \<le> token"
    using task_step_ok tasks_change_held by blast
  assume "\<not> task_held d k token"
  then have "filter (is_claimed_task (fst k) (snd k) token) (db_tasks d) = []" by (simp add: not_held_filter)
  then show "record_outcome k token x d = d"
    by (auto simp: record_outcome_def Let_def record_task_success_def record_task_failure_def split: option.splits prod.splits)
qed

lemma task_steps_fenced:
  assumes "task_step\<^sup>*\<^sup>* d d'" "tasks_ok d"
  shows "(\<lambda>d d'. tasks_ok d \<and> task_step d d')\<^sup>*\<^sup>* d d'"
  using assms
proof (induction rule: rtranclp_induct)
  case (step d1 d2)
  then have "tasks_ok d1" using task_steps_ok by blast
  with step have "(\<lambda>d d'. tasks_ok d \<and> task_step d d')\<^sup>*\<^sup>* d d1" "tasks_ok d1 \<and> task_step d1 d2" by blast+
  then show ?case by (rule rtranclp.rtrancl_into_rtrancl)
qed simp

section \<open>Properties\<close>

text \<open>C19. A late outcome is refused. Once a task is no longer claimed with a token, in every later state both ways of
  recording an outcome under that token raise \<open>NoResultFound\<close>, so a worker whose claim timed out and was taken over can neither
  complete nor fail the task of the other worker.\<close>

theorem late_task_outcome_refused:
  assumes "tasks_ok d" "task_step\<^sup>*\<^sup>* d d'" "cl_claim_token cl < db_next_uuid d"
    and "\<not> task_held d (cl_command_id cl, ty) (cl_claim_token cl)"
  shows "record_task_success cl ty now d' = Inl NoResultFound
    \<and> record_task_failure cl ty error code retryable emit now d' = Inl NoResultFound"
proof -
  have "\<not> task_held d' (cl_command_id cl, ty) (cl_claim_token cl)"
    using task_claims.lost_stays_lost [OF task_steps_fenced [OF assms(2,1)] assms(3,4)] .
  from not_held_filter [OF this] show ?thesis by (simp add: record_task_success_def record_task_failure_def)
qed

lemma tasks_change_find:
  assumes "tasks_change d d'" "tasks_ok d'" "t \<in> set (db_tasks d)"
  obtains t' where "filter (\<lambda>x. tk_command_id x = tk_command_id t \<and> tk_task_type x = tk_task_type t) (db_tasks d') = [t']"
    "ended_task t \<longrightarrow> t' = t"
proof -
  note result = that
  from assms(3) obtain i where i: "i < length (db_tasks d)" "t = db_tasks d ! i" by (auto simp: in_set_conv_nth)
  let ?t = "db_tasks d' ! i"
  from i assms(1) have t: "?t \<in> set (db_tasks d')" "tk_command_id ?t = tk_command_id t \<and> tk_task_type ?t = tk_task_type t" "ended_task t \<longrightarrow> ?t = t"
    by (auto simp: tasks_change_def task_change_def)
  have "filter (\<lambda>x. (tk_command_id x, tk_task_type x) = (tk_command_id ?t, tk_task_type ?t)) (db_tasks d') = [?t]"
    using assms(2) by (intro filter_key_distinct t(1)) (simp add: tasks_ok_def)
  with t show thesis by (intro result [of ?t]) simp_all
qed

text \<open>C20. The task table over the life of the system. Whatever inputs arrive and whatever the workers claim, finish or fail:
  the constraints of the table hold in every state, a command has one task of each type for good, and a task that has
  succeeded, failed or been skipped is never changed again.\<close>

theorem task_history:
  assumes "tasks_ok d" "task_step\<^sup>*\<^sup>* d d'" "t \<in> set (db_tasks d)"
  shows "tasks_ok d' \<and> (\<exists>t'. filter (\<lambda>x. tk_command_id x = tk_command_id t \<and> tk_task_type x = tk_task_type t) (db_tasks d') = [t']
    \<and> (ended_task t \<longrightarrow> t' = t))"
proof -
  from task_steps_ok [OF assms(2,1)] have ch: "tasks_change d d'" "tasks_ok d'" by simp_all
  from tasks_change_find [OF this assms(3)] ch(2) show ?thesis by blast
qed

lemma claim_loop_in:
  assumes "claim_loop now stale cs d = Inr (Some cl, d')"
  shows "\<exists>c \<in> set cs. cl_command_id cl = mc_command_id c \<and> (let ts = command_tasks d (mc_command_id c) in
    filter (claimable_task stale) ts \<noteq> [] \<or> list_all (\<lambda>t. tk_status t = TASK_SKIPPED) ts)"
  using assms
proof (induction cs)
  case (Cons c cs)
  let ?ts = "command_tasks d (mc_command_id c)"
  have e: "filter P (sort_key task_order ?ts) = [] \<longleftrightarrow> filter P ?ts = []" for P by (auto simp: filter_empty_conv)
  from Cons.prems consider "claim_loop now stale cs d = Inr (Some cl, d')"
    | "cl_command_id cl = mc_command_id c" "filter (claimable_task stale) ?ts \<noteq> [] \<or> list_all (\<lambda>t. tk_status t = TASK_SKIPPED) ?ts"
    by (auto simp: result_simps Let_def uuid4_def e list_all_iff split: option.splits if_splits)
  then show ?case using Cons.IH by cases (auto simp: Let_def)
qed simp

text \<open>A command whose tasks have all ended, at least one of them not by being skipped, is never claimed again, whatever intakes, claims,
  outcomes and finishes follow. The run that ended the last task closes the command in a transaction of its own; when that transaction does not
  happen, no later run takes the command up to make up for it.\<close>

lemma abandoned_command_never_claimed:
  assumes "tasks_ok d" "task_step\<^sup>*\<^sup>* d d'" "map tk_task_type (command_tasks d cid) = [SUMMARY, NODES]"
    and "list_all ended_task (command_tasks d cid)" "list_ex (\<lambda>t. tk_status t \<noteq> TASK_SKIPPED) (command_tasks d cid)"
  shows "\<not> (\<exists>now timeout cl d''. claim_ready now timeout d' = Inr (Some cl, d'') \<and> cl_command_id cl = cid)"
proof
  assume "\<exists>now timeout cl d''. claim_ready now timeout d' = Inr (Some cl, d'') \<and> cl_command_id cl = cid"
  then obtain stale now cl d'' cs where "claim_loop now stale cs d' = Inr (Some cl, d'')" "cl_command_id cl = cid" by (auto simp: claim_ready_def)
  from claim_loop_in [OF this(1)] this(2) have
    c: "filter (claimable_task stale) (command_tasks d' cid) \<noteq> [] \<or> list_all (\<lambda>t. tk_status t = TASK_SKIPPED) (command_tasks d' cid)"
    by (auto simp: Let_def)
  from task_steps_ok [OF assms(2,1)] have ch: "tasks_change d d'" "tasks_ok d'" by simp_all
  have keep: "filter (\<lambda>x. tk_command_id x = cid \<and> tk_task_type x = tk_task_type t) (db_tasks d') = [t]"
    if "t \<in> set (command_tasks d cid)" for t
  proof -
    from that have "t \<in> set (db_tasks d)" "tk_command_id t = cid" "ended_task t" using assms(4) by (auto simp: command_tasks_def list_all_iff)
    with tasks_change_find [OF ch this(1)] show ?thesis by metis
  qed
  have same: "t \<in> set (command_tasks d cid)" if t: "t \<in> set (command_tasks d' cid)" for t
  proof -
    have "tk_task_type t \<in> set (map tk_task_type (command_tasks d cid))" unfolding assms(3) by (cases "tk_task_type t") simp_all
    then obtain s where s: "s \<in> set (command_tasks d cid)" "tk_task_type s = tk_task_type t" by auto
    have "t \<in> set (filter (\<lambda>x. tk_command_id x = cid \<and> tk_task_type x = tk_task_type s) (db_tasks d'))"
      using t s(2) by (simp add: command_tasks_def)
    then have "t \<in> set [s]" unfolding keep [OF s(1)] .
    with s(1) show ?thesis by simp
  qed
  have "\<not> claimable_task stale t" if "t \<in> set (command_tasks d' cid)" for t
    using same [OF that] assms(4) by (auto simp: list_all_iff ended_task_def claimable_task_def)
  then have "filter (claimable_task stale) (command_tasks d' cid) = []" by (simp add: filter_empty_conv)
  moreover obtain t where t: "t \<in> set (command_tasks d cid)" "tk_status t \<noteq> TASK_SKIPPED" using assms(5) by (auto simp: list_ex_iff)
  have "t \<in> set (command_tasks d' cid)" using keep [OF t(1)] by (auto simp: command_tasks_def filter_eq_Cons_iff)
  ultimately show False using c t(2) by (auto simp: list_all_iff)
qed

section \<open>A whole run\<close>

definition task_status_in :: "db \<Rightarrow> uuid \<Rightarrow> task_type \<Rightarrow> task_status option" where
  "task_status_in d cid ty = map_option tk_status (find (\<lambda>t. tk_command_id t = cid \<and> tk_task_type t = ty) (db_tasks d))"

fun outcome_status :: "task_outcome \<Rightarrow> task_status" where
  "outcome_status Succeeded = TASK_SUCCEEDED"
| "outcome_status Retrying = TASK_READY"
| "outcome_status Failed = TASK_FAILED"

text \<open>What the loader and the processors may do: anything but change the inputs and the tasks.\<close>

definition keeps_inputs :: "db \<Rightarrow> db \<Rightarrow> bool" where
  "keeps_inputs d d' \<longleftrightarrow> db_tasks d' = db_tasks d \<and> db_commands d' = db_commands d \<and> db_recordings d' = db_recordings d
     \<and> db_next_uuid d \<le> db_next_uuid d'"

definition well_behaved :: "'t loader \<Rightarrow> 't processor \<Rightarrow> bool" where
  "well_behaved loader processor \<longleftrightarrow> (\<forall>c r d. keeps_inputs d (snd (loader c r d)))
     \<and> (\<forall>ty c r t d. keeps_inputs d (snd (processor ty c r t d)))"

text \<open>The effect of recording outcomes: the reported tasks have the reported status, the others keep theirs.\<close>

definition reported :: "uuid \<Rightarrow> (task_type \<times> task_outcome) list \<Rightarrow> db \<Rightarrow> db \<Rightarrow> bool" where
  "reported cid os d d' \<longleftrightarrow> tasks_ok d' \<and> db_commands d' = db_commands d \<and> db_recordings d' = db_recordings d
     \<and> (\<forall>ty. task_status_in d' cid ty = (case map_of os ty of Some out \<Rightarrow> Some (outcome_status out) | None \<Rightarrow> task_status_in d cid ty))"

lemma find_update_where:
  "(\<And>x. P (f x) = P x) \<Longrightarrow> find P (update_where q f xs) = map_option (\<lambda>x. if q x then f x else x) (find P xs)"
  by (induction xs) auto

lemma task_status_set_task:
  assumes "filter (is_claimed_task cid ty k) (db_tasks d) = [t]" "db_tasks d' = db_tasks (set_task cid ty f d)"
    and "\<And>t. tk_command_id (f t) = tk_command_id t" "\<And>t. tk_task_type (f t) = tk_task_type t" "\<And>t. tk_status (f t) = st"
  shows "task_status_in d' cid ty' = (if ty' = ty then Some st else task_status_in d cid ty')"
proof -
  let ?P = "\<lambda>ty' t. tk_command_id t = cid \<and> tk_task_type t = ty'"
  have upd: "find (?P ty') (db_tasks d') = map_option (\<lambda>x. if ?P ty x then f x else x) (find (?P ty') (db_tasks d))"
    unfolding assms(2) set_task_def by (simp add: find_update_where assms(3,4))
  have some: "find (?P ty) (db_tasks d) \<noteq> None"
  proof -
    have "t \<in> set (filter (is_claimed_task cid ty k) (db_tasks d))" by (simp add: assms(1))
    then show ?thesis by (auto simp: find_None_iff is_claimed_task_def)
  qed
  show ?thesis
  proof (cases "find (?P ty') (db_tasks d)")
    case None
    with some upd show ?thesis by (auto simp: task_status_in_def)
  next
    case (Some x)
    then have "?P ty' x" by (metis (mono_tags, lifting) find_Some_iff)
    with Some upd assms(5) show ?thesis by (simp add: task_status_in_def)
  qed
qed

lemma reported_success:
  assumes "tasks_ok d" "record_task_success cl ty now d = Inr (u, d')"
  shows "reported (cl_command_id cl) [(ty, Succeeded)] d d'"
proof -
  have "tasks_ok d'" using task_step_ok [OF task_step.success [OF assms(2)] assms(1)] ..
  moreover from assms(2) have "task_status_in d' (cl_command_id cl) ty' = (if ty' = ty then Some TASK_SUCCEEDED else task_status_in d (cl_command_id cl) ty')
      \<and> db_commands d' = db_commands d \<and> db_recordings d' = db_recordings d" for ty'
  proof (cases rule: record_task_success_cases)
    case (1 t)
    then show ?thesis using task_status_set_task [OF 1(1), of d' "succeed_task now" TASK_SUCCEEDED ty']
      by (simp add: succeed_task_def set_task_def)
  qed
  ultimately show ?thesis by (simp add: reported_def)
qed

lemma reported_failure:
  assumes "tasks_ok d" "record_task_failure cl ty error code retryable emit now d = Inr (terminal, d')"
  shows "reported (cl_command_id cl) [(ty, if terminal then Failed else Retrying)] d d'"
proof -
  have "tasks_ok d'" using task_step_ok [OF task_step.failure [OF assms(2)] assms(1)] ..
  moreover from assms(2) have "task_status_in d' (cl_command_id cl) ty'
        = (if ty' = ty then Some (if terminal then TASK_FAILED else TASK_READY) else task_status_in d (cl_command_id cl) ty')
      \<and> db_commands d' = db_commands d \<and> db_recordings d' = db_recordings d" for ty'
  proof (cases rule: record_task_failure_cases)
    case (1 t)
    then show ?thesis using task_status_set_task [OF 1(1,3), of "if terminal then TASK_FAILED else TASK_READY" ty']
      by (simp add: task_failure_def)
  qed
  ultimately show ?thesis by (simp add: reported_def)
qed

lemma reported_Cons:
  assumes "reported cid [(ty, out)] d d1" "reported cid os d1 d'" "ty \<notin> fst ` set os"
  shows "reported cid ((ty, out) # os) d d'"
proof -
  have "map_of os ty = None" using assms(3) by (simp add: map_of_eq_None_iff)
  with assms(1,2) show ?thesis by (auto simp: reported_def split: option.splits)
qed

lemma keeps_inputs_reported:
  assumes "keeps_inputs d d1" "tasks_ok d"
  shows "tasks_ok d1" "reported cid os d1 d' = reported cid os d d'"
proof -
  have "task_status_in d1 = task_status_in d" using assms(1) by (intro ext) (simp add: keeps_inputs_def task_status_in_def)
  then have "(case map_of os ty of Some out \<Rightarrow> Some (outcome_status out) | None \<Rightarrow> task_status_in d1 cid ty)
      = (case map_of os ty of Some out \<Rightarrow> Some (outcome_status out) | None \<Rightarrow> task_status_in d cid ty)" for ty by (simp split: option.split)
  with assms(1) show "reported cid os d1 d' = reported cid os d d'" by (simp add: reported_def keeps_inputs_def)
  show "tasks_ok d1" using assms by (auto simp: keeps_inputs_def tasks_ok_def intro: less_le_trans)
qed

lemma run_task_reported:
  assumes "run_task processor cl c r transcript now ty d = (Inr out, d')" "tasks_ok d" "well_behaved loader processor"
  shows "reported (cl_command_id cl) [(ty, out)] d d'"
proof -
  obtain x d1 where x: "processor ty c r transcript d = (x, d1)" by fastforce
  have "keeps_inputs d (snd (processor ty c r transcript d))" using assms(3) by (simp add: well_behaved_def)
  then have "keeps_inputs d d1" by (simp add: x)
  note k = keeps_inputs_reported [OF this assms(2)]
  have "reported (cl_command_id cl) [(ty, out)] d1 d'"
  proof (cases x)
    case None
    with assms(1) x have "out = Succeeded \<and> (\<exists>u. record_task_success cl ty now d1 = Inr (u, d'))"
      by (auto simp: run_task_def split: sum.splits prod.splits)
    with reported_success [OF k(1)] show ?thesis by blast
  next
    case (Some exc)
    obtain error code retryable emit where "failure_of ty exc = (error, code, retryable, emit)" by (metis prod_cases4)
    note call = assms(1) x Some this
    show ?thesis
    proof (cases "record_task_failure cl ty error code retryable emit now d1")
      case (Inl e)
      with call show ?thesis by (simp add: run_task_def)
    next
      case (Inr p)
      with call have "record_task_failure cl ty error code retryable emit now d1 = Inr (fst p, d')" "out = (if fst p then Failed else Retrying)"
        by (cases p; simp add: run_task_def)+
      with reported_failure [OF k(1)] show ?thesis by blast
    qed
  qed
  then show ?thesis by (simp only: k(2))
qed

lemma run_tasks_reported:
  assumes "run_tasks processor cl c r transcript now tys d = (Inr os, d')" "tasks_ok d" "well_behaved loader processor" "distinct tys"
  shows "map fst os = tys \<and> reported (cl_command_id cl) os d d'"
  using assms
proof (induction tys arbitrary: d os)
  case Nil
  then show ?case by (simp add: reported_def)
next
  case (Cons ty tys)
  from Cons.prems(1) obtain out d1 os1 where 1: "run_task processor cl c r transcript now ty d = (Inr out, d1)"
    "run_tasks processor cl c r transcript now tys d1 = (Inr os1, d')" "os = (ty, out) # os1"
    by (auto split: sum.splits prod.splits)
  from run_task_reported [OF 1(1) Cons.prems(2,3)] have a: "reported (cl_command_id cl) [(ty, out)] d d1" .
  then have "map fst os1 = tys \<and> reported (cl_command_id cl) os1 d1 d'"
    using Cons.IH [OF 1(2) _ Cons.prems(3)] Cons.prems(4) by (simp add: reported_def)
  with a 1(3) Cons.prems(4) reported_Cons [OF a, of os1 d'] show ?case by (metis distinct.simps(2) fst_conv list.set_map list.simps(9))
qed

lemma fail_all_reported:
  assumes "fail_all cl error now tys d = (Inr os, d')" "tasks_ok d" "distinct tys"
  shows "map fst os = tys \<and> reported (cl_command_id cl) os d d'"
  using assms
proof (induction tys arbitrary: d os)
  case Nil
  then show ?case by (simp add: reported_def)
next
  case (Cons ty tys)
  from Cons.prems(1) obtain terminal d1 os1 where 1: "record_task_failure cl ty error ''STT_FAILED'' True True now d = Inr (terminal, d1)"
    "fail_all cl error now tys d1 = (Inr os1, d')" "os = (ty, if terminal then Failed else Retrying) # os1"
    by (auto split: sum.splits prod.splits)
  from reported_failure [OF Cons.prems(2) 1(1)] have a: "reported (cl_command_id cl) [(ty, if terminal then Failed else Retrying)] d d1" .
  then have "map fst os1 = tys \<and> reported (cl_command_id cl) os1 d1 d'"
    using Cons.IH [OF 1(2)] Cons.prems(3) by (simp add: reported_def)
  with a 1(3) Cons.prems(3) reported_Cons [OF a, of os1 d'] show ?case by (metis distinct.simps(2) fst_conv list.set_map list.simps(9))
qed

lemma claim_loop_commands:
  assumes "claim_loop now stale cs d = Inr (Some cl, d')"
  shows "db_commands d' = db_commands (set_command (cl_command_id cl) (\<lambda>c. c\<lparr>mc_status := CMD_PROCESSING\<rparr>) d)"
  using assms
proof (induction cs)
  case (Cons c cs)
  from Cons.prems consider "claim_loop now stale cs d = Inr (Some cl, d')"
    | "cl_command_id cl = mc_command_id c" "db_commands d' = db_commands (set_command (mc_command_id c) (\<lambda>c. c\<lparr>mc_status := CMD_PROCESSING\<rparr>) d)"
    by (auto simp: result_simps Let_def uuid4_def set_recording_def set_command_def claim_tasks_def split: option.splits if_splits)
  then show ?case using Cons.IH by cases auto
qed simp

lemma claimed_types:
  assumes "claim_ready now timeout d = Inr (Some cl, d')" "tasks_ok d"
  shows "set (cl_task_types cl) = tk_task_type ` set (filter (claimable_task (now - timeout)) (command_tasks d (cl_command_id cl)))"
    and "distinct (cl_task_types cl)"
proof -
  let ?ts = "command_tasks d (cl_command_id cl)"
  have e: "cl_task_types cl = map tk_task_type (filter (claimable_task (now - timeout)) (sort_key task_order ?ts))"
    using claim_loop_ok [OF assms(1) [unfolded claim_ready_def]] by simp
  then show "set (cl_task_types cl) = tk_task_type ` set (filter (claimable_task (now - timeout)) ?ts)" by simp
  have dis: "distinct (map (\<lambda>t. (tk_command_id t, tk_task_type t)) (db_tasks d))" using assms(2) by (simp add: tasks_ok_def)
  then have "distinct ?ts" by (simp add: command_tasks_def distinct_map)
  moreover have "inj_on tk_task_type (set ?ts)"
    by (rule inj_onI) (auto simp: command_tasks_def intro: distinct_key_inj [OF dis])
  ultimately show "distinct (cl_task_types cl)" unfolding e by (simp add: distinct_map inj_on_def)
qed

lemma command_rows_set:
  assumes "\<And>c. mc_command_id (f c) = mc_command_id c"
  shows "command_rows (set_command cid f d) cid = map f (command_rows d cid)"
proof -
  have "update_where (\<lambda>r. mc_command_id r = cid) f (filter (\<lambda>r. mc_command_id r = cid) xs) = map f (filter (\<lambda>r. mc_command_id r = cid) xs)" for xs
    by (induction xs) simp_all
  with assms show ?thesis by (simp add: command_rows_def set_command_def filter_update_where)
qed

text \<open>The status that a command has between two runs.\<close>

definition status_of_tasks :: "meeting_analysis_task list \<Rightarrow> command_status" where
  "status_of_tasks ts = (if list_all ended_task ts then CMD_COMPLETED
     else if list_ex (\<lambda>t. tk_status t = TASK_READY) ts then CMD_READY else CMD_PROCESSING)"

lemma finish_status:
  assumes "finish_inputs_if_terminal cid rid d = Inr (u, d')" "list_all (\<lambda>c. mc_status c = CMD_PROCESSING) (command_rows d cid)"
  shows "map mc_status (command_rows d' cid) = [status_of_tasks (command_tasks d' cid)] \<and> db_tasks d' = db_tasks d"
proof -
  from assms(1) obtain c where c: "command_rows d cid = [c]" by (auto simp: finish_inputs_if_terminal_def result_simps)
  have "db_tasks d' = db_tasks d" using finish_cases [OF assms(1)] by (simp add: set_inputs_def set_recording_def set_command_def)
  moreover have "command_rows (set_inputs cid rid cs rs d) cid = [c\<lparr>mc_status := cs\<rparr>]" for cs rs
  proof -
    have "command_rows (set_inputs cid rid cs rs d) cid = command_rows (set_command cid (\<lambda>c. c\<lparr>mc_status := cs\<rparr>) d) cid"
      by (simp add: set_inputs_def set_recording_def command_rows_def)
    then show ?thesis by (simp add: command_rows_set c)
  qed
  ultimately show ?thesis using finish_cases [OF assms(1)] assms(2) c by (simp add: status_of_tasks_def command_tasks_def)
qed

lemma with_outcome_set: "map fst os = tys \<Longrightarrow> set tys' = set tys \<Longrightarrow>
   set (with_outcome Succeeded os tys' @ with_outcome Retrying os tys' @ with_outcome Failed os tys') = set tys'"
proof -
  assume "map fst os = tys" "set tys' = set tys"
  then have "\<exists>out. map_of os ty = Some out" if "ty \<in> set tys'" for ty using that
    by (metis list.set_map map_of_eq_None_iff not_None_eq)
  then show ?thesis by (force simp: with_outcome_def intro: task_outcome.exhaust)
qed

text \<open>What a run reports is what it recorded.\<close>

definition run_reported :: "coordinator_run_result \<Rightarrow> uuid \<Rightarrow> db \<Rightarrow> bool" where
  "run_reported res cid d' \<longleftrightarrow>
     list_all (\<lambda>ty. task_status_in d' cid ty = Some TASK_SUCCEEDED) (co_succeeded res)
   \<and> list_all (\<lambda>ty. task_status_in d' cid ty = Some TASK_READY) (co_retrying res)
   \<and> list_all (\<lambda>ty. task_status_in d' cid ty = Some TASK_FAILED) (co_failed res)
   \<and> map mc_status (command_rows d' cid) = [status_of_tasks (command_tasks d' cid)]"

lemma finish_run_reported:
  assumes "finish_run cl (Inr os, d2) = (Inr res, d')" "reported (cl_command_id cl) os d1 d2"
    and "list_all (\<lambda>c. mc_status c = CMD_PROCESSING) (command_rows d1 (cl_command_id cl))" "set (map fst os) = set (cl_task_types cl)"
  shows "co_command_id res = Some (cl_command_id cl) \<and> run_reported res (cl_command_id cl) d'
    \<and> set (co_succeeded res @ co_retrying res @ co_failed res) = set (cl_task_types cl)"
proof -
  let ?c = "cl_command_id cl" and ?w = "\<lambda>out. with_outcome out os (cl_task_types cl)"
  from assms(1) have fin: "finish_inputs_if_terminal ?c (cl_recording_id cl) d2 = Inr ((), d')"
    and res: "co_succeeded res = ?w Succeeded" "co_retrying res = ?w Retrying" "co_failed res = ?w Failed" "co_command_id res = Some ?c"
    by (auto simp: finish_run_def split: sum.splits)
  have "list_all (\<lambda>c. mc_status c = CMD_PROCESSING) (command_rows d2 ?c)" using assms(2,3) by (simp add: reported_def command_rows_def)
  note st = finish_status [OF fin this]
  have "task_status_in d' ?c ty = Some (outcome_status out)" if "map_of os ty = Some out" for ty out
  proof -
    have "task_status_in d2 ?c ty = Some (outcome_status out)" using assms(2) that by (simp add: reported_def)
    with st show ?thesis by (simp add: task_status_in_def)
  qed
  with st with_outcome_set [OF refl assms(4) [symmetric]] show ?thesis
    by (simp add: run_reported_def res list_all_iff with_outcome_def)
qed

text \<open>The inputs that a run can work with: keys are unique, and a command that can be claimed has at most one recording in work.\<close>

definition inputs_ok :: "db \<Rightarrow> bool" where
  "inputs_ok d \<longleftrightarrow> distinct (map mc_command_id (db_commands d)) \<and> distinct (map rc_id (db_recordings d))
     \<and> (\<forall>c \<in> set (db_commands d). claimable_command c \<longrightarrow> length (filter (running_recording c) (db_recordings d)) \<le> 1)"

text \<open>A failure that is announced has a code.\<close>

definition failures_coded :: "'t processor \<Rightarrow> bool" where
  "failures_coded processor \<longleftrightarrow> (\<forall>ty c r t d message code retryable.
     fst (processor ty c r t d) = Some (TaskProcessingError message code retryable True) \<longrightarrow> strip code \<noteq> [])"

lemma filter_key_single: "distinct (map k xs) \<Longrightarrow> x \<in> set xs \<Longrightarrow> filter (\<lambda>y. k y = k x) xs = [x]"
  by (induction xs) (auto simp: filter_empty_conv, metis image_eqI)

lemma claim_loop_total:
  assumes "\<forall>c \<in> set cs. length (filter (running_recording c) (db_recordings d)) \<le> 1"
  shows "\<exists>r d'. claim_loop now stale cs d = Inr (r, d')"
  using assms
proof (induction cs)
  case (Cons c cs)
  then consider "filter (running_recording c) (db_recordings d) = []"
    | r where "filter (running_recording c) (db_recordings d) = [r]"
    by (cases "filter (running_recording c) (db_recordings d)") auto
  then show ?case using Cons by cases (auto simp: Let_def uuid4_def)
qed simp

text \<open>What a claim leaves: its command and its recording, both PROCESSING.\<close>

lemma claim_loop_inputs:
  assumes "claim_loop now stale cs d = Inr (Some cl, d')"
  shows "\<exists>c \<in> set cs. \<exists>r \<in> set (db_recordings d). cl_command_id cl = mc_command_id c \<and> cl_recording_id cl = rc_id r \<and> running_recording c r
    \<and> db_recordings d' = db_recordings (set_recording (rc_id r) (\<lambda>r. r\<lparr>rc_status := REC_PROCESSING\<rparr>) d)"
  using assms
proof (induction cs)
  case (Cons c cs)
  from Cons.prems consider "claim_loop now stale cs d = Inr (Some cl, d')"
    | r where "filter (running_recording c) (db_recordings d) = [r]" "cl_command_id cl = mc_command_id c" "cl_recording_id cl = rc_id r"
        "db_recordings d' = db_recordings (set_recording (rc_id r) (\<lambda>r. r\<lparr>rc_status := REC_PROCESSING\<rparr>) d)"
    by (auto simp: result_simps Let_def uuid4_def set_recording_def set_command_def claim_tasks_def split: option.splits if_splits)
  then show ?case
  proof cases
    case 1
    with Cons.IH show ?thesis by auto
  next
    case (2 r)
    then have "r \<in> set (filter (running_recording c) (db_recordings d))" by simp
    then have "r \<in> set (db_recordings d)" "running_recording c r" by simp_all
    with 2 show ?thesis by (intro bexI [of _ c] bexI [of _ r]) simp_all
  qed
qed simp

text \<open>All that a run needs to record its outcomes: the rows of the command and of the recording, and for every task still to be recorded
  its row, held under the token of the claim.\<close>

definition recordable :: "coordinator_claim \<Rightarrow> task_type list \<Rightarrow> db \<Rightarrow> bool" where
  "recordable cl tys d \<longleftrightarrow> (\<exists>c. command_rows d (cl_command_id cl) = [c]) \<and> (\<exists>r. filter (\<lambda>r. rc_id r = cl_recording_id cl) (db_recordings d) = [r])
     \<and> (\<forall>ty \<in> set tys. \<exists>t. filter (is_claimed_task (cl_command_id cl) ty (cl_claim_token cl)) (db_tasks d) = [t])"

lemma recordable_cong: "db_tasks d' = db_tasks d \<Longrightarrow> db_commands d' = db_commands d \<Longrightarrow> db_recordings d' = db_recordings d
    \<Longrightarrow> recordable cl tys d' = recordable cl tys d"
  by (simp add: recordable_def command_rows_def)

lemma filter_update_other:
  "(\<And>x. q x \<Longrightarrow> \<not> P x \<and> \<not> P (f x)) \<Longrightarrow> filter P (update_where q f xs) = filter P xs"
  by (induction xs) auto

lemma recordable_set_task:
  assumes "recordable cl (ty # tys) d" "ty \<notin> set tys" "\<And>t. tk_task_type (f t) = tk_task_type t"
    and "db_tasks d' = db_tasks (set_task (cl_command_id cl) ty f d)" "db_commands d' = db_commands d" "db_recordings d' = db_recordings d"
  shows "recordable cl tys d'"
proof -
  have "filter (is_claimed_task (cl_command_id cl) ty' (cl_claim_token cl)) (db_tasks d') = filter (is_claimed_task (cl_command_id cl) ty' (cl_claim_token cl)) (db_tasks d)"
    if "ty' \<in> set tys" for ty'
  proof -
    from that assms(2) have "ty' \<noteq> ty" by blast
    then show ?thesis unfolding assms(4) set_task_def
      by (simp, intro filter_update_other) (auto simp: is_claimed_task_def assms(3))
  qed
  with assms(1) show ?thesis by (simp add: recordable_def command_rows_def assms(5,6))
qed

lemma record_success_total:
  assumes "recordable cl (ty # tys) d" "ty \<notin> set tys"
  shows "\<exists>d'. record_task_success cl ty now d = Inr ((), d') \<and> recordable cl tys d'"
proof -
  let ?d = "set_task (cl_command_id cl) ty (succeed_task now) d"
  have "recordable cl tys ?d"
    by (rule recordable_set_task [OF assms, of "succeed_task now"]) (simp_all add: succeed_task_def set_task_def)
  with assms(1) show ?thesis by (auto simp: record_task_success_def recordable_def)
qed

lemma record_failure_total:
  assumes "recordable cl (ty # tys) d" "ty \<notin> set tys" "emit \<Longrightarrow> strip code \<noteq> []"
  shows "\<exists>b d'. record_task_failure cl ty error code retryable emit now d = Inr (b, d') \<and> recordable cl tys d'"
proof -
  from assms(1) obtain t c where t: "filter (is_claimed_task (cl_command_id cl) ty (cl_claim_token cl)) (db_tasks d) = [t]"
    and c: "command_rows d (cl_command_id cl) = [c]" by (auto simp: recordable_def)
  have "command_rows (set_task cid ty f d) (cl_command_id cl) = [c]" for cid f using c by (simp add: command_rows_def set_task_def)
  then have "\<exists>b d'. record_task_failure cl ty error code retryable emit now d = Inr (b, d')"
    using assms(3) by (cases "\<not> retryable \<or> tk_attempt_count t \<ge> tk_max_attempts t")
      (simp_all add: record_task_failure_def t Let_def stage_task_failed_v3_def split_beta, blast+)
  then obtain b d' where r: "record_task_failure cl ty error code retryable emit now d = Inr (b, d')" by blast
  then have "recordable cl tys d'"
  proof (cases rule: record_task_failure_cases)
    case (1 t)
    show ?thesis by (rule recordable_set_task [OF assms(1,2) _ 1(3,5,6)]) (simp add: task_failure_def)
  qed
  with r show ?thesis by blast
qed

lemma run_task_total:
  assumes "recordable cl (ty # tys) d" "ty \<notin> set tys" "well_behaved loader processor" "failures_coded processor"
  shows "\<exists>out d'. run_task processor cl c r transcript now ty d = (Inr out, d') \<and> recordable cl tys d'"
proof -
  obtain x d1 where x: "processor ty c r transcript d = (x, d1)" by fastforce
  have "keeps_inputs d (snd (processor ty c r transcript d))" using assms(3) by (simp add: well_behaved_def)
  then have r1: "recordable cl (ty # tys) d1" using assms(1) recordable_cong [of d1 d] by (simp add: x keeps_inputs_def)
  show ?thesis
  proof (cases x)
    case None
    with record_success_total [OF r1 assms(2), of now] x show ?thesis by (auto simp: run_task_def)
  next
    case (Some exc)
    obtain error code retryable emit where f: "failure_of ty exc = (error, code, retryable, emit)" by (metis prod_cases4)
    have "strip code \<noteq> []" if emit
    proof (cases exc)
      case (TaskProcessingError m k b e)
      have "fst (processor ty c r transcript d) = Some exc" using x Some by simp
      with TaskProcessingError that f have "fst (processor ty c r transcript d) = Some (TaskProcessingError m code retryable True)" by simp
      with assms(4) show ?thesis unfolding failures_coded_def by blast
    next
      case (OtherException e)
      have "strip ''SUMMARY_GENERATION_FAILED'' \<noteq> []" "strip ''SUMMARY_FAILED'' \<noteq> []" "strip ''NODES_FAILED'' \<noteq> []" by code_simp+
      with OtherException f show ?thesis by (cases ty) auto
    qed
    from record_failure_total [OF r1 assms(2) this] obtain b d2 where
      "record_task_failure cl ty error code retryable emit now d1 = Inr (b, d2)" "recordable cl tys d2" by blast
    with f x Some show ?thesis by (simp add: run_task_def)
  qed
qed

lemma run_tasks_total:
  assumes "recordable cl tys d" "distinct tys" "well_behaved loader processor" "failures_coded processor"
  shows "\<exists>os d'. run_tasks processor cl c r transcript now tys d = (Inr os, d') \<and> recordable cl [] d'"
  using assms(1,2)
proof (induction tys arbitrary: d)
  case (Cons ty tys)
  from run_task_total [OF Cons.prems(1) _ assms(3,4)] Cons.prems(2) obtain out d1 where
    1: "run_task processor cl c r transcript now ty d = (Inr out, d1)" "recordable cl tys d1" by fastforce
  from Cons.IH [OF 1(2)] Cons.prems(2) 1(1) show ?case by auto
qed simp

lemma fail_all_total:
  assumes "recordable cl tys d" "distinct tys"
  shows "\<exists>os d'. fail_all cl error now tys d = (Inr os, d') \<and> recordable cl [] d'"
  using assms
proof (induction tys arbitrary: d)
  case (Cons ty tys)
  have "strip ''STT_FAILED'' \<noteq> []" by code_simp
  with record_failure_total [OF Cons.prems(1), of True "''STT_FAILED''" error True now] Cons.prems(2) obtain b d1 where
    1: "record_task_failure cl ty error ''STT_FAILED'' True True now d = Inr (b, d1)" "recordable cl tys d1" by auto
  from Cons.IH [OF 1(2)] Cons.prems(2) 1(1) show ?case by auto
qed simp

lemma finish_total: "recordable cl [] d \<Longrightarrow> \<exists>d'. finish_inputs_if_terminal (cl_command_id cl) (cl_recording_id cl) d = Inr ((), d')"
  by (auto simp: recordable_def finish_inputs_if_terminal_def Let_def)

lemma claim_recordable:
  assumes "claim_ready now timeout d = Inr (Some cl, d1)" "tasks_ok d" "inputs_ok d"
  shows "recordable cl (cl_task_types cl) d1" "\<exists>c r. load_inputs cl d1 = Inr (c, r)"
proof -
  let ?f = "\<lambda>c. c\<lparr>mc_status := CMD_PROCESSING\<rparr>" and ?g = "\<lambda>r. r\<lparr>rc_status := REC_PROCESSING\<rparr>"
  note run = assms(1) [unfolded claim_ready_def]
  from claim_loop_inputs [OF run] obtain c r where c: "c \<in> set (db_commands d)" "cl_command_id cl = mc_command_id c"
    and r: "r \<in> set (db_recordings d)" "cl_recording_id cl = rc_id r" "running_recording c r"
    and rec: "db_recordings d1 = db_recordings (set_recording (rc_id r) ?g d)" by auto
  have row: "command_rows d1 (cl_command_id cl) = [?f c]"
  proof -
    have "command_rows d (mc_command_id c) = [c]" using filter_key_single [OF _ c(1), of mc_command_id] assms(3)
      by (simp add: inputs_ok_def command_rows_def)
    with claim_loop_commands [OF run] command_rows_set [of ?f "cl_command_id cl" d] show ?thesis by (simp add: command_rows_def c(2))
  qed
  have recs: "filter (\<lambda>x. rc_id x = rc_id r) (db_recordings d1) = [?g r]"
  proof -
    have "filter (\<lambda>x. rc_id x = rc_id r) (db_recordings d) = [r]" using filter_key_single [OF _ r(1), of rc_id] assms(3) by (simp add: inputs_ok_def)
    then show ?thesis by (simp add: rec set_recording_def filter_update_where)
  qed
  have ok1: "tasks_ok d1" using task_step_ok [OF task_step.claim [OF assms(1)] assms(2)] ..
  have "\<exists>t. filter (is_claimed_task (cl_command_id cl) ty (cl_claim_token cl)) (db_tasks d1) = [t]" if "ty \<in> set (cl_task_types cl)" for ty
  proof -
    from claim_loop_ok [OF run] have tasks: "db_tasks d1 = db_tasks (claim_tasks (cl_command_id cl) (cl_claim_token cl) (now - timeout) now d)" by auto
    from that claimed_types(1) [OF assms(1,2)] obtain t where t: "t \<in> set (db_tasks d)" "tk_command_id t = cl_command_id cl"
      "claimable_task (now - timeout) t" "tk_task_type t = ty" by (auto simp: command_tasks_def)
    let ?t = "claim_task (cl_claim_token cl) now t"
    have "?t \<in> set (db_tasks d1)" unfolding tasks claim_tasks_def update_where_def using t by force
    moreover have held: "is_claimed_task (cl_command_id cl) ty (cl_claim_token cl) ?t" using t by (simp add: is_claimed_task_def claim_task_def)
    ultimately have x: "?t \<in> set (filter (is_claimed_task (cl_command_id cl) ty (cl_claim_token cl)) (db_tasks d1))" by simp
    have "distinct (map (\<lambda>t. (tk_command_id t, tk_task_type t)) (db_tasks d1))" using ok1 by (simp add: tasks_ok_def)
    from filter_key_single [OF this, of ?t] x have "filter (\<lambda>y. tk_command_id y = cl_command_id cl \<and> tk_task_type y = ty) (db_tasks d1) = [?t]"
      using t by (simp add: claim_task_def)
    moreover have "filter (is_claimed_task (cl_command_id cl) ty (cl_claim_token cl)) (db_tasks d1)
        = filter (is_claimed_task (cl_command_id cl) ty (cl_claim_token cl)) (filter (\<lambda>y. tk_command_id y = cl_command_id cl \<and> tk_task_type y = ty) (db_tasks d1))"
      by (simp add: is_claimed_task_def conj_ac cong: conj_cong) (metis (no_types, lifting) filter_cong is_claimed_task_def)
    ultimately show ?thesis using held by simp
  qed
  with row recs show "recordable cl (cl_task_types cl) d1" by (simp add: recordable_def r(2))
  have "find P xs = Some x" if "filter P xs = [x]" for P and xs :: "recording_ready_event list" and x
    using that by (induction xs) (auto split: if_splits)
  then have "find (\<lambda>x. rc_id x = rc_id r) (db_recordings d1) = Some (?g r)" using recs .
  with row r(3) show "\<exists>c r. load_inputs cl d1 = Inr (c, r)" by (simp add: load_inputs_def r(2) running_recording_def)
qed

lemma coordinator_run_total:
  assumes "tasks_ok d" "inputs_ok d" "well_behaved loader processor" "failures_coded processor" "\<forall>tys. mset (completion tys) = mset tys"
  shows "\<exists>res d'. coordinator_run_once loader processor completion now timeout later d = (Inr res, d')"
proof -
  have "\<exists>q d1. claim_ready now timeout d = Inr (q, d1)"
    unfolding claim_ready_def using assms(2) by (intro claim_loop_total) (simp add: inputs_ok_def)
  then obtain q d1 where q: "claim_ready now timeout d = Inr (q, d1)" by blast
  show ?thesis
  proof (cases q)
    case None
    with q show ?thesis by (simp add: coordinator_run_once_def)
  next
    case (Some cl)
    note claim = q [unfolded Some]
    note rec = claim_recordable [OF claim assms(1,2)]
    obtain c r where ins: "load_inputs cl d1 = Inr (c, r)" using rec(2) by blast
    obtain x d2 where x: "loader c r d1 = (x, d2)" by fastforce
    have "keeps_inputs d1 (snd (loader c r d1))" using assms(3) by (simp add: well_behaved_def)
    then have r2: "recordable cl (cl_task_types cl) d2" using rec(1) recordable_cong [of d2 d1] by (simp add: x keeps_inputs_def)
    note types = claimed_types [OF claim assms(1)]
    have "distinct (completion (cl_task_types cl))" "set (completion (cl_task_types cl)) = set (cl_task_types cl)"
      using types(2) assms(5) by (metis mset_eq_imp_distinct_iff, metis mset_eq_setD)
    then have perm: "distinct (completion (cl_task_types cl))" "recordable cl (completion (cl_task_types cl)) d2"
      using r2 by (simp_all add: recordable_def)
    have none: "recordable cl [] d1" using rec(1) by (simp add: recordable_def)
    have closed: "\<exists>res d'. finish_run cl (Inr os, d3) = (Inr res, d')" if "recordable cl [] d3" for os d3
      using finish_total [OF that] by (auto simp: finish_run_def)
    show ?thesis
    proof (cases "cl_task_types cl = []")
      case True
      with finish_total [OF none] claim ins show ?thesis by (auto simp: coordinator_run_once_def)
    next
      case False
      show ?thesis
      proof (cases x)
        case (Inl exc)
        obtain os d3 where f: "fail_all cl exc later (cl_task_types cl) d2 = (Inr os, d3)" "recordable cl [] d3"
          using fail_all_total [OF r2 types(2)] by blast
        with closed [OF f(2), of os] claim ins x Inl False show ?thesis by (simp add: coordinator_run_once_def)
      next
        case (Inr transcript)
        obtain os d3 where f: "run_tasks processor cl c r transcript later (completion (cl_task_types cl)) d2 = (Inr os, d3)" "recordable cl [] d3"
          using run_tasks_total [OF perm(2,1) assms(3,4)] by blast
        with closed [OF f(2), of os] claim ins x Inr False show ?thesis by (simp add: coordinator_run_once_def)
      qed
    qed
  qed
qed

lemma run_once_reported:
  assumes "tasks_ok d" "well_behaved loader processor" "\<forall>tys. mset (completion tys) = mset tys"
    and "coordinator_run_once loader processor completion now timeout later d = (Inr res, d')" "co_command_id res = Some cid"
  shows "run_reported res cid d' \<and> set (co_succeeded res @ co_retrying res @ co_failed res)
    = tk_task_type ` set (filter (claimable_task (now - timeout)) (command_tasks d cid))"
proof -
  from assms(4,5) obtain cl d1 c r where cl: "claim_ready now timeout d = Inr (Some cl, d1)" and ins: "load_inputs cl d1 = Inr (c, r)"
    by (auto simp: coordinator_run_once_def split: sum.splits option.splits)
  note types = claimed_types [OF cl assms(1)]
  have ok: "tasks_ok d1" using task_step_ok [OF task_step.claim [OF cl] assms(1)] ..
  have proc: "list_all (\<lambda>c. mc_status c = CMD_PROCESSING) (command_rows d1 (cl_command_id cl))"
    using claim_loop_commands [OF cl [unfolded claim_ready_def]]
      command_rows_set [of "\<lambda>c. c\<lparr>mc_status := CMD_PROCESSING\<rparr>" "cl_command_id cl" d] by (auto simp: command_rows_def list_all_iff)
  have perm: "distinct (completion (cl_task_types cl))" "set (completion (cl_task_types cl)) = set (cl_task_types cl)"
    using types(2) assms(3) by (metis mset_eq_imp_distinct_iff, metis mset_eq_setD)
  let ?goal = "\<lambda>cid. co_command_id res = Some cid \<and> run_reported res cid d' \<and> set (co_succeeded res @ co_retrying res @ co_failed res) = set (cl_task_types cl)"
  have "?goal (cl_command_id cl)"
  proof (cases "cl_task_types cl = []")
    case True
    with assms(4) cl ins obtain u where fin: "finish_inputs_if_terminal (cl_command_id cl) (cl_recording_id cl) d1 = Inr (u, d')"
      and "co_succeeded res = []" "co_retrying res = []" "co_failed res = []" "co_command_id res = Some (cl_command_id cl)"
      by (auto simp: coordinator_run_once_def split: sum.splits)
    with finish_status [OF fin proc] True show ?thesis by (simp add: run_reported_def)
  next
    case False
    obtain x d2 where x: "loader c r d1 = (x, d2)" by fastforce
    have "keeps_inputs d1 (snd (loader c r d1))" using assms(2) by (simp add: well_behaved_def)
    then have "keeps_inputs d1 d2" by (simp add: x)
    note k = keeps_inputs_reported [OF this ok]
    show ?thesis
    proof (cases x)
      case (Inl exc)
      with assms(4) cl ins x False have "finish_run cl (fail_all cl exc later (cl_task_types cl) d2) = (Inr res, d')"
        by (simp add: coordinator_run_once_def)
      moreover then obtain os d3 where f: "fail_all cl exc later (cl_task_types cl) d2 = (Inr os, d3)"
        by (auto simp: finish_run_def split: sum.splits prod.splits)
      ultimately show ?thesis using finish_run_reported [of cl os d3 res d' d1] fail_all_reported [OF f k(1) types(2)] proc k(2) by simp
    next
      case (Inr transcript)
      with assms(4) cl ins x False have "finish_run cl (run_tasks processor cl c r transcript later (completion (cl_task_types cl)) d2) = (Inr res, d')"
        by (simp add: coordinator_run_once_def)
      moreover then obtain os d3 where f: "run_tasks processor cl c r transcript later (completion (cl_task_types cl)) d2 = (Inr os, d3)"
        by (auto simp: finish_run_def split: sum.splits prod.splits)
      ultimately show ?thesis
        using finish_run_reported [of cl os d3 res d' d1] run_tasks_reported [OF f k(1) assms(2) perm(1)] perm(2) proc k(2) by simp
    qed
  qed
  with assms(5) types(1) show ?thesis by auto
qed


section \<open>The properties at a concrete command\<close>

definition sample_tasks :: "task_status \<Rightarrow> uuid option \<Rightarrow> db" where
  "sample_tasks st token = (sample_db [])\<lparr>
     db_commands := [analysis_command_row 60 sample_analysis_command ''h'' CMD_PROCESSING],
     db_recordings := [(recording_row 61 sample_recording ''b'')\<lparr>rc_status := REC_PROCESSING\<rparr>],
     db_tasks := [(task_row 62 70 SUMMARY st 0)\<lparr>tk_claim_token := token, tk_claimed_at := Some 0\<rparr>,
                  task_row 63 70 NODES TASK_SKIPPED 0]\<rparr>"

definition sample_coordinator_claim :: "uuid \<Rightarrow> coordinator_claim" where
  "sample_coordinator_claim token = \<lparr>cl_command_id = 70, cl_recording_id = 61, cl_claim_token = token, cl_task_types = [SUMMARY]\<rparr>"

lemma sample_tasks_ok:
  "st = TASK_PROCESSING \<and> token \<in> {Some 64, Some 65} \<or> st \<noteq> TASK_PROCESSING \<and> token = None \<Longrightarrow> tasks_ok (sample_tasks st token)"
  "db_next_uuid (sample_tasks st token) = 1000"
  by (auto simp: tasks_ok_def sample_tasks_def task_row_def ck_meeting_analysis_task_def running_def sample_db_def)

lemma sample_tasks_rows:
  "command_tasks (sample_tasks st token) 70 = db_tasks (sample_tasks st token)"
  "map tk_task_type (db_tasks (sample_tasks st token)) = [SUMMARY, NODES]"
  "map tk_status (db_tasks (sample_tasks st token)) = [st, TASK_SKIPPED]"
  by (simp_all add: command_tasks_def sample_tasks_def task_row_def)

lemmas sample_task_defs = sample_tasks_def sample_db_def analysis_command_row_def sample_analysis_command_def recording_row_def
  sample_recording_def task_row_def sample_coordinator_claim_def

text \<open>The worker with the token 65 timed out, and another one took its task over.\<close>

lemma sample_takeover:
  "\<exists>d'. claim_ready 100 10 (sample_tasks TASK_PROCESSING (Some 65)) = Inr (Some (sample_coordinator_claim 1000), d')"
  by (simp add: claim_ready_def claimable_command_def running_recording_def command_tasks_def claimable_task_def uuid4_def
      task_order_def Let_def sample_task_defs)

theorem late_task_outcome_refused_witness:
  "\<exists>d'. claim_ready 100 10 (sample_tasks TASK_PROCESSING (Some 65)) = Inr (Some (sample_coordinator_claim 1000), d')
     \<and> record_task_success (sample_coordinator_claim 64) SUMMARY 200 d' = Inl NoResultFound"
proof -
  let ?d = "sample_tasks TASK_PROCESSING (Some 65)"
  from sample_takeover obtain d' where d': "claim_ready 100 10 ?d = Inr (Some (sample_coordinator_claim 1000), d')" by blast
  then have "task_step\<^sup>*\<^sup>* ?d d'" by (blast intro: task_step.claim)
  moreover have "\<not> task_held ?d (70, SUMMARY) 64" by (simp add: task_held_def is_claimed_task_def sample_task_defs)
  moreover have "tasks_ok ?d" by (simp add: sample_tasks_ok(1))
  ultimately have "record_task_success (sample_coordinator_claim 64) SUMMARY 200 d' = Inl NoResultFound"
    using late_task_outcome_refused [of ?d d' "sample_coordinator_claim 64" SUMMARY 200]
    by (simp add: sample_tasks_ok(2)) (simp add: sample_coordinator_claim_def)
  with d' show ?thesis by blast
qed

text \<open>The skipped task of the command stays as it is.\<close>

theorem task_history_witness:
  "\<exists>d'. claim_ready 100 10 (sample_tasks TASK_PROCESSING (Some 65)) = Inr (Some (sample_coordinator_claim 1000), d') \<and> tasks_ok d'
     \<and> filter (\<lambda>x. tk_command_id x = 70 \<and> tk_task_type x = NODES) (db_tasks d') = [task_row 63 70 NODES TASK_SKIPPED 0]"
proof -
  let ?d = "sample_tasks TASK_PROCESSING (Some 65)" and ?t = "task_row 63 70 NODES TASK_SKIPPED 0"
  from sample_takeover obtain d' where d': "claim_ready 100 10 ?d = Inr (Some (sample_coordinator_claim 1000), d')" by blast
  then have "task_step\<^sup>*\<^sup>* ?d d'" by (blast intro: task_step.claim)
  moreover have "?t \<in> set (db_tasks ?d)" "tasks_ok ?d" by (simp add: sample_tasks_def, simp add: sample_tasks_ok(1))
  moreover have "ended_task ?t" "tk_command_id ?t = 70" "tk_task_type ?t = NODES" by (simp_all add: ended_task_def task_row_def)
  ultimately show ?thesis using task_history [of ?d d' ?t] d' by auto
qed

text \<open>The run ended after it recorded the success of the last task and before it closed the command.\<close>

lemma abandoned_command_left_processing:
  "\<exists>u d. record_task_success (sample_coordinator_claim 64) SUMMARY 50 (sample_tasks TASK_PROCESSING (Some 64)) = Inr (u, d)
     \<and> map mc_status (command_rows d 70) = [CMD_PROCESSING]
     \<and> \<not> (\<exists>now timeout cl d''. claim_ready now timeout d = Inr (Some cl, d'') \<and> cl_command_id cl = 70)"
proof -
  let ?d = "sample_tasks TASK_PROCESSING (Some 64)"
  obtain u d where r: "record_task_success (sample_coordinator_claim 64) SUMMARY 50 ?d = Inr (u, d)"
    and d: "d = set_task 70 SUMMARY (succeed_task 50) ?d"
    by (simp add: record_task_success_def is_claimed_task_def sample_task_defs)
  have "tasks_ok d" using task_step_ok [OF task_step.success [OF r]] sample_tasks_ok(1) by simp
  moreover have "map tk_task_type (command_tasks d 70) = [SUMMARY, NODES]" "list_all ended_task (command_tasks d 70)"
    "list_ex (\<lambda>t. tk_status t \<noteq> TASK_SKIPPED) (command_tasks d 70)"
    by (simp_all add: d set_task_def command_tasks_def ended_task_def succeed_task_def sample_task_defs)
  moreover have "map mc_status (command_rows d 70) = [CMD_PROCESSING]" by (simp add: d set_task_def command_rows_def sample_task_defs)
  ultimately show ?thesis
    by (intro exI [of _ u] exI [of _ d] conjI r abandoned_command_never_claimed [OF _ rtranclp.rtrancl_refl])
qed

definition sample_loader :: "unit loader" where
  "sample_loader c r d = (Inr (), d)"

definition sample_processor :: "unit processor" where
  "sample_processor ty c r t d = (None, d)"


end
