(* ===== verification/Command_Wire.thy ===== *)
theory Command_Wire
  imports Node_Updates Command_Join
begin

text \<open>
  The strict wire contracts of \<open>meeting_analysis/contracts.py\<close>, the dispatcher of \<open>meeting_analysis/dispatcher.py\<close>
  and the queue consumers of \<open>meeting_analysis/consumers.py\<close>. The texts of UUIDs are strings here:
  \<open>uuid.UUID(text)\<close> and \<open>str(u)\<close> of the standard library are written out. \<open>json.loads\<close> and
  \<open>datetime.fromisoformat\<close> are arguments. A decoded JSON string is \<open>JStr (Txt s)\<close>; the symbolic texts of
  \<open>py_text\<close> occur in outgoing events only.
\<close>

section \<open>UUID texts\<close>

definition hex_char :: "nat \<Rightarrow> char" where
  "hex_char n = char_of (if n < 10 then 48 + n else 87 + n)"

fun hex_digits :: "nat \<Rightarrow> nat \<Rightarrow> string" where
  "hex_digits 0 n = []"
| "hex_digits (Suc k) n = hex_digits k (n div 16) @ [hex_char (n mod 16)]"

text \<open>\<open>str(u)\<close>: 32 hexadecimal digits in groups of 8, 4, 4, 4 and 12.\<close>

definition uuid_text :: "uuid \<Rightarrow> string" where
  "uuid_text u = (let h = hex_digits 32 u in
     take 8 h @ ''-'' @ take 4 (drop 8 h) @ ''-'' @ take 4 (drop 12 h) @ ''-'' @ take 4 (drop 16 h) @ ''-'' @ drop 20 h)"

definition hex_val :: "char \<Rightarrow> int option" where
  "hex_val c = (let n = (of_char c :: nat) in
     if 48 \<le> n \<and> n \<le> 57 then Some (int (n - 48)) else if 97 \<le> n \<and> n \<le> 102 then Some (int (n - 87))
     else if 65 \<le> n \<and> n \<le> 70 then Some (int (n - 55)) else None)"

text \<open>\<open>s.replace(pat, '')\<close> for a pattern that is not empty.\<close>

fun remove_all :: "string \<Rightarrow> string \<Rightarrow> string" where
  "remove_all pat [] = []"
| "remove_all pat (c # cs) =
     (if pat \<noteq> [] \<and> take (length pat) (c # cs) = pat then remove_all pat (drop (length pat - 1) cs)
      else c # remove_all pat cs)"

text \<open>\<open>int(s, 16)\<close>: blanks around it, a sign, a prefix \<open>0x\<close> and single underscores between digits are accepted.\<close>

fun hex_body :: "string \<Rightarrow> bool" where
  "hex_body [] = False"
| "hex_body [c] = (hex_val c \<noteq> None)"
| "hex_body (c # d # cs) = (hex_val c \<noteq> None \<and> (if d = CHR ''_'' then hex_body cs else hex_body (d # cs)))"

definition hex_value :: "string \<Rightarrow> int" where
  "hex_value s = foldl (\<lambda>acc c. acc * 16 + (case hex_val c of Some v \<Rightarrow> v | None \<Rightarrow> 0)) 0 (filter (\<lambda>c. c \<noteq> CHR ''_'') s)"

definition drop_sign :: "string \<Rightarrow> bool \<times> string" where
  "drop_sign s = (case s of [] \<Rightarrow> (False, []) | c # cs \<Rightarrow>
     if c = CHR ''-'' then (True, cs) else if c = CHR ''+'' then (False, cs) else (False, s))"

definition drop_0x :: "string \<Rightarrow> string" where
  "drop_0x s = (if take 2 s = ''0x'' \<or> take 2 s = ''0X'' then (if take 1 (drop 2 s) = ''_'' then drop 3 s else drop 2 s) else s)"

definition int16 :: "string \<Rightarrow> int option" where
  "int16 s = (let (neg, t) = drop_sign (strip s); body = drop_0x t
     in if hex_body body then Some ((if neg then -1 else 1) * hex_value body) else None)"

definition is_brace :: "char \<Rightarrow> bool" where
  "is_brace c \<longleftrightarrow> c = CHR ''{'' \<or> c = CHR ''}''"

text \<open>\<open>uuid.UUID(text)\<close>; \<open>None\<close> is its \<open>ValueError\<close>.\<close>

definition parse_uuid_text :: "string \<Rightarrow> uuid option" where
  "parse_uuid_text s =
     (let t = remove_all ''uuid:'' (remove_all ''urn:'' s);
          h = remove_all ''-'' (rev (dropWhile is_brace (rev (dropWhile is_brace t))))
      in if length h \<noteq> 32 then None
         else case int16 h of None \<Rightarrow> None | Some i \<Rightarrow> if 0 \<le> i \<and> i < 2 ^ 128 then Some (nat i) else None)"

section \<open>Fields\<close>

type_synonym iso_parser = "string \<Rightarrow> (time \<times> int option) option"

record wire_lib =
  json_loads :: "string \<Rightarrow> json result"
  from_isoformat :: iso_parser
  isoformat :: "time \<Rightarrow> string"

fun json_text_of :: "json \<Rightarrow> string option" where
  "json_text_of (JStr (Txt s)) = Some s"
| "json_text_of _ = None"

abbreviation refuse :: "string \<Rightarrow> 'a result" where
  "refuse m \<equiv> Inl (AnalysisCommandValidationError m)"

definition wire_uuid :: "json \<Rightarrow> string \<Rightarrow> uuid result" where
  "wire_uuid value field =
     (case json_text_of value of
        None \<Rightarrow> refuse (field @ '' must be a UUID string'')
      | Some s \<Rightarrow>
          (case parse_uuid_text s of
             None \<Rightarrow> refuse (field @ '' must be a UUID string'')
           | Some u \<Rightarrow> if uuid_text u \<noteq> s then refuse (field @ '' must use canonical UUID text'') else Inr u))"

definition wire_positive_int :: "json \<Rightarrow> string \<Rightarrow> string result" where
  "wire_positive_int value field =
     (case value of
        JInt i \<Rightarrow> if i \<le> 0 \<or> i > 2 ^ 63 - 1 then refuse (field @ '' is outside the positive signed 64-bit range'') else Inr (int_str i)
      | _ \<Rightarrow> refuse (field @ '' must be a positive JSON integer''))"

definition wire_boolean :: "json \<Rightarrow> string \<Rightarrow> bool result" where
  "wire_boolean value field = (case value of JBool b \<Rightarrow> Inr b | _ \<Rightarrow> refuse (field @ '' must be boolean''))"

definition wire_utc_datetime :: "wire_lib \<Rightarrow> json \<Rightarrow> time result" where
  "wire_utc_datetime W value =
     (case json_text_of value of
        None \<Rightarrow> refuse ''requestedAt must be an ISO-8601 UTC timestamp ending in Z''
      | Some s \<Rightarrow>
          if s = [] \<or> last s \<noteq> CHR ''Z'' then refuse ''requestedAt must be an ISO-8601 UTC timestamp ending in Z''
          else (case from_isoformat W (butlast s @ ''+00:00'') of
                  None \<Rightarrow> refuse ''requestedAt must be an ISO-8601 UTC timestamp''
                | Some (t, offset) \<Rightarrow> if offset \<noteq> Some 0 then refuse ''requestedAt must be UTC'' else Inr t))"

definition wire_object :: "json \<Rightarrow> json result" where
  "wire_object value = (case value of JObj _ \<Rightarrow> Inr value | _ \<Rightarrow> refuse ''payload must be an object'')"

text \<open>A version between a lower bound and \<open>2**31 - 1\<close>.\<close>

definition wire_version :: "int \<Rightarrow> json \<Rightarrow> string \<Rightarrow> int result" where
  "wire_version low value message =
     (case value of JInt i \<Rightarrow> if i < low \<or> i > 2 ^ 31 - 1 then refuse message else Inr i | _ \<Rightarrow> refuse message)"

section \<open>The parsers\<close>

definition json_object :: "wire_lib \<Rightarrow> string \<Rightarrow> json result" where
  "json_object W body =
     (case json_loads W body of
        Inl TypeError \<Rightarrow> refuse ''analysis command body is not valid JSON''
      | Inl JSONDecodeError \<Rightarrow> refuse ''analysis command body is not valid JSON''
      | Inl e \<Rightarrow> Inl e
      | Inr (JObj kvs) \<Rightarrow> Inr (JObj kvs)
      | Inr _ \<Rightarrow> refuse ''analysis command must be a JSON object'')"

definition parse_analysis_command :: "wire_lib \<Rightarrow> json \<Rightarrow> meeting_analysis_command_message result" where
  "parse_analysis_command W payload =
     rguard (jget payload ''commandSchemaVersion'' \<noteq> JInt 1) (AnalysisCommandValidationError ''commandSchemaVersion must be 1'')
    (rguard (jget payload ''commandType'' \<noteq> JStr (Txt ''MEETING_ANALYSIS_REQUESTED''))
       (AnalysisCommandValidationError ''commandType must be MEETING_ANALYSIS_REQUESTED'')
    (rbind (wire_uuid (jget payload ''commandId'') ''commandId'') (\<lambda>command_id.
     rbind (wire_positive_int (jget payload ''projectId'') ''projectId'') (\<lambda>project_id.
     rbind (wire_utc_datetime W (jget payload ''requestedAt'')) (\<lambda>requested_at.
     rbind (wire_object (jget payload ''payload'')) (\<lambda>nested.
     rbind (wire_positive_int (jget nested ''meetingId'') ''meetingId'') (\<lambda>meeting_id.
     rbind (wire_uuid (jget nested ''roomName'') ''roomName'') (\<lambda>room.
     rbind (wire_boolean (jget nested ''generateSummary'') ''generateSummary'') (\<lambda>generate_summary.
     rbind (wire_boolean (jget nested ''generateNodes'') ''generateNodes'') (\<lambda>generate_nodes.
       Inr \<lparr>mm_command_id = command_id, mm_project_id = project_id, mm_meeting_id = meeting_id, mm_room_name = uuid_text room,
            mm_generate_summary = generate_summary, mm_generate_nodes = generate_nodes, mm_requested_at = requested_at,
            mm_requested_at_iso = isoformat W requested_at\<rparr>))))))))))"

text \<open>\<open>title\<close> and \<open>content\<close> of a single update: null, or a string that is not blank and not too long.\<close>

definition wire_optional_text :: "json \<Rightarrow> string \<Rightarrow> nat \<Rightarrow> string option result" where
  "wire_optional_text value field limit =
     (if value = JNull then Inr None
      else case json_text_of value of
             None \<Rightarrow> refuse (field @ '' must be a non-blank string or null'')
           | Some s \<Rightarrow> if strip s = [] then refuse (field @ '' must be a non-blank string or null'')
                       else if length s > limit then refuse (field @ '' must be at most '' @ nat_str limit @ '' characters'')
                       else Inr (Some s))"

fun parse_batch_items :: "nat \<Rightarrow> uuid set \<Rightarrow> json list \<Rightarrow> batch_update_item list result" where
  "parse_batch_items index seen [] = Inr []"
| "parse_batch_items index seen (raw # raws) =
     (let name = ''nodes['' @ nat_str index @ '']'' in
      case raw of
        JObj kvs \<Rightarrow>
          rguard (map_of kvs ''content'' \<noteq> None) (AnalysisCommandValidationError (name @ ''.content is not supported in schema version 2''))
         (rbind (wire_uuid (jget raw ''nodeId'') (name @ ''.nodeId'')) (\<lambda>node_id.
          rguard (node_id \<in> seen) (AnalysisCommandValidationError ''nodes must not contain duplicate nodeId values'')
         (rbind (wire_version 1 (jget raw ''expectedNodeVersion'') (name @ ''.expectedNodeVersion must be a positive JSON integer'')) (\<lambda>expected.
          case json_text_of (jget raw ''title'') of
            None \<Rightarrow> refuse (name @ ''.title must be a non-blank string'')
          | Some title \<Rightarrow>
              rguard (strip title = []) (AnalysisCommandValidationError (name @ ''.title must be a non-blank string''))
             (rguard (length title > 255) (AnalysisCommandValidationError (name @ ''.title must be at most 255 characters''))
             (rbind (parse_batch_items (Suc index) (insert node_id seen) raws) (\<lambda>items.
              Inr (\<lparr>bi_node_id = node_id, bi_expected_node_version = expected, bi_title = title\<rparr> # items))))))))
      | _ \<Rightarrow> refuse (name @ '' must be an object''))"

definition parse_update_v2 :: "wire_lib \<Rightarrow> uuid \<Rightarrow> string \<Rightarrow> time \<Rightarrow> json \<Rightarrow> node_content_batch_update_command result" where
  "parse_update_v2 W command_id project_id requested_at nested =
     (case jget nested ''nodes'' of
        JList raw_nodes \<Rightarrow>
          rguard (raw_nodes = []) (AnalysisCommandValidationError ''nodes must contain at least one item'')
         (rguard (length raw_nodes > 100) (AnalysisCommandValidationError ''nodes must contain at most 100 items'')
         (rbind (parse_batch_items 0 {} raw_nodes) (\<lambda>nodes.
          rbind (wire_positive_int (jget nested ''requestedByMemberId'') ''requestedByMemberId'') (\<lambda>member_id.
            Inr \<lparr>bc_command_id = command_id, bc_requested_at = requested_at, bc_requested_at_iso = isoformat W requested_at,
                 bc_project_id = project_id, bc_nodes = nodes, bc_requested_by_member_id = member_id\<rparr>))))
      | _ \<Rightarrow> refuse ''nodes must be an array'')"

definition parse_update_v1 :: "wire_lib \<Rightarrow> uuid \<Rightarrow> string \<Rightarrow> time \<Rightarrow> json \<Rightarrow> node_content_update_command result" where
  "parse_update_v1 W command_id project_id requested_at nested =
     rbind (wire_uuid (jget nested ''nodeId'') ''nodeId'') (\<lambda>node_id.
     rbind (wire_version 1 (jget nested ''expectedNodeVersion'') ''expectedNodeVersion must be a positive JSON integer'') (\<lambda>expected.
     rguard (jget nested ''title'' = JNull \<and> jget nested ''content'' = JNull)
       (AnalysisCommandValidationError ''at least one of title or content must be non-null'')
    (rbind (wire_optional_text (jget nested ''title'') ''title'' 255) (\<lambda>title.
     rbind (wire_optional_text (jget nested ''content'') ''content'' 65535) (\<lambda>content.
     rbind (wire_positive_int (jget nested ''requestedByMemberId'') ''requestedByMemberId'') (\<lambda>member_id.
       Inr \<lparr>uc_command_id = command_id, uc_requested_at = requested_at, uc_requested_at_iso = isoformat W requested_at,
            uc_project_id = project_id, uc_node_id = node_id, uc_expected_node_version = expected, uc_title = title,
            uc_content = content, uc_requested_by_member_id = member_id\<rparr>))))))"

datatype java_command =
    MeetingAnalysis meeting_analysis_command_message
  | NodeContentUpdate node_content_update_command
  | NodeContentBatchUpdate node_content_batch_update_command
  | NodeDelete node_delete_command

definition parse_node_update :: "wire_lib \<Rightarrow> json \<Rightarrow> java_command result" where
  "parse_node_update W payload =
     (let version = jget payload ''commandSchemaVersion'' in
      rguard (version \<noteq> JInt 1 \<and> version \<noteq> JInt 2) (AnalysisCommandValidationError ''commandSchemaVersion must be 1 or 2'')
     (rguard (jget payload ''commandType'' \<noteq> JStr (Txt ''NODE_CONTENT_UPDATE_REQUESTED''))
        (AnalysisCommandValidationError ''commandType must be NODE_CONTENT_UPDATE_REQUESTED'')
     (rbind (wire_uuid (jget payload ''commandId'') ''commandId'') (\<lambda>command_id.
      rbind (wire_positive_int (jget payload ''projectId'') ''projectId'') (\<lambda>project_id.
      rbind (wire_utc_datetime W (jget payload ''requestedAt'')) (\<lambda>requested_at.
      rbind (wire_object (jget payload ''payload'')) (\<lambda>nested.
        if version = JInt 2
        then rbind (parse_update_v2 W command_id project_id requested_at nested) (\<lambda>c. Inr (NodeContentBatchUpdate c))
        else rbind (parse_update_v1 W command_id project_id requested_at nested) (\<lambda>c. Inr (NodeContentUpdate c)))))))))"

fun parse_seed_ids :: "json list \<Rightarrow> uuid list result" where
  "parse_seed_ids [] = Inr []"
| "parse_seed_ids (v # vs) = rbind (wire_uuid v ''nodeIds'') (\<lambda>u. rbind (parse_seed_ids vs) (\<lambda>us. Inr (u # us)))"

definition wire_seed_list :: "json \<Rightarrow> json list result" where
  "wire_seed_list value =
     (case value of
        JList raw_ids \<Rightarrow>
          rguard (raw_ids = []) (AnalysisCommandValidationError ''nodeIds must be a non-empty array of UUID strings'')
         (rguard (length raw_ids > 10000) (AnalysisCommandValidationError ''nodeIds must contain at most 10000 entries'') (Inr raw_ids))
      | _ \<Rightarrow> refuse ''nodeIds must be a non-empty array of UUID strings'')"

definition parse_node_delete :: "wire_lib \<Rightarrow> json \<Rightarrow> node_delete_command result" where
  "parse_node_delete W payload =
     rguard (jget payload ''commandSchemaVersion'' \<noteq> JInt 1) (AnalysisCommandValidationError ''commandSchemaVersion must be 1'')
    (rguard (jget payload ''commandType'' \<noteq> JStr (Txt ''NODE_DELETE_REQUESTED''))
       (AnalysisCommandValidationError ''commandType must be NODE_DELETE_REQUESTED'')
    (rbind (wire_uuid (jget payload ''commandId'') ''commandId'') (\<lambda>command_id.
     rbind (wire_positive_int (jget payload ''projectId'') ''projectId'') (\<lambda>project_id.
     rbind (wire_utc_datetime W (jget payload ''requestedAt'')) (\<lambda>requested_at.
     rbind (wire_object (jget payload ''payload'')) (\<lambda>nested.
     rbind (wire_seed_list (jget nested ''nodeIds'')) (\<lambda>raw_ids.
     rbind (parse_seed_ids raw_ids) (\<lambda>node_ids.
     rbind (wire_version 0 (jget nested ''expectedGraphVersion'') ''expectedGraphVersion must be a non-negative JSON integer'') (\<lambda>expected.
     rbind (wire_positive_int (jget nested ''requestedByMemberId'') ''requestedByMemberId'') (\<lambda>member_id.
       Inr \<lparr>dc_command_id = command_id, dc_requested_at = requested_at, dc_requested_at_iso = isoformat W requested_at,
            dc_project_id = project_id, dc_node_ids = node_ids, dc_expected_graph_version = expected,
            dc_requested_by_member_id = member_id\<rparr>))))))))))"

definition parse_java_command :: "wire_lib \<Rightarrow> string \<Rightarrow> java_command result" where
  "parse_java_command W body =
     rbind (json_object W body) (\<lambda>payload.
       let command_type = jget payload ''commandType'' in
       if command_type = JStr (Txt ''MEETING_ANALYSIS_REQUESTED'')
       then rbind (parse_analysis_command W payload) (\<lambda>c. Inr (MeetingAnalysis c))
       else if command_type = JStr (Txt ''NODE_CONTENT_UPDATE_REQUESTED'') then parse_node_update W payload
       else if command_type = JStr (Txt ''NODE_DELETE_REQUESTED'') then rbind (parse_node_delete W payload) (\<lambda>c. Inr (NodeDelete c))
       else refuse ''unsupported commandType'')"

section \<open>UUID texts are parsed back\<close>

lemma hex_char_val: "n < 16 \<Longrightarrow> hex_val (hex_char n) = Some (int n)"
  by (auto simp: hex_val_def hex_char_def Let_def of_char_of take_bit_eq_mod)

definition hex_text :: "string \<Rightarrow> bool" where
  "hex_text s \<longleftrightarrow> (\<forall>c \<in> set s. hex_val c \<noteq> None)"

lemma hex_digits_text: "hex_text (hex_digits k n)"
  by (induction k arbitrary: n) (auto simp: hex_text_def hex_char_val)

lemma length_hex_digits [simp]: "length (hex_digits k n) = k"
  by (induction k arbitrary: n) auto

lemma hex_val_other:
  "hex_val CHR ''u'' = None" "hex_val CHR ''-'' = None" "hex_val CHR ''_'' = None" "hex_val CHR ''{'' = None" "hex_val CHR ''}'' = None"
  "hex_val CHR ''+'' = None" "hex_val CHR ''x'' = None" "hex_val CHR ''X'' = None"
  by code_simp+

lemma hex_not: "hex_text s \<Longrightarrow> hex_val c = None \<Longrightarrow> c \<notin> set s"
  by (auto simp: hex_text_def)

lemma hex_not_space: "hex_val c \<noteq> None \<Longrightarrow> \<not> is_space c"
  by (auto simp: hex_val_def Let_def is_space_def split: if_splits)

lemma hex_value_digits: "hex_value (hex_digits k n) = int (n mod 16 ^ k)"
proof (induction k arbitrary: n)
  case (Suc k)
  have h: "hex_char (n mod 16) \<noteq> CHR ''_''" using hex_char_val [of "n mod 16"] hex_val_other(3) by auto
  have "hex_value (hex_digits (Suc k) n) = hex_value (hex_digits k (n div 16)) * 16 + int (n mod 16)"
    by (simp add: hex_value_def h hex_char_val)
  also have "\<dots> = int (n mod 16 ^ Suc k)" by (simp add: Suc mod_mult2_eq mult.commute)
  finally show ?case .
qed (simp add: hex_value_def)

lemma hex_body_text: "s \<noteq> [] \<Longrightarrow> hex_text s \<Longrightarrow> hex_body s"
  by (induction s rule: hex_body.induct) (auto simp: hex_text_def hex_val_other)

lemma int16_digits: "int16 (hex_digits (Suc k) n) = Some (int (n mod 16 ^ Suc k))"
proof -
  let ?h = "hex_digits (Suc k) n"
  have t: "hex_text ?h" by (rule hex_digits_text)
  then have st: "strip ?h = ?h"
  proof -
    have "dropWhile is_space xs = xs" if "hex_text xs" for xs using that by (cases xs) (auto simp: hex_text_def hex_not_space)
    moreover have "hex_text (rev ?h)" using t by (simp add: hex_text_def)
    ultimately show ?thesis using t by (simp add: strip_def del: hex_digits.simps)
  qed
  have ne: "?h \<noteq> []" by simp
  then obtain c cs where c: "?h = c # cs" by (cases ?h) auto
  have cc: "hex_val c \<noteq> None" using t unfolding c by (simp add: hex_text_def)
  have sg: "drop_sign ?h = (False, ?h)" using cc hex_val_other unfolding c by (auto simp: drop_sign_def)
  have x: "drop_0x ?h = ?h"
  proof -
    have "CHR ''x'' \<notin> set (take 2 ?h)" "CHR ''X'' \<notin> set (take 2 ?h)"
      using hex_not [OF t hex_val_other(7)] hex_not [OF t hex_val_other(8)] by (meson in_set_takeD)+
    then have "take 2 ?h \<noteq> ''0x''" "take 2 ?h \<noteq> ''0X''" by (metis list.set_intros(1) list.set_intros(2))+
    then show ?thesis by (simp add: drop_0x_def del: hex_digits.simps)
  qed
  show ?thesis unfolding int16_def st sg x Let_def split using hex_body_text [OF ne t] by (simp add: hex_value_digits del: hex_digits.simps)
qed

lemma remove_all_none: "pat \<noteq> [] \<Longrightarrow> hd pat \<notin> set s \<Longrightarrow> remove_all pat s = s"
  by (induction s) (auto simp: neq_Nil_conv)

lemma remove_all_char: "remove_all [c] s = filter (\<lambda>x. x \<noteq> c) s"
  by (induction s) auto

lemma uuid_text_set: "c \<in> set (uuid_text u) \<Longrightarrow> c = CHR ''-'' \<or> hex_val c \<noteq> None"
  using hex_digits_text [of 32 u] by (auto simp: uuid_text_def Let_def hex_text_def dest: in_set_takeD in_set_dropD)

lemma uuid_text_digits: "filter (\<lambda>c. c \<noteq> CHR ''-'') (uuid_text u) = hex_digits 32 u"
proof -
  let ?h = "hex_digits 32 u"
  have f: "filter (\<lambda>c. c \<noteq> CHR ''-'') xs = xs" if "set xs \<subseteq> set ?h" for xs
    using that hex_not [OF hex_digits_text [of 32 u] hex_val_other(2)] by (auto simp: filter_id_conv)
  have s: "set (take a (drop b ?h)) \<subseteq> set ?h" "set (drop b ?h) \<subseteq> set ?h" "set (take a ?h) \<subseteq> set ?h" for a b
    by (auto dest: in_set_takeD in_set_dropD)
  have "filter (\<lambda>c. c \<noteq> CHR ''-'') (uuid_text u) = take 8 ?h @ take 4 (drop 8 ?h) @ take 4 (drop 12 ?h) @ take 4 (drop 16 ?h) @ drop 20 ?h"
    by (simp add: uuid_text_def Let_def f s del: hex_digits.simps)
  also have "\<dots> = ?h"
  proof -
    have "take 4 (drop 16 ?h) @ drop 20 ?h = drop 16 ?h" using append_take_drop_id [of 4 "drop 16 ?h"] by simp
    moreover have "take 4 (drop 12 ?h) @ drop 16 ?h = drop 12 ?h" using append_take_drop_id [of 4 "drop 12 ?h"] by simp
    moreover have "take 4 (drop 8 ?h) @ drop 12 ?h = drop 8 ?h" using append_take_drop_id [of 4 "drop 8 ?h"] by simp
    ultimately show ?thesis by (metis append_take_drop_id)
  qed
  finally show ?thesis .
qed

lemma uuid_text_roundtrip:
  assumes "u < 2 ^ 128"
  shows "parse_uuid_text (uuid_text u) = Some u"
proof -
  let ?t = "uuid_text u"
  have n: "c \<notin> set ?t" if "c \<noteq> CHR ''-''" "hex_val c = None" for c using uuid_text_set [of c u] that by blast
  have r: "remove_all ''uuid:'' (remove_all ''urn:'' ?t) = ?t" using n [of "CHR ''u''"] hex_val_other by (simp add: remove_all_none)
  have "dropWhile is_brace xs = xs" if "set xs \<subseteq> set ?t" for xs
    using that n [of "CHR ''{''"] n [of "CHR ''}''"] hex_val_other by (cases xs) (auto simp: is_brace_def)
  then have b: "rev (dropWhile is_brace (rev (dropWhile is_brace ?t))) = ?t" by simp
  have i: "int16 (hex_digits 32 u) = Some (int u)" using int16_digits [of 31 u] assms by (simp del: hex_digits.simps)
  show ?thesis unfolding parse_uuid_text_def Let_def r b remove_all_char uuid_text_digits i using assms by (simp del: hex_digits.simps)
qed

lemma parse_uuid_bound: "parse_uuid_text s = Some u \<Longrightarrow> u < 2 ^ 128"
  by (auto simp: parse_uuid_text_def Let_def split: option.splits if_splits)

lemma json_text_of_Some [simp]: "json_text_of v = Some s \<longleftrightarrow> v = JStr (Txt s)"
  by (cases v rule: json_text_of.cases) auto

lemma wire_uuid_iff: "wire_uuid v f = Inr u \<longleftrightarrow> v = JStr (Txt (uuid_text u)) \<and> u < 2 ^ 128"
proof
  assume "wire_uuid v f = Inr u"
  then obtain s where s: "v = JStr (Txt s)" "parse_uuid_text s = Some u" "uuid_text u = s"
    by (auto simp: wire_uuid_def split: option.splits if_splits)
  with parse_uuid_bound [OF s(2)] show "v = JStr (Txt (uuid_text u)) \<and> u < 2 ^ 128" by simp
next
  assume "v = JStr (Txt (uuid_text u)) \<and> u < 2 ^ 128"
  then show "wire_uuid v f = Inr u" by (simp add: wire_uuid_def uuid_text_roundtrip)
qed

lemma wire_positive_int_iff: "wire_positive_int v f = Inr s \<longleftrightarrow> (\<exists>i. v = JInt i \<and> 0 < i \<and> i < 2 ^ 63 \<and> s = int_str i)"
  by (auto simp: wire_positive_int_def split: json.splits)

lemma wire_boolean_iff: "wire_boolean v f = Inr b \<longleftrightarrow> v = JBool b"
  by (auto simp: wire_boolean_def split: json.splits)

lemma wire_version_iff: "wire_version low v m = Inr i \<longleftrightarrow> v = JInt i \<and> low \<le> i \<and> i < 2 ^ 31"
  by (auto simp: wire_version_def split: json.splits)

lemma wire_object_iff: "wire_object v = Inr x \<longleftrightarrow> x = v \<and> (\<exists>kvs. v = JObj kvs)"
  by (auto simp: wire_object_def split: json.splits)

lemma wire_utc_iff: "wire_utc_datetime W v = Inr t \<longleftrightarrow>
    (\<exists>s. v = JStr (Txt s) \<and> s \<noteq> [] \<and> last s = CHR ''Z'' \<and> from_isoformat W (butlast s @ ''+00:00'') = Some (t, Some 0))"
  by (auto simp: wire_utc_datetime_def split: option.splits if_splits)

lemma wire_optional_text_iff: "wire_optional_text v f n = Inr r \<longleftrightarrow>
    (case r of None \<Rightarrow> v = JNull | Some s \<Rightarrow> v = JStr (Txt s) \<and> strip s \<noteq> [] \<and> length s \<le> n)"
  by (auto simp: wire_optional_text_def split: option.splits if_splits)

lemmas wire_iffs = wire_uuid_iff wire_positive_int_iff wire_boolean_iff wire_version_iff wire_object_iff wire_utc_iff wire_optional_text_iff

section \<open>What the parsers accept\<close>

definition wire_id :: "string \<Rightarrow> bool" where
  "wire_id s \<longleftrightarrow> (\<exists>i. 0 < i \<and> i < 2 ^ 63 \<and> s = int_str i)"

definition wire_title :: "nat \<Rightarrow> string \<Rightarrow> bool" where
  "wire_title n s \<longleftrightarrow> strip s \<noteq> [] \<and> length s \<le> n"

definition item_well_formed :: "batch_update_item \<Rightarrow> bool" where
  "item_well_formed i \<longleftrightarrow> bi_node_id i < 2 ^ 128 \<and> 1 \<le> bi_expected_node_version i \<and> bi_expected_node_version i < 2 ^ 31
     \<and> wire_title 255 (bi_title i)"

fun command_well_formed :: "wire_lib \<Rightarrow> java_command \<Rightarrow> bool" where
  "command_well_formed W (MeetingAnalysis c) \<longleftrightarrow> mm_command_id c < 2 ^ 128 \<and> wire_id (mm_project_id c) \<and> wire_id (mm_meeting_id c)
     \<and> (\<exists>u < 2 ^ 128. mm_room_name c = uuid_text u) \<and> mm_requested_at_iso c = isoformat W (mm_requested_at c)"
| "command_well_formed W (NodeContentUpdate c) \<longleftrightarrow> uc_command_id c < 2 ^ 128 \<and> wire_id (uc_project_id c) \<and> uc_node_id c < 2 ^ 128
     \<and> 1 \<le> uc_expected_node_version c \<and> uc_expected_node_version c < 2 ^ 31 \<and> (uc_title c \<noteq> None \<or> uc_content c \<noteq> None)
     \<and> pred_option (wire_title 255) (uc_title c) \<and> pred_option (wire_title 65535) (uc_content c)
     \<and> wire_id (uc_requested_by_member_id c) \<and> uc_requested_at_iso c = isoformat W (uc_requested_at c)"
| "command_well_formed W (NodeContentBatchUpdate c) \<longleftrightarrow> bc_command_id c < 2 ^ 128 \<and> wire_id (bc_project_id c)
     \<and> bc_nodes c \<noteq> [] \<and> length (bc_nodes c) \<le> 100 \<and> distinct (map bi_node_id (bc_nodes c)) \<and> list_all item_well_formed (bc_nodes c)
     \<and> wire_id (bc_requested_by_member_id c) \<and> bc_requested_at_iso c = isoformat W (bc_requested_at c)"
| "command_well_formed W (NodeDelete c) \<longleftrightarrow> dc_command_id c < 2 ^ 128 \<and> wire_id (dc_project_id c)
     \<and> dc_node_ids c \<noteq> [] \<and> length (dc_node_ids c) \<le> 10000 \<and> list_all (\<lambda>u. u < 2 ^ 128) (dc_node_ids c)
     \<and> 0 \<le> dc_expected_graph_version c \<and> dc_expected_graph_version c < 2 ^ 31
     \<and> wire_id (dc_requested_by_member_id c) \<and> dc_requested_at_iso c = isoformat W (dc_requested_at c)"

lemma wire_positive_int_id: "wire_positive_int v f = Inr s \<Longrightarrow> wire_id s"
  by (auto simp: wire_positive_int_iff wire_id_def)

lemma parse_batch_items_ok:
  assumes "parse_batch_items i seen raws = Inr items"
  shows "length items = length raws \<and> distinct (map bi_node_id items) \<and> bi_node_id ` set items \<inter> seen = {} \<and> list_all item_well_formed items"
  using assms
proof (induction raws arbitrary: i seen items)
  case (Cons raw raws)
  from Cons.prems obtain kvs where kvs: "raw = JObj kvs" by (auto simp: Let_def split: json.splits)
  from Cons.prems obtain nid v t rest where 1: "nid < 2 ^ 128" "nid \<notin> seen" "1 \<le> v" "v < 2 ^ 31" "strip t \<noteq> []" "length t \<le> 255"
    "parse_batch_items (Suc i) (insert nid seen) raws = Inr rest"
    "items = \<lparr>bi_node_id = nid, bi_expected_node_version = v, bi_title = t\<rparr> # rest"
    unfolding kvs by (auto simp: Let_def result_simps wire_iffs split: option.splits)
  with Cons.IH [OF 1(7)] show ?case by (auto simp: item_well_formed_def wire_title_def)
qed simp

lemma parse_seed_ids_iff: "parse_seed_ids vs = Inr us \<longleftrightarrow> vs = map (\<lambda>u. JStr (Txt (uuid_text u))) us \<and> list_all (\<lambda>u. u < 2 ^ 128) us"
proof (induction vs arbitrary: us)
  case (Cons v vs)
  then show ?case by (cases us) (auto simp: result_simps wire_uuid_iff)
qed auto

lemma wire_seed_list_iff: "wire_seed_list v = Inr raws \<longleftrightarrow> v = JList raws \<and> raws \<noteq> [] \<and> length raws \<le> 10000"
  by (auto simp: wire_seed_list_def result_simps split: json.splits)

lemma optional_text_wire: "wire_optional_text v f n = Inr r \<Longrightarrow> pred_option (wire_title n) r \<and> (r = None \<longleftrightarrow> v = JNull)"
  by (auto simp: wire_optional_text_iff wire_title_def split: option.splits)

lemma parse_analysis_well_formed:
  assumes "parse_analysis_command W payload = Inr c"
  shows "command_well_formed W (MeetingAnalysis c)"
  using assms by (auto simp: parse_analysis_command_def result_simps wire_iffs wire_id_def)

lemma parse_update_v1_well_formed:
  assumes "parse_update_v1 W cid pid t nested = Inr c" "cid < 2 ^ 128" "wire_id pid"
  shows "command_well_formed W (NodeContentUpdate c)"
proof -
  from assms(1) obtain nid v ti co m where f: "wire_uuid (jget nested ''nodeId'') ''nodeId'' = Inr nid"
    "wire_version 1 (jget nested ''expectedNodeVersion'') ''expectedNodeVersion must be a positive JSON integer'' = Inr v"
    "\<not> (jget nested ''title'' = JNull \<and> jget nested ''content'' = JNull)"
    "wire_optional_text (jget nested ''title'') ''title'' 255 = Inr ti" "wire_optional_text (jget nested ''content'') ''content'' 65535 = Inr co"
    "wire_positive_int (jget nested ''requestedByMemberId'') ''requestedByMemberId'' = Inr m"
    and c: "c = \<lparr>uc_command_id = cid, uc_requested_at = t, uc_requested_at_iso = isoformat W t, uc_project_id = pid, uc_node_id = nid,
      uc_expected_node_version = v, uc_title = ti, uc_content = co, uc_requested_by_member_id = m\<rparr>"
    by (auto simp: parse_update_v1_def result_simps)
  from f(1,2) have "nid < 2 ^ 128" "1 \<le> v" "v < 2 ^ 31" by (simp_all add: wire_iffs)
  moreover note optional_text_wire [OF f(4)] optional_text_wire [OF f(5)] wire_positive_int_id [OF f(6)] f(3) assms(2,3)
  ultimately show ?thesis by (auto simp: c)
qed

lemma parse_update_v2_well_formed:
  assumes "parse_update_v2 W cid pid t nested = Inr c" "cid < 2 ^ 128" "wire_id pid"
  shows "command_well_formed W (NodeContentBatchUpdate c)"
proof -
  from assms(1) obtain raws nodes m where f: "raws \<noteq> []" "length raws \<le> 100" "parse_batch_items 0 {} raws = Inr nodes"
    "wire_positive_int (jget nested ''requestedByMemberId'') ''requestedByMemberId'' = Inr m"
    and c: "c = \<lparr>bc_command_id = cid, bc_requested_at = t, bc_requested_at_iso = isoformat W t, bc_project_id = pid, bc_nodes = nodes,
      bc_requested_by_member_id = m\<rparr>"
    by (auto simp: parse_update_v2_def result_simps split: json.splits)
  from parse_batch_items_ok [OF f(3)] f(1,2) wire_positive_int_id [OF f(4)] assms(2,3) show ?thesis by (auto simp: c)
qed

lemma parse_node_update_well_formed:
  assumes "parse_node_update W payload = Inr c"
  shows "command_well_formed W c"
proof -
  from assms obtain cid pid t nested where f: "wire_uuid (jget payload ''commandId'') ''commandId'' = Inr cid"
    "wire_positive_int (jget payload ''projectId'') ''projectId'' = Inr pid"
    and c: "(\<exists>b. parse_update_v2 W cid pid t nested = Inr b \<and> c = NodeContentBatchUpdate b)
      \<or> (\<exists>u. parse_update_v1 W cid pid t nested = Inr u \<and> c = NodeContentUpdate u)"
    by (auto simp: parse_node_update_def Let_def result_simps split: if_splits)
  from f have "cid < 2 ^ 128" "wire_id pid" by (simp add: wire_iffs, simp add: wire_positive_int_id)
  with c parse_update_v1_well_formed parse_update_v2_well_formed show ?thesis by blast
qed

lemma parse_delete_well_formed:
  assumes "parse_node_delete W payload = Inr c"
  shows "command_well_formed W (NodeDelete c)"
  using assms by (auto simp: parse_node_delete_def result_simps wire_iffs wire_id_def parse_seed_ids_iff wire_seed_list_iff)

text \<open>C23. The parsers are strict. Whatever a queue delivers, a command that is accepted has identifiers of 128 bits, project, meeting and member
  numbers in the positive signed 64-bit range, versions in the signed 32-bit range, texts that are neither blank nor longer than their columns,
  between one and a hundred batch items with distinct nodes, between one and ten thousand delete seeds, and a room name in canonical UUID form.\<close>

theorem java_command_well_formed:
  assumes "parse_java_command W body = Inr c"
  shows "command_well_formed W c"
proof -
  from assms obtain payload where
    "(\<exists>m. parse_analysis_command W payload = Inr m \<and> c = MeetingAnalysis m) \<or> parse_node_update W payload = Inr c
     \<or> (\<exists>m. parse_node_delete W payload = Inr m \<and> c = NodeDelete m)"
    by (auto simp: parse_java_command_def result_simps Let_def split: if_splits)
  with parse_analysis_well_formed parse_node_update_well_formed parse_delete_well_formed show ?thesis by blast
qed

section \<open>The commands that Java sends\<close>

definition wire_num :: "string \<Rightarrow> json" where
  "wire_num s = JInt (parse_int s)"

definition wire_uuid_json :: "uuid \<Rightarrow> json" where
  "wire_uuid_json u = JStr (Txt (uuid_text u))"

definition envelope_json :: "int \<Rightarrow> string \<Rightarrow> uuid \<Rightarrow> string \<Rightarrow> string \<Rightarrow> (string \<times> json) list \<Rightarrow> json" where
  "envelope_json version command_type command_id project_id stamp nested = JObj [(''commandSchemaVersion'', JInt version),
     (''commandType'', JStr (Txt command_type)), (''commandId'', wire_uuid_json command_id), (''projectId'', wire_num project_id),
     (''requestedAt'', JStr (Txt stamp)), (''payload'', JObj nested)]"

definition item_json :: "batch_update_item \<Rightarrow> json" where
  "item_json i = JObj [(''nodeId'', wire_uuid_json (bi_node_id i)), (''expectedNodeVersion'', JInt (bi_expected_node_version i)),
     (''title'', JStr (Txt (bi_title i)))]"

fun command_json :: "string \<Rightarrow> java_command \<Rightarrow> json" where
  "command_json stamp (MeetingAnalysis c) = envelope_json 1 ''MEETING_ANALYSIS_REQUESTED'' (mm_command_id c) (mm_project_id c) stamp
     [(''meetingId'', wire_num (mm_meeting_id c)), (''roomName'', JStr (Txt (mm_room_name c))),
      (''generateSummary'', JBool (mm_generate_summary c)), (''generateNodes'', JBool (mm_generate_nodes c))]"
| "command_json stamp (NodeContentUpdate c) = envelope_json 1 ''NODE_CONTENT_UPDATE_REQUESTED'' (uc_command_id c) (uc_project_id c) stamp
     [(''nodeId'', wire_uuid_json (uc_node_id c)), (''expectedNodeVersion'', JInt (uc_expected_node_version c)),
      (''title'', jopt (\<lambda>s. JStr (Txt s)) (uc_title c)), (''content'', jopt (\<lambda>s. JStr (Txt s)) (uc_content c)),
      (''requestedByMemberId'', wire_num (uc_requested_by_member_id c))]"
| "command_json stamp (NodeContentBatchUpdate c) = envelope_json 2 ''NODE_CONTENT_UPDATE_REQUESTED'' (bc_command_id c) (bc_project_id c) stamp
     [(''nodes'', JList (map item_json (bc_nodes c))), (''requestedByMemberId'', wire_num (bc_requested_by_member_id c))]"
| "command_json stamp (NodeDelete c) = envelope_json 1 ''NODE_DELETE_REQUESTED'' (dc_command_id c) (dc_project_id c) stamp
     [(''nodeIds'', JList (map wire_uuid_json (dc_node_ids c))), (''expectedGraphVersion'', JInt (dc_expected_graph_version c)),
      (''requestedByMemberId'', wire_num (dc_requested_by_member_id c))]"

fun requested_at_of :: "java_command \<Rightarrow> time" where
  "requested_at_of (MeetingAnalysis c) = mm_requested_at c"
| "requested_at_of (NodeContentUpdate c) = uc_requested_at c"
| "requested_at_of (NodeContentBatchUpdate c) = bc_requested_at c"
| "requested_at_of (NodeDelete c) = dc_requested_at c"

lemma wire_num_parsed: "wire_id s \<Longrightarrow> wire_positive_int (wire_num s) f = Inr s"
  using int_str_canonical by (auto simp: wire_id_def wire_num_def wire_positive_int_def)

lemma wire_uuid_parsed: "u < 2 ^ 128 \<Longrightarrow> wire_uuid (wire_uuid_json u) f = Inr u"
  by (simp add: wire_uuid_json_def wire_uuid_iff)

lemma wire_optional_parsed: "pred_option (wire_title n) r \<Longrightarrow> wire_optional_text (jopt (\<lambda>s. JStr (Txt s)) r) f n = Inr r"
  by (cases r) (simp_all add: wire_optional_text_iff wire_title_def jopt_def)

lemma jopt_null: "jopt (\<lambda>s. JStr (Txt s)) r = JNull \<longleftrightarrow> r = None"
  by (cases r) (simp_all add: jopt_def)

lemma batch_items_parsed:
  assumes "list_all item_well_formed items" "distinct (map bi_node_id items)" "bi_node_id ` set items \<inter> seen = {}"
  shows "parse_batch_items i seen (map item_json items) = Inr items"
  using assms
proof (induction items arbitrary: i seen)
  case (Cons x items)
  from Cons.prems(1) have x: "bi_node_id x < 2 ^ 128" "1 \<le> bi_expected_node_version x" "bi_expected_node_version x < 2 ^ 31"
    "strip (bi_title x) \<noteq> []" "length (bi_title x) \<le> 255" by (simp_all add: item_well_formed_def wire_title_def)
  have "parse_batch_items (Suc i) (insert (bi_node_id x) seen) (map item_json items) = Inr items"
    using Cons.prems by (intro Cons.IH) auto
  moreover have "wire_version 1 (JInt (bi_expected_node_version x)) m = Inr (bi_expected_node_version x)" for m
    using x(2,3) by (simp add: wire_version_iff)
  ultimately show ?case using x Cons.prems(3) by (simp add: Let_def item_json_def [of x] wire_uuid_parsed [OF x(1)])
qed simp

lemmas envelope_simps = envelope_json_def wire_object_def wire_num_parsed wire_uuid_parsed

lemma analysis_command_parsed:
  assumes "command_well_formed W (MeetingAnalysis c)" "wire_utc_datetime W (JStr (Txt stamp)) = Inr (mm_requested_at c)"
  shows "parse_analysis_command W (command_json stamp (MeetingAnalysis c)) = Inr c"
proof -
  from assms(1) obtain u where u: "u < 2 ^ 128" "mm_room_name c = uuid_text u" by auto
  then have "wire_uuid (JStr (Txt (mm_room_name c))) f = Inr u" for f by (simp add: wire_uuid_iff)
  with assms u(2) show ?thesis by (simp add: parse_analysis_command_def envelope_simps wire_boolean_def)
qed

lemma update_command_parsed:
  assumes "command_well_formed W (NodeContentUpdate c)" "wire_utc_datetime W (JStr (Txt stamp)) = Inr (uc_requested_at c)"
  shows "parse_node_update W (command_json stamp (NodeContentUpdate c)) = Inr (NodeContentUpdate c)"
proof -
  from assms(1) have "wire_version 1 (JInt (uc_expected_node_version c)) m = Inr (uc_expected_node_version c)" for m
    by (simp add: wire_version_iff)
  moreover have "rguard (uc_title c = None \<and> uc_content c = None) e k = k" for e and k :: "node_content_update_command result"
    using assms(1) by (auto simp: rguard_def)
  ultimately show ?thesis using assms
    by (simp add: parse_node_update_def parse_update_v1_def envelope_simps wire_optional_parsed jopt_null)
qed

lemma batch_command_parsed:
  assumes "command_well_formed W (NodeContentBatchUpdate c)" "wire_utc_datetime W (JStr (Txt stamp)) = Inr (bc_requested_at c)"
  shows "parse_node_update W (command_json stamp (NodeContentBatchUpdate c)) = Inr (NodeContentBatchUpdate c)"
  using assms by (simp add: parse_node_update_def parse_update_v2_def envelope_simps batch_items_parsed)

lemma delete_command_parsed:
  assumes "command_well_formed W (NodeDelete c)" "wire_utc_datetime W (JStr (Txt stamp)) = Inr (dc_requested_at c)"
  shows "parse_node_delete W (command_json stamp (NodeDelete c)) = Inr c"
proof -
  from assms(1) have "wire_version 0 (JInt (dc_expected_graph_version c)) m = Inr (dc_expected_graph_version c)" for m
    by (simp add: wire_version_iff)
  moreover have "parse_seed_ids (map wire_uuid_json (dc_node_ids c)) = Inr (dc_node_ids c)"
    using assms(1) by (simp add: parse_seed_ids_iff wire_uuid_json_def)
  ultimately show ?thesis using assms
    by (simp add: parse_node_delete_def envelope_simps wire_seed_list_def)
qed

text \<open>C24. Every well-formed command gets through: the parsers return exactly the command that its JSON form describes, so no command
  that satisfies the contract is lost or changed on its way from the queue to its handler.\<close>

theorem java_command_roundtrip:
  assumes "command_well_formed W c" "json_loads W body = Inr (command_json stamp c)"
    and "wire_utc_datetime W (JStr (Txt stamp)) = Inr (requested_at_of c)"
  shows "parse_java_command W body = Inr c"
proof -
  have "json_object W body = Inr (command_json stamp c)" using assms(2) by (cases c) (simp_all add: json_object_def envelope_json_def)
  moreover have "jget (command_json stamp c) ''commandType'' = JStr (Txt (case c of MeetingAnalysis _ \<Rightarrow> ''MEETING_ANALYSIS_REQUESTED''
      | NodeDelete _ \<Rightarrow> ''NODE_DELETE_REQUESTED'' | _ \<Rightarrow> ''NODE_CONTENT_UPDATE_REQUESTED''))"
    by (cases c) (simp_all add: envelope_json_def)
  ultimately show ?thesis
    using assms(1,3) analysis_command_parsed update_command_parsed batch_command_parsed delete_command_parsed
    by (cases c) (simp_all add: parse_java_command_def Let_def del: command_json.simps command_well_formed.simps)
qed

section \<open>The properties at a concrete message\<close>

definition sample_wire_delete :: node_delete_command where
  "sample_wire_delete = \<lparr>dc_command_id = 5, dc_requested_at = 7, dc_requested_at_iso = ''t'', dc_project_id = ''15'', dc_node_ids = [6, 6],
     dc_expected_graph_version = 0, dc_requested_by_member_id = ''9''\<rparr>"

definition sample_wire :: wire_lib where
  "sample_wire = \<lparr>json_loads = (\<lambda>_. Inr (command_json ''2026-01-01T00:00:00Z'' (NodeDelete sample_wire_delete))),
     from_isoformat = (\<lambda>s. if s = ''2026-01-01T00:00:00+00:00'' then Some (7, Some 0) else None), isoformat = (\<lambda>_. ''t'')\<rparr>"

lemma sample_wire_utc: "wire_utc_datetime sample_wire (JStr (Txt ''2026-01-01T00:00:00Z'')) = Inr 7"
  unfolding wire_utc_datetime_def sample_wire_def by code_simp

lemma sample_wire_ok: "command_well_formed sample_wire (NodeDelete sample_wire_delete)"
proof -
  have "wire_id ''15''" "wire_id ''9''" unfolding wire_id_def
    by (rule exI [of _ 15], code_simp) (rule exI [of _ 9], code_simp)
  then show ?thesis by (simp add: sample_wire_delete_def sample_wire_def)
qed

lemma sample_wire_parsed: "parse_java_command sample_wire ''body'' = Inr (NodeDelete sample_wire_delete)"
proof -
  have "json_object sample_wire ''body'' = Inr (command_json ''2026-01-01T00:00:00Z'' (NodeDelete sample_wire_delete))"
    by (simp add: json_object_def sample_wire_def envelope_json_def)
  moreover have "parse_node_delete sample_wire (command_json ''2026-01-01T00:00:00Z'' (NodeDelete sample_wire_delete)) = Inr sample_wire_delete"
    by (rule delete_command_parsed [OF sample_wire_ok]) (simp add: sample_wire_utc sample_wire_delete_def)
  ultimately show ?thesis by (simp add: parse_java_command_def Let_def) (simp add: envelope_json_def)
qed

theorem java_command_roundtrip_witness: "parse_java_command sample_wire ''body'' = Inr (NodeDelete sample_wire_delete)"
proof (rule java_command_roundtrip [OF sample_wire_ok])
  show "json_loads sample_wire ''body'' = Inr (command_json ''2026-01-01T00:00:00Z'' (NodeDelete sample_wire_delete))"
    by (simp add: sample_wire_def del: command_json.simps)
qed (simp add: sample_wire_utc sample_wire_delete_def)

theorem java_command_well_formed_witness:
  "\<exists>c. parse_java_command sample_wire ''body'' = Inr (NodeDelete c) \<and> dc_node_ids c = [6, 6] \<and> command_well_formed sample_wire (NodeDelete c)"
  using java_command_well_formed [OF sample_wire_parsed] sample_wire_parsed by (auto simp: sample_wire_delete_def)

end
