(* ===== verification/Openvidu_Events.thy ===== *)
theory Openvidu_Events
  imports Command_Wire
begin

text \<open>
  \<open>worker/openvidu_events.py\<close>: the parser of the recording notifications, with the check that the object key lies
  under the configured prefix and in the directory of its own room.
\<close>

section \<open>Paths\<close>

fun split_on :: "char \<Rightarrow> string \<Rightarrow> string list" where
  "split_on c [] = [[]]"
| "split_on c (x # xs) = (if x = c then [] # split_on c xs
     else (case split_on c xs of [] \<Rightarrow> [[x]] | p # ps \<Rightarrow> (x # p) # ps))"

text \<open>\<open>s.lower()\<close> on code points below 256.\<close>

definition lower_char :: "char \<Rightarrow> char" where
  "lower_char c = (let n = (of_char c :: nat) in
     if 65 \<le> n \<and> n \<le> 90 \<or> 192 \<le> n \<and> n \<le> 222 \<and> n \<noteq> 215 then char_of (n + 32) else c)"

text \<open>\<open>PurePosixPath(name).suffix\<close> of a path segment: from the last dot, unless the dot is the first or the last character.\<close>

definition path_suffix :: "string \<Rightarrow> string" where
  "path_suffix name =
     (let ext = takeWhile (\<lambda>c. c \<noteq> CHR ''.'') (rev name)
      in if ext = [] \<or> length name \<le> Suc (length ext) then [] else CHR ''.'' # rev ext)"

definition rstrip_slash :: "string \<Rightarrow> string" where
  "rstrip_slash s = rev (dropWhile (\<lambda>c. c = CHR ''/'') (rev s))"

section \<open>The parser\<close>

record openvidu_parser =
  op_recording_prefix :: string
  op_allowed_extensions :: "string list"
  op_supported_kinds :: "string list"

definition DEFAULT_SUPPORTED_KINDS :: "string list" where
  "DEFAULT_SUPPORTED_KINDS = [''MIXED'']"

definition default_openvidu_parser :: openvidu_parser where
  "default_openvidu_parser = \<lparr>op_recording_prefix = ''meetings/'',
     op_allowed_extensions = [''.wav'', ''.mp3'', ''.m4a'', ''.flac'', ''.ogg'', ''.aac''],
     op_supported_kinds = DEFAULT_SUPPORTED_KINDS\<rparr>"

definition check_openvidu_parser :: "openvidu_parser \<Rightarrow> unit result" where
  "check_openvidu_parser P =
     rguard (op_recording_prefix P = [] \<or> last (op_recording_prefix P) \<noteq> CHR ''/'')
       (ValueError (''OpenVidu recording prefix must be non-empty and end with '' @ [CHR 0x27, CHR ''/'', CHR 0x27]))
    (rguard (op_allowed_extensions P = []) (ValueError ''At least one audio extension must be allowed'')
    (rguard (op_supported_kinds P = []) (ValueError ''At least one egress kind must be supported'') (Inr ())))"

abbreviation reject_event :: "string \<Rightarrow> 'a result" where
  "reject_event m \<equiv> Inl (OpenViduEventValidationError m)"

definition required_text :: "json \<Rightarrow> string \<Rightarrow> nat \<Rightarrow> string result" where
  "required_text payload field max_length =
     (case json_text_of (jget payload field) of
        None \<Rightarrow> reject_event (''OpenVidu egress event has no '' @ field)
      | Some s \<Rightarrow>
          rguard (strip s = []) (OpenViduEventValidationError (''OpenVidu egress event has no '' @ field))
         (rguard (length (strip s) > max_length) (OpenViduEventValidationError (''OpenVidu egress event '' @ field @ '' is too long''))
         (Inr (strip s))))"

definition positive_identifier :: "json \<Rightarrow> string \<Rightarrow> string result" where
  "positive_identifier payload field =
     (case jget payload field of
        JInt i \<Rightarrow> if i \<le> 0 \<or> i > 2 ^ 63 - 1
          then reject_event (''OpenVidu egress '' @ field @ '' is outside the positive signed 64-bit range'') else Inr (int_str i)
      | _ \<Rightarrow> reject_event (''OpenVidu egress '' @ field @ '' must be a positive JSON integer''))"

definition validate_object_key :: "openvidu_parser \<Rightarrow> string \<Rightarrow> string \<Rightarrow> unit result" where
  "validate_object_key P object_key room_name =
     (let parts = split_on CHR ''/'' object_key;
          prefix_parts = split_on CHR ''/'' (rstrip_slash (op_recording_prefix P))
      in rguard (CHR 0x5C \<in> set object_key) (OpenViduEventValidationError ''OpenVidu objectKey must not contain a backslash'')
        (rguard (\<exists>part \<in> set parts. part \<in> {[], ''.'', ''..''})
           (OpenViduEventValidationError ''OpenVidu objectKey must not contain empty or relative path segments'')
        (rguard (take (length prefix_parts) parts \<noteq> prefix_parts)
           (OpenViduEventValidationError ''OpenVidu objectKey is outside the configured recording prefix'')
        (rguard (length parts \<le> length prefix_parts)
           (OpenViduEventValidationError ''OpenVidu objectKey has no object name under the prefix'')
        (rguard (parts ! length prefix_parts \<noteq> room_name)
           (OpenViduEventValidationError ''OpenVidu objectKey room segment does not match roomName'')
        (rguard (map lower_char (path_suffix (last parts)) \<notin> set (op_allowed_extensions P))
           (OpenViduEventValidationError ''OpenVidu objectKey has a disallowed audio extension'') (Inr ())))))))"

definition parse_kind :: "openvidu_parser \<Rightarrow> json \<Rightarrow> string result" where
  "parse_kind P value =
     (case json_text_of value of
        None \<Rightarrow> reject_event ''OpenVidu egress event has no kind''
      | Some s \<Rightarrow>
          rguard (strip s = []) (OpenViduEventValidationError ''OpenVidu egress event has no kind'')
         (rguard (strip s \<notin> set (op_supported_kinds P))
            (OpenViduEventValidationError (''OpenVidu egress kind is not supported: '' @ strip s)) (Inr (strip s))))"

definition parse_member_id :: "json \<Rightarrow> string option result" where
  "parse_member_id value =
     (if value = JNull then Inr None
      else case json_text_of value of
             None \<Rightarrow> reject_event ''OpenVidu egress memberId must be a non-empty string or null''
           | Some s \<Rightarrow> if strip s = [] then reject_event ''OpenVidu egress memberId must be a non-empty string or null''
                       else Inr (Some (strip s)))"

definition parse_ended_at :: "json \<Rightarrow> string option result" where
  "parse_ended_at value =
     (if value = JNull then Inr None
      else case json_text_of value of
             None \<Rightarrow> reject_event ''OpenVidu egress endedAt must be a string when present''
           | Some s \<Rightarrow> Inr (Some s))"

definition parse_openvidu_payload :: "openvidu_parser \<Rightarrow> json \<Rightarrow> openvidu_egress_event result" where
  "parse_openvidu_payload P payload =
     (case payload of
        JObj _ \<Rightarrow>
          rbind (positive_identifier payload ''projectId'') (\<lambda>project_id.
          rbind (required_text payload ''roomName'' 128) (\<lambda>room_name.
          rguard (parse_uuid_text room_name = None) (OpenViduEventValidationError ''OpenVidu egress roomName must be a UUID'')
         (rbind (required_text payload ''egressId'' 128) (\<lambda>egress_id.
          rbind (required_text payload ''objectKey'' 1024) (\<lambda>object_key.
          rbind (parse_kind P (jget payload ''kind'')) (\<lambda>kind.
          rbind (parse_member_id (jget payload ''memberId'')) (\<lambda>member_id.
          rbind (parse_ended_at (jget payload ''endedAt'')) (\<lambda>ended_at.
          rbind (validate_object_key P object_key room_name) (\<lambda>_.
            Inr \<lparr>ov_project_id = project_id, ov_room_name = room_name, ov_object_key = object_key, ov_egress_id = egress_id,
                 ov_kind = kind, ov_member_id = member_id, ov_ended_at_raw = ended_at\<rparr>)))))))))
      | _ \<Rightarrow> reject_event ''OpenVidu egress event must be a JSON object'')"

definition parse_openvidu_event :: "wire_lib \<Rightarrow> openvidu_parser \<Rightarrow> string \<Rightarrow> openvidu_egress_event result" where
  "parse_openvidu_event W P body =
     (case json_loads W body of
        Inl TypeError \<Rightarrow> reject_event ''OpenVidu egress body is not valid JSON''
      | Inl JSONDecodeError \<Rightarrow> reject_event ''OpenVidu egress body is not valid JSON''
      | Inl e \<Rightarrow> Inl e
      | Inr payload \<Rightarrow> parse_openvidu_payload P payload)"

definition DISCRIMINATOR_FIELDS :: "string list" where
  "DISCRIMINATOR_FIELDS = [''roomName'', ''objectKey'', ''egressId'']"

definition looks_like_openvidu_egress :: "json \<Rightarrow> bool" where
  "looks_like_openvidu_egress payload =
     (case payload of JObj kvs \<Rightarrow> list_all (\<lambda>f. map_of kvs f \<noteq> None) DISCRIMINATOR_FIELDS | _ \<Rightarrow> False)"

section \<open>Accepted recordings\<close>

fun join_on :: "char \<Rightarrow> string list \<Rightarrow> string" where
  "join_on c [] = []"
| "join_on c [p] = p"
| "join_on c (p # q # ps) = p @ [c] @ join_on c (q # ps)"

lemma split_on_ne: "split_on c s \<noteq> []"
  by (induction s) (auto split: list.splits)

lemma join_split: "join_on c (split_on c s) = s"
proof (induction s)
  case (Cons x xs)
  from split_on_ne [of c xs] obtain p ps where p: "split_on c xs = p # ps" by (cases "split_on c xs") auto
  with Cons show ?case by (cases ps) auto
qed simp

lemma join_on_append: "ps \<noteq> [] \<Longrightarrow> qs \<noteq> [] \<Longrightarrow> join_on c (ps @ qs) = join_on c ps @ [c] @ join_on c qs"
proof (induction ps rule: join_on.induct)
  case (2 c p)
  then show ?case by (cases qs) auto
qed auto

text \<open>The object key of an accepted recording: the prefix, the room of the event, and no step out of that directory.\<close>

definition key_of_room :: "openvidu_parser \<Rightarrow> openvidu_egress_event \<Rightarrow> bool" where
  "key_of_room P e \<longleftrightarrow> (\<exists>tail. ov_object_key e = rstrip_slash (op_recording_prefix P) @ ''/'' @ ov_room_name e @ tail
       \<and> (tail = [] \<or> hd tail = CHR ''/''))
     \<and> list_all (\<lambda>part. part \<notin> {[], ''.'', ''..''}) (split_on CHR ''/'' (ov_object_key e))"

lemma validate_key_room:
  assumes "validate_object_key P (ov_object_key e) (ov_room_name e) = Inr ()"
  shows "key_of_room P e"
proof -
  let ?parts = "split_on CHR ''/'' (ov_object_key e)" and ?pre = "split_on CHR ''/'' (rstrip_slash (op_recording_prefix P))"
  from assms have r: "list_all (\<lambda>part. part \<notin> {[], ''.'', ''..''}) ?parts" and p: "take (length ?pre) ?parts = ?pre"
    "length ?pre < length ?parts" "?parts ! length ?pre = ov_room_name e"
    by (auto simp: validate_object_key_def Let_def result_simps list_all_iff)
  then obtain more where parts: "?parts = ?pre @ ov_room_name e # more"
    by (metis Cons_nth_drop_Suc append_take_drop_id)
  have "ov_object_key e = join_on CHR ''/'' (?pre @ ov_room_name e # more)" by (metis join_split parts)
  also have "\<dots> = rstrip_slash (op_recording_prefix P) @ ''/'' @ join_on CHR ''/'' (ov_room_name e # more)"
    by (simp add: join_on_append split_on_ne join_split)
  also have "join_on CHR ''/'' (ov_room_name e # more) = ov_room_name e @ (if more = [] then [] else CHR ''/'' # join_on CHR ''/'' more)"
    by (cases more) auto
  finally have key: "ov_object_key e = rstrip_slash (op_recording_prefix P) @ ''/'' @ ov_room_name e
      @ (if more = [] then [] else CHR ''/'' # join_on CHR ''/'' more)" .
  moreover have "(if more = [] then [] else CHR ''/'' # join_on CHR ''/'' more) = []
      \<or> hd (if more = [] then [] else CHR ''/'' # join_on CHR ''/'' more) = CHR ''/''" by simp
  ultimately show ?thesis using r unfolding key_of_room_def by blast
qed

lemma required_text_iff: "required_text payload f n = Inr s \<longleftrightarrow>
    (\<exists>t. jget payload f = JStr (Txt t) \<and> s = strip t \<and> s \<noteq> [] \<and> length s \<le> n)"
  by (auto simp: required_text_def result_simps split: option.splits)

lemma positive_identifier_iff: "positive_identifier payload f = Inr s \<longleftrightarrow> (\<exists>i. jget payload f = JInt i \<and> 0 < i \<and> i < 2 ^ 63 \<and> s = int_str i)"
  by (auto simp: positive_identifier_def split: json.splits)

lemma openvidu_parts:
  assumes "parse_openvidu_payload P payload = Inr e"
  shows "validate_object_key P (ov_object_key e) (ov_room_name e) = Inr ()" "ov_room_name e \<noteq> []" "length (ov_room_name e) \<le> 128"
    "length (ov_egress_id e) \<le> 128" "ov_kind e \<in> set (op_supported_kinds P)" "strip (ov_room_name e) = ov_room_name e"
    "\<exists>i. 0 < i \<and> i < 2 ^ 63 \<and> ov_project_id e = int_str i"
proof -
  from assms obtain pid room eg key kind m en where f: "positive_identifier payload ''projectId'' = Inr pid" "required_text payload ''roomName'' 128 = Inr room"
    "required_text payload ''egressId'' 128 = Inr eg" "parse_kind P (jget payload ''kind'') = Inr kind" "validate_object_key P key room = Inr ()"
    and e: "e = \<lparr>ov_project_id = pid, ov_room_name = room, ov_object_key = key, ov_egress_id = eg, ov_kind = kind, ov_member_id = m, ov_ended_at_raw = en\<rparr>"
    by (auto simp: parse_openvidu_payload_def result_simps split: json.splits)
  show "validate_object_key P (ov_object_key e) (ov_room_name e) = Inr ()" using f(5) by (simp add: e)
  show "ov_room_name e \<noteq> []" "length (ov_room_name e) \<le> 128" "length (ov_egress_id e) \<le> 128" using f(2,3) by (auto simp: e required_text_iff)
  show "ov_kind e \<in> set (op_supported_kinds P)" using f(4) by (auto simp: e parse_kind_def result_simps split: option.splits)
  show "\<exists>i. 0 < i \<and> i < 2 ^ 63 \<and> ov_project_id e = int_str i" using f(1) by (auto simp: e positive_identifier_iff)
  show "strip (ov_room_name e) = ov_room_name e" using f(2) by (auto simp: e required_text_iff strip_strip)
qed


lemma blank_sql_strip: "blank_sql s \<Longrightarrow> strip s = []"
proof -
  assume "blank_sql s"
  moreover have "is_space CHR '' ''" by code_simp
  ultimately have "\<forall>c \<in> set s. is_space c" unfolding blank_sql_def by metis
  then have "dropWhile is_space s = []" by simp
  then show "strip s = []" unfolding strip_def by (metis dropWhile.simps(1) rev.simps(1))
qed


definition sample_room :: string where
  "sample_room = ''00000000-0000-0000-0000-0000000000ab''"

definition sample_egress :: json where
  "sample_egress = JObj [(''projectId'', JInt 15), (''roomName'', JStr (Txt sample_room)), (''egressId'', JStr (Txt ''EG'')),
     (''objectKey'', JStr (Txt (''meetings/'' @ sample_room @ ''/mixed/a.ogg''))), (''kind'', JStr (Txt ''MIXED''))]"

definition sample_egress_wire :: wire_lib where
  "sample_egress_wire = \<lparr>json_loads = (\<lambda>_. Inr sample_egress), from_isoformat = (\<lambda>_. None), isoformat = (\<lambda>_. [])\<rparr>"

lemma sample_egress_parsed:
  "parse_openvidu_payload default_openvidu_parser sample_egress = Inr \<lparr>ov_project_id = ''15'', ov_room_name = sample_room,
     ov_object_key = ''meetings/'' @ sample_room @ ''/mixed/a.ogg'', ov_egress_id = ''EG'', ov_kind = ''MIXED'', ov_member_id = None,
     ov_ended_at_raw = None\<rparr>"
  unfolding sample_egress_def sample_room_def by code_simp



text \<open>A room name in another form than the canonical one is accepted here and refused for commands: the recording is stored under a
  name that no command can have, so it is never joined.\<close>

definition upper_room :: string where
  "upper_room = ''00000000-0000-0000-0000-0000000000AB''"

lemma upper_room_accepted:
  "parse_openvidu_payload default_openvidu_parser (JObj [(''projectId'', JInt 15), (''roomName'', JStr (Txt upper_room)), (''egressId'', JStr (Txt ''EG'')),
     (''objectKey'', JStr (Txt (''meetings/'' @ upper_room @ ''/a.ogg''))), (''kind'', JStr (Txt ''MIXED''))])
   = Inr \<lparr>ov_project_id = ''15'', ov_room_name = upper_room, ov_object_key = ''meetings/'' @ upper_room @ ''/a.ogg'', ov_egress_id = ''EG'',
     ov_kind = ''MIXED'', ov_member_id = None, ov_ended_at_raw = None\<rparr>"
  unfolding upper_room_def by code_simp

lemma upper_room_never_commanded:
  assumes "command_well_formed W (MeetingAnalysis c)"
  shows "mm_room_name c \<noteq> upper_room"
proof
  assume "mm_room_name c = upper_room"
  with assms obtain u where u: "u < 2 ^ 128" "uuid_text u = upper_room" by auto
  have p: "parse_uuid_text upper_room = Some 171" "uuid_text 171 \<noteq> upper_room" unfolding upper_room_def by code_simp+
  from uuid_text_roundtrip [OF u(1)] u(2) p show False by simp
qed

end
