(* ===== verification/Input_Consumers.thy ===== *)
theory Input_Consumers
  imports Openvidu_Events
begin

text \<open>
  \<open>meeting_analysis/dispatcher.py\<close> and \<open>meeting_analysis/consumers.py\<close>: a command that was parsed goes to the handler of
  its type, and a message is removed from the queue only after its handler committed. The queue service is a parameter: a state,
  what a receive call returns in it, and what a delete call does to it.
\<close>

section \<open>The dispatcher\<close>

datatype dispatch_result =
    CommandPersisted "meeting_analysis_command \<times> bool"
  | NodeUpdated node_content_update_result
  | NodesUpdated node_content_batch_update_result
  | NodesDeleted node_delete_result

text \<open>\<open>d\<close> is the state the first attempt sees, \<open>ds\<close> are the states that retries after a lost race see.\<close>

fun dispatch_java_command :: "stdlib \<Rightarrow> java_command \<Rightarrow> time \<Rightarrow> db \<Rightarrow> db list \<Rightarrow> (dispatch_result \<times> db) result" where
  "dispatch_java_command L (MeetingAnalysis c) now d ds =
     rbind (persist_analysis_command L c now (d # ds)) (\<lambda>(r, d'). Inr (CommandPersisted r, d'))"
| "dispatch_java_command L (NodeContentUpdate c) now d ds =
     rbind (process_node_content_update L c now d (hd (ds @ [d]))) (\<lambda>(r, d'). Inr (NodeUpdated r, d'))"
| "dispatch_java_command L (NodeContentBatchUpdate c) now d ds =
     rbind (process_node_content_batch_update L c now d (hd (ds @ [d]))) (\<lambda>(r, d'). Inr (NodesUpdated r, d'))"
| "dispatch_java_command L (NodeDelete c) now d ds =
     rbind (process_node_delete L c now d (hd (ds @ [d]))) (\<lambda>(r, d'). Inr (NodesDeleted r, d'))"

section \<open>The consumers\<close>

record input_poll_result =
  ip_received :: nat
  ip_acknowledged :: nat
  ip_failed :: nat

text \<open>The handlers of the two queues. No other transaction comes between an attempt and its retry here: both see the same state.\<close>

type_synonym persist_body = "string \<Rightarrow> db \<Rightarrow> (unit \<times> db) result"

definition persist_command_body :: "stdlib \<Rightarrow> wire_lib \<Rightarrow> time \<Rightarrow> persist_body" where
  "persist_command_body L W now body d =
     rbind (parse_java_command W body) (\<lambda>c.
     rbind (dispatch_java_command L c now d [d]) (\<lambda>(_, d'). Inr ((), d')))"

definition persist_recording_body :: "wire_lib \<Rightarrow> openvidu_parser \<Rightarrow> string \<Rightarrow> time \<Rightarrow> persist_body" where
  "persist_recording_body W P bucket now body d =
     rbind (parse_openvidu_event W P body) (\<lambda>e.
     rbind (persist_recording_ready e bucket now [d, d]) (\<lambda>(_, d'). Inr ((), d')))"

text \<open>The loop over the messages of one response: the numbers of acknowledged and of failed messages, or the exception of a
  delete call, which ends the poll.\<close>

fun consume :: "persist_body \<Rightarrow> (string \<Rightarrow> 'w \<Rightarrow> unit result \<times> 'w) \<Rightarrow> json list \<Rightarrow> nat \<times> nat \<Rightarrow> db \<times> 'w
    \<Rightarrow> (nat \<times> nat) result \<times> db \<times> 'w" where
  "consume persist delete [] counts s = (Inr counts, s)"
| "consume persist delete (m # ms) (acknowledged, failed) (d, w) =
     (case (json_text_of (jget m ''Body''), json_text_of (jget m ''ReceiptHandle'')) of
        (Some body, Some receipt_handle) \<Rightarrow>
          (case persist body d of
             Inl _ \<Rightarrow> consume persist delete ms (acknowledged, failed + 1) (d, w)
           | Inr (_, d') \<Rightarrow>
               (case delete receipt_handle w of
                  (Inl e, w') \<Rightarrow> (Inl e, d', w')
                | (Inr _, w') \<Rightarrow> consume persist delete ms (acknowledged + 1, failed) (d', w')))
      | _ \<Rightarrow> consume persist delete ms (acknowledged, failed + 1) (d, w))"

definition messages_of :: "json \<Rightarrow> json list" where
  "messages_of response = (case jget response ''Messages'' of JList ms \<Rightarrow> ms | _ \<Rightarrow> [])"

definition poll_once :: "('w \<Rightarrow> json result \<times> 'w) \<Rightarrow> (string \<Rightarrow> 'w \<Rightarrow> unit result \<times> 'w) \<Rightarrow> persist_body \<Rightarrow> db \<times> 'w
    \<Rightarrow> input_poll_result result \<times> db \<times> 'w" where
  "poll_once receive delete persist s =
     (case s of (d, w) \<Rightarrow>
      case receive w of
        (Inl e, w') \<Rightarrow> (Inl e, d, w')
      | (Inr response, w') \<Rightarrow>
          (case consume persist delete (messages_of response) (0, 0) (d, w') of
             (Inl e, s') \<Rightarrow> (Inl e, s')
           | (Inr (acknowledged, failed), s') \<Rightarrow>
               (Inr \<lparr>ip_received = length (messages_of response), ip_acknowledged = acknowledged, ip_failed = failed\<rparr>, s')))"

text \<open>\<open>run_forever\<close> up to its \<open>n\<close>-th round: whatever a poll returns or raises, the next one follows. The clock of each round is an
  argument.\<close>

fun run_rounds :: "('w \<Rightarrow> json result \<times> 'w) \<Rightarrow> (string \<Rightarrow> 'w \<Rightarrow> unit result \<times> 'w) \<Rightarrow> (time \<Rightarrow> persist_body) \<Rightarrow> (nat \<Rightarrow> time) \<Rightarrow> nat
    \<Rightarrow> db \<times> 'w \<Rightarrow> db \<times> 'w" where
  "run_rounds receive delete persist clock 0 s = s"
| "run_rounds receive delete persist clock (Suc n) s =
     snd (poll_once receive delete (persist (clock n)) (run_rounds receive delete persist clock n s))"

section \<open>The inbox of all commands\<close>

fun fresh_java :: "java_command \<Rightarrow> db \<Rightarrow> bool" where
  "fresh_java (MeetingAnalysis c) d = fresh_command c d"
| "fresh_java (NodeContentUpdate c) d = fresh_update c d"
| "fresh_java (NodeContentBatchUpdate c) d = fresh_batch c d"
| "fresh_java (NodeDelete c) d = fresh_delete c d"

fun settled_java :: "stdlib \<Rightarrow> java_command \<Rightarrow> db \<Rightarrow> bool" where
  "settled_java L (MeetingAnalysis c) d = settled_command L c d"
| "settled_java L (NodeContentUpdate c) d = settled_update L c d"
| "settled_java L (NodeContentBatchUpdate c) d = settled_batch L c d"
| "settled_java L (NodeDelete c) d = settled_delete L c d"

lemma persist_command_twice: "persist_analysis_command L c now [d, d] = Inr x \<longleftrightarrow> persist_analysis_command L c now [d] = Inr x"
  by (auto split: sum.splits py_error.splits)

interpretation java_inbox: idempotent_inbox "\<lambda>c d. dispatch_java_command L c now d [d]" fresh_java "settled_java L" for L now
proof unfold_locales
  fix c d r d'
  assume f: "fresh_java c d" and h: "dispatch_java_command L c now d [d] = Inr (r, d')"
  show "settled_java L c d'"
  proof (cases c)
    case (MeetingAnalysis m)
    with h obtain r' where "persist_analysis_command L m now [d] = Inr (r', d')"
      by (auto simp: result_simps persist_command_twice simp del: persist_analysis_command.simps)
    with f MeetingAnalysis show ?thesis using analysis_command_inbox.settles by auto
  next
    case (NodeContentUpdate m)
    with f h show ?thesis using node_update_inbox.settles by (auto simp: result_simps)
  next
    case (NodeContentBatchUpdate m)
    with f h show ?thesis using node_batch_inbox.settles by (auto simp: result_simps)
  next
    case (NodeDelete m)
    with f h show ?thesis using node_delete_inbox.settles by (auto simp: result_simps)
  qed
next
  fix c d
  assume s: "settled_java L c d"
  show "\<exists>r. dispatch_java_command L c now d [d] = Inr (r, d)"
  proof (cases c)
    case (MeetingAnalysis m)
    with s obtain r where "persist_analysis_command L m now [d] = Inr (r, d)" using analysis_command_inbox.replays by fastforce
    then have "persist_analysis_command L m now [d, d] = Inr (r, d)" by (simp only: persist_command_twice)
    with MeetingAnalysis show ?thesis by (simp del: persist_analysis_command.simps)
  next
    case (NodeContentUpdate m)
    with s obtain r where "process_node_content_update L m now d d = Inr (r, d)" using node_update_inbox.replays by fastforce
    with NodeContentUpdate show ?thesis by simp
  next
    case (NodeContentBatchUpdate m)
    with s obtain r where "process_node_content_batch_update L m now d d = Inr (r, d)" using node_batch_inbox.replays by fastforce
    with NodeContentBatchUpdate show ?thesis by simp
  next
    case (NodeDelete m)
    with s obtain r where "process_node_delete L m now d d = Inr (r, d)" using node_delete_inbox.replays by fastforce
    with NodeDelete show ?thesis by simp
  qed
qed


section \<open>Polling\<close>

definition carries :: "string \<Rightarrow> json \<Rightarrow> bool" where
  "carries body m \<longleftrightarrow> jget m ''Body'' = JStr (Txt body)"

text \<open>The queue returns nothing else than copies of one message; a receive call may also fail.\<close>

definition redelivers :: "string \<Rightarrow> ('w \<Rightarrow> json result \<times> 'w) \<Rightarrow> bool" where
  "redelivers body receive \<longleftrightarrow> (\<forall>w response. fst (receive w) = Inr response \<longrightarrow> list_all (carries body) (messages_of response))"

lemma persist_command_iff_dispatch:
  assumes "parse_java_command W body = Inr c"
  shows "persist_command_body L W now body d = Inr ((), d') \<longleftrightarrow> (\<exists>r. dispatch_java_command L c now d [d] = Inr (r, d'))"
  using assms by (auto simp: persist_command_body_def result_simps)

lemma settled_persist:
  assumes "parse_java_command W body = Inr c" "settled_java L c d"
  shows "persist_command_body L W now body d = Inr ((), d)"
  using java_inbox.replays [OF assms(2)] persist_command_iff_dispatch [OF assms(1)] by blast

lemma consume_settled:
  assumes "parse_java_command W body = Inr c" "settled_java L c d" "list_all (carries body) ms"
  shows "fst (snd (consume (persist_command_body L W now) delete ms counts (d, w))) = d"
  using assms(3)
proof (induction ms arbitrary: counts w)
  case (Cons m ms)
  then show ?case using settled_persist [OF assms(1,2)]
    by (cases counts) (auto simp: carries_def split: option.splits sum.splits prod.splits)
qed simp

lemma consume_effect:
  assumes "parse_java_command W body = Inr c" "fresh_java c d" "list_all (carries body) ms"
  shows "case consume (persist_command_body L W now) delete ms counts (d, w) of (out, d', w') \<Rightarrow>
    (d' = d \<and> w' = w \<and> (\<forall>a f. out = Inr (a, f) \<longrightarrow> a = fst counts)) \<or> (\<exists>r. dispatch_java_command L c now d [d] = Inr (r, d'))"
  using assms(3)
proof (induction ms arbitrary: counts w)
  case Nil
  then show ?case by (cases counts) simp
next
  case (Cons m ms)
  let ?P = "persist_command_body L W now"
  obtain a f where counts: "counts = (a, f)" by fastforce
  from Cons.prems have b: "jget m ''Body'' = JStr (Txt body)" and ms: "list_all (carries body) ms" by (simp add: carries_def, simp)
  show ?case
  proof (cases "\<exists>h x. json_text_of (jget m ''ReceiptHandle'') = Some h \<and> ?P body d = Inr x")
    case True
    then obtain h d1 where h: "json_text_of (jget m ''ReceiptHandle'') = Some h" "?P body d = Inr ((), d1)" by auto
    then obtain r where r: "dispatch_java_command L c now d [d] = Inr (r, d1)" using persist_command_iff_dispatch [OF assms(1)] by blast
    then have "settled_java L c d1" using java_inbox.settles [OF assms(2)] by blast
    note rest = consume_settled [OF assms(1) this ms]
    obtain del w1 where del: "delete h w = (del, w1)" by fastforce
    obtain out d2 w2 where c: "consume ?P delete ms (a + 1, f) (d1, w1) = (out, d2, w2)" by (metis prod_cases3)
    then have "d2 = d1" using rest [of now delete "(a + 1, f)" w1] by simp
    with r h b del c show ?thesis by (cases del) (auto simp: counts)
  next
    case False
    then have "consume ?P delete (m # ms) counts (d, w) = consume ?P delete ms (a, f + 1) (d, w)"
      using b by (auto simp: counts split: option.splits sum.splits)
    with Cons.IH [OF ms, where counts = "(a, f + 1)" and w = w] show ?thesis by (simp add: counts)
  qed
qed


lemma poll_effect:
  assumes "parse_java_command W body = Inr c" "redelivers body receive"
    and "poll_once receive delete (persist_command_body L W now) (d, w) = (out, d', w')"
  shows "settled_java L c d \<Longrightarrow> d' = d"
    and "fresh_java c d \<Longrightarrow> (d' = d \<and> w' = snd (receive w) \<and> (\<forall>res. out = Inr res \<longrightarrow> ip_acknowledged res = 0)) \<or> (\<exists>r. dispatch_java_command L c now d [d] = Inr (r, d'))"
proof -
  obtain x w1 where x: "receive w = (x, w1)" by fastforce
  have ms: "list_all (carries body) (messages_of response)" if "x = Inr response" for response
    using assms(2) x that by (metis fst_conv redelivers_def)
  show "d' = d" if "settled_java L c d"
  proof (cases x)
    case (Inl e)
    with assms(3) x show ?thesis by (auto simp: poll_once_def)
  next
    case (Inr response)
    from consume_settled [OF assms(1) that ms [OF Inr], of now delete "(0, 0)" w1] assms(3) x Inr show ?thesis
      by (auto simp: poll_once_def split: sum.splits prod.splits)
  qed
  show "(d' = d \<and> w' = snd (receive w) \<and> (\<forall>res. out = Inr res \<longrightarrow> ip_acknowledged res = 0)) \<or> (\<exists>r. dispatch_java_command L c now d [d] = Inr (r, d'))" if fr: "fresh_java c d"
  proof (cases x)
    case (Inl e)
    with assms(3) x show ?thesis by (auto simp: poll_once_def)
  next
    case (Inr response)
    from consume_effect [OF assms(1) fr ms [OF Inr], where counts = "(0, 0)" and w = w1 and L = L and now = now and delete = delete] assms(3) x Inr show ?thesis
      by (auto simp: poll_once_def split: sum.splits prod.splits)
  qed
qed

text \<open>C22. At-least-once delivery of a command has the effect of at most one execution, and no message of it is deleted before that effect is
  durable. Whatever copies of the message the queue returns in whatever rounds, whether receive and delete calls succeed or raise,
  whatever a delete call does to the queue and whatever the clock shows: after any number of rounds either the database is untouched and
  nothing but the receive calls has happened to the queue, so that not one message was deleted, or the database is the one that a single
  execution of the command's handler committed; and a poll that acknowledges the command leaves it settled.\<close>

theorem commands_effectively_once:
  assumes "parse_java_command W body = Inr c" "fresh_java c d" "redelivers body receive"
  shows "(case run_rounds receive delete (persist_command_body L W) clock n (d, w) of (d', w') \<Rightarrow>
       (d' = d \<and> w' = ((\<lambda>w. snd (receive w)) ^^ n) w) \<or> (\<exists>k < n. \<exists>r. dispatch_java_command L c (clock k) d [d] = Inr (r, d')))
    \<and> (\<forall>res s. poll_once receive delete (persist_command_body L W (clock n))
          (run_rounds receive delete (persist_command_body L W) clock n (d, w)) = (Inr res, s) \<and> 0 < ip_acknowledged res
        \<longrightarrow> settled_java L c (fst s))"
proof -
  let ?s = "\<lambda>n. run_rounds receive delete (persist_command_body L W) clock n (d, w)"
  let ?untouched = "\<lambda>n. ?s n = (d, ((\<lambda>w. snd (receive w)) ^^ n) w)"
  have inv: "?untouched n \<or> (\<exists>k < n. \<exists>r. dispatch_java_command L c (clock k) d [d] = Inr (r, fst (?s n)))" for n
  proof (induction n)
    case (Suc n)
    obtain x v where s: "?s n = (x, v)" by fastforce
    obtain out x' v' where p: "poll_once receive delete (persist_command_body L W (clock n)) (x, v) = (out, x', v')" by (metis prod_cases3)
    note e = poll_effect [OF assms(1,3) p]
    have n: "?s (Suc n) = (x', v')" by (simp add: s p)
    show ?case
    proof (cases "?untouched n")
      case True
      with s have x: "x = d" "v = ((\<lambda>w. snd (receive w)) ^^ n) w" by simp_all
      with e(2) assms(2) have "x' = d \<and> v' = snd (receive v) \<or> (\<exists>r. dispatch_java_command L c (clock n) d [d] = Inr (r, x'))" by blast
      with n x show ?thesis by auto
    next
      case False
      with Suc s obtain k r where k: "k < n" "dispatch_java_command L c (clock k) d [d] = Inr (r, x)" by auto
      then have "settled_java L c x" using java_inbox.settles [OF assms(2)] by blast
      with e(1) n k show ?thesis by (metis fst_conv less_Suc_eq)
    qed
  qed simp
  have "settled_java L c (fst s)" if p: "poll_once receive delete (persist_command_body L W (clock n)) (?s n) = (Inr res, s)" "0 < ip_acknowledged res" for res s
  proof -
    obtain x v x' v' where s: "?s n = (x, v)" "s = (x', v')" by fastforce
    note e = poll_effect [OF assms(1,3) p(1) [unfolded s]]
    show ?thesis
    proof (cases "?untouched n")
      case True
      with s have "x = d" by simp
      with e(2) assms(2) p(2) obtain r where "dispatch_java_command L c (clock n) d [d] = Inr (r, x')" by fastforce
      with s show ?thesis using java_inbox.settles [OF assms(2)] by auto
    next
      case False
      with inv [of n] s obtain k r where "dispatch_java_command L c (clock k) d [d] = Inr (r, x)" by auto
      then have "settled_java L c x" using java_inbox.settles [OF assms(2)] by blast
      with e(1) s show ?thesis by simp
    qed
  qed
  with inv [of n] show ?thesis by (auto split: prod.split)
qed


section \<open>The property at a concrete queue\<close>

text \<open>A queue that returns the message for ever; its state counts the delete calls, which all time out.\<close>

definition sample_receive :: "nat \<Rightarrow> json result \<times> nat" where
  "sample_receive w = (Inr (JObj [(''Messages'', JList [JObj [(''Body'', JStr (Txt ''body'')), (''ReceiptHandle'', JStr (Txt ''h''))]])]), w)"

definition sample_ack :: "string \<Rightarrow> nat \<Rightarrow> unit result \<times> nat" where
  "sample_ack h w = (Inl (RuntimeError ''timeout''), w + 1)"

lemma sample_receive_state: "(\<lambda>w. snd (sample_receive w)) ^^ n = id"
  by (induction n) (auto simp: sample_receive_def)

theorem commands_effectively_once_witness:
  "case run_rounds sample_receive sample_ack (persist_command_body sample_stdlib sample_wire) int 3 (sample_db [], 0) of (d', deletes) \<Rightarrow>
     d' = sample_db [] \<and> deletes = 0
     \<or> (\<exists>k < 3. \<exists>r. dispatch_java_command sample_stdlib (NodeDelete sample_wire_delete) (int k) (sample_db []) [sample_db []] = Inr (r, d'))"
proof -
  have f: "fresh_java (NodeDelete sample_wire_delete) (sample_db [])"
    by (simp add: fresh_delete_def command_rows_def sample_db_def empty_db_def)
  have q: "redelivers ''body'' sample_receive"
    by (auto simp: redelivers_def sample_receive_def messages_of_def carries_def)
  from conjunct1 [OF commands_effectively_once [OF sample_wire_parsed f q, where L = sample_stdlib and clock = int and n = 3 and delete = sample_ack and w = 0]]
  show ?thesis by (simp only: sample_receive_state id_apply)
qed

end
