(* ===== verification/Spec2Isabelle.thy ===== *)
theory Spec2Isabelle
  imports Publish_Safety Analysis_Jobs Coordinator Input_Consumers
begin

text \<open>
  Verification of the data pipeline (\<open>src/data-pipeline/data_pipeline\<close>, Python).

  \<^bold>\<open>The program.\<close> The pipeline turns recorded meetings into a graph of Decisions, Actions and Issues per project. A Java backend sends
  commands (analyse a meeting, update or delete nodes) and a recording service reports finished recordings; both arrive over queues. A
  coordinator joins a command with its recording and runs two tasks, the graph and the summary. The automatic graph asks a language
  model whether each new item is new, belongs to an existing node or is the same as one, and publishes the result in one transaction.
  Users and commands edit the published graph. Every change bumps the version of the project's graph and stages events in an outbox,
  which a relay publishes with at-least-once delivery.

  \<^bold>\<open>The model.\<close> The tables are one record \<open>db\<close> whose fields are lists of rows (theory \<open>Storage_Models\<close>). A transaction is a function from
  a database to a \<open>result\<close>: \<open>Inl e\<close> is the exception that rolls everything back, \<open>Inr\<close> holds the value and the committed database. Code
  that runs several transactions returns the outcome and the database it leaves. Row locks make the transactions serial, so
  interleavings are sequences of transactions; where the code retries after a unique constraint was violated by a concurrent winner,
  the databases that the winners left are a list argument. The clock is an argument \<open>now\<close> (microseconds), \<open>uuid4\<close> a counter of the
  database, a float an integer number of 2 to the power of -1074 (\<open>py_float\<close>). Third-party code is an argument: \<open>stdlib\<close> (text of JSON and identifiers,
  SHA-256, environment), \<open>wire_lib\<close> (json.loads, fromisoformat), \<open>graph_env\<close> (embedding and B-model clients, pgvector, float arithmetic,
  re.sub), and the queue, S3 and SQS clients.

  \<^bold>\<open>Theories and sources.\<close>
    \<^item> \<open>Pipeline_Prelude\<close>: identifiers, JSON, errors, \<open>rbind\<close> and \<open>rguard\<close>, row lookups and their lemmas, the collections of simp rules.
    \<^item> \<open>Contract_Enums\<close>: \<open>contracts/enums.py\<close>. \<open>Storage_Models\<close>: \<open>storage/models.py\<close>, rows and CHECK constraints.
    \<^item> \<open>Revisions\<close>: \<open>pipeline/revisions.py\<close>, \<open>storage/evidence.py\<close>, \<open>retrieval/embedding.py\<close>: immutable revisions, evidence, embeddings.
    \<^item> \<open>Event_Contract\<close>: \<open>pipeline/event_contract.py\<close>: outbox rows, the graph version, the completion barrier of a meeting.
    \<^item> \<open>Graph_Merge\<close>: \<open>pipeline/graph.py\<close>: canonical nodes, logical merges, their dependencies and their undoing.
    \<^item> \<open>Snapshot_Events\<close>: \<open>meeting_analysis/snapshot.py\<close>, \<open>result_events.py\<close>: deterministic snapshots and the events of version 3.
    \<^item> \<open>Command_Inbox\<close>: the locale of idempotent command processing, interpreted for the intake, the dispatcher and the handlers.
    \<^item> \<open>Node_Deletes\<close>, \<open>Node_Updates\<close>: \<open>meeting_analysis/node_deletes.py\<close>, \<open>node_updates.py\<close>: the handlers of the Java commands.
    \<^item> \<open>User_Graph\<close>: \<open>pipeline/user_graph.py\<close>: creating, editing, deleting and merging by users.
    \<^item> \<open>Retrieval\<close>: \<open>retrieval/search.py\<close>, \<open>b_model/failures.py\<close>, the decision contract of \<open>contracts/dto.py\<close>.
    \<^item> \<open>Generation_Run\<close>, \<open>Graph_Plan\<close>, \<open>Graph_Publish\<close>: \<open>pipeline/automatic_graph.py\<close>: the run, the plan, the publication.
    \<^item> \<open>Publish_Invariant\<close>, \<open>Publish_Safety\<close>: what every step of the publication keeps, and the theorems about a whole publication.
    \<^item> \<open>Claim_Queue\<close>, \<open>Outbox_Relay\<close>, \<open>Analysis_Jobs\<close>: \<open>jobs/claiming.py\<close>, \<open>jobs/outbox.py\<close>, \<open>outbox_publisher/runner.py\<close>,
      \<open>jobs/analysis_jobs.py\<close>, \<open>analysis_worker/runner.py\<close>: rows claimed by workers with a timeout and an exponential backoff. The locale of
      claimed rows in \<open>Claim_Queue\<close> is interpreted for the outbox, the analysis jobs and the tasks of the coordinator.
    \<^item> \<open>Command_Wire\<close>, \<open>Openvidu_Events\<close>: \<open>meeting_analysis/contracts.py\<close>, \<open>worker/openvidu_events.py\<close>: the parsers.
    \<^item> \<open>Command_Join\<close>, \<open>Coordinator\<close>, \<open>Input_Consumers\<close>: \<open>meeting_analysis/persistence.py\<close>, \<open>coordinator.py\<close>, \<open>dispatcher.py\<close>,
      \<open>consumers.py\<close>: intake, the join of command and recording, the tasks, the polling loops.

  \<^bold>\<open>What is shown.\<close>
    \<^item> Invariants: unique keys, the chains of merges, the log of merge operations, the version protocol, the tables of claimed rows and
      the histories of outbox events, jobs and tasks, by induction over sequences of transactions.
    \<^item> Functional correctness on every branch: revisions, deletions with the exact closure of what hangs on a node, edits, batch edits,
      the coordinator's run, the plan of the automatic graph. Rejections and infrastructure failures change no node.
    \<^item> Refinement and equivalence: a merge against its effect on representatives, queue processing against handling every command once,
      loops over the graph against reachability, the order independence of the join and of the completion barrier.
    \<^item> Round trips: parsing what the Java side prints, replaying a command or a publication, merging and undoing.
    \<^item> Liveness and bounds: the outbox drains, a due job is claimed, the backoff grows to its cap.
    \<^item> Safety of the automatic graph: nothing is merged without every gate having passed, every candidate is accounted for, a
      publication leaves the existing graph in place and gives every new node a place that the rules allow.

  \<^bold>\<open>Bounds and termination.\<close> Resolving a merge chain stops after 128 hops, the limit of the code (\<open>MAX_CANONICAL_HOPS\<close>); the functions over
  the graph (closure, subtree, ancestors) terminate by measures on the nodes not yet visited; retries consume the list of concurrent
  winners. No function needs fuel beyond these.

  \<^bold>\<open>Not modelled.\<close> Calls of language models, embeddings, storage and queues (parameters, or whole modules that only wrap them:
  \<open>llm\<close>, \<open>prompts\<close>, \<open>stt\<close>, \<open>b_model/gms.py\<close>, \<open>embedding_client.py\<close>, the upload worker, the summary); the prompt chain that extracts
  candidates from a transcript with the validation and normalization of its text (\<open>chain.py\<close>, \<open>service.py\<close>, \<open>validation\<close>,
  \<open>normalization\<close>); the manual review flow that the automatic graph replaced (\<open>review.py\<close>, \<open>confirmation.py\<close>, \<open>recommendation.py\<close>,
  \<open>analysis.py\<close>); HTTP routing, configuration, migrations and command line tools; endless loops around the modelled turns; the Java and
  TypeScript programs of the repository.
\<close>

end
